(* ===== verification/Prelude.thy ===== *)
theory Prelude
  imports Main "HOL-Library.AList" "HOL-Library.Sublist" "HOL-Library.List_Lexorder"
    "HOL-Library.Char_ord" "HOL-Library.Code_Target_Nat"
begin

text \<open>
  Vocabulary shared by every component. Exceptions are values of a sum type: \<open>Inl\<close> carries the
  exception, \<open>Inr\<close> the result; \<open>bindE\<close> runs one fallible step after another, \<open>mapE\<close> and \<open>foldE\<close>
  run a fallible step over a list and stop at the first exception, as a Python loop does.
  \<open>raise_first\<close> is a sequence of guards \<open>if bad: raise err\<close>. Dictionaries whose order matters are
  association lists (\<open>AList.update\<close> keeps the position of an existing key, as a Python dict does);
  \<open>fromkeys\<close> is \<open>tuple(dict.fromkeys(xs))\<close>, \<open>group_by\<close> the \<open>setdefault(k, []).append(x)\<close> loop.
\<close>

named_theorems monad_simps "equations and inversion rules of the exception monad"

subsection \<open>Exceptions\<close>

definition bindE :: "'e + 'a \<Rightarrow> ('a \<Rightarrow> 'e + 'b) \<Rightarrow> 'e + 'b" where
  "bindE m f = (case m of Inl e \<Rightarrow> Inl e | Inr a \<Rightarrow> f a)"

definition mapR :: "('a \<Rightarrow> 'b) \<Rightarrow> 'e + 'a \<Rightarrow> 'e + 'b" where
  "mapR f m = (case m of Inl e \<Rightarrow> Inl e | Inr a \<Rightarrow> Inr (f a))"

fun mapE :: "('a \<Rightarrow> 'e + 'b) \<Rightarrow> 'a list \<Rightarrow> 'e + 'b list" where
  "mapE f [] = Inr []"
| "mapE f (x # xs) = bindE (f x) (\<lambda>y. bindE (mapE f xs) (\<lambda>ys. Inr (y # ys)))"

fun foldE :: "('s \<Rightarrow> 'a \<Rightarrow> 'e + 's) \<Rightarrow> 's \<Rightarrow> 'a list \<Rightarrow> 'e + 's" where
  "foldE f s [] = Inr s"
| "foldE f s (x # xs) = bindE (f s x) (\<lambda>s'. foldE f s' xs)"

fun raise_first :: "(bool \<times> 'e) list \<Rightarrow> 'e + unit" where
  "raise_first [] = Inr ()"
| "raise_first ((bad, e) # cs) = (if bad then Inl e else raise_first cs)"

definition guarded :: "(bool \<times> 'e) list \<Rightarrow> 'a \<Rightarrow> 'e + 'a" where
  "guarded cs a = bindE (raise_first cs) (\<lambda>_. Inr a)"

lemma bindE_simps [simp, monad_simps]:
  "bindE (Inl e) f = Inl e"
  "bindE (Inr a) f = f a"
  by (simp_all add: bindE_def)

lemma mapR_simps [simp, monad_simps]:
  "mapR f (Inl e) = Inl e"
  "mapR f (Inr a) = Inr (f a)"
  by (simp_all add: mapR_def)

lemma bindE_Inr_iff [monad_simps]: "bindE m f = Inr b \<longleftrightarrow> (\<exists>a. m = Inr a \<and> f a = Inr b)"
  by (cases m) auto

lemma mapR_Inr_iff [monad_simps]: "mapR f m = Inr b \<longleftrightarrow> (\<exists>a. m = Inr a \<and> b = f a)"
  by (cases m) auto

lemma mapR_Inl_iff [monad_simps]: "mapR f m = Inl e \<longleftrightarrow> m = Inl e"
  by (cases m) auto

lemma bindE_Inl_iff [monad_simps]:
  "bindE m f = Inl e \<longleftrightarrow> m = Inl e \<or> (\<exists>a. m = Inr a \<and> f a = Inl e)"
  by (cases m) auto

lemma bindE_assoc: "bindE (bindE m f) g = bindE m (\<lambda>a. bindE (f a) g)"
  by (cases m) auto

lemma raise_first_Inr_iff [monad_simps]:
  "raise_first cs = Inr u \<longleftrightarrow> (\<forall>(bad, e) \<in> set cs. \<not> bad)"
  by (induction cs rule: raise_first.induct) auto

lemma guarded_Inr_iff [monad_simps]:
  "guarded cs a = Inr b \<longleftrightarrow> a = b \<and> (\<forall>(bad, e) \<in> set cs. \<not> bad)"
  by (auto simp: guarded_def bindE_Inr_iff raise_first_Inr_iff)

lemma raise_first_append:
  "raise_first (cs @ ds) = bindE (raise_first cs) (\<lambda>_. raise_first ds)"
  by (induction cs rule: raise_first.induct) auto

lemma mapE_Inr_iff:
  "mapE f xs = Inr ys \<longleftrightarrow> list_all2 (\<lambda>x y. f x = Inr y) xs ys"
proof (induction xs arbitrary: ys)
  case Nil
  then show ?case by auto
next
  case (Cons x xs)
  then show ?case by (cases ys) (auto simp: bindE_Inr_iff)
qed

lemma mapE_length: "mapE f xs = Inr ys \<Longrightarrow> length ys = length xs"
  by (auto simp: mapE_Inr_iff dest: list_all2_lengthD)

lemma mapE_set: "mapE f xs = Inr ys \<Longrightarrow> y \<in> set ys \<Longrightarrow> \<exists>x \<in> set xs. f x = Inr y"
  by (induction xs arbitrary: ys) (auto simp: bindE_Inr_iff)

lemma mapE_all: "mapE f xs = Inr ys \<Longrightarrow> x \<in> set xs \<Longrightarrow> \<exists>y \<in> set ys. f x = Inr y"
proof (induction xs arbitrary: ys)
  case (Cons a xs)
  from Cons.prems(1) obtain b bs where "f a = Inr b" "mapE f xs = Inr bs" "ys = b # bs"
    by (auto simp: bindE_Inr_iff)
  with Cons.IH [of bs] Cons.prems(2) show ?case by auto
qed simp

lemma mapE_append:
  "mapE f (xs @ ys) = bindE (mapE f xs) (\<lambda>as. bindE (mapE f ys) (\<lambda>bs. Inr (as @ bs)))"
  by (induction xs) (simp_all add: bindE_assoc, cases "mapE f ys", simp_all)

lemma mapE_total: "(\<And>x. x \<in> set xs \<Longrightarrow> f x = Inr (g x)) \<Longrightarrow> mapE f xs = Inr (map g xs)"
  by (induction xs) auto

lemma foldE_invariant:
  assumes "foldE f s xs = Inr t" and "I s"
    and "\<And>s x t. x \<in> set xs \<Longrightarrow> I s \<Longrightarrow> f s x = Inr t \<Longrightarrow> I t"
  shows "I t"
  using assms
proof (induction xs arbitrary: s)
  case Nil
  then show ?case by simp
next
  case (Cons x xs)
  from Cons.prems(1) obtain s' where s': "f s x = Inr s'" and rest: "foldE f s' xs = Inr t"
    by (auto simp: bindE_Inr_iff)
  have "I s'" using Cons.prems(3) [of x s s'] Cons.prems(2) s' by simp
  with rest show ?case
    by (rule Cons.IH) (use Cons.prems(3) in auto)
qed

lemma foldE_append: "foldE f s (xs @ ys) = bindE (foldE f s xs) (\<lambda>s'. foldE f s' ys)"
  by (induction xs arbitrary: s) (simp_all add: bindE_assoc)

text \<open>
  The exceptions of \<open>audit_engine\<close>, \<open>generation\<close> and the library calls they make. All of them are
  subclasses of \<open>ValueError\<close> but \<open>RuntimeError\<close>, \<open>CrawlError\<close> and its subclasses, \<open>OSError\<close>,
  \<open>AssertionError\<close> and \<open>OtherError\<close>, which carries the name of a class outside the program;
  \<open>is_url_error\<close> is what \<open>except URLValidationError\<close> catches (\<open>SSRFBlockedError\<close> is its subclass).
\<close>

datatype exn =
    ValueError string
  | URLValidationError string
  | SSRFBlockedError string
  | ContractError string
  | RuntimeError string
  | CrawlError string
  | ResponseTooLarge string
  | UnsafeHTTPResponse string
  | OSError string
  | AssertionError string
  | OtherError string string

fun is_url_error :: "exn \<Rightarrow> bool" where
  "is_url_error (URLValidationError m) = True"
| "is_url_error (SSRFBlockedError m) = True"
| "is_url_error e = False"

fun is_value_error :: "exn \<Rightarrow> bool" where
  "is_value_error (RuntimeError m) = False"
| "is_value_error (CrawlError m) = False"
| "is_value_error (ResponseTooLarge m) = False"
| "is_value_error (UnsafeHTTPResponse m) = False"
| "is_value_error (OtherError name m) = False"
| "is_value_error (OSError m) = False"
| "is_value_error (AssertionError m) = False"
| "is_value_error e = True"

definition tryE :: "(exn \<Rightarrow> bool) \<Rightarrow> exn + 'a \<Rightarrow> (exn \<Rightarrow> exn + 'b) \<Rightarrow> ('a \<Rightarrow> exn + 'b) \<Rightarrow> exn + 'b" where
  "tryE catches m handler cont =
     (case m of Inr a \<Rightarrow> cont a | Inl e \<Rightarrow> if catches e then handler e else Inl e)"

lemma tryE_simps [simp, monad_simps]:
  "tryE p (Inr a) h k = k a"
  "tryE p (Inl e) h k = (if p e then h e else Inl e)"
  by (simp_all add: tryE_def)

lemma tryE_Inr_iff [monad_simps]:
  "tryE p m h k = Inr b \<longleftrightarrow>
     (\<exists>a. m = Inr a \<and> k a = Inr b) \<or> (\<exists>e. m = Inl e \<and> p e \<and> h e = Inr b)"
  by (cases m) auto

text \<open>Which exceptions a step can raise, with one rule per construct of the monad.\<close>

definition raises_only :: "('e \<Rightarrow> bool) \<Rightarrow> 'e + 'a \<Rightarrow> bool" where
  "raises_only P m \<longleftrightarrow> (case m of Inl e \<Rightarrow> P e | Inr a \<Rightarrow> True)"

named_theorems raises_intros "introduction rules for raises_only"

lemma raises_onlyD: "raises_only P m \<Longrightarrow> m = Inl e \<Longrightarrow> P e"
  by (simp add: raises_only_def)

lemma raises_onlyI: "(\<And>e. m = Inl e \<Longrightarrow> P e) \<Longrightarrow> raises_only P m"
  by (simp add: raises_only_def split: sum.splits)

lemma raises_Inr [raises_intros]: "raises_only P (Inr a)"
  by (simp add: raises_only_def)

lemma raises_Inl [raises_intros]: "P e \<Longrightarrow> raises_only P (Inl e)"
  by (simp add: raises_only_def)

lemma raises_bindE [raises_intros]:
  "raises_only P m \<Longrightarrow> (\<And>a. m = Inr a \<Longrightarrow> raises_only P (f a)) \<Longrightarrow> raises_only P (bindE m f)"
  by (cases m) (simp_all add: raises_only_def)

lemma raises_mapR [raises_intros]: "raises_only P m \<Longrightarrow> raises_only P (mapR f m)"
  by (cases m) (simp_all add: raises_only_def)

lemma raises_tryE [raises_intros]:
  "(\<And>e. m = Inl e \<Longrightarrow> \<not> catches e \<Longrightarrow> P e) \<Longrightarrow> (\<And>e. m = Inl e \<Longrightarrow> catches e \<Longrightarrow> raises_only P (h e)) \<Longrightarrow>
   (\<And>a. m = Inr a \<Longrightarrow> raises_only P (k a)) \<Longrightarrow> raises_only P (tryE catches m h k)"
  by (cases m) (simp_all add: raises_only_def)

lemma raises_if [raises_intros]:
  "(b \<Longrightarrow> raises_only P m) \<Longrightarrow> (\<not> b \<Longrightarrow> raises_only P n) \<Longrightarrow> raises_only P (if b then m else n)"
  by simp

lemma raises_option [raises_intros]:
  "(x = None \<Longrightarrow> raises_only P m) \<Longrightarrow> (\<And>a. x = Some a \<Longrightarrow> raises_only P (f a)) \<Longrightarrow>
   raises_only P (case x of None \<Rightarrow> m | Some a \<Rightarrow> f a)"
  by (cases x) simp_all

lemma raises_prod [raises_intros]:
  "(\<And>a b. x = (a, b) \<Longrightarrow> raises_only P (f a b)) \<Longrightarrow> raises_only P (case x of (a, b) \<Rightarrow> f a b)"
  by (cases x) simp

lemma raises_Let [raises_intros]: "raises_only P (f x) \<Longrightarrow> raises_only P (Let x f)"
  by simp

lemma raises_mapE [raises_intros]:
  "(\<And>x. x \<in> set xs \<Longrightarrow> raises_only P (f x)) \<Longrightarrow> raises_only P (mapE f xs)"
proof (induction xs)
  case Nil
  then show ?case by (simp add: raises_Inr)
next
  case (Cons x xs)
  then show ?case by (auto intro!: raises_bindE raises_Inr)
qed

lemma raises_raise_first [raises_intros]:
  "(\<And>b e. (b, e) \<in> set cs \<Longrightarrow> P e) \<Longrightarrow> raises_only P (raise_first cs)"
proof (induction cs rule: raise_first.induct)
  case 1
  then show ?case by (simp add: raises_Inr)
next
  case (2 bad e cs)
  have "P e" using 2(2) [of bad e] by simp
  moreover have "raises_only P (raise_first cs)" if "\<not> bad"
    by (rule 2(1) [OF that]) (use 2(2) in auto)
  ultimately show ?case by (simp add: raises_only_def)
qed

subsection \<open>Optional values\<close>

fun opt_any :: "('a \<Rightarrow> bool) \<Rightarrow> 'a option \<Rightarrow> bool" where
  "opt_any p None = False"
| "opt_any p (Some x) = p x"

definition opt_or :: "'a \<Rightarrow> 'a option \<Rightarrow> 'a" where
  "opt_or d m = (case m of None \<Rightarrow> d | Some x \<Rightarrow> x)"

lemma opt_any_iff: "opt_any p m \<longleftrightarrow> (\<exists>x. m = Some x \<and> p x)"
  by (cases m) auto

lemma opt_or_simps [simp]:
  "opt_or d None = d"
  "opt_or d (Some x) = x"
  by (simp_all add: opt_or_def)

subsection \<open>Lists as Python sequences and dictionaries\<close>

fun fromkeys_from :: "'a list \<Rightarrow> 'a list \<Rightarrow> 'a list" where
  "fromkeys_from seen [] = []"
| "fromkeys_from seen (x # xs) =
     (if x \<in> set seen then fromkeys_from seen xs else x # fromkeys_from (x # seen) xs)"

definition fromkeys :: "'a list \<Rightarrow> 'a list" where
  "fromkeys xs = fromkeys_from [] xs"

lemma set_fromkeys_from: "set (fromkeys_from seen xs) = set xs - set seen"
  by (induction seen xs rule: fromkeys_from.induct) auto

lemma distinct_fromkeys_from: "distinct (fromkeys_from seen xs)"
  by (induction seen xs rule: fromkeys_from.induct) (auto simp: set_fromkeys_from)

lemma length_fromkeys_from: "length (fromkeys_from seen xs) \<le> length xs"
  by (induction seen xs rule: fromkeys_from.induct) auto

lemma fromkeys_from_distinct:
  "distinct xs \<Longrightarrow> set xs \<inter> set seen = {} \<Longrightarrow> fromkeys_from seen xs = xs"
  by (induction seen xs rule: fromkeys_from.induct) auto

lemma set_fromkeys [simp]: "set (fromkeys xs) = set xs"
  by (simp add: fromkeys_def set_fromkeys_from)

lemma distinct_fromkeys [simp]: "distinct (fromkeys xs)"
  by (simp add: fromkeys_def distinct_fromkeys_from)

lemma length_fromkeys: "length (fromkeys xs) \<le> length xs"
  by (simp add: fromkeys_def length_fromkeys_from)

lemma fromkeys_idem [simp]: "fromkeys (fromkeys xs) = fromkeys xs"
  by (simp add: fromkeys_def fromkeys_from_distinct distinct_fromkeys_from)

lemma fromkeys_Nil_iff [simp]: "fromkeys xs = [] \<longleftrightarrow> xs = []"
  by (metis set_empty set_fromkeys)

definition group_by :: "('a \<Rightarrow> 'k) \<Rightarrow> 'a list \<Rightarrow> ('k \<times> 'a list) list" where
  "group_by key xs = foldl (\<lambda>g x. AList.map_default (key x) [x] (\<lambda>ys. ys @ [x]) g) [] xs"

definition sorted_set :: "('a::linorder) list \<Rightarrow> 'a list" where
  "sorted_set xs = sort (remdups xs)"

lemma set_sorted_set [simp]: "set (sorted_set xs) = set xs"
  by (simp add: sorted_set_def)

lemma sorted_sorted_set [simp]: "sorted (sorted_set xs)" "distinct (sorted_set xs)"
  by (simp_all add: sorted_set_def)

lemma map_of_map_default:
  "map_of (AList.map_default k v f xs) =
     (map_of xs)(k \<mapsto> (case map_of xs k of None \<Rightarrow> v | Some w \<Rightarrow> f w))"
  by (induction xs) (auto simp: fun_eq_iff)

lemma distinct_keys_map_default:
  "distinct (map fst xs) \<Longrightarrow> distinct (map fst (AList.map_default k v f xs))"
  by (induction xs) (auto simp: dom_map_default image_iff)

lemma group_by_snoc:
  "group_by key (xs @ [x]) = AList.map_default (key x) [x] (\<lambda>ys. ys @ [x]) (group_by key xs)"
  by (simp add: group_by_def)

lemma distinct_group_by: "distinct (map fst (group_by key xs))"
  by (induction xs rule: rev_induct)
    (simp_all add: group_by_snoc distinct_keys_map_default, simp add: group_by_def)

lemma map_of_group_by:
  "map_of (group_by key xs) k =
     (if k \<in> key ` set xs then Some (filter (\<lambda>x. key x = k) xs) else None)"
proof (induction xs rule: rev_induct)
  case Nil
  then show ?case by (simp add: group_by_def)
next
  case (snoc x xs)
  then show ?case
    by (auto simp: group_by_snoc map_of_map_default filter_empty_conv image_iff) metis
qed

lemma group_by_entry:
  "(k, ys) \<in> set (group_by key xs) \<longleftrightarrow> k \<in> key ` set xs \<and> ys = filter (\<lambda>x. key x = k) xs"
proof -
  have "(k, ys) \<in> set (group_by key xs) \<longleftrightarrow> map_of (group_by key xs) k = Some ys"
    by (simp add: distinct_group_by)
  then show ?thesis by (auto simp: map_of_group_by split: if_splits)
qed

lemma dict_update_lookup: "map_of (AList.update k v d) k' = (if k' = k then Some v else map_of d k')"
  by (simp add: update_conv')

end
