(* ===== verification/Py_Text.thy ===== *)
theory Py_Text
  imports Prelude
begin

text \<open>
  The Python \<open>str\<close> operations the program uses, on \<^typ>\<open>string\<close>. Text is ASCII: on ASCII
  text \<open>casefold\<close>, \<open>lower\<close>, \<open>strip\<close>, \<open>split\<close> and \<open>isdigit\<close> are the functions below, and
  \<open>length\<close> counts what Python's \<open>len\<close> counts. Comparison of strings is the lexicographic order
  of the library (\<open>List_Lexorder\<close> over \<open>Char_ord\<close>), which is Python's order of code points.
\<close>

abbreviation code :: "char \<Rightarrow> nat" where
  "code c \<equiv> of_char c"

subsection \<open>Characters\<close>

definition ws_char :: "char \<Rightarrow> bool" where
  "ws_char c \<longleftrightarrow> 9 \<le> code c \<and> code c \<le> 13 \<or> 28 \<le> code c \<and> code c \<le> 32"

definition digit_char :: "char \<Rightarrow> bool" where
  "digit_char c \<longleftrightarrow> 48 \<le> code c \<and> code c \<le> 57"

definition upper_char :: "char \<Rightarrow> bool" where
  "upper_char c \<longleftrightarrow> 65 \<le> code c \<and> code c \<le> 90"

definition lower_char :: "char \<Rightarrow> bool" where
  "lower_char c \<longleftrightarrow> 97 \<le> code c \<and> code c \<le> 122"

definition alpha_char :: "char \<Rightarrow> bool" where
  "alpha_char c \<longleftrightarrow> upper_char c \<or> lower_char c"

definition alnum_char :: "char \<Rightarrow> bool" where
  "alnum_char c \<longleftrightarrow> alpha_char c \<or> digit_char c"

definition hex_char :: "char \<Rightarrow> bool" where
  "hex_char c \<longleftrightarrow> digit_char c \<or> 65 \<le> code c \<and> code c \<le> 70 \<or> 97 \<le> code c \<and> code c \<le> 102"

definition to_lower :: "char \<Rightarrow> char" where
  "to_lower c = (if upper_char c then char_of (code c + 32) else c)"

definition to_upper :: "char \<Rightarrow> char" where
  "to_upper c = (if lower_char c then char_of (code c - 32) else c)"

definition casefold :: "string \<Rightarrow> string" where
  "casefold s = map to_lower s"

lemma code_char_of: "n < 256 \<Longrightarrow> code (char_of n) = n"
  by simp

lemma to_lower_idem [simp]: "to_lower (to_lower c) = to_lower c"
  by (simp add: to_lower_def upper_char_def)

lemma not_upper_to_lower [simp]: "\<not> upper_char (to_lower c)"
  by (simp add: to_lower_def upper_char_def)

lemma casefold_idem [simp]: "casefold (casefold s) = casefold s"
  by (simp add: casefold_def)

lemma length_casefold [simp]: "length (casefold s) = length s"
  by (simp add: casefold_def)

lemma casefold_append [simp]: "casefold (s @ t) = casefold s @ casefold t"
  by (simp add: casefold_def)

lemma casefold_Nil_iff [simp]: "casefold s = [] \<longleftrightarrow> s = []"
  by (simp add: casefold_def)

subsection \<open>Stripping and splitting\<close>

definition lstrip_of :: "(char \<Rightarrow> bool) \<Rightarrow> string \<Rightarrow> string" where
  "lstrip_of p s = dropWhile p s"

definition rstrip_of :: "(char \<Rightarrow> bool) \<Rightarrow> string \<Rightarrow> string" where
  "rstrip_of p s = rev (dropWhile p (rev s))"

definition strip :: "string \<Rightarrow> string" where
  "strip s = rstrip_of ws_char (lstrip_of ws_char s)"

fun split_by :: "(char \<Rightarrow> bool) \<Rightarrow> string \<Rightarrow> string list" where
  "split_by p [] = [[]]"
| "split_by p (c # cs) =
     (if p c then [] # split_by p cs
      else (case split_by p cs of [] \<Rightarrow> [[c]] | w # ws \<Rightarrow> (c # w) # ws))"

abbreviation split_on :: "char \<Rightarrow> string \<Rightarrow> string list" where
  "split_on c \<equiv> split_by (\<lambda>x. x = c)"

definition split_ws :: "string \<Rightarrow> string list" where
  "split_ws s = filter (\<lambda>w. w \<noteq> []) (split_by ws_char s)"

fun join :: "string \<Rightarrow> string list \<Rightarrow> string" where
  "join sep [] = []"
| "join sep [w] = w"
| "join sep (w # v # ws) = w @ sep @ join sep (v # ws)"

definition partition_on :: "char \<Rightarrow> string \<Rightarrow> string \<times> bool \<times> string" where
  "partition_on c s = (takeWhile (\<lambda>x. x \<noteq> c) s, c \<in> set s, drop 1 (dropWhile (\<lambda>x. x \<noteq> c) s))"

definition rpartition_on :: "char \<Rightarrow> string \<Rightarrow> string \<times> bool \<times> string" where
  "rpartition_on c s =
     (if c \<in> set s
      then (rev (drop 1 (dropWhile (\<lambda>x. x \<noteq> c) (rev s))), True, rev (takeWhile (\<lambda>x. x \<noteq> c) (rev s)))
      else ([], False, s))"

definition contains :: "string \<Rightarrow> string \<Rightarrow> bool" where
  "contains needle s \<longleftrightarrow> sublist needle s"

definition squash :: "string \<Rightarrow> string" where
  "squash s = join '' '' (split_ws s)"

lemma split_by_nonempty [simp]: "split_by p s \<noteq> []"
  by (induction s) (auto split: list.splits)

lemma split_by_no_sep: "\<forall>w \<in> set (split_by p s). \<forall>c \<in> set w. \<not> p c"
  by (induction s) (auto split: list.splits)

lemma split_on_join: "join [c] (split_on c s) = s"
proof (induction s)
  case Nil
  then show ?case by simp
next
  case (Cons x xs)
  then show ?case by (cases "split_on c xs") (auto split: list.splits, (case_tac list; simp)+)
qed

lemma set_lstrip_of: "set (lstrip_of p s) \<subseteq> set s"
  by (auto simp: lstrip_of_def dest: set_dropWhileD)

lemma set_rstrip_of: "set (rstrip_of p s) \<subseteq> set s"
  by (auto simp: rstrip_of_def dest: set_dropWhileD)

lemma set_strip: "set (strip s) \<subseteq> set s"
  using set_lstrip_of [of ws_char s] set_rstrip_of [of ws_char "lstrip_of ws_char s"]
  by (auto simp: strip_def)

lemma length_strip: "length (strip s) \<le> length s"
proof -
  have "length (dropWhile p t) \<le> length t" for p and t :: string
    by (rule length_dropWhile_le)
  then have "length (rstrip_of ws_char t) \<le> length t" for t
    by (metis length_rev rstrip_of_def)
  then show ?thesis
    unfolding strip_def lstrip_of_def by (meson length_dropWhile_le order_trans)
qed

lemma strip_Nil [simp]: "strip [] = []"
  by (simp add: strip_def lstrip_of_def rstrip_of_def)

lemma hd_strip: "strip s \<noteq> [] \<Longrightarrow> \<not> ws_char (hd (strip s))"
proof -
  assume ne: "strip s \<noteq> []"
  let ?t = "dropWhile ws_char s"
  have "?t \<noteq> []"
  proof
    assume "?t = []"
    then show False using ne by (simp only: strip_def lstrip_of_def rstrip_of_def) simp
  qed
  then obtain c cs where t: "?t = c # cs" and c: "\<not> ws_char c"
    by (metis hd_dropWhile list.exhaust_sel)
  have "rstrip_of ws_char (c # cs) = c # rstrip_of ws_char cs"
    using c by (induction cs rule: rev_induct) (auto simp: rstrip_of_def)
  with t c show ?thesis by (simp add: strip_def lstrip_of_def)
qed

lemma strip_strip [simp]: "strip (strip s) = strip s"
proof -
  have drop_id: "dropWhile ws_char t = t" if "t = [] \<or> \<not> ws_char (hd t)" for t
    using that by (cases t) auto
  have "dropWhile ws_char (strip s) = strip s"
    using hd_strip [of s] by (intro drop_id) auto
  moreover have "rstrip_of ws_char (strip s) = strip s"
    by (simp add: strip_def rstrip_of_def dropWhile_idem)
  ultimately show ?thesis by (metis lstrip_of_def strip_def)
qed

subsection \<open>Numbers as text\<close>

fun str_of_nat :: "nat \<Rightarrow> string" where
  "str_of_nat n =
     (if n < 10 then [char_of (48 + n)] else str_of_nat (n div 10) @ [char_of (48 + n mod 10)])"

declare str_of_nat.simps [simp del]

definition str_of_int :: "int \<Rightarrow> string" where
  "str_of_int i = (if i < 0 then ''-'' @ str_of_nat (nat (- i)) else str_of_nat (nat i))"

definition nat_of_digits :: "string \<Rightarrow> nat" where
  "nat_of_digits s = foldl (\<lambda>a c. 10 * a + (code c - 48)) 0 s"

definition is_digits :: "string \<Rightarrow> bool" where
  "is_digits s \<longleftrightarrow> s \<noteq> [] \<and> list_all digit_char s"

lemma nat_of_str_of_nat [simp]: "nat_of_digits (str_of_nat n) = n"
proof (induction n rule: str_of_nat.induct)
  case (1 n)
  show ?case
  proof (cases "n < 10")
    case True
    then show ?thesis by (subst str_of_nat.simps) (simp add: nat_of_digits_def)
  next
    case False
    with 1 have IH: "nat_of_digits (str_of_nat (n div 10)) = n div 10" by simp
    have "48 + n mod 10 < 256" by (rule order_less_trans [of _ 58]) auto
    with False IH show ?thesis
      by (subst str_of_nat.simps) (simp add: nat_of_digits_def)
  qed
qed

lemma is_digits_str_of_nat [simp]: "is_digits (str_of_nat n)"
proof (induction n rule: str_of_nat.induct)
  case (1 n)
  have "48 + m mod 10 < 256" for m :: nat by (rule order_less_trans [of _ 58]) auto
  moreover have "m mod 10 \<le> 9" for m :: nat by (simp add: less_Suc_eq_le [symmetric])
  ultimately show ?case
    using 1 by (subst str_of_nat.simps) (auto simp: is_digits_def digit_char_def)
qed

lemma str_of_nat_inj: "str_of_nat m = str_of_nat n \<longleftrightarrow> m = n"
  by (metis nat_of_str_of_nat)

text \<open>Digit groups of three, the \<open>:,\<close> format.\<close>

fun group3 :: "string \<Rightarrow> string" where
  "group3 (a # b # c # d # ds) = a # b # c # CHR '','' # group3 (d # ds)"
| "group3 ds = ds"

definition str_thousands :: "nat \<Rightarrow> string" where
  "str_thousands n = rev (group3 (rev (str_of_nat n)))"

subsection \<open>Hexadecimal\<close>

definition hex_value :: "char \<Rightarrow> nat" where
  "hex_value c =
     (if digit_char c then code c - 48 else if code c \<le> 70 then code c - 55 else code c - 87)"

definition hex_digit :: "nat \<Rightarrow> char" where
  "hex_digit n = (if n < 10 then char_of (48 + n) else char_of (55 + n))"

definition percent_byte :: "nat \<Rightarrow> string" where
  "percent_byte b = [CHR ''%'', hex_digit (b div 16), hex_digit (b mod 16)]"

lemma hex_value_bound: "hex_char c \<Longrightarrow> hex_value c < 16"
  by (auto simp: hex_char_def hex_value_def digit_char_def)

lemma hex_digit_roundtrip:
  assumes "n < 16"
  shows "hex_char (hex_digit n)" and "hex_value (hex_digit n) = n"
  using assms by (auto simp: hex_char_def hex_value_def hex_digit_def digit_char_def)

end
