(* ===== verification/Py_Float.thy ===== *)
theory Py_Float
  imports Py_Text "HOL-Library.Log_Nat" Complex_Main
begin

text \<open>
  Python floats. A finite binary64 value is the rational number it denotes and every arithmetic
  operation is the exact operation followed by \<open>fl\<close>, the IEEE-754 rounding to nearest with ties to
  even (53 significant bits, gradual underflow below \<open>2 powi (-1022)\<close>). Overflow to an infinity is
  not represented: every quantity of the program stays far below \<open>2 powi 1023\<close>. \<open>pyround x n\<close> is
  Python's \<open>round(x, n)\<close> (the double nearest to the decimal that is nearest to the exact value of
  \<open>x\<close>, ties to even), \<open>rhe x\<close> is \<open>round(x)\<close>, \<open>fmt_pct n x\<close> is the format \<open>{x:.n%}\<close>.

  What the scoring proofs need of the rounding is the locale \<open>rounding\<close>: it is monotone and exact
  on integers up to \<open>2 ^ 53\<close>; \<open>b64\<close> is its interpretation on \<open>fl\<close>.
\<close>

subsection \<open>Round half to even\<close>

definition rhe :: "rat \<Rightarrow> int" where
  "rhe x = (let f = \<lfloor>x\<rfloor>; r = x - of_int f in
     if r < 1 / 2 then f else if 1 / 2 < r then f + 1 else if even f then f else f + 1)"

lemma rhe_of_int [simp]: "rhe (of_int n) = n"
  by (simp add: rhe_def)

lemma rhe_bounds: "of_int (rhe x) \<le> x + 1 / 2" "x - 1 / 2 \<le> of_int (rhe x)"
proof -
  define f where "f = (of_int \<lfloor>x\<rfloor> :: rat)"
  have f: "f \<le> x" "x < f + 1" unfolding f_def by linarith+
  have "of_int (rhe x) = (if x - f < 1 / 2 then f else if 1 / 2 < x - f then f + 1
      else if even \<lfloor>x\<rfloor> then f else f + 1)"
    by (simp add: rhe_def Let_def f_def)
  then show "of_int (rhe x) \<le> x + 1 / 2" "x - 1 / 2 \<le> of_int (rhe x)"
    using f by (simp_all split: if_splits)
qed

lemma rhe_mono: "x \<le> y \<Longrightarrow> rhe x \<le> rhe y"
proof -
  assume le: "x \<le> y"
  then have fl: "\<lfloor>x\<rfloor> \<le> \<lfloor>y\<rfloor>" by (rule floor_mono)
  show ?thesis
  proof (cases "\<lfloor>x\<rfloor> = \<lfloor>y\<rfloor>")
    case True
    with le show ?thesis by (auto simp: rhe_def Let_def)
  next
    case False
    with fl have "\<lfloor>x\<rfloor> + 1 \<le> \<lfloor>y\<rfloor>" by simp
    then show ?thesis by (auto simp: rhe_def Let_def)
  qed
qed

lemma rhe_le_of_int: "x \<le> of_int n \<Longrightarrow> rhe x \<le> n"
  using rhe_mono [of x "of_int n"] by simp

lemma rhe_ge_of_int: "of_int n \<le> x \<Longrightarrow> n \<le> rhe x"
  using rhe_mono [of "of_int n" x] by simp

lemma rhe_minus: "rhe (- x) = - rhe x"
proof (cases "x = of_int \<lfloor>x\<rfloor>")
  case True
  then show ?thesis by (metis of_int_minus rhe_of_int)
next
  case False
  then have "\<lfloor>- x\<rfloor> = - \<lfloor>x\<rfloor> - 1"
    by (intro floor_unique) (simp_all, linarith+)
  then show ?thesis by (auto simp: rhe_def Let_def)
qed

subsection \<open>Rounding to 53 bits\<close>

definition ilog2 :: "rat \<Rightarrow> int" where
  "ilog2 x = (case quotient_of x of (n, d) \<Rightarrow>
     (let k = bitlen n - bitlen d in if 2 powi k \<le> x then k else k - 1))"

definition fl :: "rat \<Rightarrow> rat" where
  "fl x = (if x = 0 then 0
     else let q = 2 powi (52 - max (ilog2 \<bar>x\<bar>) (- 1022)) in of_int (rhe (x * q)) / q)"

definition fadd :: "rat \<Rightarrow> rat \<Rightarrow> rat" where "fadd x y = fl (x + y)"
definition fsub :: "rat \<Rightarrow> rat \<Rightarrow> rat" where "fsub x y = fl (x - y)"
definition fmul :: "rat \<Rightarrow> rat \<Rightarrow> rat" where "fmul x y = fl (x * y)"
definition fdiv :: "rat \<Rightarrow> rat \<Rightarrow> rat" where "fdiv x y = fl (x / y)"

definition pyround :: "rat \<Rightarrow> nat \<Rightarrow> rat" where
  "pyround x n = fl (of_int (rhe (x * 10 ^ n)) / 10 ^ n)"

text \<open>
  \<open>sum()\<close> over floats: CPython 3.12 adds with Neumaier's compensation, the running error in \<open>lo\<close>. The first
  item is added to the integer 0, which is exact. \<open>decimal_of n x\<close> is \<open>Decimal(str(round(x, n)))\<close>: \<open>repr\<close> writes the
  decimal \<open>round\<close> chose, so no binary error is left.
\<close>

definition cs_add :: "rat \<times> rat \<Rightarrow> rat \<Rightarrow> rat \<times> rat" where
  "cs_add acc x = (case acc of (hi, lo) \<Rightarrow>
     let t = fadd hi x
     in (t, fadd lo (if \<bar>x\<bar> \<le> \<bar>hi\<bar> then fadd (fsub hi t) x else fadd (fsub x t) hi)))"

fun fsum :: "rat list \<Rightarrow> rat" where
  "fsum [] = 0"
| "fsum (x # xs) = (case foldl cs_add (x, 0) xs of (hi, lo) \<Rightarrow> if lo = 0 then hi else fadd hi lo)"

definition decimal_of :: "nat \<Rightarrow> rat \<Rightarrow> rat" where
  "decimal_of n x = of_int (rhe (x * 10 ^ n)) / 10 ^ n"

lemma bitlen_pow:
  assumes "0 < n"
  shows "(2::rat) powi (bitlen n - 1) \<le> of_int n" and "(of_int n :: rat) < 2 powi bitlen n"
proof -
  from bitlen_bounds [OF assms] have b: "2 ^ nat (bitlen n - 1) \<le> n" "n < 2 ^ nat (bitlen n)" by auto
  have "bitlen n \<noteq> 0" using assms by (simp add: bitlen_eq_zero_iff)
  with bitlen_nonneg [of n] have p: "0 \<le> bitlen n - 1" by linarith
  have "(2::rat) powi (bitlen n - 1) = of_int (2 ^ nat (bitlen n - 1))"
    using p by (simp add: power_int_def)
  also have "\<dots> \<le> of_int n" using b(1) by (simp only: of_int_le_iff)
  finally show "(2::rat) powi (bitlen n - 1) \<le> of_int n" .
  have "(of_int n :: rat) < of_int (2 ^ nat (bitlen n))" using b(2) by (simp only: of_int_less_iff)
  also have "\<dots> = 2 powi bitlen n" using p by (simp add: power_int_def)
  finally show "(of_int n :: rat) < 2 powi bitlen n" .
qed

lemma ilog2_bounds:
  assumes "0 < x"
  shows "2 powi ilog2 x \<le> x" and "x < 2 powi (ilog2 x + 1)"
proof -
  obtain n d where q: "quotient_of x = (n, d)" by fastforce
  have d: "0 < d" using q by (rule quotient_of_denom_pos)
  have x: "x = of_int n / of_int d" using q by (rule quotient_of_div)
  with assms d have n: "0 < n" by (simp add: zero_less_divide_iff)
  define k where "k = bitlen n - bitlen d"
  have "(2::rat) powi (k - 1) * of_int d < 2 powi (k - 1) * 2 powi bitlen d"
    using bitlen_pow [OF d] by simp
  also have "\<dots> = 2 powi (bitlen n - 1)" by (simp add: k_def flip: power_int_add)
  also have "\<dots> \<le> of_int n" by (rule bitlen_pow [OF n])
  finally have lo: "2 powi (k - 1) < x"
    using d by (simp add: x pos_less_divide_eq)
  have "(2::rat) powi bitlen n = 2 powi (k + 1) * 2 powi (bitlen d - 1)"
    by (simp add: k_def flip: power_int_add)
  also have "\<dots> \<le> 2 powi (k + 1) * of_int d"
    using bitlen_pow [OF d] by simp
  finally have "of_int n < (2::rat) powi (k + 1) * of_int d"
    using bitlen_pow [OF n] by (meson less_le_trans)
  then have hi: "x < 2 powi (k + 1)" using d by (simp add: x pos_divide_less_eq)
  show "2 powi ilog2 x \<le> x" "x < 2 powi (ilog2 x + 1)"
    using lo hi by (auto simp: ilog2_def q Let_def k_def [symmetric])
qed

lemma powi2_less: "(2::rat) powi m < 2 powi n \<Longrightarrow> m < n"
  using power_int_increasing [of n m "2::rat"] by (cases "m < n") auto

lemma powi2_le: "(2::rat) powi m \<le> 2 powi n \<Longrightarrow> m \<le> n"
  using power_int_strict_increasing [of n m "2::rat"] by (cases "m \<le> n") auto

lemma ilog2_mono: "0 < x \<Longrightarrow> x \<le> y \<Longrightarrow> ilog2 x \<le> ilog2 y"
proof -
  assume x: "0 < x" and y: "x \<le> y"
  have "(2::rat) powi ilog2 x < 2 powi (ilog2 y + 1)"
    using ilog2_bounds [OF x] ilog2_bounds [of y] x y by linarith
  then have "ilog2 x < ilog2 y + 1"
    by (rule powi2_less)
  then show ?thesis by simp
qed

abbreviation fexp :: "rat \<Rightarrow> int" where
  "fexp x \<equiv> max (ilog2 \<bar>x\<bar>) (- 1022)"

lemma fl_zero [simp]: "fl 0 = 0"
  by (simp add: fl_def)

lemma fl_nonzero: "x \<noteq> 0 \<Longrightarrow> fl x = of_int (rhe (x * 2 powi (52 - fexp x))) / 2 powi (52 - fexp x)"
  by (simp add: fl_def Let_def)

lemma fl_minus: "fl (- x) = - fl x"
  by (cases "x = 0") (simp_all add: fl_nonzero rhe_minus)

lemma fl_nonneg: "0 \<le> x \<Longrightarrow> 0 \<le> fl x"
proof (cases "x = 0")
  case False
  assume "0 \<le> x"
  then have "0 \<le> rhe (x * 2 powi (52 - fexp x))" by (intro rhe_ge_of_int) simp
  with False show ?thesis by (simp add: fl_nonzero)
qed simp

lemma fl_upper:
  assumes "0 < x"
  shows "fl x \<le> 2 powi (fexp x + 1)"
proof -
  let ?q = "2 powi (52 - fexp x) :: rat"
  have "x < 2 powi (ilog2 x + 1)" using assms by (rule ilog2_bounds)
  also have "\<dots> \<le> 2 powi (fexp x + 1)" using assms by (intro power_int_increasing) auto
  finally have "x * ?q \<le> 2 powi (fexp x + 1) * ?q" by simp
  also have "\<dots> = of_int (2 ^ 53)" by (simp flip: power_int_add)
  finally have "(of_int (rhe (x * ?q)) :: rat) \<le> of_int (2 ^ 53)"
    by (simp only: of_int_le_iff rhe_le_of_int)
  also have "\<dots> = 2 powi (fexp x + 1) * ?q" by (simp flip: power_int_add)
  finally show ?thesis using assms by (simp add: fl_nonzero pos_divide_le_eq)
qed

lemma fl_lower:
  assumes "0 < x" and "- 1022 \<le> ilog2 x"
  shows "2 powi (fexp x) \<le> fl x"
proof -
  let ?q = "2 powi (52 - fexp x) :: rat"
  have "of_int (2 ^ 52) = 2 powi (fexp x) * ?q" by (simp flip: power_int_add)
  also have "\<dots> \<le> x * ?q" using assms ilog2_bounds(1) [of x] by simp
  finally have "(of_int (2 ^ 52) :: rat) \<le> of_int (rhe (x * ?q))"
    by (simp only: of_int_le_iff rhe_ge_of_int)
  then have "2 powi (fexp x) * ?q \<le> of_int (rhe (x * ?q))" by (simp flip: power_int_add)
  then show ?thesis using assms by (simp add: fl_nonzero pos_le_divide_eq)
qed

lemma fl_mono_pos:
  assumes x: "0 < x" and xy: "x \<le> y"
  shows "fl x \<le> fl y"
proof (cases "fexp x = fexp y")
  case True
  let ?q = "2 powi (52 - fexp y) :: rat"
  have "rhe (x * ?q) \<le> rhe (y * ?q)" using xy by (intro rhe_mono) simp
  then have "of_int (rhe (x * ?q)) / ?q \<le> of_int (rhe (y * ?q)) / ?q"
    by (intro divide_right_mono) simp_all
  then show ?thesis using assms True by (simp add: fl_nonzero)
next
  case False
  have "ilog2 x \<le> ilog2 y" using assms by (rule ilog2_mono)
  with False x xy have "fexp x + 1 \<le> fexp y" and y: "- 1022 \<le> ilog2 y" by auto
  then have "(2::rat) powi (fexp x + 1) \<le> 2 powi fexp y" by (intro power_int_increasing) auto
  with fl_upper [OF x] fl_lower [of y] y x xy show ?thesis by linarith
qed

lemma fl_mono: "x \<le> y \<Longrightarrow> fl x \<le> fl y"
proof -
  assume xy: "x \<le> y"
  consider "0 < x" | "x \<le> 0" "0 \<le> y" | "y < 0" by linarith
  then show ?thesis
  proof cases
    case 1
    then show ?thesis using xy by (rule fl_mono_pos)
  next
    case 2
    then show ?thesis using fl_nonneg [of y] fl_nonneg [of "- x"] by (simp add: fl_minus)
  next
    case 3
    then have "fl (- y) \<le> fl (- x)" using xy by (intro fl_mono_pos) simp_all
    then show ?thesis by (simp add: fl_minus)
  qed
qed

lemma fl_exact: "x * 2 powi (52 - fexp x) = of_int k \<Longrightarrow> fl x = x"
proof (cases "x = 0")
  case False
  assume e: "x * 2 powi (52 - fexp x) = of_int k"
  have "fl x = of_int k / 2 powi (52 - fexp x)"
    using False by (simp add: fl_nonzero e)
  also have "\<dots> = x" by (simp flip: e)
  finally show ?thesis .
qed simp

lemma fl_of_nat:
  assumes "n \<le> 2 ^ 53"
  shows "fl (of_nat n) = of_nat n"
proof (cases "n = 0")
  case False
  then have pos: "(0::rat) < of_nat n" by simp
  have le: "(of_nat n :: rat) \<le> 2 ^ 53"
    using assms by (metis of_nat_le_iff of_nat_numeral of_nat_power)
  let ?e = "ilog2 (of_nat n)"
  have "(2::rat) powi 0 < 2 powi (?e + 1)"
    using False ilog2_bounds(2) [OF pos] by (simp add: order_le_less_trans [of 1 "of_nat n"])
  then have "0 < ?e + 1" by (rule powi2_less)
  then have e0: "0 \<le> ?e" by simp
  show ?thesis
  proof (cases "?e \<le> 52")
    case True
    have "(of_nat n :: rat) * 2 powi (52 - ?e) = of_int (int n * 2 ^ nat (52 - ?e))"
      using True by (simp add: power_int_def)
    then show ?thesis
      using e0 by (intro fl_exact [where k = "int n * 2 ^ nat (52 - ?e)"]) simp
  next
    case False
    then have "(2::rat) powi 53 \<le> 2 powi ?e" by (intro power_int_increasing) auto
    then have n: "(of_nat n :: rat) = 2 ^ 53"
      using ilog2_bounds(1) [OF pos] le by simp
    with ilog2_bounds(1) [OF pos] have "(2::rat) powi ?e \<le> 2 powi 53" by simp
    then have "?e \<le> 53" by (rule powi2_le)
    with False have "?e = 53" by simp
    then have "(of_nat n :: rat) * 2 powi (52 - fexp (of_nat n)) = of_int (2 ^ 52)"
      by (simp add: n power_int_minus)
    then show ?thesis by (rule fl_exact)
  qed
qed simp

subsection \<open>What the program relies on\<close>

lemma fl_idem_pos:
  assumes x: "0 < x"
  shows "fl (fl x) = fl x"
proof (cases "fl x = 0")
  case False
  define e k y where "e = fexp x" and "k = rhe (x * 2 powi (52 - e))" and "y = fl x"
  have y: "y = of_int k / 2 powi (52 - e)" using x by (simp add: y_def k_def e_def fl_nonzero)
  have pos: "0 < y" using fl_nonneg [of x] x False by (simp add: y_def)
  have le: "y \<le> 2 powi (e + 1)" using fl_upper [OF x] by (simp add: y_def e_def)
  have e: "- 1022 \<le> e" by (simp add: e_def)
  have "e \<le> fexp y"
  proof (cases "- 1022 \<le> ilog2 x")
    case True
    have "2 powi e \<le> y" using fl_lower [OF x True] by (simp add: y_def e_def)
    also have "y < 2 powi (ilog2 y + 1)" by (rule ilog2_bounds(2) [OF pos])
    finally have "e < ilog2 y + 1" by (rule powi2_less)
    with pos show ?thesis by simp
  qed (use x in \<open>simp add: e_def\<close>)
  then consider "fexp y = e" | "e + 1 \<le> fexp y" by linarith
  then have "fl y = y"
  proof cases
    case 1
    show ?thesis by (rule fl_exact [of y k]) (simp add: 1, simp add: y)
  next
    case 2
    then have big: "e + 1 \<le> ilog2 y" using pos by (simp add: e_def)
    have "2 powi (e + 1) \<le> (2 :: rat) powi ilog2 y" using big by (intro power_int_increasing) auto
    with le ilog2_bounds(1) [OF pos] have eq: "y = 2 powi (e + 1)" and "2 powi ilog2 y \<le> (2 :: rat) powi (e + 1)"
      by linarith+
    then have "fexp y = e + 1" using big powi2_le [of "ilog2 y" "e + 1"] pos 2 e by simp
    then have "y * 2 powi (52 - fexp y) = of_int (2 ^ 52)" by (simp add: eq flip: power_int_add)
    then show ?thesis by (rule fl_exact)
  qed
  then show ?thesis by (simp add: y_def)
qed simp

lemma fl_idem [simp]: "fl (fl x) = fl x"
proof -
  consider "0 < x" | "x = 0" | "0 < - x" by linarith
  then show ?thesis
  proof cases
    case 3
    from fl_idem_pos [OF 3] show ?thesis by (simp add: fl_minus)
  qed (simp_all add: fl_idem_pos)
qed
locale rounding =
  fixes rnd :: "rat \<Rightarrow> rat"
  assumes mono: "x \<le> y \<Longrightarrow> rnd x \<le> rnd y"
    and exact_nat: "n \<le> 2 ^ 53 \<Longrightarrow> rnd (of_nat n) = of_nat n"
    and idem: "rnd (rnd x) = rnd x"
begin

lemma zero: "rnd 0 = 0"
  using exact_nat [of 0] by simp

lemma one: "rnd 1 = 1"
  using exact_nat [of 1] by simp

lemma hundred: "rnd 100 = 100"
  using exact_nat [of 100] by simp

lemma nonneg: "0 \<le> x \<Longrightarrow> 0 \<le> rnd x"
  using mono [of 0 x] zero by simp

lemma le_one: "x \<le> 1 \<Longrightarrow> rnd x \<le> 1"
  using mono [of x 1] one by simp

lemma le_hundred: "x \<le> 100 \<Longrightarrow> rnd x \<le> 100"
  using mono [of x 100] hundred by simp

lemma absorb: "rnd a = a \<Longrightarrow> 0 \<le> x \<Longrightarrow> a \<le> rnd (a + x)"
  using mono [of a "a + x"] by simp

lemma ge_nat: "n \<le> 2 ^ 53 \<Longrightarrow> of_nat n \<le> x \<Longrightarrow> of_nat n \<le> rnd x"
  using mono [of "of_nat n" x] exact_nat by simp

lemma le_nat: "n \<le> 2 ^ 53 \<Longrightarrow> x \<le> of_nat n \<Longrightarrow> rnd x \<le> of_nat n"
  using mono [of x "of_nat n"] exact_nat by simp

end

interpretation b64: rounding fl
  by unfold_locales (auto intro: fl_mono fl_of_nat)

lemma pyround_mono: "x \<le> y \<Longrightarrow> pyround x n \<le> pyround y n"
  unfolding pyround_def by (intro b64.mono divide_right_mono) (simp_all add: rhe_mono)

lemma pyround_zero [simp]: "pyround 0 n = 0"
  using rhe_of_int [of 0] by (simp add: pyround_def)

lemma pyround_nat: "k \<le> 2 ^ 53 \<Longrightarrow> pyround (of_nat k) n = of_nat k"
proof -
  assume k: "k \<le> 2 ^ 53"
  have "(of_nat k :: rat) * 10 ^ n = of_int (int k * 10 ^ n)" by simp
  then have "rhe (of_nat k * 10 ^ n) = int k * 10 ^ n" by (metis rhe_of_int)
  then show ?thesis using b64.exact_nat [OF k] by (simp add: pyround_def)
qed

lemma pyround_bounds:
  "0 \<le> x \<Longrightarrow> 0 \<le> pyround x n"
  "x \<le> 1 \<Longrightarrow> pyround x n \<le> 1"
  "x \<le> 100 \<Longrightarrow> pyround x n \<le> 100"
  using pyround_mono [of 0 x n] pyround_mono [of x 1 n] pyround_mono [of x 100 n]
    pyround_nat [of 1 n] pyround_nat [of 100 n] by simp_all

subsection \<open>Formatting\<close>

definition pad_zeros :: "nat \<Rightarrow> string \<Rightarrow> string" where
  "pad_zeros n s = replicate (n - length s) (CHR ''0'') @ s"

definition fmt_fixed :: "nat \<Rightarrow> rat \<Rightarrow> string" where
  "fmt_fixed n x =
     (let k = nat (rhe (\<bar>x\<bar> * 10 ^ n))
      in (if x < 0 then ''-'' else []) @ str_of_nat (k div 10 ^ n) @
         (if n = 0 then [] else CHR ''.'' # pad_zeros n (str_of_nat (k mod 10 ^ n))))"

definition fmt_pct :: "nat \<Rightarrow> rat \<Rightarrow> string" where
  "fmt_pct n x = fmt_fixed n (fmul x 100) @ ''%''"

end
