(* ===== verification/Py_Ip.thy ===== *)
theory Py_Ip
  imports Py_Text "HOL-Library.Word"
begin

unbundle bit_operations_syntax

text \<open>
  The part of Python's \<open>ipaddress\<close> (3.12) the program relies on: parsing of IPv4 and IPv6
  addresses, their canonical text, and \<open>is_global\<close> with the special-purpose registries the
  library carries. An IPv4 address is a \<open>32 word\<close>, an IPv6 address a \<open>128 word\<close>.
\<close>

datatype ip = V4 "32 word" | V6 "128 word"

subsection \<open>Parsing\<close>

definition octet :: "string \<Rightarrow> nat option" where
  "octet s =
     (if is_digits s \<and> length s \<le> 3 \<and> (s = ''0'' \<or> hd s \<noteq> CHR ''0'') \<and> nat_of_digits s \<le> 255
      then Some (nat_of_digits s) else None)"

definition parse_ip4 :: "string \<Rightarrow> 32 word option" where
  "parse_ip4 s = (case map octet (split_on CHR ''.'' s) of
       [Some a, Some b, Some c, Some d] \<Rightarrow> Some (of_nat (((a * 256 + b) * 256 + c) * 256 + d))
     | _ \<Rightarrow> None)"

definition hextet :: "string \<Rightarrow> nat option" where
  "hextet s =
     (if s \<noteq> [] \<and> length s \<le> 4 \<and> list_all hex_char s
      then Some (foldl (\<lambda>a c. 16 * a + hex_value c) 0 s) else None)"

fun hextets :: "string list \<Rightarrow> nat list option" where
  "hextets [] = Some []"
| "hextets (p # ps) =
     (case hextet p of None \<Rightarrow> None
      | Some h \<Rightarrow> (case hextets ps of None \<Rightarrow> None | Some hs \<Rightarrow> Some (h # hs)))"

fun hex_of_nat :: "nat \<Rightarrow> string" where
  "hex_of_nat n = (if n < 16 then [to_lower (hex_digit n)]
                   else hex_of_nat (n div 16) @ [to_lower (hex_digit (n mod 16))])"

declare hex_of_nat.simps [simp del]

text \<open>An IPv4 suffix is rewritten as two hextets before the hextets are counted.\<close>

definition expand_v4_suffix :: "string list \<Rightarrow> string list option" where
  "expand_v4_suffix parts =
     (if CHR ''.'' \<in> set (last parts)
      then (case parse_ip4 (last parts) of
              None \<Rightarrow> None
            | Some w \<Rightarrow> Some (butlast parts @
                [hex_of_nat (unat w div 65536), hex_of_nat (unat w mod 65536)]))
      else Some parts)"

definition inner_blanks :: "string list \<Rightarrow> nat list" where
  "inner_blanks parts = filter (\<lambda>i. parts ! i = []) [1..<length parts - 1]"

definition words_of_parts :: "string list \<Rightarrow> nat list option" where
  "words_of_parts parts =
     (case inner_blanks parts of
        [] \<Rightarrow> (if length parts = 8 then hextets parts else None)
      | [i] \<Rightarrow>
          (let hi = take i parts; lo = drop (Suc i) parts;
               hi' = (if hd parts = [] then tl hi else hi);
               lo' = (if last parts = [] then butlast lo else lo)
           in if hd parts = [] \<and> hi' \<noteq> [] \<or> last parts = [] \<and> lo' \<noteq> []
                 \<or> 8 < Suc (length hi' + length lo') then None
              else (case (hextets hi', hextets lo') of
                      (Some hs, Some ls) \<Rightarrow>
                        Some (hs @ replicate (8 - length hi' - length lo') 0 @ ls)
                    | _ \<Rightarrow> None))
      | _ \<Rightarrow> None)"

definition parse_ip6 :: "string \<Rightarrow> 128 word option" where
  "parse_ip6 s =
     (let parts = split_on CHR '':'' s
      in if length parts < 3 then None
         else case expand_v4_suffix parts of
             None \<Rightarrow> None
           | Some parts' \<Rightarrow>
               if 9 < length parts' then None
               else map_option (\<lambda>ws. of_nat (foldl (\<lambda>a w. 65536 * a + w) 0 ws)) (words_of_parts parts'))"

text \<open>
  A scope after \<open>%\<close> is accepted on IPv6 only; it must be non-empty and hold no second \<open>%\<close>. It is
  checked and then dropped: the program cuts the scope off before it parses an address it keeps.
\<close>

definition ip_address :: "string \<Rightarrow> ip option" where
  "ip_address s =
     (case parse_ip4 s of
        Some w \<Rightarrow> Some (V4 w)
      | None \<Rightarrow>
          (case partition_on CHR ''%'' s of (addr, scoped, zone) \<Rightarrow>
             if CHR ''/'' \<in> set s \<or> scoped \<and> (zone = [] \<or> CHR ''%'' \<in> set zone) then None
             else map_option V6 (parse_ip6 addr)))"

subsection \<open>Canonical text\<close>

definition ip4_text :: "32 word \<Rightarrow> string" where
  "ip4_text w = join ''.'' (map (\<lambda>k. str_of_nat (unat w div 2 ^ k mod 256)) [24, 16, 8, 0])"

definition ip6_words :: "128 word \<Rightarrow> nat list" where
  "ip6_words w = map (\<lambda>k. unat w div 2 ^ k mod 65536) [112, 96, 80, 64, 48, 32, 16, 0]"

text \<open>The first longest run of zero hextets as \<open>(start, length)\<close>.\<close>

fun zero_run :: "nat list \<Rightarrow> nat \<Rightarrow> nat \<Rightarrow> nat \<times> nat \<Rightarrow> nat \<times> nat" where
  "zero_run [] i cur best = best"
| "zero_run (w # ws) i cur best =
     (if w = 0
      then zero_run ws (Suc i) (Suc cur)
             (if snd best < Suc cur then (i - cur, Suc cur) else best)
      else zero_run ws (Suc i) 0 best)"

definition ip6_text :: "128 word \<Rightarrow> string" where
  "ip6_text w =
     (let ws = ip6_words w; hs = map hex_of_nat ws; (start, len) = zero_run ws 0 0 (0, 0)
      in if 1 < len
         then join '':'' ((if start = 0 then [[]] else []) @ take start hs @ [[]] @
                drop (start + len) hs @ (if start + len = 8 then [[]] else []))
         else join '':'' hs)"

fun ip_text :: "ip \<Rightarrow> string" where
  "ip_text (V4 w) = ip4_text w"
| "ip_text (V6 w) = ip6_text w"

subsection \<open>Registries\<close>

definition in_net4 :: "32 word \<Rightarrow> 32 word \<times> nat \<Rightarrow> bool" where
  "in_net4 a n = (drop_bit (32 - snd n) a = drop_bit (32 - snd n) (fst n))"

definition in_net6 :: "128 word \<Rightarrow> 128 word \<times> nat \<Rightarrow> bool" where
  "in_net6 a n = (drop_bit (128 - snd n) a = drop_bit (128 - snd n) (fst n))"

definition quad :: "nat \<Rightarrow> nat \<Rightarrow> nat \<Rightarrow> nat \<Rightarrow> 32 word" where
  "quad a b c d = of_nat (((a * 256 + b) * 256 + c) * 256 + d)"

definition hexes :: "nat list \<Rightarrow> 128 word" where
  "hexes ws = of_nat (foldl (\<lambda>a w. 65536 * a + w) 0 ws)"

definition private4 :: "(32 word \<times> nat) list" where
  "private4 = [(quad 0 0 0 0, 8), (quad 10 0 0 0, 8), (quad 127 0 0 0, 8), (quad 169 254 0 0, 16),
     (quad 172 16 0 0, 12), (quad 192 0 0 0, 24), (quad 192 0 0 170, 31), (quad 192 0 2 0, 24),
     (quad 192 168 0 0, 16), (quad 198 18 0 0, 15), (quad 198 51 100 0, 24), (quad 203 0 113 0, 24),
     (quad 240 0 0 0, 4), (quad 255 255 255 255, 32)]"

definition private4_exceptions :: "(32 word \<times> nat) list" where
  "private4_exceptions = [(quad 192 0 0 9, 32), (quad 192 0 0 10, 32)]"

definition shared4 :: "32 word \<times> nat" where
  "shared4 = (quad 100 64 0 0, 10)"

definition private6 :: "(128 word \<times> nat) list" where
  "private6 = [(hexes [0,0,0,0,0,0,0,1], 128), (hexes [0,0,0,0,0,0,0,0], 128),
     (hexes [0,0,0,0,0,0xFFFF,0,0], 96), (hexes [0x64,0xFF9B,1,0,0,0,0,0], 48),
     (hexes [0x100,0,0,0,0,0,0,0], 64), (hexes [0x2001,0,0,0,0,0,0,0], 23),
     (hexes [0x2001,0xDB8,0,0,0,0,0,0], 32), (hexes [0x2002,0,0,0,0,0,0,0], 16),
     (hexes [0xFC00,0,0,0,0,0,0,0], 7), (hexes [0xFE80,0,0,0,0,0,0,0], 10)]"

definition private6_exceptions :: "(128 word \<times> nat) list" where
  "private6_exceptions = [(hexes [0x2001,1,0,0,0,0,0,1], 128), (hexes [0x2001,1,0,0,0,0,0,2], 128),
     (hexes [0x2001,3,0,0,0,0,0,0], 32), (hexes [0x2001,4,0x112,0,0,0,0,0], 48),
     (hexes [0x2001,0x20,0,0,0,0,0,0], 28), (hexes [0x2001,0x30,0,0,0,0,0,0], 28)]"

definition is_private4 :: "32 word \<Rightarrow> bool" where
  "is_private4 a \<longleftrightarrow> list_ex (in_net4 a) private4 \<and> \<not> list_ex (in_net4 a) private4_exceptions"

definition mapped4 :: "128 word \<Rightarrow> 32 word option" where
  "mapped4 a = (if drop_bit 32 a = 0xFFFF then Some (ucast a) else None)"

definition is_private6 :: "128 word \<Rightarrow> bool" where
  "is_private6 a = (case mapped4 a of
       Some v4 \<Rightarrow> is_private4 v4
     | None \<Rightarrow> list_ex (in_net6 a) private6 \<and> \<not> list_ex (in_net6 a) private6_exceptions)"

fun is_global :: "ip \<Rightarrow> bool" where
  "is_global (V4 a) = (\<not> in_net4 a shared4 \<and> \<not> is_private4 a)"
| "is_global (V6 a) = (\<not> is_private6 a)"

subsection \<open>Networks as ranges\<close>

lemma in_net4_div: "in_net4 a (n, l) \<longleftrightarrow> unat a div 2 ^ (32 - l) = unat n div 2 ^ (32 - l)"
  by (simp only: in_net4_def word_unat_eq_iff unat_drop_bit_eq) (simp add: drop_bit_eq_div)

lemma in_net6_div: "in_net6 a (n, l) \<longleftrightarrow> unat a div 2 ^ (128 - l) = unat n div 2 ^ (128 - l)"
  by (simp only: in_net6_def word_unat_eq_iff unat_drop_bit_eq) (simp add: drop_bit_eq_div)

definition blocked4 :: "32 word \<Rightarrow> bool" where
  "blocked4 a \<longleftrightarrow> (let o1 = unat a div 2 ^ 24; o2 = unat a div 2 ^ 16 mod 256 in
     o1 = 0 \<or> o1 = 10 \<or> o1 = 127 \<or> o1 = 169 \<and> o2 = 254 \<or> o1 = 172 \<and> 16 \<le> o2 \<and> o2 < 32
     \<or> o1 = 192 \<and> o2 = 168 \<or> o1 = 100 \<and> 64 \<le> o2 \<and> o2 < 128 \<or> 240 \<le> o1)"

lemma unat_quad:
  assumes "a < 256" "b < 256" "c < 256" "d < 256"
  shows "unat (quad a b c d) = ((a * 256 + b) * 256 + c) * 256 + d"
  unfolding quad_def unat_of_nat by (rule mod_less) (use assms in simp)

lemma net_octet2:
  fixes m :: nat
  shows "m div 65536 = m div 16777216 * 256 + m div 65536 mod 256"
proof -
  have "m div 16777216 = m div 65536 div 256" by (simp add: div_mult2_eq [symmetric])
  then show ?thesis by simp
qed

lemma blocked4_not_global:
  assumes "blocked4 a"
  shows "\<not> is_global (V4 a)"
proof -
  define m where "m = unat a"
  define o1 where "o1 = m div 16777216"
  define o2 where "o2 = m div 65536 mod 256"
  have m2: "m div 65536 = o1 * 256 + o2" and o2: "o2 < 256"
    using net_octet2 [of m] by (simp_all add: o1_def o2_def)
  have m: "m < 2 ^ 32" using unsigned_less [of a, where 'a = nat] by (simp add: m_def)
  have d12: "m div 1048576 = m div 65536 div 16" and d10: "m div 4194304 = m div 65536 div 64"
    by (simp_all add: div_mult2_eq [symmetric])
  have d4: "m div 268435456 = o1 div 16"
    by (simp add: o1_def div_mult2_eq [symmetric])
  have o1b: "o1 < 256" using m by (simp add: o1_def less_mult_imp_div_less)
  have nets: "in_net4 a (quad 0 0 0 0, 8) \<longleftrightarrow> o1 = 0" "in_net4 a (quad 10 0 0 0, 8) \<longleftrightarrow> o1 = 10"
    "in_net4 a (quad 127 0 0 0, 8) \<longleftrightarrow> o1 = 127"
    "in_net4 a (quad 169 254 0 0, 16) \<longleftrightarrow> o1 * 256 + o2 = 43518"
    "in_net4 a (quad 172 16 0 0, 12) \<longleftrightarrow> (o1 * 256 + o2) div 16 = 2753"
    "in_net4 a (quad 192 168 0 0, 16) \<longleftrightarrow> o1 * 256 + o2 = 49320"
    "in_net4 a shared4 \<longleftrightarrow> (o1 * 256 + o2) div 64 = 401"
    "in_net4 a (quad 240 0 0 0, 4) \<longleftrightarrow> o1 div 16 = 15"
    by (simp_all add: in_net4_div unat_quad shared4_def d12 d10 d4 flip: m_def o1_def m2)
  have exc: "in_net4 a (quad 192 0 0 9, 32) \<Longrightarrow> o1 = 192 \<and> o2 = 0"
    "in_net4 a (quad 192 0 0 10, 32) \<Longrightarrow> o1 = 192 \<and> o2 = 0"
    by (simp_all add: in_net4_div unat_quad o1_def o2_def flip: m_def)
  have "o1 = 0 \<or> o1 = 10 \<or> o1 = 127 \<or> o1 = 169 \<and> o2 = 254 \<or> o1 = 172 \<and> 16 \<le> o2 \<and> o2 < 32
     \<or> o1 = 192 \<and> o2 = 168 \<or> o1 = 100 \<and> 64 \<le> o2 \<and> o2 < 128 \<or> 240 \<le> o1"
    using assms by (simp add: blocked4_def o1_def o2_def m_def Let_def)
  then have hit: "o1 = 0 \<or> o1 = 10 \<or> o1 = 127 \<or> o1 * 256 + o2 = 43518 \<or> (o1 * 256 + o2) div 16 = 2753
     \<or> o1 * 256 + o2 = 49320 \<or> (o1 * 256 + o2) div 64 = 401 \<or> o1 div 16 = 15"
    and other: "\<not> (o1 = 192 \<and> o2 = 0)" using o1b o2 by auto
  have no_exc: "\<not> list_ex (in_net4 a) private4_exceptions"
    using exc other by (auto simp: private4_exceptions_def)
  from hit show ?thesis
    unfolding is_global.simps is_private4_def private4_def list.pred_inject list_ex_iff list.set nets
    using no_exc nets by (auto simp: list_ex_iff)
qed

end
