(* ===== verification/Py_Url.thy ===== *)
theory Py_Url
  imports Py_Text Py_Ip
begin

text \<open>
  The functions of \<open>urllib.parse\<close> and \<open>posixpath\<close> (Python 3.12) the program calls, on ASCII text:
  \<open>urlsplit\<close> with the netloc accessors (\<open>hostname\<close>, \<open>port\<close>, \<open>username\<close>), \<open>urlunsplit\<close>, \<open>urljoin\<close>,
  \<open>quote\<close>, \<open>parse_qsl\<close>, \<open>urlencode\<close> and \<open>normpath\<close>. A decoded percent escape above \<open>0x7F\<close> is kept as
  the byte it stands for, as the UTF-8 text Python decodes it to when the bytes are valid UTF-8.
  The lemmas at the end say that a well-formed absolute URL is read back by \<open>urlsplit\<close> exactly as
  \<open>urlunsplit\<close> wrote it.
\<close>

record url =
  u_scheme :: string
  u_netloc :: string
  u_path :: string
  u_query :: string
  u_fragment :: string

subsection \<open>Splitting\<close>

definition scheme_char :: "char \<Rightarrow> bool" where
  "scheme_char c \<longleftrightarrow> alnum_char c \<or> c \<in> set ''+-.''"

definition split_scheme :: "string \<Rightarrow> string \<Rightarrow> string \<times> string" where
  "split_scheme dflt s =
     (case partition_on CHR '':'' s of (pre, found, post) \<Rightarrow>
        if found \<and> pre \<noteq> [] \<and> alpha_char (hd pre) \<and> list_all scheme_char pre
        then (casefold pre, post) else (dflt, s))"

definition netloc_end :: "char \<Rightarrow> bool" where
  "netloc_end c \<longleftrightarrow> c \<in> set ''/?#''"

definition split_netloc :: "string \<Rightarrow> string \<times> string" where
  "split_netloc s =
     (if prefix ''//'' s
      then (takeWhile (\<lambda>c. \<not> netloc_end c) (drop 2 s), dropWhile (\<lambda>c. \<not> netloc_end c) (drop 2 s))
      else ([], s))"

definition ipv_future :: "string \<Rightarrow> bool" where
  "ipv_future s \<longleftrightarrow> (let t = drop 1 s; rest = dropWhile hex_char t in
     takeWhile hex_char t \<noteq> [] \<and> prefix ''.'' rest \<and> 1 < length rest)"

definition check_bracketed_host :: "string \<Rightarrow> exn + unit" where
  "check_bracketed_host h =
     (if prefix ''v'' h
      then (if ipv_future h then Inr () else Inl (ValueError ''IPvFuture address is invalid''))
      else (case ip_address h of
          None \<Rightarrow> Inl (ValueError (''not an IPv4 or IPv6 address: '' @ h))
        | Some (V4 w) \<Rightarrow> Inl (ValueError ''An IPv4 address cannot be in brackets'')
        | Some (V6 w) \<Rightarrow> Inr ()))"

definition check_netloc_brackets :: "string \<Rightarrow> exn + unit" where
  "check_netloc_brackets n =
     (if (CHR ''['' \<in> set n) \<noteq> (CHR '']'' \<in> set n) then Inl (ValueError ''Invalid IPv6 URL'')
      else if CHR ''['' \<notin> set n then Inr ()
      else (let hp = snd (snd (rpartition_on CHR ''@'' n)) in
        case partition_on CHR ''['' hp of (pre, opened, bracketed) \<Rightarrow>
          if opened
          then (case partition_on CHR '']'' bracketed of (host, _, port) \<Rightarrow>
             if pre \<noteq> [] \<or> port \<noteq> [] \<and> \<not> prefix '':'' port
             then Inl (ValueError ''Invalid IPv6 URL'') else check_bracketed_host host)
          else check_bracketed_host (fst (partition_on CHR '':'' hp))))"

definition url_clean :: "string \<Rightarrow> string" where
  "url_clean s = filter (\<lambda>c. code c \<notin> {9, 10, 13}) (lstrip_of (\<lambda>c. code c \<le> 32) s)"

definition urlsplit_in :: "string \<Rightarrow> string \<Rightarrow> exn + url" where
  "urlsplit_in dflt s =
     (case split_scheme dflt (url_clean s) of (scheme, s1) \<Rightarrow>
      case split_netloc s1 of (netloc, s2) \<Rightarrow>
      bindE (check_netloc_brackets netloc) (\<lambda>_.
      case partition_on CHR ''#'' s2 of (s3, _, fragment) \<Rightarrow>
      case partition_on CHR ''?'' s3 of (path, _, query) \<Rightarrow>
      Inr \<lparr>u_scheme = scheme, u_netloc = netloc, u_path = path, u_query = query,
           u_fragment = fragment\<rparr>))"

abbreviation urlsplit :: "string \<Rightarrow> exn + url" where
  "urlsplit \<equiv> urlsplit_in []"

subsection \<open>The parts of a netloc\<close>

definition hostinfo :: "string \<Rightarrow> string \<times> string" where
  "hostinfo n =
     (let hp = snd (snd (rpartition_on CHR ''@'' n)) in
      case partition_on CHR ''['' hp of (_, opened, bracketed) \<Rightarrow>
        if opened
        then (case partition_on CHR '']'' bracketed of (host, _, rest) \<Rightarrow>
                (host, snd (snd (partition_on CHR '':'' rest))))
        else (case partition_on CHR '':'' hp of (host, _, port) \<Rightarrow> (host, port)))"

definition hostname :: "url \<Rightarrow> string option" where
  "hostname u =
     (let h = fst (hostinfo (u_netloc u)) in
      if h = [] then None
      else (case partition_on CHR ''%'' h of (a, p, zone) \<Rightarrow>
              Some (casefold a @ (if p then ''%'' else []) @ zone)))"

definition port :: "url \<Rightarrow> exn + nat option" where
  "port u =
     (let p = snd (hostinfo (u_netloc u)) in
      if p = [] then Inr None
      else if \<not> list_all digit_char p then Inl (ValueError ''Port could not be cast to integer value'')
      else if 65535 < nat_of_digits p then Inl (ValueError ''Port out of range 0-65535'')
      else Inr (Some (nat_of_digits p)))"

definition has_userinfo :: "url \<Rightarrow> bool" where
  "has_userinfo u \<longleftrightarrow> CHR ''@'' \<in> set (u_netloc u)"

subsection \<open>Joining\<close>

definition uses_netloc :: "string list" where
  "uses_netloc = ['''', ''ftp'', ''http'', ''gopher'', ''nntp'', ''telnet'', ''imap'', ''wais'', ''file'',
     ''mms'', ''https'', ''shttp'', ''snews'', ''prospero'', ''rtsp'', ''rtsps'', ''rtspu'', ''rsync'',
     ''svn'', ''svn+ssh'', ''sftp'', ''nfs'', ''git'', ''git+ssh'', ''ws'', ''wss'', ''itms-services'']"

definition uses_relative :: "string list" where
  "uses_relative = ['''', ''ftp'', ''http'', ''gopher'', ''nntp'', ''imap'', ''wais'', ''file'', ''https'',
     ''shttp'', ''mms'', ''prospero'', ''rtsp'', ''rtsps'', ''rtspu'', ''sftp'', ''svn'', ''svn+ssh'',
     ''ws'', ''wss'']"

definition uses_params :: "string list" where
  "uses_params = ['''', ''ftp'', ''hdl'', ''prospero'', ''http'', ''imap'', ''https'', ''shttp'', ''rtsp'',
     ''rtsps'', ''rtspu'', ''sip'', ''sips'', ''mms'', ''sftp'', ''tel'']"

definition urlunsplit :: "url \<Rightarrow> string" where
  "urlunsplit u =
     (let p = u_path u; n = u_netloc u; s = u_scheme u;
          hier = (if n \<noteq> [] then ''//'' @ n @ (if p \<noteq> [] \<and> hd p \<noteq> CHR ''/'' then ''/'' else []) @ p
                  else if prefix ''//'' p then ''//'' @ p
                  else if s \<noteq> [] \<and> s \<in> set uses_netloc \<and> (p = [] \<or> hd p = CHR ''/'') then ''//'' @ p
                  else p)
      in (if s = [] then [] else s @ '':'') @ hier @
         (if u_query u = [] then [] else CHR ''?'' # u_query u) @
         (if u_fragment u = [] then [] else CHR ''#'' # u_fragment u))"

definition split_params :: "url \<Rightarrow> string \<times> string" where
  "split_params u =
     (let p = u_path u in
      if u_scheme u \<in> set uses_params \<and> CHR '';'' \<in> set p
      then (case rpartition_on CHR ''/'' p of (dir, slash, lastseg) \<Rightarrow>
            case partition_on CHR '';'' lastseg of (name, _, params) \<Rightarrow>
              ((if slash then dir @ ''/'' else []) @ name, params))
      else (p, []))"

definition with_params :: "string \<Rightarrow> string \<Rightarrow> string" where
  "with_params p params = (if params = [] then p else p @ '';'' @ params)"

fun resolve_segments :: "string list \<Rightarrow> string list \<Rightarrow> string list" where
  "resolve_segments done [] = rev done"
| "resolve_segments done (s # ss) =
     (if s = ''..'' then resolve_segments (tl done) ss
      else if s = ''.'' then resolve_segments done ss
      else resolve_segments (s # done) ss)"

definition squeeze_inner :: "string list \<Rightarrow> string list" where
  "squeeze_inner ss =
     (if length ss \<le> 2 then ss else hd ss # filter (\<lambda>s. s \<noteq> []) (butlast (tl ss)) @ [last ss])"

definition join_path :: "string \<Rightarrow> string \<Rightarrow> string" where
  "join_path bpath p =
     (let base = split_on CHR ''/'' bpath;
          base' = (if last base = [] then base else butlast base);
          segs = (if prefix ''/'' p then split_on CHR ''/'' p
                  else squeeze_inner (base' @ split_on CHR ''/'' p));
          res = resolve_segments [] segs @ (if last segs \<in> {''.'', ''..''} then [[]] else []);
          out = join ''/'' res
      in if out = [] then ''/'' else out)"

definition urljoin :: "string \<Rightarrow> string \<Rightarrow> exn + string" where
  "urljoin base s =
     (if base = [] then Inr s else if s = [] then Inr base
      else bindE (urlsplit base) (\<lambda>b. bindE (urlsplit_in (u_scheme b) s) (\<lambda>r.
        if u_scheme r \<noteq> u_scheme b \<or> u_scheme r \<notin> set uses_relative then Inr s
        else if u_scheme r \<in> set uses_netloc \<and> u_netloc r \<noteq> []
        then (case split_params r of (p, params) \<Rightarrow>
                Inr (urlunsplit (r\<lparr>u_path := with_params p params\<rparr>)))
        else (let n = (if u_scheme r \<in> set uses_netloc then u_netloc b else u_netloc r) in
          case split_params r of (p, params) \<Rightarrow>
          case split_params b of (bp, bparams) \<Rightarrow>
          if p = [] \<and> params = []
          then Inr (urlunsplit (r\<lparr>u_netloc := n, u_path := with_params bp bparams,
                      u_query := (if u_query r = [] then u_query b else u_query r)\<rparr>))
          else Inr (urlunsplit (r\<lparr>u_netloc := n, u_path := with_params (join_path bp p) params\<rparr>))))))"

subsection \<open>Quoting and query strings\<close>

definition always_safe :: "char \<Rightarrow> bool" where
  "always_safe c \<longleftrightarrow> alnum_char c \<or> c \<in> set ''_.-~''"

definition quote :: "string \<Rightarrow> string \<Rightarrow> string" where
  "quote safe s =
     concat (map (\<lambda>c. if always_safe c \<or> c \<in> set safe then [c] else percent_byte (code c)) s)"

definition quote_plus :: "string \<Rightarrow> string" where
  "quote_plus s = map (\<lambda>c. if c = CHR '' '' then CHR ''+'' else c) (quote '' '' s)"

fun unquote :: "string \<Rightarrow> string" where
  "unquote (c # a # b # s) =
     (if c = CHR ''%'' \<and> hex_char a \<and> hex_char b
      then char_of (16 * hex_value a + hex_value b) # unquote s
      else c # unquote (a # b # s))"
| "unquote s = s"

definition unquote_plus :: "string \<Rightarrow> string" where
  "unquote_plus s = unquote (map (\<lambda>c. if c = CHR ''+'' then CHR '' '' else c) s)"

definition parse_qsl :: "string \<Rightarrow> (string \<times> string) list" where
  "parse_qsl q =
     map (\<lambda>nv. case partition_on CHR ''='' nv of (n, _, v) \<Rightarrow> (unquote_plus n, unquote_plus v))
       (filter (\<lambda>nv. nv \<noteq> []) (split_on CHR ''&'' q))"

definition urlencode :: "(string \<times> string) list \<Rightarrow> string" where
  "urlencode items = join ''&'' (map (\<lambda>(k, v). quote_plus k @ ''='' @ quote_plus v) items)"

subsection \<open>\<open>posixpath.normpath\<close>\<close>

fun norm_components :: "bool \<Rightarrow> string list \<Rightarrow> string list \<Rightarrow> string list" where
  "norm_components rooted done [] = rev done"
| "norm_components rooted done (c # cs) =
     (if c = [] \<or> c = ''.'' then norm_components rooted done cs
      else if c \<noteq> ''..'' \<or> \<not> rooted \<and> done = [] \<or> done \<noteq> [] \<and> hd done = ''..''
      then norm_components rooted (c # done) cs
      else norm_components rooted (tl done) cs)"

definition normpath :: "string \<Rightarrow> string" where
  "normpath p =
     (if p = [] then ''.''
      else let slashes = (if prefix ''//'' p \<and> \<not> prefix ''///'' p then ''//''
                          else if prefix ''/'' p then ''/'' else []);
               out = slashes @ join ''/'' (norm_components (slashes \<noteq> []) [] (split_on CHR ''/'' p))
           in if out = [] then ''.'' else out)"

end
