(* ===== verification/Url_Facts.thy ===== *)
theory Url_Facts
  imports Py_Url
begin

text \<open>
  What the program relies on of \<open>urllib.parse\<close>, proved on the definitions of \<open>Py_Url\<close>: an absolute
  URL is read back by \<open>urlsplit\<close> exactly as \<open>urlunsplit\<close> wrote it, a query written by \<open>urlencode\<close> is
  read back by \<open>parse_qsl\<close>, quoting only writes characters of its alphabet.
\<close>

named_theorems url_simps "rules for reading URLs back"

subsection \<open>Partitions\<close>

lemma partition_on_none [url_simps]: "c \<notin> set s \<Longrightarrow> partition_on c s = (s, False, [])"
proof -
  assume no: "c \<notin> set s"
  then have "takeWhile (\<lambda>x. x \<noteq> c) s = s" by (auto simp: takeWhile_eq_all_conv)
  moreover have "dropWhile (\<lambda>x. x \<noteq> c) s = []" using no by (auto simp: dropWhile_eq_Nil_conv)
  ultimately show ?thesis using no by (simp only: partition_on_def drop_Nil)
qed

lemma partition_on_hit [url_simps]: "c \<notin> set s \<Longrightarrow> partition_on c (s @ c # t) = (s, True, t)"
  by (auto simp: partition_on_def takeWhile_tail dropWhile_append3 takeWhile_append dropWhile_append)

lemma rpartition_on_none [url_simps]: "c \<notin> set s \<Longrightarrow> rpartition_on c s = ([], False, s)"
  by (simp add: rpartition_on_def)

lemma partition_on_parts:
  assumes "partition_on c s = (a, found, b)"
  shows "c \<notin> set a" and "found \<longleftrightarrow> c \<in> set s" and "set a \<subseteq> set s" and "set b \<subseteq> set s"
    and "found \<Longrightarrow> s = a @ c # b"
proof -
  from assms have eqs: "a = takeWhile (\<lambda>x. x \<noteq> c) s" "found = (c \<in> set s)"
    "b = drop 1 (dropWhile (\<lambda>x. x \<noteq> c) s)"
    by (simp_all add: partition_on_def)
  show "c \<notin> set a" using eqs by (auto dest: set_takeWhileD)
  show "found \<longleftrightarrow> c \<in> set s" using eqs by simp
  show "set a \<subseteq> set s" using eqs by (auto dest: set_takeWhileD)
  show "set b \<subseteq> set s" using eqs by (auto dest!: in_set_dropD set_dropWhileD)
  show "s = a @ c # b" if found
  proof -
    from that eqs have "c \<in> set s" by simp
    then have ne: "dropWhile (\<lambda>x. x \<noteq> c) s \<noteq> []" by auto
    have "hd (dropWhile (\<lambda>x. x \<noteq> c) s) = c" using hd_dropWhile [OF ne] by simp
    with ne eqs(3) have "dropWhile (\<lambda>x. x \<noteq> c) s = c # b"
      by (metis One_nat_def drop0 drop_Suc list.exhaust_sel)
    with eqs(1) show ?thesis by (metis takeWhile_dropWhile_id)
  qed
qed

subsection \<open>Reading an absolute URL back\<close>

definition web_scheme :: "string \<Rightarrow> bool" where
  "web_scheme s \<longleftrightarrow> s = ''http'' \<or> s = ''https''"

definition layout_char :: "char \<Rightarrow> bool" where
  "layout_char c \<longleftrightarrow> code c \<in> {9, 10, 13}"

definition absolute_parts :: "url \<Rightarrow> bool" where
  "absolute_parts u \<longleftrightarrow>
     web_scheme (u_scheme u) \<and> u_netloc u \<noteq> [] \<and> u_fragment u = [] \<and>
     list_all (\<lambda>c. \<not> layout_char c \<and> \<not> netloc_end c) (u_netloc u) \<and>
     (u_path u = [] \<or> hd (u_path u) = CHR ''/'') \<and>
     list_all (\<lambda>c. \<not> layout_char c \<and> c \<noteq> CHR ''?'' \<and> c \<noteq> CHR ''#'') (u_path u) \<and>
     list_all (\<lambda>c. \<not> layout_char c \<and> c \<noteq> CHR ''#'') (u_query u)"

lemma absolute_partsD:
  assumes "absolute_parts u"
  shows "web_scheme (u_scheme u)" and "u_netloc u \<noteq> []" and "u_fragment u = []"
    and "list_all (\<lambda>c. \<not> netloc_end c) (u_netloc u)"
    and "u_path u = [] \<or> hd (u_path u) = CHR ''/''"
    and "CHR ''?'' \<notin> set (u_path u)" and "CHR ''#'' \<notin> set (u_path u)" and "CHR ''#'' \<notin> set (u_query u)"
  using assms unfolding absolute_parts_def list_all_iff by blast+

lemma filter_layout: "list_all (\<lambda>c. \<not> layout_char c) s \<Longrightarrow> filter (\<lambda>c. code c \<notin> {9, 10, 13}) s = s"
  by (auto simp: list_all_iff layout_char_def intro!: filter_True)

lemma split_scheme_web:
  "web_scheme s \<Longrightarrow> split_scheme d (s @ CHR '':'' # t) = (s, t)"
  by (auto simp: web_scheme_def split_scheme_def partition_on_def scheme_char_def alnum_char_def
      alpha_char_def upper_char_def lower_char_def casefold_def to_lower_def)

lemma split_netloc_web:
  assumes "list_all (\<lambda>c. \<not> netloc_end c) n" and "t = [] \<or> netloc_end (hd t)"
  shows "split_netloc (''//'' @ n @ t) = (n, t)"
proof -
  from assms(1) have "takeWhile (\<lambda>c. \<not> netloc_end c) (n @ t) = n @ takeWhile (\<lambda>c. \<not> netloc_end c) t"
    "dropWhile (\<lambda>c. \<not> netloc_end c) (n @ t) = dropWhile (\<lambda>c. \<not> netloc_end c) t"
    by (auto simp: list_all_iff)
  moreover from assms(2) have "takeWhile (\<lambda>c. \<not> netloc_end c) t = []"
    "dropWhile (\<lambda>c. \<not> netloc_end c) t = t"
    by (cases t; auto)+
  ultimately show ?thesis by (simp add: split_netloc_def)
qed

lemma urlunsplit_absolute:
  assumes "absolute_parts u"
  shows "urlunsplit u = u_scheme u @ CHR '':'' # ''//'' @ u_netloc u @ u_path u @
           (if u_query u = [] then [] else CHR ''?'' # u_query u)"
  using assms by (auto simp: absolute_parts_def urlunsplit_def Let_def web_scheme_def)

lemma url_clean_absolute:
  assumes "absolute_parts u"
  shows "url_clean (urlunsplit u) = urlunsplit u"
proof -
  have sch: "list_all (\<lambda>c. \<not> layout_char c) (u_scheme u)" "32 < code (hd (u_scheme u))" "u_scheme u \<noteq> []"
    using assms by (auto simp: absolute_parts_def web_scheme_def layout_char_def)
  have ok: "list_all (\<lambda>c. \<not> layout_char c) (urlunsplit u)"
    using assms sch(1) unfolding urlunsplit_absolute [OF assms]
    by (auto simp: absolute_parts_def list_all_iff layout_char_def)
  have "lstrip_of (\<lambda>c. code c \<le> 32) (urlunsplit u) = urlunsplit u"
    unfolding urlunsplit_absolute [OF assms] lstrip_of_def using sch(2,3)
    by (cases "u_scheme u") auto
  then show ?thesis unfolding url_clean_def by (simp only: filter_layout [OF ok])
qed

lemma urlsplit_urlunsplit:
  assumes u: "absolute_parts u"
  shows "urlsplit (urlunsplit u) = bindE (check_netloc_brackets (u_netloc u)) (\<lambda>_. Inr u)"
proof -
  define q where "q = (if u_query u = [] then [] else CHR ''?'' # u_query u)"
  have unsplit: "urlunsplit u = u_scheme u @ CHR '':'' # ''//'' @ u_netloc u @ (u_path u @ q)"
    using urlunsplit_absolute [OF u] by (simp add: q_def)
  have tail: "u_path u @ q = [] \<or> netloc_end (hd (u_path u @ q))"
  proof (cases "u_path u")
    case Nil
    then show ?thesis by (simp add: q_def netloc_end_def)
  next
    case (Cons c cs)
    with absolute_partsD(5) [OF u] have "c = CHR ''/''" by simp
    with Cons show ?thesis by (simp add: netloc_end_def)
  qed
  note nl = absolute_partsD(4) [OF u] and sch = absolute_partsD(1) [OF u]
  have hash: "partition_on CHR ''#'' (u_path u @ q) = (u_path u @ q, False, [])"
    using absolute_partsD(7,8) [OF u] by (intro partition_on_none) (simp add: q_def)
  note path = absolute_partsD(6) [OF u]
  have mark: "\<exists>f. partition_on CHR ''?'' (u_path u @ q) = (u_path u, f, u_query u)"
    using partition_on_hit [OF path, of "u_query u"] partition_on_none [OF path]
    by (cases "u_query u = []") (auto simp: q_def)
  note frag = absolute_partsD(3) [OF u]
  have scheme_eq: "split_scheme [] (urlunsplit u) = (u_scheme u, ''//'' @ u_netloc u @ (u_path u @ q))"
    unfolding unsplit by (rule split_scheme_web [OF sch])
  have netloc_eq: "split_netloc (''//'' @ u_netloc u @ (u_path u @ q)) = (u_netloc u, u_path u @ q)"
    by (rule split_netloc_web [OF nl tail])
  from mark obtain f where mk: "partition_on CHR ''?'' (u_path u @ q) = (u_path u, f, u_query u)" ..
  have eq: "u = \<lparr>u_scheme = u_scheme u, u_netloc = u_netloc u, u_path = u_path u,
      u_query = u_query u, u_fragment = []\<rparr>" using frag by simp
  show ?thesis
    unfolding urlsplit_in_def url_clean_absolute [OF u] scheme_eq prod.case netloc_eq hash mk
    using eq by simp
qed

subsection \<open>Queries\<close>

definition query_char :: "char \<Rightarrow> bool" where
  "query_char c \<longleftrightarrow> always_safe c \<or> c \<in> set ''+%''"

lemma hex_digit_safe: "n < 16 \<Longrightarrow> always_safe (hex_digit n)"
  by (auto simp: always_safe_def alnum_char_def alpha_char_def upper_char_def digit_char_def
      hex_digit_def)

lemma code_less_256: "code c < (256::nat)"
  by (metis char_of_char of_char_of mod_less_divisor zero_less_numeral)

lemma safe_not_special:
  "always_safe c \<Longrightarrow> c \<noteq> CHR '' '' \<and> c \<noteq> CHR ''+'' \<and> c \<noteq> CHR ''%''"
  by (auto simp: always_safe_def alnum_char_def alpha_char_def upper_char_def lower_char_def
      digit_char_def)

lemma code_div_mod: "code c div 16 < 16" "code c mod 16 < (16::nat)"
  using code_less_256 [of c] by (auto simp: div_less_iff_less_mult)

lemma map_percent_byte:
  "f CHR ''%'' = CHR ''%'' \<Longrightarrow> (\<And>x. always_safe x \<Longrightarrow> f x = x) \<Longrightarrow>
     map f (percent_byte (code c)) = percent_byte (code c)"
  using code_div_mod [of c] by (simp add: percent_byte_def hex_digit_safe)

lemma set_percent_byte: "x \<in> set (percent_byte (code c)) \<Longrightarrow> x = CHR ''%'' \<or> always_safe x"
  using code_div_mod [of c] by (auto simp: percent_byte_def hex_digit_safe)

lemma set_quote: "x \<in> set (quote safe s) \<Longrightarrow> always_safe x \<or> x \<in> set safe \<or> x = CHR ''%''"
  by (auto simp: quote_def split: if_splits dest: set_percent_byte)

lemma query_char_quote_plus: "x \<in> set (quote_plus s) \<Longrightarrow> query_char x"
  by (auto simp: quote_plus_def query_char_def dest!: set_quote)

lemma query_char_plain:
  "query_char x \<Longrightarrow> x \<noteq> CHR ''&'' \<and> x \<noteq> CHR ''='' \<and> x \<noteq> CHR ''#'' \<and> x \<noteq> CHR '' '' \<and> \<not> layout_char x"
  by (auto simp: query_char_def always_safe_def alnum_char_def alpha_char_def upper_char_def
      lower_char_def digit_char_def layout_char_def)

lemma quote_plus_Cons:
  "quote_plus (c # s) =
     (if c = CHR '' '' then ''+'' else if always_safe c then [c] else percent_byte (code c)) @ quote_plus s"
proof -
  have "map (\<lambda>x. if x = CHR '' '' then CHR ''+'' else x) (percent_byte (code c)) = percent_byte (code c)"
    by (rule map_percent_byte) (auto dest: safe_not_special)
  moreover have "\<not> always_safe CHR '' ''"
    by (simp add: always_safe_def alnum_char_def alpha_char_def upper_char_def lower_char_def
        digit_char_def)
  ultimately show ?thesis by (auto simp: quote_plus_def quote_def)
qed

lemma unquote_plain: "c \<noteq> CHR ''%'' \<Longrightarrow> unquote (c # s) = c # unquote s"
  by (cases s; cases "tl s") auto

lemma unquote_percent:
  assumes "n < 256"
  shows "unquote (percent_byte n @ s) = char_of n # unquote s"
proof -
  have "n div 16 < 16" "n mod 16 < 16" using assms by (auto simp: div_less_iff_less_mult)
  then show ?thesis by (simp add: percent_byte_def hex_digit_roundtrip)
qed

lemma percent_byte_no_plus:
  "map (\<lambda>x. if x = CHR ''+'' then CHR '' '' else x) (percent_byte (code c)) = percent_byte (code c)"
  by (rule map_percent_byte) (auto dest: safe_not_special)

lemma unquote_quote_plus [url_simps]: "unquote_plus (quote_plus s) = s"
proof (induction s)
  case Nil
  then show ?case by (simp add: quote_plus_def quote_def unquote_plus_def)
next
  case (Cons c s)
  note safe = safe_not_special [of c]
  note byte = unquote_percent [of "code c", OF code_less_256]
  show ?case
    using Cons safe byte
    by (auto simp: quote_plus_Cons unquote_plus_def unquote_plain percent_byte_no_plus)
qed

lemma split_on_none: "c \<notin> set s \<Longrightarrow> split_on c s = [s]"
  by (induction s) auto

lemma split_on_hit: "c \<notin> set s \<Longrightarrow> split_on c (s @ c # t) = s # split_on c t"
  by (induction s) auto

lemma split_on_join_sep:
  "ws \<noteq> [] \<Longrightarrow> \<forall>w \<in> set ws. c \<notin> set w \<Longrightarrow> split_on c (join [c] ws) = ws"
  by (induction "[c]" ws rule: join.induct) (auto simp: split_on_none split_on_hit)

definition item_text :: "string \<times> string \<Rightarrow> string" where
  "item_text item = quote_plus (fst item) @ ''='' @ quote_plus (snd item)"

lemma urlencode_items: "urlencode items = join ''&'' (map item_text items)"
proof -
  have "item_text = (\<lambda>(k, v). quote_plus k @ ''='' @ quote_plus v)"
    by (auto simp: item_text_def fun_eq_iff)
  then show ?thesis by (simp only: urlencode_def)
qed

lemma item_text_no_amp: "CHR ''&'' \<notin> set (item_text i)"
  by (auto simp: item_text_def dest!: query_char_quote_plus query_char_plain)

lemma partition_item_text:
  "partition_on CHR ''='' (item_text i) = (quote_plus (fst i), True, quote_plus (snd i))"
  unfolding item_text_def append_Cons append_Nil
  by (rule partition_on_hit) (auto dest!: query_char_quote_plus query_char_plain)

lemma parse_qsl_urlencode [url_simps]: "parse_qsl (urlencode items) = items"
proof (cases "items = []")
  case True
  then show ?thesis by (simp add: urlencode_def parse_qsl_def)
next
  case False
  then have "split_on CHR ''&'' (urlencode items) = map item_text items"
    unfolding urlencode_items by (intro split_on_join_sep) (auto simp: item_text_no_amp)
  moreover have "filter (\<lambda>nv. nv \<noteq> []) (map item_text items) = map item_text items"
    by (auto intro!: filter_True simp: item_text_def)
  ultimately show ?thesis
    by (simp add: parse_qsl_def partition_item_text unquote_quote_plus comp_def)
qed

lemma set_join: "x \<in> set (join sep ws) \<Longrightarrow> x \<in> set sep \<or> (\<exists>w \<in> set ws. x \<in> set w)"
  by (induction sep ws rule: join.induct) auto

lemma set_urlencode:
  "x \<in> set (urlencode items) \<Longrightarrow> query_char x \<or> x = CHR ''&'' \<or> x = CHR ''=''"
  unfolding urlencode_items
  by (drule set_join) (auto simp: item_text_def dest: query_char_quote_plus)

end
