(* ===== verification/Urls.thy ===== *)
theory Urls
  imports Url_Facts "HOL-Library.Product_Lexorder" "HOL-Library.Multiset"
begin

text \<open>
  \<open>audit_engine/urls.py\<close>: canonicalisation of URLs, the approved-domain boundary and the SSRF guard.
  The DNS resolver is a parameter (\<open>socket.getaddrinfo\<close> or an injected one): it raises or returns a
  list of answers, each the first component of its socket address, \<open>None\<close> for a malformed answer
  (the \<open>IndexError\<close>/\<open>TypeError\<close> branch).
\<close>

subsection \<open>Canonical hosts\<close>

definition TRACKING_PARAMETERS :: "string list" where
  "TRACKING_PARAMETERS = [''fbclid'', ''gclid'', ''dclid'', ''msclkid'', ''mc_cid'', ''mc_eid'', ''ref'',
     ''ref_src'', ''vero_conv'', ''vero_id'']"

definition is_tracking_parameter :: "string \<Rightarrow> bool" where
  "is_tracking_parameter name \<longleftrightarrow>
     (let lowered = casefold name in prefix ''utm_'' lowered \<or> lowered \<in> set TRACKING_PARAMETERS)"

text \<open>The \<open>idna\<close> codec on ASCII input: every label but the last is 1 to 63 long, the last at most 63.\<close>

definition idna_ascii :: "string \<Rightarrow> string option" where
  "idna_ascii s =
     (let labels = split_on CHR ''.'' s in
      if list_all (\<lambda>l. l \<noteq> [] \<and> length l < 64) (butlast labels) \<and> length (last labels) < 64
      then Some s else None)"

definition canonical_host :: "string \<Rightarrow> exn + string" where
  "canonical_host host =
     (let candidate = casefold (rstrip_of (\<lambda>c. c = CHR ''.'') (strip host)) in
      if candidate = [] \<or> 253 < length candidate
      then Inl (URLValidationError ''URL host is missing or too long'')
      else case idna_ascii candidate of
          None \<Rightarrow> Inl (URLValidationError ''URL host contains invalid international characters'')
        | Some encoded \<Rightarrow>
            if list_ex (\<lambda>l. l = [] \<or> 63 < length l) (split_on CHR ''.'' encoded)
            then Inl (URLValidationError ''URL host contains an invalid label'')
            else Inr encoded)"

subsection \<open>Path escapes\<close>

definition unreserved :: "char \<Rightarrow> bool" where
  "unreserved c \<longleftrightarrow> alnum_char c \<or> c \<in> set ''-._~''"

fun bad_percent :: "string \<Rightarrow> bool" where
  "bad_percent [] = False"
| "bad_percent (c # s) =
     (if c = CHR ''%'' \<and> \<not> (2 \<le> length s \<and> list_all hex_char (take 2 s)) then True else bad_percent s)"

fun decode_unreserved :: "string \<Rightarrow> exn + string" where
  "decode_unreserved (c # a # b # s) =
     (if c = CHR ''%''
      then (let byte = 16 * hex_value a + hex_value b in
        if byte \<in> {0, 92} \<or> byte < 32 \<or> byte = 127
        then Inl (URLValidationError ''URL path contains a prohibited encoded character'')
        else mapR (\<lambda>r. (if unreserved (char_of byte) then [char_of byte] else percent_byte byte) @ r)
               (decode_unreserved s))
      else mapR (\<lambda>r. c # r) (decode_unreserved (a # b # s)))"
| "decode_unreserved s = Inr s"

definition normalize_escaped_path :: "string \<Rightarrow> exn + string" where
  "normalize_escaped_path path =
     (if bad_percent path then Inl (URLValidationError ''URL path contains an invalid percent escape'')
      else decode_unreserved path)"

subsection \<open>Normalised URLs\<close>

definition path_safe :: string where
  "path_safe = ''/%:@!$&'' @ [CHR 0x27] @ ''()*+,;=-._~''"

definition clean_path :: "string \<Rightarrow> string" where
  "clean_path decoded =
     (let p = normpath decoded;
          p = (if prefix ''/'' p then p else ''/'' @ p);
          p = (if suffix ''/'' decoded \<and> p \<noteq> ''/'' then p @ ''/'' else p)
      in quote path_safe p)"

definition item_key :: "string \<times> string \<Rightarrow> string \<times> string" where
  "item_key item = (casefold (fst item), snd item)"

definition clean_items :: "bool \<Rightarrow> bool \<Rightarrow> (string \<times> string) list \<Rightarrow> (string \<times> string) list" where
  "clean_items strip_tracking sort_query items =
     (let kept = (if strip_tracking then filter (\<lambda>i. \<not> is_tracking_parameter (fst i)) items else items)
      in if sort_query then sort_key item_key kept else kept)"

definition clean_netloc :: "string \<Rightarrow> string \<Rightarrow> nat option \<Rightarrow> string" where
  "clean_netloc scheme host p =
     (let port_part = (case p of None \<Rightarrow> []
            | Some n \<Rightarrow> if scheme = ''http'' \<and> n = 80 \<or> scheme = ''https'' \<and> n = 443 then []
                        else CHR '':'' # str_of_nat n)
      in if CHR '':'' \<in> set host then ''['' @ host @ '']'' @ port_part else host @ port_part)"

definition normalize_parsed :: "bool \<Rightarrow> bool \<Rightarrow> url \<Rightarrow> exn + string" where
  "normalize_parsed strip_tracking sort_query parsed =
     (let scheme = casefold (u_scheme parsed) in
      if scheme \<notin> {''http'', ''https''} then Inl (URLValidationError ''Only HTTP and HTTPS URLs are allowed'')
      else if has_userinfo parsed then Inl (URLValidationError ''Credential-bearing URLs are not allowed'')
      else case hostname parsed of
          None \<Rightarrow> Inl (URLValidationError ''URL must contain a host'')
        | Some h \<Rightarrow>
            if h = [] then Inl (URLValidationError ''URL must contain a host'')
            else bindE (canonical_host h) (\<lambda>host.
              tryE is_value_error (port parsed)
                (\<lambda>_. Inl (URLValidationError ''URL port is invalid''))
                (\<lambda>p. if p = Some 0 \<or> opt_any (\<lambda>n. 65535 < n) p
                     then Inl (URLValidationError ''URL port is outside the valid range'')
                     else bindE (normalize_escaped_path
                                  (if u_path parsed = [] then ''/'' else u_path parsed)) (\<lambda>decoded.
                       if CHR 0x5C \<in> set decoded \<or> CHR 0x00 \<in> set decoded
                       then Inl (URLValidationError ''URL path contains prohibited characters'')
                       else Inr (urlunsplit
                         \<lparr>u_scheme = scheme, u_netloc = clean_netloc scheme host p,
                          u_path = clean_path decoded,
                          u_query = urlencode (clean_items strip_tracking sort_query
                                      (parse_qsl (u_query parsed))),
                          u_fragment = []\<rparr>)))))"

definition normalize_url_with ::
    "string option \<Rightarrow> bool \<Rightarrow> bool \<Rightarrow> nat \<Rightarrow> string \<Rightarrow> exn + string" where
  "normalize_url_with base strip_tracking sort_query max_length raw =
     (let candidate = strip raw in
      if candidate = [] \<or> list_ex (\<lambda>c. code c < 32 \<or> code c = 127) candidate
      then Inl (URLValidationError ''URL is empty or contains control characters'')
      else if max_length < length candidate
      then Inl (URLValidationError ''URL exceeds the configured length limit'')
      else bindE (case base of None \<Rightarrow> Inr candidate
                  | Some b \<Rightarrow> if b = [] then Inr candidate else urljoin b candidate) (\<lambda>joined.
        bindE (urlsplit joined) (\<lambda>parsed.
        bindE (normalize_parsed strip_tracking sort_query parsed) (\<lambda>normalized.
        if max_length < length normalized
        then Inl (URLValidationError ''Normalized URL exceeds the configured length limit'')
        else Inr normalized))))"

definition normalize_url :: "string \<Rightarrow> exn + string" where
  "normalize_url raw = normalize_url_with None True True 8192 raw"

definition normalize_url_base :: "string \<Rightarrow> string \<Rightarrow> exn + string" where
  "normalize_url_base base raw = normalize_url_with (Some base) True True 8192 raw"

subsection \<open>The approved-domain boundary\<close>

definition within_boundary :: "string \<Rightarrow> string \<Rightarrow> bool" where
  "within_boundary boundary host \<longleftrightarrow> host = boundary \<or> suffix (CHR ''.'' # boundary) host"

fun allowed_by :: "string \<Rightarrow> string list \<Rightarrow> exn + bool" where
  "allowed_by normalized [] = Inr False"
| "allowed_by normalized (approved # rest) =
     bindE (canonical_host approved) (\<lambda>boundary.
       if within_boundary boundary normalized then Inr True else allowed_by normalized rest)"

definition host_is_allowed :: "string \<Rightarrow> string list \<Rightarrow> exn + bool" where
  "host_is_allowed host allowed_domains =
     bindE (canonical_host host) (\<lambda>normalized. allowed_by normalized allowed_domains)"

definition require_allowed_url :: "string list \<Rightarrow> string \<Rightarrow> exn + string" where
  "require_allowed_url allowed_domains url =
     bindE (normalize_url url) (\<lambda>normalized.
     bindE (urlsplit normalized) (\<lambda>parsed.
     case hostname parsed of
       None \<Rightarrow> Inl (AssertionError ''host is not None'')
     | Some host \<Rightarrow>
         bindE (host_is_allowed host allowed_domains) (\<lambda>ok.
           if ok then Inr normalized
           else Inl (URLValidationError ''URL host is outside the approved project domains''))))"

subsection \<open>The SSRF guard\<close>

definition drop_scope :: "string \<Rightarrow> string" where
  "drop_scope s = fst (partition_on CHR ''%'' s)"

definition is_public_ip :: "string \<Rightarrow> bool" where
  "is_public_ip value = (case ip_address (drop_scope value) of None \<Rightarrow> False | Some a \<Rightarrow> is_global a)"

type_synonym resolver = "string \<Rightarrow> nat \<Rightarrow> exn + string option list"

record resolved_target =
  rt_url :: string
  rt_host :: string
  rt_port :: nat
  rt_ips :: "string list"

record ssrf_guard =
  g_domains :: "string list"
  g_answers :: int

definition make_guard :: "string list \<Rightarrow> int \<Rightarrow> exn + ssrf_guard" where
  "make_guard domains max_answers =
     bindE (mapE canonical_host domains) (\<lambda>ds.
       if ds = [] then Inl (ValueError ''At least one approved domain is required'')
       else Inr \<lparr>g_domains = ds, g_answers = max_answers\<rparr>)"

text \<open>\<open>xs[:n]\<close> with a Python index.\<close>

definition slice_to :: "int \<Rightarrow> 'a list \<Rightarrow> 'a list" where
  "slice_to n xs = (if 0 \<le> n then take (nat n) xs else take (length xs - nat (- n)) xs)"

fun collect_ips :: "string list \<Rightarrow> string option list \<Rightarrow> exn + string list" where
  "collect_ips ips [] = Inr ips"
| "collect_ips ips (None # as) = collect_ips ips as"
| "collect_ips ips (Some a # as) =
     (let candidate = drop_scope a in
      if \<not> is_public_ip candidate
      then Inl (SSRFBlockedError ''Target resolves to a non-public network address'')
      else case ip_address candidate of
          None \<Rightarrow> Inl (ValueError ''not an IP address'')
        | Some i \<Rightarrow> collect_ips (ip_text i # ips) as)"

definition default_port :: "string \<Rightarrow> nat" where
  "default_port scheme = (if scheme = ''https'' then 443 else 80)"

definition validate :: "resolver \<Rightarrow> ssrf_guard \<Rightarrow> string \<Rightarrow> exn + resolved_target" where
  "validate resolve g url =
     bindE (require_allowed_url (g_domains g) url) (\<lambda>normalized.
     bindE (urlsplit normalized) (\<lambda>parsed.
     case hostname parsed of
       None \<Rightarrow> Inl (AssertionError ''hostname is not None'')
     | Some h \<Rightarrow>
         bindE (canonical_host h) (\<lambda>host.
         bindE (port parsed) (\<lambda>p.
         let prt = (case p of None \<Rightarrow> default_port (u_scheme parsed)
                    | Some n \<Rightarrow> if n = 0 then default_port (u_scheme parsed) else n) in
         tryE (\<lambda>e. case e of OSError m \<Rightarrow> True | _ \<Rightarrow> False) (resolve host prt)
           (\<lambda>_. Inl (SSRFBlockedError ''Approved host could not be resolved safely''))
           (\<lambda>answers.
             bindE (collect_ips [] (slice_to (g_answers g) answers)) (\<lambda>ips.
             if ips = [] then Inl (SSRFBlockedError ''Target has no safe public DNS answers'')
             else Inr \<lparr>rt_url = normalized, rt_host = host, rt_port = prt,
                       rt_ips = sorted_set ips\<rparr>))))))"

definition validate_redirect ::
    "resolver \<Rightarrow> ssrf_guard \<Rightarrow> string \<Rightarrow> string \<Rightarrow> exn + resolved_target" where
  "validate_redirect resolve g previous_url location =
     (if location = [] \<or> list_ex (\<lambda>c. code c < 32) location
      then Inl (SSRFBlockedError ''Redirect target is missing or malformed'')
      else bindE (urljoin previous_url location) (\<lambda>target. validate resolve g target))"

subsection \<open>Hosts\<close>

lemma canonical_hostD:
  assumes "canonical_host h = Inr b"
  shows "b \<noteq> []" and "length b \<le> 253" and "casefold b = b" and "set b \<subseteq> to_lower ` set h"
    and "\<forall>l \<in> set (split_on CHR ''.'' b). l \<noteq> [] \<and> length l \<le> 63"
proof -
  define c where "c = casefold (rstrip_of (\<lambda>c. c = CHR ''.'') (strip h))"
  from assms have b: "b = c" and c: "c \<noteq> []" "length c \<le> 253"
      and labels: "\<not> list_ex (\<lambda>l. l = [] \<or> 63 < length l) (split_on CHR ''.'' b)"
    by (auto simp: canonical_host_def Let_def c_def idna_ascii_def split: if_splits option.splits)
  from b c show "b \<noteq> []" "length b \<le> 253" by simp_all
  show "casefold b = b" unfolding b c_def by simp
  show "set b \<subseteq> to_lower ` set h"
    using set_rstrip_of [of _ "strip h"] set_strip [of h] unfolding b c_def casefold_def by fastforce
  from labels show "\<forall>l \<in> set (split_on CHR ''.'' b). l \<noteq> [] \<and> length l \<le> 63"
    by (auto simp: list_ex_iff)
qed

lemma to_lower_other: "\<not> lower_char d \<Longrightarrow> to_lower c = d \<Longrightarrow> c = d"
  by (auto simp: to_lower_def upper_char_def lower_char_def split: if_splits)

lemma in_canonical_host:
  "canonical_host h = Inr b \<Longrightarrow> d \<in> set b \<Longrightarrow> \<not> lower_char d \<Longrightarrow> d \<in> set h"
proof -
  assume h: "canonical_host h = Inr b" and d: "d \<in> set b" "\<not> lower_char d"
  from canonical_hostD(4) [OF h] d(1) obtain c where "c \<in> set h" "to_lower c = d" by blast
  with to_lower_other [OF d(2), of c] show ?thesis by simp
qed

lemma split_netlocD:
  assumes "split_netloc s = (n, t)"
  shows "\<forall>c \<in> set n. \<not> netloc_end c \<and> c \<in> set s" and "n \<noteq> [] \<longrightarrow> t = [] \<or> netloc_end (hd t)"
    and "set t \<subseteq> set s"
proof -
  let ?r = "drop 2 s"
  have cases: "n = takeWhile (\<lambda>c. \<not> netloc_end c) ?r \<and> t = dropWhile (\<lambda>c. \<not> netloc_end c) ?r
      \<or> n = [] \<and> t = s"
    using assms by (auto simp: split_netloc_def split: if_splits)
  then show "\<forall>c \<in> set n. \<not> netloc_end c \<and> c \<in> set s"
    by (auto dest: set_takeWhileD in_set_dropD)
  show "n \<noteq> [] \<longrightarrow> t = [] \<or> netloc_end (hd t)"
    using cases hd_dropWhile [of "\<lambda>c. \<not> netloc_end c" ?r] by blast
  show "set t \<subseteq> set s"
    using cases by (auto dest: set_dropWhileD in_set_dropD)
qed

lemma urlsplit_netlocD:
  assumes "urlsplit s = Inr u"
  shows "\<forall>c \<in> set (u_netloc u). \<not> netloc_end c \<and> \<not> layout_char c"
    and "check_netloc_brackets (u_netloc u) = Inr ()"
    and "u_netloc u \<noteq> [] \<longrightarrow> u_path u = [] \<or> hd (u_path u) = CHR ''/''"
    and "CHR ''?'' \<notin> set (u_path u)" and "CHR ''#'' \<notin> set (u_path u)"
proof -
  obtain sch s1 n s2 s3 f1 frag path f2 query where
    sch: "split_scheme [] (url_clean s) = (sch, s1)" and n: "split_netloc s1 = (n, s2)"
    and s3: "partition_on CHR ''#'' s2 = (s3, f1, frag)"
    and path: "partition_on CHR ''?'' s3 = (path, f2, query)"
    by (metis prod_cases3 surj_pair)
  from assms sch n s3 path have u: "u_netloc u = n" "u_path u = path"
    and ok: "check_netloc_brackets n = Inr ()"
    by (auto simp: urlsplit_in_def bindE_Inr_iff)
  have clean: "\<not> layout_char c" if "c \<in> set (url_clean s)" for c
    using that by (simp add: url_clean_def layout_char_def)
  have "set s1 \<subseteq> set (url_clean s)"
    using sch partition_on_parts(4) [of "CHR '':''" "url_clean s"]
    by (auto simp: split_scheme_def split: prod.splits if_splits)
  with split_netlocD(1) [OF n] clean u(1)
  show "\<forall>c \<in> set (u_netloc u). \<not> netloc_end c \<and> \<not> layout_char c" by blast
  show "check_netloc_brackets (u_netloc u) = Inr ()" using ok u by simp
  have tail: "s2 = [] \<or> netloc_end (hd s2)" if "n \<noteq> []" using split_netlocD(2) [OF n] that by simp
  show "u_netloc u \<noteq> [] \<longrightarrow> u_path u = [] \<or> hd (u_path u) = CHR ''/''"
  proof
    assume "u_netloc u \<noteq> []"
    then have "s2 = [] \<or> netloc_end (hd s2)" using tail u by simp
    moreover have "path = takeWhile (\<lambda>x. x \<noteq> CHR ''?'') (takeWhile (\<lambda>x. x \<noteq> CHR ''#'') s2)"
      using s3 path by (auto simp: partition_on_def)
    ultimately show "u_path u = [] \<or> hd (u_path u) = CHR ''/''"
      using u by (cases s2) (auto simp: netloc_end_def)
  qed
  show "CHR ''?'' \<notin> set (u_path u)" using partition_on_parts(1) [OF path] u by simp
  show "CHR ''#'' \<notin> set (u_path u)"
    using partition_on_parts(3) [OF path] partition_on_parts(1) [OF s3] u by auto
qed

lemma hostinfoD:
  assumes "hostinfo n = (h, p)" and "CHR ''@'' \<notin> set n" and "check_netloc_brackets n = Inr ()"
  shows "set h \<subseteq> set n" and "CHR '']'' \<notin> set h"
proof -
  have hp: "snd (snd (rpartition_on CHR ''@'' n)) = n" using assms(2) by (simp add: rpartition_on_def)
  obtain pre opened bracketed where b: "partition_on CHR ''['' n = (pre, opened, bracketed)"
    by (metis prod_cases3)
  obtain host closed rest where r: "partition_on CHR '']'' bracketed = (host, closed, rest)"
    by (metis prod_cases3)
  obtain host' colon rest' where c: "partition_on CHR '':'' n = (host', colon, rest')"
    by (metis prod_cases3)
  note b' = partition_on_parts(1-4) [OF b] and r' = partition_on_parts(1-4) [OF r]
    and c' = partition_on_parts(1-4) [OF c]
  have "hostinfo n = (if opened then (host, snd (snd (partition_on CHR '':'' rest))) else (host', rest'))"
    by (simp only: hostinfo_def hp b r c Let_def prod.case)
  with assms(1) have h: "h = (if opened then host else host')" by (simp split: if_splits)
  show "set h \<subseteq> set n" using h b'(4) r'(3) c'(3) by auto
  have "CHR '']'' \<notin> set n" if "\<not> opened"
    using assms(3) that b'(2) by (simp add: check_netloc_brackets_def split: if_splits)
  then show "CHR '']'' \<notin> set h" using h r'(1) c'(3) by auto
qed

subsection \<open>Paths\<close>

definition plain_segment :: "string \<Rightarrow> bool" where
  "plain_segment s \<longleftrightarrow> s \<noteq> ''.'' \<and> s \<noteq> ''..''"

lemma in_set_tlD: "x \<in> set (tl xs) \<Longrightarrow> x \<in> set xs"
  by (cases xs) auto

lemma set_norm_components:
  assumes "s \<in> set (norm_components rooted acc cs)"
  shows "s \<in> set acc \<union> set cs"
  using assms
  by (induction rooted acc cs rule: norm_components.induct) (auto split: if_splits dest: in_set_tlD)

lemma norm_components_rooted:
  assumes "\<forall>s \<in> set acc. s \<noteq> [] \<and> plain_segment s"
  shows "\<forall>s \<in> set (norm_components True acc cs). s \<noteq> [] \<and> plain_segment s"
  using assms
proof (induction cs arbitrary: acc)
  case Nil
  then show ?case by simp
next
  case (Cons c cs)
  have hd_plain: "acc = [] \<or> hd acc \<noteq> ''..''"
    using Cons.prems by (cases acc) (auto simp: plain_segment_def)
  consider "c = [] \<or> c = ''.''" | "c = ''..''" | "c \<noteq> []" "plain_segment c"
    by (auto simp: plain_segment_def)
  then show ?case
  proof cases
    case 1
    then show ?thesis using Cons.IH [OF Cons.prems] by auto
  next
    case 2
    have "\<forall>s \<in> set (tl acc). s \<noteq> [] \<and> plain_segment s" using Cons.prems by (auto dest: in_set_tlD)
    from Cons.IH [OF this] 2 hd_plain show ?thesis by auto
  next
    case 3
    then have "\<forall>s \<in> set (c # acc). s \<noteq> [] \<and> plain_segment s" using Cons.prems by simp
    from Cons.IH [OF this] 3 show ?thesis by (simp add: plain_segment_def)
  qed
qed

definition root_slashes :: "string \<Rightarrow> string" where
  "root_slashes p = (if prefix ''//'' p \<and> \<not> prefix ''///'' p then ''//'' else ''/'')"

lemma normpath_rooted:
  assumes "prefix ''/'' p"
  shows "normpath p = root_slashes p @ join ''/'' (norm_components True [] (split_on CHR ''/'' p))"
proof -
  from assms have "p \<noteq> []" by auto
  moreover from this assms have "root_slashes p = (if prefix ''//'' p \<and> \<not> prefix ''///'' p then ''//''
      else if prefix ''/'' p then ''/'' else [])"
    by (simp add: root_slashes_def)
  moreover have "root_slashes p \<noteq> []" by (simp add: root_slashes_def)
  ultimately show ?thesis by (simp only: normpath_def Let_def if_False append_is_Nil_conv) simp
qed

lemma split_slashes:
  "ws = [] \<or> (\<forall>w \<in> set ws. CHR ''/'' \<notin> set w) \<Longrightarrow>
   set (split_on CHR ''/'' (root_slashes p @ join ''/'' ws)) \<subseteq> insert [] (set ws)"
  by (cases "ws = []") (auto simp: root_slashes_def split_on_join_sep)

lemma split_on_app_sep: "split_on c (s @ [c]) = split_on c s @ [[]]"
  by (induction s) (auto split: list.splits)

definition lexical_path :: "string \<Rightarrow> string" where
  "lexical_path decoded =
     (let p = normpath decoded in if suffix ''/'' decoded \<and> p \<noteq> ''/'' then p @ ''/'' else p)"

lemma clean_path_rooted:
  assumes "prefix ''/'' d"
  shows "clean_path d = quote path_safe (lexical_path d)" and "prefix ''/'' (lexical_path d)"
proof -
  have n: "prefix ''/'' (normpath d)" unfolding normpath_rooted [OF assms] by (simp add: root_slashes_def)
  then show "clean_path d = quote path_safe (lexical_path d)"
    by (simp only: clean_path_def lexical_path_def Let_def if_True)
  from n show "prefix ''/'' (lexical_path d)"
    by (simp only: lexical_path_def Let_def prefix_prefix split: if_split) blast
qed

lemma lexical_path_plain:
  assumes "prefix ''/'' d" and "s \<in> set (split_on CHR ''/'' (lexical_path d))"
  shows "plain_segment s"
proof -
  let ?ws = "norm_components True [] (split_on CHR ''/'' d)"
  have ws: "\<forall>w \<in> set ?ws. CHR ''/'' \<notin> set w"
  proof
    fix w assume "w \<in> set ?ws"
    then have "w \<in> set (split_on CHR ''/'' d)" using set_norm_components [of w True "[]"] by simp
    then show "CHR ''/'' \<notin> set w" using split_by_no_sep [of "\<lambda>x. x = CHR ''/''" d] by blast
  qed
  have "set (split_on CHR ''/'' (lexical_path d)) \<subseteq> insert [] (set (split_on CHR ''/'' (normpath d)))"
    by (simp add: lexical_path_def Let_def split_on_app_sep subset_insertI)
  also have "\<dots> \<subseteq> insert [] (set ?ws)"
    using split_slashes [of ?ws d] ws unfolding normpath_rooted [OF assms(1)] by blast
  finally show ?thesis
    using assms(2) norm_components_rooted [of "[]"] by (auto simp: plain_segment_def)
qed

lemma quote_Nil [simp]: "quote safe [] = []"
  by (simp add: quote_def)

lemma quote_Cons:
  "quote safe (c # s) =
     (if always_safe c \<or> c \<in> set safe then [c] else percent_byte (code c)) @ quote safe s"
  by (simp add: quote_def)

fun map_hd :: "('a \<Rightarrow> 'a) \<Rightarrow> 'a list \<Rightarrow> 'a list" where
  "map_hd f [] = []"
| "map_hd f (x # xs) = f x # xs"

lemma split_on_quote:
  assumes "c \<in> set safe" and "\<not> always_safe c" and "c \<noteq> CHR ''%''"
  shows "split_on c (quote safe s) = map (quote safe) (split_on c s)"
proof (induction s)
  case Nil
  then show ?case by (simp add: quote_def)
next
  case (Cons x s)
  have "c \<notin> set (percent_byte (code x))" using set_percent_byte [of c x] assms by auto
  then obtain a b d where pb: "percent_byte (code x) = [a, b, d]" "a \<noteq> c" "b \<noteq> c" "d \<noteq> c"
    by (auto simp: percent_byte_def)
  have "split_on c (percent_byte (code x) @ t) = map_hd ((@) (percent_byte (code x))) (split_on c t)" for t
    using pb by (cases "split_on c t") auto
  with Cons assms show ?case by (cases "split_on c s") (auto simp: quote_Cons)
qed

lemma quote_short: "length (quote safe s) < 3 \<Longrightarrow> quote safe s = s"
proof (induction s)
  case Nil
  then show ?case by (simp add: quote_def)
next
  case (Cons c s)
  have "length (percent_byte n) = 3" for n by (simp add: percent_byte_def)
  with Cons show ?case by (auto simp: quote_Cons split: if_splits)
qed

lemma quote_plain: "plain_segment s \<Longrightarrow> plain_segment (quote safe s)"
  using quote_short [of safe s] by (auto simp: plain_segment_def)

lemma clean_path_segments:
  assumes "prefix ''/'' d" and "s \<in> set (split_on CHR ''/'' (clean_path d))"
  shows "plain_segment s"
proof -
  have "split_on CHR ''/'' (clean_path d) = map (quote path_safe) (split_on CHR ''/'' (lexical_path d))"
    unfolding clean_path_rooted(1) [OF assms(1)]
    by (rule split_on_quote) (auto simp: path_safe_def always_safe_def alnum_char_def alpha_char_def
        upper_char_def lower_char_def digit_char_def)
  with assms(2) show ?thesis using lexical_path_plain [OF assms(1)] quote_plain by auto
qed

subsection \<open>Normalised URLs are absolute and are read back\<close>

lemma decode_unreserved_slash:
  "decode_unreserved (CHR ''/'' # s) = Inr d \<Longrightarrow> prefix ''/'' d"
  by (cases s; cases "tl s") (auto simp: mapR_Inr_iff)

lemma set_clean_path:
  assumes "x \<in> set (clean_path d)"
  shows "\<not> layout_char x \<and> x \<noteq> CHR ''?'' \<and> x \<noteq> CHR ''#''"
proof -
  from assms have "always_safe x \<or> x \<in> set path_safe \<or> x = CHR ''%''"
    unfolding clean_path_def Let_def by (rule set_quote)
  then show ?thesis
    by (auto simp: path_safe_def always_safe_def alnum_char_def alpha_char_def upper_char_def
        lower_char_def digit_char_def layout_char_def)
qed

lemma hd_clean_path: "prefix ''/'' d \<Longrightarrow> clean_path d \<noteq> [] \<and> hd (clean_path d) = CHR ''/''"
proof -
  assume d: "prefix ''/'' d"
  from clean_path_rooted(2) [OF d] obtain r where "lexical_path d = CHR ''/'' # r" by (auto simp: prefix_def)
  then show ?thesis by (simp add: clean_path_rooted(1) [OF d] quote_Cons path_safe_def)
qed

lemma str_of_nat_digits: "c \<in> set (str_of_nat n) \<Longrightarrow> digit_char c"
  using is_digits_str_of_nat [of n] by (auto simp: is_digits_def list_all_iff)

lemma digit_not_special:
  "digit_char c \<Longrightarrow> \<not> netloc_end c \<and> \<not> layout_char c \<and> c \<notin> set ''@:[]''"
  by (auto simp: digit_char_def netloc_end_def layout_char_def)

definition shown_port :: "string \<Rightarrow> nat option \<Rightarrow> nat option" where
  "shown_port scheme p = (if p = Some (default_port scheme) then None else p)"

lemma clean_netloc_plain:
  assumes "CHR '':'' \<notin> set h" and "web_scheme scheme"
  shows "clean_netloc scheme h p =
     h @ (case shown_port scheme p of None \<Rightarrow> [] | Some n \<Rightarrow> CHR '':'' # str_of_nat n)"
  using assms by (auto simp: clean_netloc_def shown_port_def web_scheme_def default_port_def
      split: option.splits)

lemma normalize_parsedD:
  assumes "normalize_parsed st sq parsed = Inr out"
  obtains h host p d where "web_scheme (casefold (u_scheme parsed))"
    and "CHR ''@'' \<notin> set (u_netloc parsed)" and "hostname parsed = Some h"
    and "canonical_host h = Inr host" and "port parsed = Inr p" and "p \<noteq> Some 0"
    and "normalize_escaped_path (if u_path parsed = [] then ''/'' else u_path parsed) = Inr d"
    and "out = urlunsplit \<lparr>u_scheme = casefold (u_scheme parsed),
           u_netloc = clean_netloc (casefold (u_scheme parsed)) host p, u_path = clean_path d,
           u_query = urlencode (clean_items st sq (parse_qsl (u_query parsed))), u_fragment = []\<rparr>"
proof -
  have "casefold (u_scheme parsed) \<in> {''http'', ''https''}" "\<not> has_userinfo parsed"
    using assms by (auto simp: normalize_parsed_def Let_def split: if_splits)
  moreover from this assms obtain h host p d where "hostname parsed = Some h"
    "canonical_host h = Inr host" "port parsed = Inr p" "p \<noteq> Some 0"
    "normalize_escaped_path (if u_path parsed = [] then ''/'' else u_path parsed) = Inr d"
    "out = urlunsplit \<lparr>u_scheme = casefold (u_scheme parsed),
           u_netloc = clean_netloc (casefold (u_scheme parsed)) host p, u_path = clean_path d,
           u_query = urlencode (clean_items st sq (parse_qsl (u_query parsed))), u_fragment = []\<rparr>"
    by (auto simp: normalize_parsed_def Let_def bindE_Inr_iff tryE_Inr_iff
        split: if_splits option.splits)
  ultimately show thesis
    by (intro that) (auto simp: web_scheme_def has_userinfo_def)
qed

lemma hostname_chars:
  assumes "hostname u = Some h" and "CHR ''@'' \<notin> set (u_netloc u)"
    and "check_netloc_brackets (u_netloc u) = Inr ()" and "c \<in> set h" and "\<not> lower_char c"
  shows "c \<in> set (u_netloc u) \<and> c \<noteq> CHR '']''"
proof -
  obtain g p where hi: "hostinfo (u_netloc u) = (g, p)" by fastforce
  obtain a f z where parts: "partition_on CHR ''%'' g = (a, f, z)" by (metis prod_cases3)
  have h: "h = casefold a @ (if f then ''%'' else []) @ z"
    using assms(1) hi parts by (auto simp: hostname_def Let_def split: if_splits)
  have "c \<in> set g"
  proof -
    from h assms(4) consider "c \<in> set (casefold a)" | "f \<and> c = CHR ''%''" | "c \<in> set z"
      by (auto split: if_splits)
    then show ?thesis
    proof cases
      case 1
      then obtain x where "x \<in> set a" "to_lower x = c" by (auto simp: casefold_def)
      with to_lower_other [OF assms(5), of x] show ?thesis using partition_on_parts(3) [OF parts] by auto
    next
      case 2
      then show ?thesis using partition_on_parts(2) [OF parts] by simp
    next
      case 3
      then show ?thesis using partition_on_parts(4) [OF parts] by auto
    qed
  qed
  with hostinfoD [OF hi assms(2,3)] show ?thesis by auto
qed

lemma hostname_plain:
  assumes "u_netloc u = h @ (case q of None \<Rightarrow> [] | Some n \<Rightarrow> CHR '':'' # str_of_nat n)"
    and "h \<noteq> []" and "casefold h = h" and "set h \<inter> set ''@:[]'' = {}"
  shows "hostname u = Some h"
    and "(\<And>n. q = Some n \<Longrightarrow> n \<le> 65535) \<Longrightarrow> port u = Inr q"
    and "check_netloc_brackets (u_netloc u) = Inr ()"
    and "\<not> has_userinfo u"
proof -
  let ?r = "case q of None \<Rightarrow> [] | Some n \<Rightarrow> CHR '':'' # str_of_nat n"
  have r: "CHR ''@'' \<notin> set ?r" "CHR ''['' \<notin> set ?r" "CHR '']'' \<notin> set ?r"
    by (auto split: option.splits dest!: str_of_nat_digits digit_not_special)
  have n: "CHR ''@'' \<notin> set (u_netloc u)" "CHR ''['' \<notin> set (u_netloc u)" "CHR '']'' \<notin> set (u_netloc u)"
    unfolding assms(1) using assms(4) r by auto
  show "check_netloc_brackets (u_netloc u) = Inr ()" using n by (simp add: check_netloc_brackets_def)
  show "\<not> has_userinfo u" using n by (simp add: has_userinfo_def)
  have colon: "CHR '':'' \<notin> set h" using assms(4) by auto
  have "partition_on CHR '':'' (u_netloc u) = (h, q \<noteq> None, case q of None \<Rightarrow> [] | Some n \<Rightarrow> str_of_nat n)"
    unfolding assms(1) using partition_on_none [OF colon] partition_on_hit [OF colon]
    by (cases q) simp_all
  then have hi: "hostinfo (u_netloc u) = (h, case q of None \<Rightarrow> [] | Some n \<Rightarrow> str_of_nat n)"
    by (simp add: hostinfo_def rpartition_on_none [OF n(1)] partition_on_none [OF n(2)])
  obtain a f z where parts: "partition_on CHR ''%'' h = (a, f, z)" by (metis prod_cases3)
  have "casefold a @ (if f then ''%'' else []) @ z = h"
  proof (cases f)
    case True
    with partition_on_parts(5) [OF parts] have h: "h = a @ CHR ''%'' # z" by simp
    with assms(3) have "casefold a = a" by (metis append_eq_append_conv casefold_append length_casefold)
    with h True show ?thesis by simp
  next
    case False
    with partition_on_parts(2) [OF parts] have "CHR ''%'' \<notin> set h" by simp
    with partition_on_none [OF this] parts False assms(3) show ?thesis by simp
  qed
  with hi assms(2) parts show "hostname u = Some h" by (simp add: hostname_def)
  show "port u = Inr q" if "\<And>n. q = Some n \<Longrightarrow> n \<le> 65535"
    using hi that is_digits_str_of_nat
    by (cases q) (auto simp: port_def Let_def is_digits_def not_less)
qed

text \<open>What a normalised URL promises of its parts.\<close>

definition canonical_url :: "url \<Rightarrow> bool" where
  "canonical_url u \<longleftrightarrow>
     web_scheme (u_scheme u) \<and> u_fragment u = [] \<and> \<not> has_userinfo u \<and>
     opt_any (\<lambda>h. h \<noteq> [] \<and> casefold h = h \<and> length h \<le> 253) (hostname u) \<and>
     (case port u of Inl e \<Rightarrow> False
      | Inr p \<Rightarrow> p \<noteq> Some 0 \<and> p \<noteq> Some (default_port (u_scheme u))) \<and>
     prefix ''/'' (u_path u) \<and> list_all plain_segment (split_on CHR ''/'' (u_path u))"

lemma port_bound: "port u = Inr (Some n) \<Longrightarrow> n \<le> 65535"
  by (auto simp: port_def Let_def split: if_splits)

lemma normalized_absolute:
  assumes "urlsplit s = Inr parsed" and "normalize_parsed st sq parsed = Inr out"
  obtains h host p d u where "out = urlunsplit u" and "absolute_parts u"
    and "hostname parsed = Some h" and "canonical_host h = Inr host" and "port parsed = Inr p"
    and "p \<noteq> Some 0" and "prefix ''/'' d" and "CHR ''@'' \<notin> set (u_netloc parsed)"
    and "u = \<lparr>u_scheme = casefold (u_scheme parsed),
           u_netloc = clean_netloc (casefold (u_scheme parsed)) host p, u_path = clean_path d,
           u_query = urlencode (clean_items st sq (parse_qsl (u_query parsed))), u_fragment = []\<rparr>"
proof -
  from normalize_parsedD [OF assms(2)] obtain h host p d u where
    sch: "web_scheme (casefold (u_scheme parsed))" and at: "CHR ''@'' \<notin> set (u_netloc parsed)"
    and h: "hostname parsed = Some h" and host: "canonical_host h = Inr host"
    and p: "port parsed = Inr p" "p \<noteq> Some 0"
    and d: "normalize_escaped_path (if u_path parsed = [] then ''/'' else u_path parsed) = Inr d"
    and u: "u = \<lparr>u_scheme = casefold (u_scheme parsed),
           u_netloc = clean_netloc (casefold (u_scheme parsed)) host p, u_path = clean_path d,
           u_query = urlencode (clean_items st sq (parse_qsl (u_query parsed))), u_fragment = []\<rparr>"
    and out: "out = urlunsplit u" by metis
  note nl = urlsplit_netlocD [OF assms(1)]
  have "u_netloc parsed \<noteq> []" using h by (auto simp: hostname_def hostinfo_def partition_on_def
        rpartition_on_def Let_def)
  with nl(3) have "u_path parsed = [] \<or> hd (u_path parsed) = CHR ''/''" by simp
  then have "\<exists>t. (if u_path parsed = [] then ''/'' else u_path parsed) = CHR ''/'' # t"
    by (cases "u_path parsed") auto
  with d have slash: "prefix ''/'' d"
    by (auto simp: normalize_escaped_path_def dest!: decode_unreserved_slash split: if_splits)
  have host_chars: "\<not> netloc_end c \<and> \<not> layout_char c" if "c \<in> set host" for c
  proof (cases "lower_char c")
    case True
    then show ?thesis by (auto simp: lower_char_def netloc_end_def layout_char_def)
  next
    case False
    from in_canonical_host [OF host that False] hostname_chars [OF h at nl(2) _ False] nl(1)
    show ?thesis by blast
  qed
  have "\<not> netloc_end c \<and> \<not> layout_char c" if "c \<in> set (clean_netloc (casefold (u_scheme parsed)) host p)" for c
    using that host_chars
    by (auto simp: clean_netloc_def Let_def netloc_end_def layout_char_def split: if_splits option.splits
        dest!: str_of_nat_digits digit_not_special)
  moreover have "clean_netloc (casefold (u_scheme parsed)) host p \<noteq> []"
    using canonical_hostD(1) [OF host] by (simp add: clean_netloc_def Let_def)
  moreover have "\<not> layout_char c \<and> c \<noteq> CHR ''#''" if "c \<in> set (u_query u)" for c
    using that unfolding u url.simps
    by (auto dest!: set_urlencode query_char_plain simp: layout_char_def)
  ultimately have "absolute_parts u"
    using sch hd_clean_path [OF slash] set_clean_path [of _ d]
    unfolding absolute_parts_def list_all_iff by (simp add: u)
  with that out h host p slash at u show thesis by blast
qed

lemma normalized_reads_back:
  assumes "urlsplit s = Inr parsed" and "normalize_parsed st sq parsed = Inr out"
    and "CHR ''['' \<notin> set out"
  obtains u where "urlsplit out = Inr u" and "canonical_url u"
    and "parse_qsl (u_query u) = clean_items st sq (parse_qsl (u_query parsed))"
proof -
  obtain h host p d u where out: "out = urlunsplit u" and abs: "absolute_parts u"
    and h: "hostname parsed = Some h" and host: "canonical_host h = Inr host" and p: "port parsed = Inr p"
    and p0: "p \<noteq> Some 0" and d: "prefix ''/'' d" and at: "CHR ''@'' \<notin> set (u_netloc parsed)"
    and u: "u = \<lparr>u_scheme = casefold (u_scheme parsed),
           u_netloc = clean_netloc (casefold (u_scheme parsed)) host p, u_path = clean_path d,
           u_query = urlencode (clean_items st sq (parse_qsl (u_query parsed))), u_fragment = []\<rparr>"
    by (rule normalized_absolute [OF assms(1,2)])
  note nl = urlsplit_netlocD [OF assms(1)] and b = canonical_hostD [OF host]
  have sch: "web_scheme (u_scheme u)" using absolute_partsD(1) [OF abs] .
  have "CHR ''['' \<notin> set (u_netloc u)"
    using assms(3) unfolding out urlunsplit_absolute [OF abs] by simp
  then have br: "CHR ''['' \<notin> set host" "CHR '':'' \<notin> set host"
    by (auto simp: u clean_netloc_def Let_def split: if_splits)
  have "c \<notin> set host" if "c \<in> set ''@]''" for c
  proof
    assume c: "c \<in> set host"
    have "\<not> lower_char c" using that by (auto simp: lower_char_def)
    from in_canonical_host [OF host c this] hostname_chars [OF h at nl(2) _ this] at that
    show False by auto
  qed
  with br have special: "set host \<inter> set ''@:[]'' = {}" by auto
  define q where "q = shown_port (u_scheme u) p"
  have "u_netloc u = host @ (case q of None \<Rightarrow> [] | Some n \<Rightarrow> CHR '':'' # str_of_nat n)"
    using clean_netloc_plain [OF br(2) sch] by (simp add: u q_def)
  note plain = hostname_plain [OF this b(1) b(3) special]
  have "n \<le> 65535" if "q = Some n" for n
    using that port_bound p by (auto simp: q_def shown_port_def split: if_splits)
  note port = plain(2) [OF this]
  have q: "q \<noteq> Some 0" "q \<noteq> Some (default_port (u_scheme u))"
    using p0 by (auto simp: q_def shown_port_def)
  have path: "u_path u = clean_path d" by (simp add: u)
  have "canonical_url u"
    using sch absolute_partsD(3) [OF abs] plain(1,4) port b q hd_clean_path [OF d]
      clean_path_segments [OF d]
    by (cases "clean_path d") (auto simp: canonical_url_def list_all_iff path)
  moreover have "urlsplit out = Inr u" using urlsplit_urlunsplit [OF abs] plain(3) by (simp add: out)
  moreover have "parse_qsl (u_query u) = clean_items st sq (parse_qsl (u_query parsed))"
    by (simp add: u parse_qsl_urlencode)
  ultimately show thesis using that by blast
qed

lemma clean_items_tracking:
  "i \<in> set (clean_items True sq items) \<Longrightarrow> i \<in> set items \<and> \<not> is_tracking_parameter (fst i)"
  by (auto simp: clean_items_def Let_def split: if_splits)

lemma clean_items_mset:
  "mset (clean_items True sq items) = mset (filter (\<lambda>i. \<not> is_tracking_parameter (fst i)) items)"
  by (simp add: clean_items_def Let_def)

lemma normalize_urlD:
  assumes "normalize_url_with base st sq n raw = Inr out"
  obtains joined parsed where "urlsplit joined = Inr parsed"
    and "normalize_parsed st sq parsed = Inr out" and "length out \<le> n"
    and "base = None \<longrightarrow> joined = strip raw"
  using assms
  by (auto simp: normalize_url_with_def Let_def bindE_Inr_iff split: if_splits option.splits)



lemma sorted_clean_items: "sorted (map item_key (clean_items st True items))"
  by (simp add: clean_items_def Let_def)

text \<open>
  the query of a normalised URL decodes to exactly the items of the original query that are not
  tracking parameters, sorted by case-folded name and value: no parameter is lost, added or altered.
\<close>

theorem normalize_url_query:
  assumes "normalize_url raw = Inr out" and "CHR ''['' \<notin> set out"
  shows "\<exists>parsed u. urlsplit (strip raw) = Inr parsed \<and> urlsplit out = Inr u \<and>
    mset (parse_qsl (u_query u)) =
      mset (filter (\<lambda>i. \<not> is_tracking_parameter (fst i)) (parse_qsl (u_query parsed))) \<and>
    sorted (map item_key (parse_qsl (u_query u)))"
  using assms(1) unfolding normalize_url_def
proof (rule normalize_urlD)
  fix joined parsed
  assume parsed: "urlsplit joined = Inr parsed" "normalize_parsed True True parsed = Inr out"
    and "None = None \<longrightarrow> joined = strip raw"
  then have joined: "joined = strip raw" by simp
  obtain u where "urlsplit out = Inr u"
    and "parse_qsl (u_query u) = clean_items True True (parse_qsl (u_query parsed))"
    by (rule normalized_reads_back [OF parsed assms(2)])
  then show ?thesis using parsed(1) unfolding joined
    by (auto simp: clean_items_mset sorted_clean_items)
qed

lemma normalize_url_query_witness:
  "\<exists>parsed u. urlsplit (strip ''http://ex.com?b=2&gclid=7&a=%26'') = Inr parsed \<and>
    urlsplit ''http://ex.com/?a=%26&b=2'' = Inr u \<and>
    mset (parse_qsl (u_query u)) =
      mset (filter (\<lambda>i. \<not> is_tracking_parameter (fst i)) (parse_qsl (u_query parsed))) \<and>
    sorted (map item_key (parse_qsl (u_query u)))"
  by (rule normalize_url_query) code_simp+

subsection \<open>The approved boundary\<close>

lemma allowed_byD:
  "allowed_by h ds = Inr True \<Longrightarrow> \<exists>d \<in> set ds. \<exists>b. canonical_host d = Inr b \<and> within_boundary b h"
  by (induction ds) (auto simp: bindE_Inr_iff split: if_splits)

lemma host_is_allowedD:
  "host_is_allowed h ds = Inr True \<Longrightarrow>
   \<exists>c. canonical_host h = Inr c \<and> (\<exists>d \<in> set ds. \<exists>b. canonical_host d = Inr b \<and> within_boundary b c)"
  by (auto simp: host_is_allowed_def bindE_Inr_iff dest!: allowed_byD)

lemma require_allowed_urlD:
  assumes "require_allowed_url ds url = Inr n"
  obtains u h where "normalize_url url = Inr n" and "urlsplit n = Inr u" and "hostname u = Some h"
    and "host_is_allowed h ds = Inr True"
  using assms by (auto simp: require_allowed_url_def bindE_Inr_iff split: option.splits if_splits)

lemma join_append:
  "xs \<noteq> [] \<Longrightarrow> ys \<noteq> [] \<Longrightarrow> join [c] (xs @ ys) = join [c] xs @ c # join [c] ys"
proof (induction "[c]" xs rule: join.induct)
  case (2 w)
  then show ?case by (cases ys) simp_all
qed simp_all

text \<open>A host is within a boundary exactly when the boundary's labels are its last labels.\<close>

lemma within_boundary_labels:
  assumes "b \<noteq> []"
  shows "within_boundary b h \<longleftrightarrow> suffix (split_on CHR ''.'' b) (split_on CHR ''.'' h)"
proof
  assume "within_boundary b h"
  then consider "h = b" | s where "h = s @ CHR ''.'' # b" by (auto simp: within_boundary_def suffix_def)
  then show "suffix (split_on CHR ''.'' b) (split_on CHR ''.'' h)"
  proof cases
    case 2
    have "split_on CHR ''.'' (s @ CHR ''.'' # b) = split_on CHR ''.'' s @ split_on CHR ''.'' b"
      by (induction s) (auto split: list.splits)
    with 2 show ?thesis by (simp add: suffix_def)
  qed simp
next
  assume "suffix (split_on CHR ''.'' b) (split_on CHR ''.'' h)"
  then obtain ws where ws: "split_on CHR ''.'' h = ws @ split_on CHR ''.'' b" by (auto simp: suffix_def)
  have h: "h = join ''.'' (ws @ split_on CHR ''.'' b)" and b: "join ''.'' (split_on CHR ''.'' b) = b"
    using split_on_join [of "CHR ''.''" h] split_on_join [of "CHR ''.''" b] ws by simp_all
  have "h = b \<or> (\<exists>s. h = s @ CHR ''.'' # b)"
  proof (cases "ws = []")
    case True
    with h b show ?thesis by simp
  next
    case False
    with h b join_append [of ws "split_on CHR ''.'' b" "CHR ''.''"] show ?thesis by simp
  qed
  then show "within_boundary b h" by (auto simp: within_boundary_def suffix_def)
qed

text \<open>The labels of a host, and what being inside an approved domain means for them.\<close>

definition host_labels :: "string \<Rightarrow> string list" where
  "host_labels h = split_on CHR ''.'' h"

definition inside_domains :: "string list \<Rightarrow> url \<Rightarrow> bool" where
  "inside_domains ds u \<longleftrightarrow>
     (case hostname u of None \<Rightarrow> False
      | Some h \<Rightarrow> (case canonical_host h of Inl e \<Rightarrow> False
          | Inr c \<Rightarrow> list_ex (\<lambda>d. case canonical_host d of Inl e \<Rightarrow> False
              | Inr b \<Rightarrow> suffix (host_labels b) (host_labels c)) ds))"

lemma host_allowed_inside:
  assumes "hostname u = Some h" and "host_is_allowed h ds = Inr True"
  shows "inside_domains ds u"
proof -
  from host_is_allowedD [OF assms(2)] obtain c d b where c: "canonical_host h = Inr c"
    and d: "d \<in> set ds" "canonical_host d = Inr b" and w: "within_boundary b c" by blast
  from w within_boundary_labels [OF canonical_hostD(1) [OF d(2)]] have "suffix (host_labels b) (host_labels c)"
    by (simp add: host_labels_def)
  with assms(1) c d show ?thesis by (auto simp: inside_domains_def list_ex_iff intro!: bexI [of _ d])
qed

text \<open>
  C2: a URL \<open>require_allowed_url\<close> returns is normalised, and the labels of one of the approved domains
  are the last labels of its host: \<open>evil-example.com\<close> never passes for \<open>example.com\<close>.
\<close>

theorem require_allowed_url_inside:
  assumes "require_allowed_url ds url = Inr out"
  shows "normalize_url url = Inr out \<and> (\<exists>u. urlsplit out = Inr u \<and> inside_domains ds u)"
proof -
  obtain u h where n: "normalize_url url = Inr out" and u: "urlsplit out = Inr u"
    and h: "hostname u = Some h" and ok: "host_is_allowed h ds = Inr True"
    by (rule require_allowed_urlD [OF assms])
  have "inside_domains ds u" by (rule host_allowed_inside [OF h ok])
  with n u show ?thesis by blast
qed

lemma require_allowed_url_inside_witness:
  "normalize_url ''https://shop.ex.com/a'' = Inr ''https://shop.ex.com/a'' \<and>
   (\<exists>u. urlsplit ''https://shop.ex.com/a'' = Inr u \<and> inside_domains [''other.org'', ''EX.com''] u)"
  by (rule require_allowed_url_inside) code_simp

lemma clean_netloc_host:
  assumes "u_netloc u = clean_netloc scheme h p" and "h \<noteq> []" and "CHR ''@'' \<notin> set h"
    and "CHR '']'' \<notin> set h" and "check_netloc_brackets (u_netloc u) = Inr ()"
  shows "hostname u \<noteq> None"
proof -
  define r where "r = (case p of None \<Rightarrow> [] | Some n \<Rightarrow>
    if scheme = ''http'' \<and> n = 80 \<or> scheme = ''https'' \<and> n = 443 then [] else CHR '':'' # str_of_nat n)"
  have n: "u_netloc u = (if CHR '':'' \<in> set h then ''['' @ h @ '']'' @ r else h @ r)"
    by (simp only: assms(1) clean_netloc_def Let_def r_def)
  have r: "CHR ''@'' \<notin> set r" "CHR ''['' \<notin> set r" "CHR '']'' \<notin> set r"
    by (auto simp: r_def split: option.splits dest!: str_of_nat_digits digit_not_special)
  have at: "CHR ''@'' \<notin> set (u_netloc u)" unfolding n using assms(3) r by auto
  have "fst (hostinfo (u_netloc u)) \<noteq> []"
  proof (cases "CHR '':'' \<in> set h")
    case True
    have "partition_on CHR '']'' (h @ CHR '']'' # r) = (h, True, r)" by (rule partition_on_hit [OF assms(4)])
    moreover have "partition_on CHR ''['' (CHR ''['' # h @ CHR '']'' # r) = ([], True, h @ CHR '']'' # r)"
      using partition_on_hit [of "CHR ''[''" "[]"] by simp
    ultimately show ?thesis using True n at assms(2)
      by (simp add: hostinfo_def rpartition_on_none)
  next
    case False
    have br: "CHR ''['' \<notin> set (u_netloc u)"
      using assms(5) False n assms(4) r by (auto simp: check_netloc_brackets_def split: if_splits)
    obtain c cs where "h = c # cs" "c \<noteq> CHR '':''" using assms(2) False by (cases h) auto
    then show ?thesis using False n at br
      by (simp add: hostinfo_def rpartition_on_none partition_on_none) (simp add: partition_on_def)
  qed
  then show ?thesis by (auto simp: hostname_def Let_def split: prod.splits)
qed

lemma normalized_hostname:
  assumes "normalize_url_with base st sq n raw = Inr out" and "urlsplit out = Inr u"
  shows "hostname u \<noteq> None"
proof -
  obtain joined parsed where parsed: "urlsplit joined = Inr parsed"
    and norm: "normalize_parsed st sq parsed = Inr out" by (rule normalize_urlD [OF assms(1)])
  obtain h host p d v where out: "out = urlunsplit v" and abs: "absolute_parts v"
    and h: "hostname parsed = Some h" and host: "canonical_host h = Inr host"
    and at: "CHR ''@'' \<notin> set (u_netloc parsed)"
    and v: "u_netloc v = clean_netloc (casefold (u_scheme parsed)) host p"
    by (rule normalized_absolute [OF parsed norm]) (metis url.select_convs(2))
  have split: "check_netloc_brackets (u_netloc v) = Inr ()" "u = v"
    using assms(2) urlsplit_urlunsplit [OF abs] by (auto simp: out bindE_Inr_iff)
  note chars = in_canonical_host [OF host] hostname_chars [OF h at urlsplit_netlocD(2) [OF parsed]]
  have "CHR ''@'' \<notin> set host" "CHR '']'' \<notin> set host"
    using chars [of "CHR ''@''"] chars [of "CHR '']''"] at by (auto simp: lower_char_def)
  from clean_netloc_host [OF v canonical_hostD(1) [OF host] this split(1)] split(2) show ?thesis by simp
qed

lemma canonical_host_raises [raises_intros]: "raises_only is_value_error (canonical_host h)"
  by (auto simp: canonical_host_def Let_def intro!: raises_intros)

lemma decode_unreserved_raises [raises_intros]: "raises_only is_value_error (decode_unreserved s)"
  by (induction s rule: decode_unreserved.induct) (auto simp: Let_def intro!: raises_intros)

lemma check_brackets_raises [raises_intros]: "raises_only is_value_error (check_netloc_brackets n)"
  by (auto simp: check_netloc_brackets_def check_bracketed_host_def Let_def intro!: raises_intros
      split: ip.splits)

lemma urlsplit_raises [raises_intros]: "raises_only is_value_error (urlsplit_in d s)"
  by (auto simp: urlsplit_in_def intro!: raises_intros)

lemma port_raises [raises_intros]: "raises_only is_value_error (port u)"
  by (auto simp: port_def Let_def intro!: raises_intros)

lemma urljoin_raises [raises_intros]: "raises_only is_value_error (urljoin b s)"
  by (auto simp: urljoin_def intro!: raises_intros)

lemma escaped_path_raises [raises_intros]: "raises_only is_value_error (normalize_escaped_path s)"
  by (auto simp: normalize_escaped_path_def intro!: raises_intros)

lemma normalize_parsed_raises [raises_intros]: "raises_only is_value_error (normalize_parsed st sq u)"
  unfolding normalize_parsed_def
  by (intro raises_intros) (auto dest: raises_onlyD [OF port_raises])

lemma normalize_url_raises [raises_intros]:
  "raises_only is_value_error (normalize_url_with base st sq n raw)"
  unfolding normalize_url_with_def by (intro raises_intros) auto

lemma allowed_by_raises [raises_intros]: "raises_only is_value_error (allowed_by h ds)"
  by (induction ds) (auto intro!: raises_intros)

lemma host_is_allowed_raises [raises_intros]: "raises_only is_value_error (host_is_allowed h ds)"
  unfolding host_is_allowed_def by (intro raises_intros)

text \<open>
  C34: the assertion in \<open>require_allowed_url\<close> never fails, whatever the URL: all it raises is
  \<open>ValueError\<close> or a subclass (every normalised URL that \<open>urlsplit\<close> accepts has a host).
\<close>

theorem require_allowed_url_errors:
  assumes "require_allowed_url ds url = Inl e"
  shows "is_value_error e"
proof (rule raises_onlyD [OF _ assms])
  show "raises_only is_value_error (require_allowed_url ds url)"
    unfolding require_allowed_url_def normalize_url_def
    by (intro raises_intros) (use normalized_hostname in auto)
qed

lemma require_allowed_url_errors_witness:
  "is_value_error (URLValidationError ''URL host is outside the approved project domains'')"
  by (rule require_allowed_url_errors [of "[''ex.com'']" "''http://evil-ex.com/''"]) code_simp

subsection \<open>The SSRF guard\<close>

lemma is_public_ipD: "is_public_ip s \<Longrightarrow> \<exists>a. ip_address (drop_scope s) = Some a \<and> is_global a"
  by (auto simp: is_public_ip_def split: option.splits)

lemma drop_scope_idem [simp]: "drop_scope (drop_scope s) = drop_scope s"
  by (simp add: drop_scope_def partition_on_def takeWhile_idem)

text \<open>The addresses read from a list of answers, each of them public.\<close>

lemma collect_ips_Inr:
  "collect_ips acc as = Inr ips \<Longrightarrow>
   (\<forall>s. Some s \<in> set as \<longrightarrow> is_public_ip s) \<and>
   set ips = set acc \<union> {ip_text a | a s. Some s \<in> set as \<and> ip_address (drop_scope s) = Some a}"
proof (induction acc as rule: collect_ips.induct)
  case (3 acc s as)
  from 3(2) have pub: "is_public_ip (drop_scope s)"
    by (auto simp: Let_def split: if_splits)
  then obtain a where a: "ip_address (drop_scope s) = Some a" using is_public_ipD by fastforce
  with pub have "is_public_ip s" by (simp add: is_public_ip_def)
  moreover from 3(2) pub a have "collect_ips (ip_text a # acc) as = Inr ips" by (simp add: Let_def)
  from 3(1) [OF refl _ a this] pub
  have "\<forall>s. Some s \<in> set as \<longrightarrow> is_public_ip s"
    "set ips = set (ip_text a # acc) \<union> {ip_text a | a s. Some s \<in> set as \<and> ip_address (drop_scope s) = Some a}"
    by auto
  ultimately show ?case using a by auto
qed auto

lemma collect_ips_blocked:
  "Some s \<in> set as \<Longrightarrow> \<not> is_public_ip s \<Longrightarrow> \<exists>e. collect_ips acc as = Inl e"
  using collect_ips_Inr [of acc as] by (cases "collect_ips acc as") auto

lemma validateD:
  assumes "validate resolve g url = Inr t"
  obtains u h c p answers ips where "require_allowed_url (g_domains g) url = Inr (rt_url t)"
    and "urlsplit (rt_url t) = Inr u" and "hostname u = Some h" and "canonical_host h = Inr (rt_host t)"
    and "port u = Inr p" and "rt_port t = (case p of None \<Rightarrow> default_port (u_scheme u)
                    | Some n \<Rightarrow> if n = 0 then default_port (u_scheme u) else n)"
    and "resolve (rt_host t) (rt_port t) = Inr answers"
    and "collect_ips [] (slice_to (g_answers g) answers) = Inr ips" and "ips \<noteq> []"
    and "rt_ips t = sorted_set ips"
  using assms
  by (fastforce simp: validate_def bindE_Inr_iff tryE_Inr_iff Let_def split: option.splits if_splits)

text \<open>
  C3: a target the guard approves is pinned to the addresses its DNS answers gave for that very host
  and port; every one of them is a globally routable address, none of the answers looked at was
  anything else, and there is at least one.
\<close>

theorem validate_pins_public:
  assumes "validate resolve g url = Inr t"
  shows "\<exists>answers. resolve (rt_host t) (rt_port t) = Inr answers \<and>
    (\<forall>s. Some s \<in> set (slice_to (g_answers g) answers) \<longrightarrow> is_public_ip s) \<and>
    rt_ips t \<noteq> [] \<and> sorted (rt_ips t) \<and> distinct (rt_ips t) \<and>
    (\<forall>i \<in> set (rt_ips t). \<exists>a s. i = ip_text a \<and> is_global a \<and>
       Some s \<in> set (slice_to (g_answers g) answers) \<and> ip_address (drop_scope s) = Some a)"
proof -
  obtain answers ips where r: "resolve (rt_host t) (rt_port t) = Inr answers"
    and c: "collect_ips [] (slice_to (g_answers g) answers) = Inr ips" and ne: "ips \<noteq> []"
    and t: "rt_ips t = sorted_set ips" by (rule validateD [OF assms])
  note col = collect_ips_Inr [OF c]
  have "\<exists>a s. i = ip_text a \<and> is_global a \<and>
      Some s \<in> set (slice_to (g_answers g) answers) \<and> ip_address (drop_scope s) = Some a"
    if "i \<in> set (rt_ips t)" for i
  proof -
    from that t col obtain a s where s: "i = ip_text a" "Some s \<in> set (slice_to (g_answers g) answers)"
      "ip_address (drop_scope s) = Some a" by auto
    with col have "is_public_ip s" by blast
    with s is_public_ipD [of s] show ?thesis by auto
  qed
  moreover have "rt_ips t \<noteq> []" using ne t by (metis set_empty set_sorted_set)
  ultimately show ?thesis using r col t by auto
qed

definition demo_resolver :: resolver where
  "demo_resolver host p =
     (if host = ''ex.com'' then Inr [Some ''8.8.8.8'', None, Some ''1.1.1.1%eth0'']
      else if host = ''in.ex.com'' then Inr [Some ''8.8.8.8'', Some ''127.0.0.1'']
      else Inl (OSError ''name not known''))"

lemma validate_pins_public_witness:
  "\<exists>answers. demo_resolver ''ex.com'' 443 = Inr answers \<and>
    [''1.1.1.1'', ''8.8.8.8''] \<noteq> [] \<and> sorted [''1.1.1.1'', ''8.8.8.8''] \<and>
    distinct [''1.1.1.1'', ''8.8.8.8''] \<and>
    (\<exists>a s. ''8.8.8.8'' = ip_text a \<and> is_global a \<and>
       Some s \<in> set (slice_to 16 answers) \<and> ip_address (drop_scope s) = Some a)"
proof -
  let ?t = "\<lparr>rt_url = ''https://ex.com/x'', rt_host = ''ex.com'', rt_port = 443,
    rt_ips = [''1.1.1.1'', ''8.8.8.8'']\<rparr>"
  have "validate demo_resolver \<lparr>g_domains = [''ex.com''], g_answers = 16\<rparr> ''https://EX.com/x#y'' = Inr ?t"
    by code_simp
  from validate_pins_public [OF this] show ?thesis by auto
qed

lemma validate_inside:
  assumes "validate resolve g url = Inr t"
  shows "\<exists>u h. urlsplit (rt_url t) = Inr u \<and> inside_domains (g_domains g) u \<and>
    hostname u = Some h \<and> canonical_host h = Inr (rt_host t)"
proof -
  obtain u h where u: "require_allowed_url (g_domains g) url = Inr (rt_url t)"
    "urlsplit (rt_url t) = Inr u" "hostname u = Some h" "canonical_host h = Inr (rt_host t)"
    by (rule validateD [OF assms])
  obtain u' h' where n: "urlsplit (rt_url t) = Inr u'" and h': "hostname u' = Some h'"
    and ok: "host_is_allowed h' (g_domains g) = Inr True"
    by (rule require_allowed_urlD [OF u(1)])
  have "inside_domains (g_domains g) u'" by (rule host_allowed_inside [OF h' ok])
  with u n show ?thesis by auto
qed

text \<open>
  every target the guard approves, for a first request or for a redirect, lies inside the approved
  domains, and it is the host that was checked that is resolved.
\<close>

theorem validate_redirect_inside:
  assumes "validate_redirect resolve g previous location = Inr t"
  shows "location \<noteq> [] \<and> (\<forall>c \<in> set location. 32 \<le> code c) \<and>
    (\<exists>target. urljoin previous location = Inr target \<and> validate resolve g target = Inr t) \<and>
    (\<exists>u h. urlsplit (rt_url t) = Inr u \<and> inside_domains (g_domains g) u \<and>
       hostname u = Some h \<and> canonical_host h = Inr (rt_host t))"
proof -
  from assms obtain target where "location \<noteq> []" "\<not> list_ex (\<lambda>c. code c < 32) location"
    "urljoin previous location = Inr target" and v: "validate resolve g target = Inr t"
    by (auto simp: validate_redirect_def bindE_Inr_iff split: if_splits)
  with validate_inside [OF v] show ?thesis by (auto simp: list_ex_iff not_less)
qed

lemma validate_redirect_inside_witness:
  "''../y?q=1'' \<noteq> [] \<and>
    (\<exists>target. urljoin ''http://ex.com/a/b'' ''../y?q=1'' = Inr target \<and>
       validate demo_resolver \<lparr>g_domains = [''ex.com''], g_answers = 16\<rparr> target =
         Inr \<lparr>rt_url = ''http://ex.com/y?q=1'', rt_host = ''ex.com'', rt_port = 80,
              rt_ips = [''1.1.1.1'', ''8.8.8.8'']\<rparr>) \<and>
    (\<exists>u h. urlsplit ''http://ex.com/y?q=1'' = Inr u \<and> inside_domains [''ex.com''] u \<and>
       hostname u = Some h \<and> canonical_host h = Inr ''ex.com'')"
proof -
  let ?g = "\<lparr>g_domains = [''ex.com''], g_answers = 16\<rparr>"
  let ?t = "\<lparr>rt_url = ''http://ex.com/y?q=1'', rt_host = ''ex.com'', rt_port = 80,
    rt_ips = [''1.1.1.1'', ''8.8.8.8'']\<rparr>"
  have "validate_redirect demo_resolver ?g ''http://ex.com/a/b'' ''../y?q=1'' = Inr ?t" by code_simp
  from validate_redirect_inside [OF this] show ?thesis by simp
qed

text \<open>
  a single answer outside the public address space blocks the target, whatever else was returned
  (the DNS-rebinding case): no target is built from a mixed answer.
\<close>

theorem validate_blocks_private:
  assumes "\<And>h p answers. resolve h p = Inr answers \<Longrightarrow>
      \<exists>s. Some s \<in> set (slice_to (g_answers g) answers) \<and> \<not> is_public_ip s"
  shows "\<exists>e. validate resolve g url = Inl e"
proof (cases "validate resolve g url")
  case (Inr t)
  obtain answers ips where "resolve (rt_host t) (rt_port t) = Inr answers"
    and "collect_ips [] (slice_to (g_answers g) answers) = Inr ips" by (rule validateD [OF Inr])
  with assms collect_ips_blocked show ?thesis by (metis sum.distinct(1))
qed simp

definition mixed_resolver :: resolver where
  "mixed_resolver host p = Inr [Some ''8.8.8.8'', Some ''10.0.0.1'']"

lemma validate_blocks_private_witness:
  "\<exists>e. validate mixed_resolver \<lparr>g_domains = [''ex.com''], g_answers = 16\<rparr> ''http://ex.com/'' = Inl e"
proof (rule validate_blocks_private)
  fix h p answers
  assume "mixed_resolver h p = Inr answers"
  then have "answers = [Some ''8.8.8.8'', Some ''10.0.0.1'']" by (simp add: mixed_resolver_def)
  moreover have "\<not> is_public_ip ''10.0.0.1''" by code_simp
  ultimately show "\<exists>s. Some s \<in> set (slice_to (g_answers \<lparr>g_domains = [''ex.com''], g_answers = 16\<rparr>) answers)
      \<and> \<not> is_public_ip s"
    by (intro exI [of _ "''10.0.0.1''"]) (simp add: slice_to_def)
qed

subsection \<open>Deviations\<close>

text \<open>
  C36: \<open>normalize_url\<close> is documented to return a stable URL; it is not idempotent on a path of two
  slashes, which \<open>posixpath.normpath\<close> keeps and to which the trailing slash is added again.
\<close>

theorem normalize_url_not_stable:
  "normalize_url ''http://h//'' = Inr ''http://h///'' \<and> normalize_url ''http://h///'' = Inr ''http://h/''"
  by (intro conjI) code_simp+

text \<open>
  C37: the comment in \<open>is_public_ip\<close> says that multicast is rejected; \<open>is_global\<close> accepts it.
\<close>

theorem multicast_is_public: "is_public_ip ''224.0.0.1''"
  by code_simp

end
