(* ===== verification/Models.thy ===== *)
theory Models
  imports Urls Py_Float
begin

text \<open>
  \<open>audit_engine/models.py\<close>: the value objects of an audit and the invariants their constructors
  enforce. A frozen dataclass is a record, its \<open>__post_init__\<close> a function \<open>check_...\<close> that raises the
  first violated invariant, in the order of the source. Floats are finite binary64 values (rationals),
  a datetime is its instant with or without a timezone, JSON data is a tree whose leaves
  \<open>JNonFinite\<close> and \<open>JOther\<close> stand for what \<open>json.dumps(allow_nan=False)\<close> refuses.
\<close>

subsection \<open>Enumerations\<close>

datatype availability = Available | Partial | Unavailable

datatype source_kind = Crawl | Gsc | Ga4 | Semrush | Pagespeed | Ahrefs_import | Screaming_frog_import
  | Brightlocal_import | Gbp_import | Mapped_import | Human_verified | Derived

datatype severity = Sev_critical | Sev_high | Sev_medium | Sev_low | Sev_info

datatype risk_class = Risk_low | Risk_moderate | Risk_high | Risk_dangerous

datatype business_profile = Service_saas | Local | Ecommerce | Hybrid

datatype run_profile = Quick | Standard | Enterprise

datatype timestamp = Naive int | Aware int

datatype json = JNull | JBool bool | JInt int | JNum rat | JNonFinite | JStr string
  | JList "json list" | JObj "(string \<times> json) list" | JOther

subsection \<open>Shared checks\<close>

type_synonym check = "bool \<times> exn"

definition aware :: "timestamp \<Rightarrow> string \<Rightarrow> check" where
  "aware t name =
     (case t of Naive i \<Rightarrow> True | Aware i \<Rightarrow> False, ContractError (name @ '' must be timezone-aware''))"

definition nonempty :: "string \<Rightarrow> string \<Rightarrow> nat \<Rightarrow> check list" where
  "nonempty value name max_length =
     [(strip value = [], ContractError (name @ '' cannot be empty'')),
      (max_length < length (strip value),
       ContractError (name @ '' exceeds '' @ str_of_nat max_length @ '' characters''))]"

text \<open>\<open>s.replace(pat, "")\<close>, scanning left to right; the counter skips the rest of a match.\<close>

fun remove_sub :: "nat \<Rightarrow> string \<Rightarrow> string \<Rightarrow> string" where
  "remove_sub k pat [] = []"
| "remove_sub (Suc k) pat (c # s) = remove_sub k pat s"
| "remove_sub 0 pat (c # s) =
     (if prefix pat (c # s) then remove_sub (length pat - 1) pat s else c # remove_sub 0 pat s)"

text \<open>\<open>int(s, 16)\<close> accepts surrounding space, a sign, \<open>0x\<close> and single underscores between digits.\<close>

definition hex_body :: "string \<Rightarrow> string" where
  "hex_body t =
     (if prefix ''0x'' t \<or> prefix ''0X'' t
      then (if prefix ''_'' (drop 2 t) then drop 3 t else drop 2 t) else t)"

definition int16_nonneg :: "string \<Rightarrow> bool" where
  "int16_nonneg s =
     (let t = strip s; neg = prefix ''-'' t;
          b = hex_body (if neg \<or> prefix ''+'' t then drop 1 t else t)
      in list_all (\<lambda>g. g \<noteq> [] \<and> list_all hex_char g) (split_on CHR ''_'' b) \<and>
         (neg \<longrightarrow> list_all (\<lambda>c. c = CHR ''0'' \<or> c = CHR ''_'') b))"

definition uuid_hex :: "string \<Rightarrow> string" where
  "uuid_hex value =
     (let s = remove_sub 0 ''uuid:'' (remove_sub 0 ''urn:'' value);
          brace = (\<lambda>c. c = CHR ''{'' \<or> c = CHR ''}'')
      in filter (\<lambda>c. c \<noteq> CHR ''-'') (rstrip_of brace (lstrip_of brace s)))"

definition is_uuid :: "string \<Rightarrow> bool" where
  "is_uuid value \<longleftrightarrow> length (uuid_hex value) = 32 \<and> int16_nonneg (uuid_hex value)"

definition uuid_check :: "string \<Rightarrow> string \<Rightarrow> check" where
  "uuid_check value name = (\<not> is_uuid value, ContractError (name @ '' must be a UUID string''))"

fun json_finite :: "json \<Rightarrow> bool" where
  "json_finite JNonFinite = False"
| "json_finite JOther = False"
| "json_finite (JList xs) = list_all json_finite xs"
| "json_finite (JObj kvs) = list_all (\<lambda>kv. json_finite (snd kv)) kvs"
| "json_finite j = True"

definition json_safe :: "json \<Rightarrow> string \<Rightarrow> check" where
  "json_safe value name = (\<not> json_finite value, ContractError (name @ '' must be finite JSON data''))"

definition falsy :: "string option \<Rightarrow> bool" where
  "falsy s \<longleftrightarrow> s = None \<or> s = Some []"

definition absolute_url_check :: "string \<Rightarrow> string \<Rightarrow> exn + unit" where
  "absolute_url_check url name =
     bindE (urlsplit url) (\<lambda>parsed.
       if u_scheme parsed \<notin> {''http'', ''https''} \<or> falsy (hostname parsed)
       then Inl (ContractError (name @ '' must be an absolute HTTP(S) URL'')) else Inr ())"

subsection \<open>Run limits\<close>

record run_limits =
  page_budget :: int
  pagespeed_sample_budget :: int
  analytics_months :: int
  competitor_budget :: int
  deep_dive_budget :: int
  content_asset_cap :: int

definition check_run_limits :: "run_limits \<Rightarrow> exn + unit" where
  "check_run_limits l = raise_first
     [(list_ex (\<lambda>v. v < 0) [page_budget l, pagespeed_sample_budget l, analytics_months l,
          competitor_budget l, deep_dive_budget l, content_asset_cap l],
       ContractError ''Run limits cannot be negative''),
      (competitor_budget l < deep_dive_budget l,
       ContractError ''Deep-dive budget cannot exceed competitor budget'')]"

fun RUN_LIMITS :: "run_profile \<Rightarrow> run_limits" where
  "RUN_LIMITS Quick = \<lparr>page_budget = 250, pagespeed_sample_budget = 10, analytics_months = 0,
     competitor_budget = 0, deep_dive_budget = 0, content_asset_cap = 0\<rparr>"
| "RUN_LIMITS Standard = \<lparr>page_budget = 2500, pagespeed_sample_budget = 50, analytics_months = 16,
     competitor_budget = 10, deep_dive_budget = 3, content_asset_cap = 10\<rparr>"
| "RUN_LIMITS Enterprise = \<lparr>page_budget = 25000, pagespeed_sample_budget = 200, analytics_months = 16,
     competitor_budget = 10, deep_dive_budget = 3, content_asset_cap = 20\<rparr>"

subsection \<open>Evidence\<close>

record provenance =
  pv_source :: source_kind
  pv_captured_at :: timestamp
  pv_availability :: availability
  pv_locale :: "string option"
  pv_device :: "string option"
  pv_scope :: "string option"
  pv_rule_version :: "string option"
  pv_confidence :: rat
  pv_unavailable_reason :: "string option"
  pv_source_snapshot_id :: "string option"

definition check_provenance :: "provenance \<Rightarrow> exn + unit" where
  "check_provenance p = raise_first (
     [aware (pv_captured_at p) ''captured_at'',
      (\<not> (0 \<le> pv_confidence p \<and> pv_confidence p \<le> 1),
       ContractError ''confidence must be between 0 and 1''),
      (pv_availability p = Unavailable \<and> falsy (pv_unavailable_reason p),
       ContractError ''Unavailable evidence requires unavailable_reason''),
      (pv_availability p = Available \<and> \<not> falsy (pv_unavailable_reason p),
       ContractError ''Available evidence cannot have unavailable_reason''),
      (pv_source p = Derived \<and> falsy (pv_rule_version p),
       ContractError ''Derived evidence requires rule_version'')] @
     (case pv_source_snapshot_id p of None \<Rightarrow> [] | Some i \<Rightarrow> [uuid_check i ''source_snapshot_id'']))"

record source_snapshot =
  ss_id :: string
  ss_project_id :: string
  ss_source :: source_kind
  ss_captured_at :: timestamp
  ss_content_sha256 :: string
  ss_object_key :: string
  ss_availability :: availability
  ss_unavailable_reason :: "string option"
  ss_metadata :: "(string \<times> json) list"

definition check_source_snapshot :: "source_snapshot \<Rightarrow> exn + unit" where
  "check_source_snapshot s = raise_first (
     [uuid_check (ss_id s) ''id'', uuid_check (ss_project_id s) ''project_id'',
      aware (ss_captured_at s) ''captured_at'',
      (length (ss_content_sha256 s) \<noteq> 64 \<or>
         list_ex (\<lambda>c. c \<notin> set ''0123456789abcdef'') (casefold (ss_content_sha256 s)),
       ContractError ''content_sha256 must be a 64-character hexadecimal digest'')] @
     nonempty (ss_object_key s) ''object_key'' 1024 @
     [(ss_availability s = Unavailable \<and> falsy (ss_unavailable_reason s),
       ContractError ''Unavailable snapshot requires unavailable_reason''),
      json_safe (JObj (ss_metadata s)) ''metadata''])"

record evidence_record =
  ev_id :: string
  ev_project_id :: string
  ev_key :: string
  ev_value :: json
  ev_provenance :: provenance
  ev_unit :: "string option"
  ev_source_url :: "string option"
  ev_notes :: "string option"

definition check_evidence_record :: "evidence_record \<Rightarrow> exn + unit" where
  "check_evidence_record e =
     bindE (raise_first (
       [uuid_check (ev_id e) ''id'', uuid_check (ev_project_id e) ''project_id''] @
       nonempty (ev_key e) ''key'' 255 @ [json_safe (ev_value e) ''value''])) (\<lambda>_.
     case ev_source_url e of
       None \<Rightarrow> Inr ()
     | Some url \<Rightarrow> if url = [] then Inr () else absolute_url_check url ''source_url'')"

record metric_observation =
  mo_id :: string
  mo_project_id :: string
  mo_name :: string
  mo_value :: "json option"
  mo_provenance :: provenance
  mo_evidence_ids :: "string list"
  mo_unit :: "string option"
  mo_dimensions :: "(string \<times> json) list"

definition check_metric_observation :: "metric_observation \<Rightarrow> exn + unit" where
  "check_metric_observation m = raise_first (
     [uuid_check (mo_id m) ''id'', uuid_check (mo_project_id m) ''project_id''] @
     nonempty (mo_name m) ''name'' 255 @
     map (\<lambda>i. uuid_check i ''evidence_id'') (mo_evidence_ids m) @
     [(pv_availability (mo_provenance m) = Available \<and> mo_value m = None,
       ContractError ''Available metric requires a value'')] @
     (case mo_value m of None \<Rightarrow> [] | Some v \<Rightarrow> [json_safe v ''value'']) @
     [json_safe (JObj (mo_dimensions m)) ''dimensions''])"

subsection \<open>Pages\<close>

record page_snapshot =
  pg_id :: string
  pg_project_id :: string
  pg_original_url :: string
  pg_normalized_url :: string
  pg_status_code :: "int option"
  pg_captured_at :: timestamp
  pg_evidence_id :: string
  pg_title :: "string option"
  pg_meta_description :: "string option"
  pg_h1 :: "string list"
  pg_canonical_url :: "string option"
  pg_robots_directives :: "string list"
  pg_content_type :: "string option"
  pg_body_sha256 :: "string option"
  pg_links :: "string list"
  pg_word_count :: "int option"
  pg_body_bytes :: int
  pg_response_ms :: "int option"
  pg_images_total :: int
  pg_images_missing_alt :: int
  pg_schema_types :: "string list"
  pg_h2 :: "string list"
  pg_external_links :: "string list"
  pg_og_title :: bool
  pg_og_description :: bool
  pg_lang :: "string option"
  pg_viewport :: bool
  pg_hreflang_count :: int
  pg_analytics_tags :: "string list"
  pg_url_depth :: int
  pg_redirect_chain :: "string list"

definition nonneg_check :: "int \<Rightarrow> string \<Rightarrow> check" where
  "nonneg_check v name = (v < 0, ContractError (name @ '' cannot be negative''))"

definition nonneg_opt :: "int option \<Rightarrow> string \<Rightarrow> check" where
  "nonneg_opt v name = (opt_any (\<lambda>i. i < 0) v, ContractError (name @ '' cannot be negative''))"

definition check_page_snapshot :: "page_snapshot \<Rightarrow> exn + unit" where
  "check_page_snapshot p =
     bindE (raise_first
       [uuid_check (pg_id p) ''id'', uuid_check (pg_project_id p) ''project_id'',
        uuid_check (pg_evidence_id p) ''evidence_id'', aware (pg_captured_at p) ''captured_at'',
        (opt_any (\<lambda>c. \<not> (100 \<le> c \<and> c \<le> 599)) (pg_status_code p),
         ContractError ''status_code must be a valid HTTP status'')]) (\<lambda>_.
     bindE (absolute_url_check (pg_original_url p) ''original_url'') (\<lambda>_.
     bindE (absolute_url_check (pg_normalized_url p) ''normalized_url'') (\<lambda>_.
     raise_first
       [(opt_any (\<lambda>h. length h \<noteq> 64) (pg_body_sha256 p),
         ContractError ''body_sha256 must be a SHA-256 hexadecimal digest''),
        nonneg_check (pg_body_bytes p) ''body_bytes'', nonneg_check (pg_images_total p) ''images_total'',
        nonneg_check (pg_images_missing_alt p) ''images_missing_alt'',
        nonneg_check (pg_hreflang_count p) ''hreflang_count'', nonneg_check (pg_url_depth p) ''url_depth'',
        nonneg_opt (pg_word_count p) ''word_count'', nonneg_opt (pg_response_ms p) ''response_ms'',
        (pg_images_total p < pg_images_missing_alt p,
         ContractError ''images_missing_alt cannot exceed images_total'')])))"

subsection \<open>Findings, recommendations, actions and facts\<close>

record finding =
  fd_id :: string
  fd_project_id :: string
  fd_category :: string
  fd_rule_id :: string
  fd_rule_version :: string
  fd_severity :: severity
  fd_title :: string
  fd_description :: string
  fd_evidence_ids :: "string list"
  fd_affected_urls :: "string list"
  fd_affected_share :: rat
  fd_confidence :: rat
  fd_risk :: risk_class

definition unit_interval :: "rat \<Rightarrow> string \<Rightarrow> check" where
  "unit_interval v name = (\<not> (0 \<le> v \<and> v \<le> 1), ContractError (name @ '' must be between 0 and 1''))"

definition check_finding :: "finding \<Rightarrow> exn + unit" where
  "check_finding f = raise_first (
     [uuid_check (fd_id f) ''id'', uuid_check (fd_project_id f) ''project_id''] @
     nonempty (fd_category f) ''category'' 80 @ nonempty (fd_rule_id f) ''rule_id'' 120 @
     nonempty (fd_rule_version f) ''rule_version'' 40 @ nonempty (fd_title f) ''title'' 300 @
     nonempty (fd_description f) ''description'' 4000 @
     [(fd_severity f \<noteq> Sev_info \<and> fd_evidence_ids f = [],
       ContractError ''Non-informational findings require evidence'')] @
     map (\<lambda>i. uuid_check i ''evidence_id'') (fd_evidence_ids f) @
     [unit_interval (fd_affected_share f) ''affected_share'', unit_interval (fd_confidence f) ''confidence''])"

record recommendation =
  rc_id :: string
  rc_project_id :: string
  rc_finding_ids :: "string list"
  rc_title :: string
  rc_rationale :: string
  rc_implementation :: string
  rc_evidence_ids :: "string list"
  rc_risk :: risk_class
  rc_requires_admin_approval :: bool

definition check_recommendation :: "recommendation \<Rightarrow> exn + unit" where
  "check_recommendation r = raise_first (
     [uuid_check (rc_id r) ''id'', uuid_check (rc_project_id r) ''project_id'',
      (rc_finding_ids r = [] \<or> rc_evidence_ids r = [],
       ContractError ''Recommendations require findings and evidence'')] @
     map (\<lambda>i. uuid_check i ''linked id'') (rc_finding_ids r @ rc_evidence_ids r) @
     nonempty (rc_title r) ''title'' 300 @ nonempty (rc_rationale r) ''rationale'' 4000 @
     nonempty (rc_implementation r) ''implementation'' 10000 @
     [(rc_risk r \<in> {Risk_high, Risk_dangerous} \<and> \<not> rc_requires_admin_approval r,
       ContractError ''High-risk recommendations require admin approval'')])"

record action_candidate =
  ac_id :: string
  ac_recommendation_id :: string
  ac_title :: string
  ac_impact :: rat
  ac_evidence_confidence :: rat
  ac_reach :: rat
  ac_business_criticality :: rat
  ac_dependency_urgency :: rat
  ac_effort :: rat
  ac_owner_role :: "string option"
  ac_dependencies :: "string list"

definition percent_check :: "rat \<Rightarrow> string \<Rightarrow> check" where
  "percent_check v name = (\<not> (0 \<le> v \<and> v \<le> 100), ContractError (name @ '' must be between 0 and 100''))"

definition check_action_candidate :: "action_candidate \<Rightarrow> exn + unit" where
  "check_action_candidate a = raise_first (
     [uuid_check (ac_id a) ''id'', uuid_check (ac_recommendation_id a) ''recommendation_id''] @
     nonempty (ac_title a) ''title'' 300 @
     [percent_check (ac_impact a) ''impact'',
      percent_check (ac_evidence_confidence a) ''evidence_confidence'',
      percent_check (ac_reach a) ''reach'',
      percent_check (ac_business_criticality a) ''business_criticality'',
      percent_check (ac_dependency_urgency a) ''dependency_urgency'',
      percent_check (ac_effort a) ''effort''] @
     map (\<lambda>d. uuid_check d ''dependency'') (ac_dependencies a))"

record verified_fact =
  vf_key :: string
  vf_value :: json
  vf_evidence_ids :: "string list"
  vf_as_of :: timestamp

definition check_verified_fact :: "verified_fact \<Rightarrow> exn + unit" where
  "check_verified_fact f = raise_first (
     nonempty (vf_key f) ''key'' 255 @ [json_safe (vf_value f) ''value'',
     (vf_evidence_ids f = [], ContractError ''Verified facts require evidence'')] @
     map (\<lambda>i. uuid_check i ''evidence_id'') (vf_evidence_ids f) @ [aware (vf_as_of f) ''as_of''])"

definition require_evidence_references :: "evidence_record list \<Rightarrow> string list \<Rightarrow> exn + unit" where
  "require_evidence_references records ids =
     (let missing = sorted_set (filter (\<lambda>i. i \<notin> set (map ev_id records)) ids)
      in if missing \<noteq> []
         then Inl (ContractError (''Unknown evidence references: '' @ join '', '' missing))
         else Inr ())"

subsection \<open>What a constructed object guarantees\<close>

lemmas check_defs = aware_def nonempty_def uuid_check_def json_safe_def nonneg_check_def nonneg_opt_def
  unit_interval_def percent_check_def

lemma uuid_checks_iff:
  "(\<forall>x \<in> (\<lambda>i. uuid_check i name) ` A. case x of (bad, e) \<Rightarrow> \<not> bad) \<longleftrightarrow> (\<forall>i \<in> A. is_uuid i)"
  by (simp add: uuid_check_def)

lemma check_findingD:
  assumes "check_finding f = Inr ()"
  shows "is_uuid (fd_id f)" and "is_uuid (fd_project_id f)"
    and "fd_severity f = Sev_info \<or> fd_evidence_ids f \<noteq> []"
    and "\<forall>i \<in> set (fd_evidence_ids f). is_uuid i"
    and "0 \<le> fd_affected_share f" and "fd_affected_share f \<le> 1"
    and "strip (fd_title f) \<noteq> []" and "length (strip (fd_title f)) \<le> 300"
    and "strip (fd_description f) \<noteq> []" and "length (strip (fd_description f)) \<le> 4000"
  using assms unfolding check_finding_def raise_first_Inr_iff by (auto simp: check_defs)

lemma check_page_snapshotD:
  assumes "check_page_snapshot p = Inr ()"
  shows "\<exists>u h. urlsplit (pg_normalized_url p) = Inr u \<and> u_scheme u \<in> {''http'', ''https''} \<and>
           hostname u = Some h \<and> h \<noteq> []"
    and "0 \<le> pg_images_missing_alt p" and "pg_images_missing_alt p \<le> pg_images_total p"
    and "\<And>c. pg_status_code p = Some c \<Longrightarrow> 100 \<le> c \<and> c \<le> 599"
    and "0 \<le> pg_body_bytes p" and "0 \<le> pg_url_depth p" and "is_uuid (pg_evidence_id p)"
proof -
  from assms show "\<exists>u h. urlsplit (pg_normalized_url p) = Inr u \<and> u_scheme u \<in> {''http'', ''https''} \<and>
           hostname u = Some h \<and> h \<noteq> []"
    by (auto simp: check_page_snapshot_def bindE_Inr_iff absolute_url_check_def falsy_def split: if_splits)
  from assms show "0 \<le> pg_images_missing_alt p" "pg_images_missing_alt p \<le> pg_images_total p"
    "\<And>c. pg_status_code p = Some c \<Longrightarrow> 100 \<le> c \<and> c \<le> 599"
    "0 \<le> pg_body_bytes p" "0 \<le> pg_url_depth p" "is_uuid (pg_evidence_id p)"
    unfolding check_page_snapshot_def bindE_Inr_iff raise_first_Inr_iff
    by (auto simp: check_defs opt_any_iff)
qed

lemma check_recommendationD:
  assumes "check_recommendation r = Inr ()"
  shows "rc_risk r \<in> {Risk_high, Risk_dangerous} \<longrightarrow> rc_requires_admin_approval r"
    and "rc_finding_ids r \<noteq> []" and "rc_evidence_ids r \<noteq> []"
  using assms unfolding check_recommendation_def raise_first_Inr_iff by (auto simp: check_defs)

lemma check_action_candidateD:
  assumes "check_action_candidate a = Inr ()"
  shows "\<forall>v \<in> {ac_impact a, ac_evidence_confidence a, ac_reach a, ac_business_criticality a,
      ac_dependency_urgency a, ac_effort a}. 0 \<le> v \<and> v \<le> 100"
  using assms unfolding check_action_candidate_def raise_first_Inr_iff by (auto simp: check_defs)

text \<open>
  the three run profiles are valid limits, and a larger profile never has a smaller budget.
\<close>

theorem run_limits_valid:
  "check_run_limits (RUN_LIMITS p) = Inr () \<and>
   page_budget (RUN_LIMITS Quick) < page_budget (RUN_LIMITS Standard) \<and>
   page_budget (RUN_LIMITS Standard) < page_budget (RUN_LIMITS Enterprise) \<and>
   content_asset_cap (RUN_LIMITS Quick) \<le> content_asset_cap (RUN_LIMITS p) \<and>
   content_asset_cap (RUN_LIMITS p) \<le> content_asset_cap (RUN_LIMITS Enterprise)"
  by (cases p) (simp_all add: check_run_limits_def)

text \<open>
  \<open>require_evidence_references\<close> accepts exactly the references into the fact pack; otherwise it
  names every unknown reference, once, in order.
\<close>

theorem require_evidence_references_iff:
  "(require_evidence_references rs ids = Inr () \<longleftrightarrow> set ids \<subseteq> ev_id ` set rs) \<and>
   (\<forall>e. require_evidence_references rs ids = Inl e \<longrightarrow>
      (\<exists>missing. e = ContractError (''Unknown evidence references: '' @ join '', '' missing) \<and>
         set missing = set ids - ev_id ` set rs \<and> sorted missing \<and> distinct missing))"
proof (cases "set ids \<subseteq> ev_id ` set rs")
  case True
  then have "filter (\<lambda>i. i \<notin> set (map ev_id rs)) ids = []" by (auto simp: filter_empty_conv)
  with True show ?thesis by (simp add: require_evidence_references_def sorted_set_def)
next
  case False
  define missing where "missing = sorted_set (filter (\<lambda>i. i \<notin> set (map ev_id rs)) ids)"
  have m: "set missing = set ids - ev_id ` set rs" "sorted missing" "distinct missing"
    by (auto simp: missing_def)
  with False have "missing \<noteq> []" by auto
  then have "require_evidence_references rs ids =
      Inl (ContractError (''Unknown evidence references: '' @ join '', '' missing))"
    by (simp add: require_evidence_references_def missing_def)
  with False m show ?thesis by auto
qed

definition demo_provenance :: provenance where
  "demo_provenance = \<lparr>pv_source = Crawl, pv_captured_at = Aware 0, pv_availability = Available,
     pv_locale = None, pv_device = None, pv_scope = None, pv_rule_version = None, pv_confidence = 1,
     pv_unavailable_reason = None, pv_source_snapshot_id = None\<rparr>"

definition demo_uuid :: string where
  "demo_uuid = ''0f8fad5b-d9cb-469f-a165-70867728950e''"

definition demo_evidence :: evidence_record where
  "demo_evidence = \<lparr>ev_id = demo_uuid, ev_project_id = demo_uuid, ev_key = ''k'', ev_value = JInt 1,
     ev_provenance = demo_provenance, ev_unit = None, ev_source_url = Some ''https://ex.com/'',
     ev_notes = None\<rparr>"

lemma demo_evidence_valid: "check_evidence_record demo_evidence = Inr ()"
  by code_simp

lemma require_evidence_references_iff_witness:
  "require_evidence_references [demo_evidence] [demo_uuid] = Inr () \<longleftrightarrow>
      set [demo_uuid] \<subseteq> ev_id ` set [demo_evidence]"
  using require_evidence_references_iff [of "[demo_evidence]" "[demo_uuid]"] by simp

text \<open>
  a recommendation that can be constructed is grounded in findings and evidence, and a high-risk
  one always requires an administrator's approval.
\<close>

theorem recommendation_needs_approval:
  assumes "check_recommendation r = Inr ()"
  shows "(rc_requires_admin_approval r \<or> rc_risk r \<in> {Risk_low, Risk_moderate}) \<and>
    rc_finding_ids r \<noteq> [] \<and> rc_evidence_ids r \<noteq> []"
  using check_recommendationD [OF assms] by (cases "rc_risk r") auto

definition demo_recommendation :: recommendation where
  "demo_recommendation = \<lparr>rc_id = demo_uuid, rc_project_id = demo_uuid, rc_finding_ids = [demo_uuid],
     rc_title = ''t'', rc_rationale = ''r'', rc_implementation = ''i'', rc_evidence_ids = [demo_uuid],
     rc_risk = Risk_high, rc_requires_admin_approval = True\<rparr>"

lemma recommendation_needs_approval_witness:
  "(rc_requires_admin_approval demo_recommendation \<or> rc_risk demo_recommendation \<in> {Risk_low, Risk_moderate}) \<and>
    rc_finding_ids demo_recommendation \<noteq> [] \<and> rc_evidence_ids demo_recommendation \<noteq> []"
  by (rule recommendation_needs_approval) code_simp

end
