(* ===== verification/Scoring.thy ===== *)
theory Scoring
  imports Models
begin

text \<open>
  \<open>audit_engine/scoring.py\<close>: category scores, the weighted scorecard and the priority of an action.
  All arithmetic is binary64 (\<open>Py_Float\<close>); decimal literals are the doubles nearest to them. The rule
  multipliers and the evidence coverage are mappings from names to floats.
\<close>

definition SCORING_VERSION :: string where
  "SCORING_VERSION = ''1.0.0''"

fun SEVERITY_PENALTIES :: "severity \<Rightarrow> rat" where
  "SEVERITY_PENALTIES Sev_critical = 30"
| "SEVERITY_PENALTIES Sev_high = 18"
| "SEVERITY_PENALTIES Sev_medium = 8"
| "SEVERITY_PENALTIES Sev_low = 3"
| "SEVERITY_PENALTIES Sev_info = 0"

fun CATEGORY_WEIGHTS :: "business_profile \<Rightarrow> (string \<times> rat) list" where
  "CATEGORY_WEIGHTS Service_saas = [(''technical'', 25), (''on_page'', 20), (''performance'', 10),
     (''analytics'', 10), (''keyword_architecture'', 15), (''authority'', 10), (''cro'', 5),
     (''geo_aeo'', 5)]"
| "CATEGORY_WEIGHTS Local = [(''technical'', 20), (''on_page'', 15), (''performance'', 10),
     (''analytics'', 10), (''keyword_architecture'', 10), (''authority'', 10), (''cro'', 5),
     (''local'', 15), (''geo_aeo'', 5)]"
| "CATEGORY_WEIGHTS Ecommerce = [(''technical'', 20), (''on_page'', 15), (''performance'', 10),
     (''analytics'', 10), (''keyword_architecture'', 10), (''authority'', 10), (''cro'', 10),
     (''ecommerce'', 10), (''geo_aeo'', 5)]"
| "CATEGORY_WEIGHTS Hybrid = [(''technical'', 15), (''on_page'', 15), (''performance'', 10),
     (''analytics'', 10), (''keyword_architecture'', 10), (''authority'', 10), (''cro'', 10),
     (''local'', 15 / 2), (''ecommerce'', 15 / 2), (''geo_aeo'', 5)]"

record category_result =
  cs_category :: string
  cs_score :: rat
  cs_penalty :: rat
  cs_evidence_coverage :: rat
  cs_finding_count :: nat

record scorecard_result =
  sc_version :: string
  sc_business_profile :: business_profile
  sc_categories :: "category_result list"
  sc_weighted_coverage :: rat
  sc_overall_score :: "rat option"
  sc_overall_unavailable_reason :: "string option"

record priority_result =
  pr_score :: rat
  pr_band :: string
  pr_version :: string

definition bounded :: "rat \<Rightarrow> string \<Rightarrow> exn + rat" where
  "bounded v name = (if 0 \<le> v \<and> v \<le> 100 then Inr v
     else Inl (ValueError (name @ '' must be between 0 and 100'')))"

definition add_penalty :: "(string \<rightharpoonup> rat) \<Rightarrow> rat \<Rightarrow> finding \<Rightarrow> exn + rat" where
  "add_penalty multipliers penalty f =
     (let multiplier = opt_or 1 (multipliers (fd_rule_id f)) in
      if 0 \<le> multiplier \<and> multiplier \<le> 3
      then Inr (fadd penalty
             (fmul (fmul (SEVERITY_PENALTIES (fd_severity f)) (fd_affected_share f)) multiplier))
      else Inl (ValueError (''Rule multiplier for '' @ fd_rule_id f @ '' is outside 0..3'')))"

definition category_score ::
    "string \<Rightarrow> finding list \<Rightarrow> rat \<Rightarrow> (string \<rightharpoonup> rat) \<Rightarrow> exn + category_result" where
  "category_score category findings evidence_coverage multipliers =
     (if \<not> (0 \<le> evidence_coverage \<and> evidence_coverage \<le> 1)
      then Inl (ValueError ''evidence_coverage must be between 0 and 1'')
      else let selected = filter (\<lambda>f. fd_category f = category) findings in
        bindE (foldE (add_penalty multipliers) 0 selected) (\<lambda>penalty.
        let capped = min 100 penalty in
        Inr \<lparr>cs_category = category, cs_score = pyround (fsub 100 capped) 2,
             cs_penalty = pyround capped 2, cs_evidence_coverage = pyround evidence_coverage 4,
             cs_finding_count = length selected\<rparr>))"

record score_state =
  st_categories :: "category_result list"
  st_coverage :: rat
  st_score :: rat

definition score_step :: "finding list \<Rightarrow> (string \<rightharpoonup> rat) \<Rightarrow> (string \<rightharpoonup> rat) \<Rightarrow> score_state \<Rightarrow>
    string \<times> rat \<Rightarrow> exn + score_state" where
  "score_step findings evidence_coverage multipliers st entry =
     (case entry of (category, weight) \<Rightarrow>
       let coverage = opt_or 0 (evidence_coverage category) in
       bindE (category_score category findings coverage multipliers) (\<lambda>r.
       Inr \<lparr>st_categories = st_categories st @ [r],
            st_coverage = fadd (st_coverage st) (fdiv (fmul coverage weight) 100),
            st_score = fadd (st_score st) (fdiv (fmul (cs_score r) weight) 100)\<rparr>))"

definition weights_total :: "business_profile \<Rightarrow> rat" where
  "weights_total profile = fsum (map snd (CATEGORY_WEIGHTS profile))"

definition scorecard :: "business_profile \<Rightarrow> finding list \<Rightarrow> (string \<rightharpoonup> rat) \<Rightarrow> (string \<rightharpoonup> rat) \<Rightarrow>
    rat \<Rightarrow> exn + scorecard_result" where
  "scorecard profile findings evidence_coverage multipliers publication_threshold =
     (if \<not> (0 \<le> publication_threshold \<and> publication_threshold \<le> 1)
      then Inl (ValueError ''publication_threshold must be between 0 and 1'')
      else if fl (1 / 1000) < \<bar>fsub (weights_total profile) 100\<bar>
      then Inl (RuntimeError ''Category weight matrix must total 100'')
      else bindE (foldE (score_step findings evidence_coverage multipliers)
                   \<lparr>st_categories = [], st_coverage = 0, st_score = 0\<rparr> (CATEGORY_WEIGHTS profile)) (\<lambda>st.
        let publish = (publication_threshold \<le> st_coverage st) in
        Inr \<lparr>sc_version = SCORING_VERSION, sc_business_profile = profile,
             sc_categories = st_categories st, sc_weighted_coverage = pyround (st_coverage st) 4,
             sc_overall_score = (if publish then Some (pyround (st_score st) 2) else None),
             sc_overall_unavailable_reason = (if publish then None
               else Some (''Weighted evidence coverage '' @ fmt_pct 1 (st_coverage st) @
                 '' is below the '' @ fmt_pct 0 publication_threshold @ '' publication threshold''))\<rparr>))"

definition DEFAULT_THRESHOLD :: rat where
  "DEFAULT_THRESHOLD = fl (7 / 10)"

definition priority_value :: "rat \<Rightarrow> rat \<Rightarrow> rat \<Rightarrow> rat \<Rightarrow> rat \<Rightarrow> rat \<Rightarrow> rat" where
  "priority_value impact confidence reach criticality urgency effort =
     fadd (fadd (fadd (fadd (fadd (fmul impact (fl (3 / 10))) (fmul confidence (fl (2 / 10))))
       (fmul reach (fl (15 / 100)))) (fmul criticality (fl (15 / 100))))
       (fmul urgency (fl (1 / 10)))) (fmul (fsub 100 effort) (fl (1 / 10)))"

definition priority_band :: "rat \<Rightarrow> string" where
  "priority_band score = (if 75 \<le> score then ''P1'' else if 55 \<le> score then ''P2''
     else if 35 \<le> score then ''P3'' else ''P4'')"

definition priority_score :: "rat \<Rightarrow> rat \<Rightarrow> rat \<Rightarrow> rat \<Rightarrow> rat \<Rightarrow> rat \<Rightarrow> exn + priority_result" where
  "priority_score impact confidence reach criticality urgency effort =
     bindE (bounded impact ''impact'') (\<lambda>impact.
     bindE (bounded confidence ''evidence_confidence'') (\<lambda>confidence.
     bindE (bounded reach ''reach'') (\<lambda>reach.
     bindE (bounded criticality ''business_criticality'') (\<lambda>criticality.
     bindE (bounded urgency ''dependency_urgency'') (\<lambda>urgency.
     bindE (bounded effort ''effort'') (\<lambda>effort.
     let score = priority_value impact confidence reach criticality urgency effort in
     Inr \<lparr>pr_score = pyround score 2, pr_band = priority_band score, pr_version = SCORING_VERSION\<rparr>))))))"

subsection \<open>Monotonicity of the float operations\<close>

lemma fadd_mono: "a \<le> b \<Longrightarrow> c \<le> d \<Longrightarrow> fadd a c \<le> fadd b d"
  unfolding fadd_def by (rule b64.mono) simp

lemma fsub_mono: "a \<le> b \<Longrightarrow> d \<le> c \<Longrightarrow> fsub a c \<le> fsub b d"
  unfolding fsub_def by (rule b64.mono) simp

lemma fmul_mono: "0 \<le> a \<Longrightarrow> a \<le> b \<Longrightarrow> 0 \<le> c \<Longrightarrow> c \<le> d \<Longrightarrow> fmul a c \<le> fmul b d"
  unfolding fmul_def by (rule b64.mono) (simp add: mult_mono)

lemma fmul_nonneg: "0 \<le> a \<Longrightarrow> 0 \<le> b \<Longrightarrow> 0 \<le> fmul a b"
  unfolding fmul_def by (rule b64.nonneg) simp

lemma fadd_nonneg: "0 \<le> a \<Longrightarrow> 0 \<le> b \<Longrightarrow> 0 \<le> fadd a b"
  unfolding fadd_def by (rule b64.nonneg) simp

lemma fdiv_nonneg: "0 \<le> a \<Longrightarrow> 0 \<le> b \<Longrightarrow> 0 \<le> fdiv a b"
  unfolding fdiv_def by (rule b64.nonneg) simp

lemmas float_nonneg = fmul_nonneg fadd_nonneg fdiv_nonneg

lemma fsub_hundred: "0 \<le> x \<Longrightarrow> x \<le> 100 \<Longrightarrow> 0 \<le> fsub 100 x \<and> fsub 100 x \<le> 100"
  unfolding fsub_def using b64.nonneg [of "100 - x"] b64.le_hundred [of "100 - x"] by simp

lemma SEVERITY_PENALTIES_nonneg: "0 \<le> SEVERITY_PENALTIES s"
  by (cases s) simp_all

subsection \<open>Category scores\<close>

abbreviation valid_findings :: "finding list \<Rightarrow> bool" where
  "valid_findings fs \<equiv> (\<forall>f \<in> set fs. check_finding f = Inr ())"

lemma add_penaltyD:
  assumes "add_penalty ms a f = Inr b" and "check_finding f = Inr ()"
  obtains x where "0 \<le> x" and "b = fadd a x"
    and "x = fmul (fmul (SEVERITY_PENALTIES (fd_severity f)) (fd_affected_share f))
               (opt_or 1 (ms (fd_rule_id f)))"
proof -
  let ?m = "opt_or 1 (ms (fd_rule_id f))"
  let ?x = "fmul (fmul (SEVERITY_PENALTIES (fd_severity f)) (fd_affected_share f)) ?m"
  have "0 \<le> ?m" and b: "b = fadd a ?x"
    using assms(1) by (auto simp: add_penalty_def Let_def split: if_splits)
  then have "0 \<le> ?x"
    using check_findingD(5) [OF assms(2)] by (simp add: float_nonneg SEVERITY_PENALTIES_nonneg)
  with b show thesis by (intro that) auto
qed

lemma penalties_nonneg:
  assumes "foldE (add_penalty ms) a fs = Inr p" and "valid_findings fs" and "0 \<le> a"
  shows "0 \<le> p"
  using assms(1,3)
proof (rule foldE_invariant)
  fix s x t assume "x \<in> set fs" "0 \<le> s" "add_penalty ms s x = Inr t"
  then show "0 \<le> t" using assms(2) by (auto elim!: add_penaltyD intro!: float_nonneg)
qed

lemma penalties_mono:
  assumes "subseq fs gs" and "valid_findings gs" and "a \<le> b" and "fl b = b"
    and "foldE (add_penalty ms) a fs = Inr p" and "foldE (add_penalty ms) b gs = Inr q"
  shows "p \<le> q"
  using assms
proof (induction arbitrary: a b rule: list_emb.induct)
  case (list_emb_Nil gs)
  have "a \<le> q" using list_emb_Nil.prems
  proof (induction gs arbitrary: b)
    case (Cons g gs)
    from Cons.prems(5) obtain b' where b': "add_penalty ms b g = Inr b'"
      and rest: "foldE (add_penalty ms) b' gs = Inr q" by (auto simp: bindE_Inr_iff)
    obtain x where x: "0 \<le> x" "b' = fadd b x"
      by (rule add_penaltyD [OF b']) (use Cons.prems(1) in auto)
    have "a \<le> b'" using b64.absorb [OF Cons.prems(3) x(1)] Cons.prems(2) x(2) by (simp add: fadd_def)
    with x rest show ?case by (intro Cons.IH) (use Cons.prems in \<open>auto simp: fadd_def\<close>)
  qed simp
  with list_emb_Nil.prems(4) show ?case by simp
next
  case (list_emb_Cons fs gs g)
  from list_emb_Cons.prems(5) obtain b' where b': "add_penalty ms b g = Inr b'"
    and rest: "foldE (add_penalty ms) b' gs = Inr q" by (auto simp: bindE_Inr_iff)
  obtain x where x: "0 \<le> x" "b' = fadd b x"
    by (rule add_penaltyD [OF b']) (use list_emb_Cons.prems(1) in auto)
  have "a \<le> b'" using b64.absorb [OF list_emb_Cons.prems(3) x(1)] list_emb_Cons.prems(2) x(2)
    by (simp add: fadd_def)
  with x rest show ?case
    by (intro list_emb_Cons.IH) (use list_emb_Cons.prems in \<open>auto simp: fadd_def\<close>)
next
  case (list_emb_Cons2 f g fs gs)
  from list_emb_Cons2.prems(4,5) obtain a' b' where a': "add_penalty ms a g = Inr a'"
    and b': "add_penalty ms b g = Inr b'" and rest: "foldE (add_penalty ms) a' fs = Inr p"
      "foldE (add_penalty ms) b' gs = Inr q"
    using list_emb_Cons2.hyps by (auto simp: bindE_Inr_iff)
  have g: "check_finding g = Inr ()" using list_emb_Cons2.prems(1) by simp
  obtain x where x: "a' = fadd a x" "b' = fadd b x"
    using add_penaltyD [OF a' g] add_penaltyD [OF b' g] by metis
  with list_emb_Cons2.prems(2) have "a' \<le> b'" by (simp add: fadd_mono)
  with x rest show ?case
    by (intro list_emb_Cons2.IH) (use list_emb_Cons2.prems in \<open>auto simp: fadd_def\<close>)
qed

lemma category_scoreD:
  assumes "category_score c fs cov ms = Inr r"
  obtains p where "foldE (add_penalty ms) 0 (filter (\<lambda>f. fd_category f = c) fs) = Inr p"
    and "0 \<le> cov" and "cov \<le> 1" and "cs_score r = pyround (fsub 100 (min 100 p)) 2"
    and "cs_penalty r = pyround (min 100 p) 2" and "cs_evidence_coverage r = pyround cov 4"
    and "cs_finding_count r = length (filter (\<lambda>f. fd_category f = c) fs)" and "cs_category r = c"
  using assms by (auto simp: category_score_def Let_def bindE_Inr_iff split: if_splits)

text \<open>
  a category score is between 0 and 100, as is its penalty, whatever the number and severity of the
  findings, and it counts exactly the findings of its category.
\<close>

theorem category_score_bounds:
  assumes "category_score c fs cov ms = Inr r" and "\<forall>f \<in> set fs. check_finding f = Inr ()"
  shows "0 \<le> cs_score r \<and> cs_score r \<le> 100 \<and> 0 \<le> cs_penalty r \<and> cs_penalty r \<le> 100 \<and>
    0 \<le> cs_evidence_coverage r \<and> cs_evidence_coverage r \<le> 1 \<and>
    cs_finding_count r = length (filter (\<lambda>f. fd_category f = c) fs)"
proof (rule category_scoreD [OF assms(1)])
  fix p
  assume p: "foldE (add_penalty ms) 0 (filter (\<lambda>f. fd_category f = c) fs) = Inr p" and "0 \<le> cov" "cov \<le> 1"
    and r: "cs_score r = pyround (fsub 100 (min 100 p)) 2" "cs_penalty r = pyround (min 100 p) 2"
    "cs_evidence_coverage r = pyround cov 4"
    "cs_finding_count r = length (filter (\<lambda>f. fd_category f = c) fs)"
  have "0 \<le> p" using penalties_nonneg [OF p] assms(2) by simp
  then have "0 \<le> min 100 p" "min 100 p \<le> 100" by simp_all
  with fsub_hundred [of "min 100 p"] \<open>0 \<le> cov\<close> \<open>cov \<le> 1\<close> show ?thesis
    by (simp add: r pyround_bounds)
qed

text \<open>
  more findings never raise a category score: the score over any sub-sequence of the findings is at
  least the score over all of them, rounding included.
\<close>

theorem category_score_antitone:
  assumes "category_score c fs cov ms = Inr r" and "category_score c gs cov' ms = Inr r'"
    and "subseq fs gs" and "\<forall>f \<in> set gs. check_finding f = Inr ()"
  shows "cs_score r' \<le> cs_score r \<and> cs_penalty r \<le> cs_penalty r'"
proof -
  obtain p where p: "foldE (add_penalty ms) 0 (filter (\<lambda>f. fd_category f = c) fs) = Inr p"
      "cs_score r = pyround (fsub 100 (min 100 p)) 2" "cs_penalty r = pyround (min 100 p) 2"
    by (rule category_scoreD [OF assms(1)])
  obtain q where q: "foldE (add_penalty ms) 0 (filter (\<lambda>f. fd_category f = c) gs) = Inr q"
      "cs_score r' = pyround (fsub 100 (min 100 q)) 2" "cs_penalty r' = pyround (min 100 q) 2"
    by (rule category_scoreD [OF assms(2)])
  have "p \<le> q" by (rule penalties_mono [OF _ _ _ _ p(1) q(1)]) (use assms(3,4) in auto)
  then have "min 100 p \<le> min 100 q" by simp
  then show ?thesis unfolding p(2,3) q(2,3) by (auto intro!: pyround_mono fsub_mono)
qed

subsection \<open>The scorecard\<close>

fun exact_weights :: "rat \<Rightarrow> rat list \<Rightarrow> bool" where
  "exact_weights a [] \<longleftrightarrow> a \<le> 100"
| "exact_weights a (w # ws) \<longleftrightarrow>
     0 \<le> w \<and> fl w = w \<and> fl (100 * w) = 100 * w \<and> fl (a + w) = a + w \<and> exact_weights (a + w) ws"

lemma weighted_term:
  assumes "0 \<le> s" and "s \<le> 100" and "0 \<le> w" and "fl w = w" and "fl (100 * w) = 100 * w"
  shows "0 \<le> fdiv (fmul s w) 100" and "fdiv (fmul s w) 100 \<le> w"
proof -
  show "0 \<le> fdiv (fmul s w) 100" using assms by (simp add: float_nonneg)
  have "fmul s w \<le> fl (100 * w)" unfolding fmul_def using assms by (intro b64.mono mult_right_mono)
  then have "fmul s w / 100 \<le> w" using assms(5) by simp
  then show "fdiv (fmul s w) 100 \<le> w" unfolding fdiv_def using assms(4) by (metis b64.mono)
qed

lemma score_fold_bounds:
  assumes "foldE (score_step fs cov ms) st entries = Inr st'" and "valid_findings fs"
    and "exact_weights a (map snd entries)" and "0 \<le> st_score st" and "st_score st \<le> a"
    and "0 \<le> st_coverage st"
  shows "0 \<le> st_score st' \<and> st_score st' \<le> 100 \<and> 0 \<le> st_coverage st' \<and>
    map cs_category (st_categories st') = map cs_category (st_categories st) @ map fst entries"
  using assms(1,3-6)
proof (induction entries arbitrary: st a)
  case Nil
  then show ?case by simp
next
  case (Cons e es)
  obtain c w where e: "e = (c, w)" by (cases e)
  from Cons.prems(1) obtain st1 where step: "score_step fs cov ms st e = Inr st1"
    and rest: "foldE (score_step fs cov ms) st1 es = Inr st'"
    by (auto simp: bindE_Inr_iff)
  from step e obtain r where r: "category_score c fs (opt_or 0 (cov c)) ms = Inr r"
    and st1: "st1 = \<lparr>st_categories = st_categories st @ [r],
      st_coverage = fadd (st_coverage st) (fdiv (fmul (opt_or 0 (cov c)) w) 100),
      st_score = fadd (st_score st) (fdiv (fmul (cs_score r) w) 100)\<rparr>"
    by (auto simp: bindE_Inr_iff score_step_def Let_def)
  from Cons.prems(2) e have w: "0 \<le> w" "fl w = w" "fl (100 * w) = 100 * w" "fl (a + w) = a + w"
    and ws: "exact_weights (a + w) (map snd es)" by simp_all
  note b = category_score_bounds [OF r assms(2)]
  have cov: "0 \<le> opt_or 0 (cov c)" using category_scoreD [OF r] by metis
  note t = weighted_term [OF _ _ w(1-3), of "cs_score r"]
  have "0 \<le> st_score st1" using b t Cons.prems(3) by (simp add: st1 float_nonneg)
  moreover have "st_score st1 \<le> a + w"
  proof -
    have "st_score st1 \<le> fl (a + w)"
      unfolding st1 score_state.simps fadd_def using b t(2) Cons.prems(4) by (intro b64.mono add_mono) auto
    with w(4) show ?thesis by simp
  qed
  moreover have "0 \<le> st_coverage st1" using cov w(1) Cons.prems(5) by (simp add: st1 float_nonneg)
  ultimately have "0 \<le> st_score st' \<and> st_score st' \<le> 100 \<and> 0 \<le> st_coverage st' \<and>
      map cs_category (st_categories st') = map cs_category (st_categories st1) @ map fst es"
    by (rule Cons.IH [OF rest ws])
  moreover have "cs_category r = c" using category_scoreD [OF r] by metis
  ultimately show ?case by (simp add: st1 e)
qed

lemma profile_weights_exact: "exact_weights 0 (map snd (CATEGORY_WEIGHTS p))" 
  by (cases p; simp; code_simp)

lemma weights_total_100: "weights_total p = 100"
  by (cases p; simp add: weights_total_def; code_simp)

lemma scorecardD:
  assumes "scorecard profile fs cov ms thr = Inr sheet"
  obtains st where "foldE (score_step fs cov ms) \<lparr>st_categories = [], st_coverage = 0, st_score = 0\<rparr>
      (CATEGORY_WEIGHTS profile) = Inr st" and "0 \<le> thr" and "thr \<le> 1"
    and "sc_overall_score sheet = (if thr \<le> st_coverage st then Some (pyround (st_score st) 2) else None)"
    and "sc_overall_unavailable_reason sheet = None \<longleftrightarrow> thr \<le> st_coverage st"
    and "sc_categories sheet = st_categories st" and "sc_weighted_coverage sheet = pyround (st_coverage st) 4"
  using assms by (auto simp: scorecard_def Let_def bindE_Inr_iff split: if_splits)

lemma category_score_total:
  assumes "\<And>r m. ms r = Some m \<Longrightarrow> 0 \<le> m \<and> m \<le> 3" and "0 \<le> x" and "x \<le> 1"
  shows "\<exists>r. category_score c fs x ms = Inr r"
proof -
  have "0 \<le> opt_or 1 (ms r) \<and> opt_or 1 (ms r) \<le> 3" for r using assms(1) by (cases "ms r") auto
  then have "\<exists>p. foldE (add_penalty ms) a gs = Inr p" for a gs
    by (induction gs arbitrary: a) (simp_all add: add_penalty_def Let_def)
  then show ?thesis using assms(2,3) by (auto simp: category_score_def Let_def) (metis bindE_simps(2))
qed

lemma scorecard_total:
  assumes "0 \<le> thr" and "thr \<le> 1" and "\<And>r m. ms r = Some m \<Longrightarrow> 0 \<le> m \<and> m \<le> 3"
    and "\<And>c x. cov c = Some x \<Longrightarrow> 0 \<le> x \<and> x \<le> 1"
  shows "\<exists>sheet. scorecard profile fs cov ms thr = Inr sheet"
proof -
  have "\<exists>r. category_score c fs (opt_or 0 (cov c)) ms = Inr r" for c
    using assms(4) [of c] by (intro category_score_total assms(3)) (cases "cov c"; auto)+
  then have step: "\<exists>st'. score_step fs cov ms st e = Inr st'" for st e
    by (cases e) (auto simp: score_step_def Let_def, metis bindE_simps(2))
  have "\<exists>st'. foldE (score_step fs cov ms) st es = Inr st'" for st es
  proof (induction es arbitrary: st)
    case (Cons e es)
    obtain st1 where "score_step fs cov ms st e = Inr st1" using step by blast
    with Cons show ?case by simp
  qed simp
  then obtain st where "foldE (score_step fs cov ms) \<lparr>st_categories = [], st_coverage = 0, st_score = 0\<rparr>
      (CATEGORY_WEIGHTS profile) = Inr st" by blast
  moreover have "\<not> fl (1 / 1000) < \<bar>fsub (weights_total profile) 100\<bar>"
    using b64.nonneg [of "1 / 1000"] by (simp add: weights_total_100 fsub_def)
  ultimately show ?thesis using assms(1,2) by (simp add: scorecard_def Let_def)
qed

text \<open>
  the category weights of every business profile total exactly 100, so a scorecard is never refused
  for its weights: with every coverage and the threshold in the unit interval and every multiplier
  between 0 and 3, a scorecard is always computed.
\<close>

theorem scorecard_returns:
  assumes "0 \<le> thr \<and> thr \<le> 1" and "\<forall>r m. ms r = Some m \<longrightarrow> 0 \<le> m \<and> m \<le> 3"
    and "\<forall>c x. cov c = Some x \<longrightarrow> 0 \<le> x \<and> x \<le> 1"
  shows "weights_total profile = 100 \<and> (\<exists>sheet. scorecard profile fs cov ms thr = Inr sheet)"
  using scorecard_total [of thr ms cov] assms by (simp add: weights_total_100)

lemma scorecard_returns_witness:
  "weights_total Hybrid = 100 \<and>
   (\<exists>sheet. scorecard Hybrid [] (\<lambda>c. Some (1 / 2)) (\<lambda>r. Some 3) DEFAULT_THRESHOLD = Inr sheet)"
  by (rule scorecard_returns) (auto simp: DEFAULT_THRESHOLD_def b64.nonneg b64.le_one)


subsection \<open>Priorities\<close>

lemma bounded_Inr [simp]: "bounded v name = Inr w \<longleftrightarrow> w = v \<and> 0 \<le> v \<and> v \<le> 100"
  by (auto simp: bounded_def)

lemma priority_scoreD:
  "priority_score i c r b d e = Inr res \<Longrightarrow>
   (\<forall>v \<in> {i, c, r, b, d, e}. 0 \<le> v \<and> v \<le> 100) \<and>
   pr_score res = pyround (priority_value i c r b d e) 2 \<and>
   pr_band res = priority_band (priority_value i c r b d e)"
  by (auto simp: priority_score_def bindE_Inr_iff Let_def)

lemma fl_weight_nonneg: "0 \<le> fl (3 / 10)" "0 \<le> fl (2 / 10)" "0 \<le> fl (15 / 100)" "0 \<le> fl (1 / 10)"
  by (auto intro!: b64.nonneg)

lemma priority_value_mono:
  assumes "\<forall>v \<in> {i, c, r, b, d, e, e'}. 0 \<le> v \<and> v \<le> 100"
    and "i \<le> i'" and "c \<le> c'" and "r \<le> r'" and "b \<le> b'" and "d \<le> d'" and "e' \<le> e"
  shows "priority_value i c r b d e \<le> priority_value i' c' r' b' d' e'"
proof -
  have "0 \<le> fsub 100 e" using fsub_hundred [of e] assms(1) by simp
  with assms fl_weight_nonneg show ?thesis
    unfolding priority_value_def by (intro fadd_mono fmul_mono fsub_mono) auto
qed

lemma fl_tenths:
  "fl (3 / 10) = 5404319552844595 / 18014398509481984"
  "fl (2 / 10) = 3602879701896397 / 18014398509481984"
  "fl (15 / 100) = 5404319552844595 / 36028797018963968"
  "fl (1 / 10) = 3602879701896397 / 36028797018963968"
  by code_simp+

lemma hundred_weighted:
  "fmul 100 (5404319552844595 / 18014398509481984) = 30"
  "fmul 100 (3602879701896397 / 18014398509481984) = 20"
  "fmul 100 (5404319552844595 / 36028797018963968) = 15"
  "fmul 100 (3602879701896397 / 36028797018963968) = 10"
  by code_simp+

lemma hundred_sums:
  "fadd 30 20 = 50" "fadd 50 15 = 65" "fadd 65 15 = 80" "fadd 80 10 = 90" "fadd 90 10 = 100"
  "fsub 100 0 = 100" "fsub 100 100 = 0" "fmul 0 x = 0" "fadd 0 0 = 0"
  by (code_simp | simp add: fmul_def fadd_def fsub_def)+

lemma priority_value_extremes:
  "priority_value 0 0 0 0 0 100 = 0" "priority_value 100 100 100 100 100 0 = 100"
  by (simp_all only: priority_value_def fl_tenths hundred_weighted hundred_sums)

text \<open>
  a priority score is between 0 and 100 and its band agrees with the thresholds 75, 55 and 35; the
  score and the band are monotone: raising the impact, the confidence, the reach, the criticality or the
  urgency, or lowering the effort, never lowers the priority.
\<close>

theorem priority_score_monotone:
  assumes "priority_score i c r b d e = Inr p" and "priority_score i' c' r' b' d' e' = Inr p'"
    and "i \<le> i'" and "c \<le> c'" and "r \<le> r'" and "b \<le> b'" and "d \<le> d'" and "e' \<le> e"
  shows "0 \<le> pr_score p \<and> pr_score p \<le> pr_score p' \<and> pr_score p' \<le> 100 \<and> pr_band p' \<le> pr_band p"
proof -
  note p = priority_scoreD [OF assms(1)] and p' = priority_scoreD [OF assms(2)]
  have le: "priority_value i c r b d e \<le> priority_value i' c' r' b' d' e'"
    by (rule priority_value_mono) (use p p' assms(3-8) in auto)
  have "priority_value 0 0 0 0 0 100 \<le> priority_value i c r b d e"
    by (rule priority_value_mono) (use p in auto)
  moreover have "priority_value i' c' r' b' d' e' \<le> priority_value 100 100 100 100 100 0"
    by (rule priority_value_mono) (use p' in auto)
  moreover have "pr_band p' \<le> pr_band p"
    using le p p' by (auto simp: priority_band_def less_eq_char_def)
  ultimately show ?thesis
    using le p p' by (simp add: priority_value_extremes pyround_bounds pyround_mono)
qed

lemma priority_score_monotone_witness:
  "0 \<le> (0 :: rat) \<and> (0 :: rat) \<le> 100 \<and> (100 :: rat) \<le> 100 \<and> ''P1'' \<le> ''P4''"
proof -
  have "pyround 100 2 = 100" using pyround_nat [of 100 2] by simp
  then have lo: "priority_score 0 0 0 0 0 100 = Inr \<lparr>pr_score = 0, pr_band = ''P4'', pr_version = ''1.0.0''\<rparr>"
    and hi: "priority_score 100 100 100 100 100 0 =
      Inr \<lparr>pr_score = 100, pr_band = ''P1'', pr_version = ''1.0.0''\<rparr>"
    by (simp_all add: priority_score_def bounded_def priority_value_extremes priority_band_def
        SCORING_VERSION_def)
  from priority_score_monotone [OF lo hi] show ?thesis by simp
qed

text \<open>Findings of the demonstration inputs.\<close>

definition demo_finding :: "severity \<Rightarrow> rat \<Rightarrow> finding" where
  "demo_finding sev share = \<lparr>fd_id = demo_uuid, fd_project_id = demo_uuid, fd_category = ''technical'',
     fd_rule_id = ''r'', fd_rule_version = ''1'', fd_severity = sev, fd_title = ''t'',
     fd_description = ''d'', fd_evidence_ids = [demo_uuid], fd_affected_urls = [],
     fd_affected_share = share, fd_confidence = 1, fd_risk = Risk_low\<rparr>"

lemma demo_finding_valid: "check_finding (demo_finding Sev_high (1 / 2)) = Inr ()"
  "check_finding (demo_finding Sev_critical 1) = Inr ()"
  by code_simp+

definition demo_findings :: "finding list" where
  "demo_findings = [demo_finding Sev_high (1 / 2), demo_finding Sev_critical 1]"

lemma demo_findings_valid: "\<forall>f \<in> set demo_findings. check_finding f = Inr ()"
  by (simp add: demo_findings_def demo_finding_valid)

lemma demo_steps:
  "foldE (add_penalty (\<lambda>r. None)) 0 demo_findings = Inr 39"
  "add_penalty (\<lambda>r. None) 0 (demo_finding Sev_critical 1) = Inr 30"
  "filter (\<lambda>f. fd_category f = ''technical'') demo_findings = demo_findings"
  "length demo_findings = 2"
  "pyround (fsub 100 39) 2 = 61" "pyround (fsub 100 30) 2 = 70" "pyround 39 2 = 39" "pyround 30 2 = 30"
  "pyround 1 4 = 1"
  by code_simp+

lemma demo_category_score:
  "category_score ''technical'' [demo_finding Sev_critical 1] 1 (\<lambda>r. None) = Inr
     \<lparr>cs_category = ''technical'', cs_score = 70, cs_penalty = 30, cs_evidence_coverage = 1,
      cs_finding_count = 1\<rparr>"
  "category_score ''technical'' demo_findings 1 (\<lambda>r. None) = Inr
     \<lparr>cs_category = ''technical'', cs_score = 61, cs_penalty = 39, cs_evidence_coverage = 1,
      cs_finding_count = 2\<rparr>"
proof -
  have one: "filter (\<lambda>f. fd_category f = ''technical'') [demo_finding Sev_critical 1] = [demo_finding Sev_critical 1]"
    by (simp add: demo_finding_def)
  show "category_score ''technical'' [demo_finding Sev_critical 1] 1 (\<lambda>r. None) = Inr
     \<lparr>cs_category = ''technical'', cs_score = 70, cs_penalty = 30, cs_evidence_coverage = 1,
      cs_finding_count = 1\<rparr>"
    unfolding category_score_def one demo_steps by (simp add: Let_def demo_steps)
  show "category_score ''technical'' demo_findings 1 (\<lambda>r. None) = Inr
     \<lparr>cs_category = ''technical'', cs_score = 61, cs_penalty = 39, cs_evidence_coverage = 1,
      cs_finding_count = 2\<rparr>"
    unfolding category_score_def demo_steps by (simp add: Let_def demo_steps)
qed

lemma category_score_bounds_witness:
  "0 \<le> (61 :: rat) \<and> (61 :: rat) \<le> 100 \<and> 0 \<le> (39 :: rat) \<and> (39 :: rat) \<le> 100 \<and>
    0 \<le> (1 :: rat) \<and> (1 :: rat) \<le> 1 \<and>
    (2 :: nat) = length (filter (\<lambda>f. fd_category f = ''technical'') demo_findings)"
  using category_score_bounds [OF demo_category_score(2) demo_findings_valid] by simp

lemma category_score_antitone_witness: "(61 :: rat) \<le> 70 \<and> (30 :: rat) \<le> 39"
proof -
  have "subseq [demo_finding Sev_critical 1] demo_findings" by (simp add: demo_findings_def)
  from category_score_antitone [OF demo_category_score this demo_findings_valid] show ?thesis by simp
qed

definition demo_coverage :: "string \<rightharpoonup> rat" where
  "demo_coverage c = (if c = ''technical'' \<or> c = ''on_page'' \<or> c = ''authority'' then Some 1 else None)"

lemma demo_scorecard:
  obtains sheet where "scorecard Service_saas demo_findings demo_coverage (\<lambda>r. None) (1 / 2) = Inr sheet"
proof -
  have "0 \<le> x \<and> x \<le> 1" if "demo_coverage c = Some x" for c x
    using that by (auto simp: demo_coverage_def split: if_splits)
  with scorecard_total [of "1 / 2" "\<lambda>r. None" demo_coverage Service_saas demo_findings] that
  show thesis by auto
qed


end
