(* ===== verification/Graph.thy ===== *)
theory Graph
  imports Models
begin

text \<open>
  \<open>audit_engine/graph.py\<close>: redirect, canonical and internal-link graphs. A dict from a source to its
  \<open>(target, evidence)\<close> is an association list in insertion order, a frozenset of URLs the sorted list of
  its members. \<open>walk\<close> is the loop of \<open>_walk_single_edge\<close>, whose \<open>seen\<close> dict always has the URLs of the
  path as its keys.
\<close>

datatype graph_issue_code = Redirect_loop | Redirect_chain | Redirect_target_unsafe | Canonical_loop
  | Canonical_target_unsafe | Broken_internal_link | Unknown_internal_target

record redirect_edge =
  re_source :: string
  re_target :: string
  re_status_code :: int
  re_evidence_id :: string

definition check_redirect_edge :: "redirect_edge \<Rightarrow> exn + unit" where
  "check_redirect_edge e =
     (if re_status_code e \<notin> {301, 302, 303, 307, 308}
      then Inl (ValueError ''Redirect edges require a redirect HTTP status'') else Inr ())"

record graph_issue =
  gi_code :: graph_issue_code
  gi_severity :: severity
  gi_message :: string
  gi_urls :: "string list"
  gi_evidence_ids :: "string list"

type_synonym edges = "(string \<times> string \<times> string) list"

subsection \<open>Walking the edges\<close>

function walk :: "edges \<Rightarrow> nat \<Rightarrow> string list \<Rightarrow> string list \<Rightarrow> string list \<times> string list \<times> bool" where
  "walk edges step_limit path evidence =
     (case map_of edges (last path) of
        None \<Rightarrow> (path, evidence, False)
      | Some (target, evidence_id) \<Rightarrow>
          if target \<in> set path then (path @ [target], evidence @ [evidence_id], True)
          else if step_limit + 1 < length (path @ [target])
          then (path @ [target], evidence @ [evidence_id], False)
          else walk edges step_limit (path @ [target]) (evidence @ [evidence_id]))"
  by pat_completeness auto

termination
  by (relation "measure (\<lambda>(edges, step_limit, path, evidence). step_limit + 2 - length path)") auto

declare walk.simps [simp del]

definition walk_single_edge :: "string \<Rightarrow> edges \<Rightarrow> nat \<Rightarrow> string list \<times> string list \<times> bool" where
  "walk_single_edge start edges step_limit = walk edges step_limit [start] []"

definition from_index :: "string list \<Rightarrow> string list" where
  "from_index path = dropWhile (\<lambda>u. u \<noteq> last path) path"

definition loop_key :: "string list \<Rightarrow> string list" where
  "loop_key path = sorted_set (from_index path)"

subsection \<open>Redirects\<close>

definition unsafe_issue :: "graph_issue_code \<Rightarrow> string \<Rightarrow> string \<Rightarrow> string \<Rightarrow> string \<Rightarrow> graph_issue" where
  "unsafe_issue icode message source target evidence_id =
     \<lparr>gi_code = icode, gi_severity = Sev_high, gi_message = message, gi_urls = [source, target],
      gi_evidence_ids = [evidence_id]\<rparr>"

definition add_redirect :: "string list \<Rightarrow> edges \<times> graph_issue list \<Rightarrow> redirect_edge \<Rightarrow>
    exn + (edges \<times> graph_issue list)" where
  "add_redirect allowed_domains st edge =
     (case st of (edges, issues) \<Rightarrow>
       bindE (normalize_url (re_source edge)) (\<lambda>source.
       bindE (tryE is_url_error (require_allowed_url allowed_domains (re_target edge))
               (\<lambda>_. bindE (normalize_url (re_target edge)) (\<lambda>target.
                  Inr (target, issues @ [unsafe_issue Redirect_target_unsafe
                    ''Redirect target is outside the approved project domains''
                    source target (re_evidence_id edge)])))
               (\<lambda>target. Inr (target, issues))) (\<lambda>(target, issues).
       case map_of edges source of
         Some (t, e) \<Rightarrow>
           if t \<noteq> target then Inl (ValueError (''Redirect source has conflicting targets: '' @ source))
           else Inr (AList.update source (target, re_evidence_id edge) edges, issues)
       | None \<Rightarrow> Inr (AList.update source (target, re_evidence_id edge) edges, issues))))"

record emission =
  em_loops :: "string list list"
  em_chains :: "string list list"
  em_issues :: "graph_issue list"

definition loop_issue :: "graph_issue_code \<Rightarrow> string \<Rightarrow> string list \<Rightarrow> string list \<Rightarrow> graph_issue" where
  "loop_issue icode message path evidence =
     \<lparr>gi_code = icode, gi_severity = Sev_critical, gi_message = message, gi_urls = path,
      gi_evidence_ids = fromkeys evidence\<rparr>"

definition chain_issue :: "int \<Rightarrow> string list \<Rightarrow> string list \<Rightarrow> graph_issue" where
  "chain_issue max_hops path evidence =
     \<lparr>gi_code = Redirect_chain, gi_severity = Sev_high,
      gi_message = ''Redirect chain exceeds the '' @ str_of_int max_hops @ ''-hop limit'', gi_urls = path,
      gi_evidence_ids = fromkeys evidence\<rparr>"

definition emit_loop :: "graph_issue_code \<Rightarrow> string \<Rightarrow> string list \<Rightarrow> string list \<Rightarrow> emission \<Rightarrow> emission" where
  "emit_loop icode message path evidence em =
     (if loop_key path \<in> set (em_loops em) then em
      else em\<lparr>em_loops := em_loops em @ [loop_key path],
              em_issues := em_issues em @ [loop_issue icode message path evidence]\<rparr>)"

definition emit_redirect :: "edges \<Rightarrow> int \<Rightarrow> emission \<Rightarrow> string \<Rightarrow> emission" where
  "emit_redirect edges max_hops em source =
     (case walk_single_edge source edges (length edges + 1) of (path, evidence, looped) \<Rightarrow>
        if looped then emit_loop Redirect_loop ''Redirect loop detected'' path evidence em
        else if max_hops < int (length path) - 1 \<and> path \<notin> set (em_chains em)
        then em\<lparr>em_chains := em_chains em @ [path],
                em_issues := em_issues em @ [chain_issue max_hops path evidence]\<rparr>
        else em)"

definition validate_redirect_graph ::
    "redirect_edge list \<Rightarrow> string list \<Rightarrow> int \<Rightarrow> exn + graph_issue list" where
  "validate_redirect_graph redirects allowed_domains max_hops =
     bindE (foldE (add_redirect allowed_domains) ([], []) redirects) (\<lambda>(edges, issues).
     Inr (em_issues (foldl (emit_redirect edges max_hops)
       \<lparr>em_loops = [], em_chains = [], em_issues = issues\<rparr> (sorted_set (map fst edges)))))"

subsection \<open>Canonicals\<close>

definition add_canonical :: "string list \<Rightarrow> edges \<times> graph_issue list \<Rightarrow> page_snapshot \<Rightarrow>
    exn + (edges \<times> graph_issue list)" where
  "add_canonical allowed_domains st page =
     (case st of (edges, issues) \<Rightarrow>
       if falsy (pg_canonical_url page) then Inr st
       else let canonical = opt_or [] (pg_canonical_url page) in
         bindE (normalize_url (pg_normalized_url page)) (\<lambda>source.
         bindE (tryE is_url_error (require_allowed_url allowed_domains canonical)
                 (\<lambda>_. bindE (normalize_url canonical) (\<lambda>target.
                    Inr (target, issues @ [unsafe_issue Canonical_target_unsafe
                      ''Canonical target is outside the approved project domains''
                      source target (pg_evidence_id page)])))
                 (\<lambda>target. Inr (target, issues))) (\<lambda>(target, issues).
         Inr (if target \<noteq> source then AList.update source (target, pg_evidence_id page) edges else edges,
              issues))))"

definition emit_canonical :: "edges \<Rightarrow> emission \<Rightarrow> string \<Rightarrow> emission" where
  "emit_canonical edges em source =
     (case walk_single_edge source edges (length edges + 1) of (path, evidence, looped) \<Rightarrow>
        if looped then emit_loop Canonical_loop ''Canonical cycle detected'' path evidence em else em)"

definition validate_canonical_graph ::
    "page_snapshot list \<Rightarrow> string list \<Rightarrow> exn + graph_issue list" where
  "validate_canonical_graph pages allowed_domains =
     bindE (foldE (add_canonical allowed_domains) ([], []) pages) (\<lambda>(edges, issues).
     Inr (em_issues (foldl (emit_canonical edges)
       \<lparr>em_loops = [], em_chains = [], em_issues = issues\<rparr> (sorted_set (map fst edges)))))"

subsection \<open>Internal links\<close>

definition pages_by_url :: "page_snapshot list \<Rightarrow> exn + (string \<times> page_snapshot) list" where
  "pages_by_url pages =
     foldE (\<lambda>d page. mapR (\<lambda>url. AList.update url page d) (normalize_url (pg_normalized_url page))) [] pages"

definition broken_page :: "page_snapshot option \<Rightarrow> (page_snapshot \<times> int) option" where
  "broken_page page = (case page of None \<Rightarrow> None
     | Some p \<Rightarrow> (case pg_status_code p of None \<Rightarrow> None | Some c \<Rightarrow> if 400 \<le> c then Some (p, c) else None))"

definition link_issue :: "bool \<Rightarrow> (string \<times> page_snapshot) list \<Rightarrow> page_snapshot \<Rightarrow> string \<Rightarrow> string \<Rightarrow>
    graph_issue option" where
  "link_issue report_unknown by_url source source_url target =
     (let page = map_of by_url target in
      case broken_page page of
        Some (p, c) \<Rightarrow> Some \<lparr>gi_code = Broken_internal_link, gi_severity = Sev_high,
          gi_message = ''Internal link target returned HTTP '' @ str_of_int c,
          gi_urls = [source_url, target], gi_evidence_ids = [pg_evidence_id source, pg_evidence_id p]\<rparr>
      | None \<Rightarrow>
          if page = None \<and> report_unknown
          then Some \<lparr>gi_code = Unknown_internal_target, gi_severity = Sev_info,
            gi_message = ''Internal link target was not present in the crawl snapshot'',
            gi_urls = [source_url, target], gi_evidence_ids = [pg_evidence_id source]\<rparr>
          else None)"

type_synonym link_key = "string list \<times> graph_issue_code"

definition add_link :: "string list \<Rightarrow> bool \<Rightarrow> (string \<times> page_snapshot) list \<Rightarrow> page_snapshot \<Rightarrow> string \<Rightarrow>
    link_key list \<times> graph_issue list \<Rightarrow> string \<Rightarrow> exn + (link_key list \<times> graph_issue list)" where
  "add_link allowed_domains report_unknown by_url source source_url st raw_target =
     tryE is_url_error
       (bindE (normalize_url_base source_url raw_target) (require_allowed_url allowed_domains))
       (\<lambda>_. Inr st)
       (\<lambda>target. case link_issue report_unknown by_url source source_url target of
          None \<Rightarrow> Inr st
        | Some issue \<Rightarrow>
            (let key = (gi_urls issue, gi_code issue) in
             if key \<in> set (fst st) then Inr st else Inr (fst st @ [key], snd st @ [issue])))"

definition add_page_links :: "string list \<Rightarrow> bool \<Rightarrow> (string \<times> page_snapshot) list \<Rightarrow>
    link_key list \<times> graph_issue list \<Rightarrow> page_snapshot \<Rightarrow> exn + (link_key list \<times> graph_issue list)" where
  "add_page_links allowed_domains report_unknown by_url st source =
     bindE (normalize_url (pg_normalized_url source)) (\<lambda>source_url.
     foldE (add_link allowed_domains report_unknown by_url source source_url) st (pg_links source))"

definition validate_internal_links ::
    "page_snapshot list \<Rightarrow> string list \<Rightarrow> bool \<Rightarrow> exn + graph_issue list" where
  "validate_internal_links pages allowed_domains report_unknown =
     bindE (pages_by_url pages) (\<lambda>by_url.
     mapR snd (foldE (add_page_links allowed_domains report_unknown by_url) ([], []) pages))"

subsection \<open>A walk finds a loop exactly when there is one\<close>

definition hop :: "edges \<Rightarrow> string \<Rightarrow> string option" where
  "hop edges u = map_option fst (map_of edges u)"

fun hops :: "edges \<Rightarrow> nat \<Rightarrow> string \<Rightarrow> string option" where
  "hops edges 0 u = Some u"
| "hops edges (Suc n) u = (case hop edges u of None \<Rightarrow> None | Some v \<Rightarrow> hops edges n v)"

definition is_path :: "edges \<Rightarrow> string list \<Rightarrow> bool" where
  "is_path edges p \<longleftrightarrow> p \<noteq> [] \<and> (\<forall>i. Suc i < length p \<longrightarrow> hop edges (p ! i) = Some (p ! Suc i))"

lemma is_path_single [simp]: "is_path edges [u]"
  by (simp add: is_path_def)

lemma is_path_snoc:
  assumes "is_path edges p" and "hop edges (last p) = Some t"
  shows "is_path edges (p @ [t])"
proof -
  from assms(1) have ne: "p \<noteq> []" by (simp add: is_path_def)
  have "hop edges ((p @ [t]) ! i) = Some ((p @ [t]) ! Suc i)" if "Suc i < length (p @ [t])" for i
  proof (cases "Suc i < length p")
    case True
    with assms(1) show ?thesis by (simp add: is_path_def nth_append)
  next
    case False
    with that have "Suc i = length p" by simp
    then have "i = length p - 1" by simp
    then have "p ! i = last p" using ne by (simp add: last_conv_nth)
    with \<open>Suc i = length p\<close> assms(2) ne show ?thesis by (simp add: nth_append)
  qed
  then show ?thesis by (simp add: is_path_def)
qed

lemma hop_dom: "hop edges u \<noteq> None \<Longrightarrow> u \<in> fst ` set edges"
  by (auto simp: hop_def map_of_eq_None_iff)

lemma distinct_path_length:
  assumes "is_path edges p" and "distinct p"
  shows "length p \<le> Suc (length edges)"
proof -
  have "set (butlast p) \<subseteq> fst ` set edges"
  proof
    fix u assume "u \<in> set (butlast p)"
    then obtain i where "i < length (butlast p)" "butlast p ! i = u" by (auto simp: in_set_conv_nth)
    then have "Suc i < length p" "p ! i = u" by (auto simp: nth_butlast)
    with assms(1) have "hop edges u \<noteq> None" by (auto simp: is_path_def)
    then show "u \<in> fst ` set edges" by (rule hop_dom)
  qed
  then have "card (set (butlast p)) \<le> length edges"
    by (meson List.finite_set card_image_le card_length card_mono finite_imageI order_trans)
  moreover have "card (set (butlast p)) = length p - 1"
    using assms(2) by (simp add: distinct_card distinct_butlast)
  ultimately show ?thesis by simp
qed

lemma walk_spec:
  assumes "is_path edges p" and "distinct p" and "length edges < limit"
    and "walk edges limit p ev = (p', ev', looped)"
  shows "is_path edges p' \<and> prefix p p' \<and> distinct (butlast p') \<and>
    length ev' + length p = length ev + length p' \<and>
    (if looped then last p' \<in> set (butlast p') else hop edges (last p') = None \<and> distinct p')"
  using assms
proof (induction edges limit p ev rule: walk.induct)
  case (1 edges limit p ev)
  show ?case
  proof (cases "map_of edges (last p)")
    case None
    with 1(5) have "p' = p" "ev' = ev" "\<not> looped" by (auto simp: walk.simps [of edges limit p ev])
    with None 1(2,3) show ?thesis by (simp add: hop_def distinct_butlast)
  next
    case (Some te)
    obtain t e where te: "te = (t, e)" by (cases te)
    have path: "is_path edges (p @ [t])" using 1(2) Some te by (intro is_path_snoc) (simp_all add: hop_def)
    show ?thesis
    proof (cases "t \<in> set p")
      case True
      with 1(5) Some te have "p' = p @ [t]" "ev' = ev @ [e]" "looped"
        by (auto simp: walk.simps [of edges limit p ev])
      with path 1(3) True show ?thesis by simp
    next
      case False
      with 1(3) have d: "distinct (p @ [t])" by simp
      have "\<not> limit + 1 < length (p @ [t])" using distinct_path_length [OF path d] 1(4) by simp
      with 1(5) Some te False have rest: "walk edges limit (p @ [t]) (ev @ [e]) = (p', ev', looped)"
        by (simp add: walk.simps [of edges limit p ev])
      from 1(1) [OF Some te [symmetric] False \<open>\<not> limit + 1 < length (p @ [t])\<close> path d 1(4) rest]
      show ?thesis by (auto simp: prefix_def)
    qed
  qed
qed

lemma path_hops:
  assumes "is_path edges p" and "i < length p"
  shows "hops edges i (hd p) = Some (p ! i)"
proof -
  have "hops edges n (p ! i) = Some (p ! (i + n))" if "i + n < length p" for i n
    using that
  proof (induction n arbitrary: i)
    case (Suc n)
    then have "hop edges (p ! i) = Some (p ! Suc i)" using assms(1) by (simp add: is_path_def)
    with Suc.IH [of "Suc i"] Suc.prems show ?case by simp
  qed simp
  from this [of 0 i] assms show ?thesis by (simp add: is_path_def hd_conv_nth)
qed

lemma hops_Suc: "hops edges (Suc n) u = Option.bind (hops edges n u) (hop edges)"
proof (induction n arbitrary: u)
  case 0
  then show ?case by (simp split: option.splits)
next
  case (Suc n)
  then show ?case by (cases "hop edges u") simp_all
qed

lemma closed_hops:
  assumes "\<forall>u \<in> S. \<exists>v \<in> S. hop edges u = Some v" and "u \<in> S"
  shows "hops edges n u \<noteq> None"
  using assms(2)
proof (induction n arbitrary: u)
  case (Suc n)
  from assms(1) Suc.prems obtain v where "v \<in> S" "hop edges u = Some v" by blast
  with Suc.IH show ?case by auto
qed simp

lemma path_cycle:
  assumes "is_path edges p" and "last p \<in> set (butlast p)"
  shows "hops edges n (hd p) \<noteq> None"
proof (rule closed_hops [where S = "set p"])
  from assms(1) have ne: "p \<noteq> []" by (simp add: is_path_def)
  then show "hd p \<in> set p" by simp
  show "\<forall>u \<in> set p. \<exists>v \<in> set p. hop edges u = Some v"
  proof
    fix u assume "u \<in> set p"
    then have "u \<in> set (butlast p)" using assms(2) ne by (cases p rule: rev_cases) auto
    then obtain i where "i < length (butlast p)" "butlast p ! i = u" by (auto simp: in_set_conv_nth)
    then have "Suc i < length p" "p ! i = u" by (auto simp: nth_butlast)
    with assms(1) show "\<exists>v \<in> set p. hop edges u = Some v" by (auto simp: is_path_def)
  qed
qed

definition endless :: "edges \<Rightarrow> string \<Rightarrow> bool" where
  "endless edges start \<longleftrightarrow> (\<forall>n. hops edges n start \<noteq> None)"

lemma walk_single_edge_spec:
  assumes "walk_single_edge start edges limit = (p, ev, looped)" and "length edges < limit"
  shows "is_path edges p" and "hd p = start" and "length p = Suc (length ev)" and "distinct (butlast p)"
    and "looped \<longleftrightarrow> endless edges start" and "looped \<longleftrightarrow> last p \<in> set (butlast p)"
    and "\<not> looped \<Longrightarrow> hop edges (last p) = None"
proof -
  have w: "walk edges limit [start] [] = (p, ev, looped)" using assms(1) by (simp add: walk_single_edge_def)
  have spec: "is_path edges p \<and> prefix [start] p \<and> distinct (butlast p) \<and> length p = Suc (length ev) \<and>
    (if looped then last p \<in> set (butlast p) else hop edges (last p) = None \<and> distinct p)"
    using walk_spec [OF is_path_single _ assms(2) w] by simp
  then show path: "is_path edges p" and "length p = Suc (length ev)" "distinct (butlast p)" by simp_all
  from spec show hd: "hd p = start" by (auto simp: prefix_def)
  from path have ne: "p \<noteq> []" by (simp add: is_path_def)
  show "\<not> looped \<Longrightarrow> hop edges (last p) = None" using spec by simp
  have "last p \<notin> set (butlast p)" if "distinct p"
    using that ne by (cases p rule: rev_cases) auto
  with spec show "looped \<longleftrightarrow> last p \<in> set (butlast p)" by (auto split: if_splits)
  show "looped \<longleftrightarrow> endless edges start"
  proof (cases looped)
    case True
    then show ?thesis using path_cycle [OF path] spec hd by (simp add: endless_def)
  next
    case False
    have "hops edges (length p - 1) start = Some (last p)"
      using path_hops [OF path, of "length p - 1"] ne hd by (simp add: last_conv_nth)
    with False spec have "hops edges (Suc (length p - 1)) start = None"
      unfolding hops_Suc by simp
    with False show ?thesis unfolding endless_def by blast
  qed
qed

text \<open>
  the walk over single edges reports a loop exactly when following the edges from the start never
  ends; otherwise its path is the whole chain up to a URL without an edge. The step limit the callers
  pass never cuts a walk short.
\<close>

theorem walk_detects_loops:
  assumes "length edges < limit"
  shows "case walk_single_edge start edges limit of (path, evidence, looped) \<Rightarrow>
    (looped \<longleftrightarrow> (\<forall>n. hops edges n start \<noteq> None)) \<and>
    is_path edges path \<and> hd path = start \<and> length path = Suc (length evidence) \<and>
    (\<not> looped \<longrightarrow> hop edges (last path) = None)"
proof (cases "walk_single_edge start edges limit")
  case (fields path evidence looped)
  from walk_single_edge_spec [OF fields assms] fields show ?thesis by (simp add: endless_def)
qed

definition demo_edges :: edges where
  "demo_edges = [(''a'', ''b'', ''e1''), (''b'', ''c'', ''e2''), (''c'', ''b'', ''e3''), (''d'', ''x'', ''e4'')]"

lemma walk_detects_loops_witness:
  "case walk_single_edge ''a'' demo_edges 5 of (path, evidence, looped) \<Rightarrow>
    (looped \<longleftrightarrow> (\<forall>n. hops demo_edges n ''a'' \<noteq> None)) \<and>
    is_path demo_edges path \<and> hd path = ''a'' \<and> length path = Suc (length evidence)"
  using walk_detects_loops [of demo_edges 5 "''a''"] by (simp add: demo_edges_def split: prod.splits)

subsection \<open>What the redirect graph reports\<close>

definition loops_of :: "graph_issue_code \<Rightarrow> graph_issue list \<Rightarrow> string list list" where
  "loops_of c issues = map (\<lambda>i. loop_key (gi_urls i)) (filter (\<lambda>i. gi_code i = c) issues)"

definition chains_of :: "graph_issue list \<Rightarrow> string list list" where
  "chains_of issues = map gi_urls (filter (\<lambda>i. gi_code i = Redirect_chain) issues)"

definition path_from :: "edges \<Rightarrow> string \<Rightarrow> string list" where
  "path_from edges source = fst (walk_single_edge source edges (length edges + 1))"

lemma walk_from:
  assumes "walk_single_edge source edges (length edges + 1) = (p, ev, looped)"
  shows "p = path_from edges source" and "looped \<longleftrightarrow> endless edges source"
  using walk_single_edge_spec(5) [OF assms] assms by (simp_all add: path_from_def)

lemma loops_of_append [simp]: "loops_of c (is @ js) = loops_of c is @ loops_of c js"
  by (simp add: loops_of_def)

lemma chains_of_append [simp]: "chains_of (is @ js) = chains_of is @ chains_of js"
  by (simp add: chains_of_def)

lemma issue_projections [simp]:
  "loops_of c [loop_issue d m p ev] = (if d = c then [loop_key p] else [])"
  "loops_of Redirect_loop [chain_issue mh p ev] = []"
  "chains_of [loop_issue Redirect_loop m p ev] = []"
  "chains_of [chain_issue mh p ev] = [p]"
  by (simp_all add: loops_of_def chains_of_def loop_issue_def chain_issue_def)

lemma emit_redirect_fold:
  fixes edges mh base
  defines "em sources \<equiv> foldl (emit_redirect edges mh) \<lparr>em_loops = [], em_chains = [], em_issues = base\<rparr> sources"
  assumes base: "loops_of Redirect_loop base = []" "chains_of base = []"
  shows "em_loops (em sources) = loops_of Redirect_loop (em_issues (em sources)) \<and>
    em_chains (em sources) = chains_of (em_issues (em sources)) \<and>
    distinct (em_loops (em sources)) \<and> distinct (em_chains (em sources)) \<and>
    set (em_loops (em sources)) =
      {loop_key (path_from edges s) | s. s \<in> set sources \<and> endless edges s} \<and>
    set (em_chains (em sources)) =
      {path_from edges s | s. s \<in> set sources \<and> \<not> endless edges s \<and> mh < int (length (path_from edges s)) - 1}"
proof (induction sources rule: rev_induct)
  case Nil
  then show ?case using base by (simp add: em_def)
next
  case (snoc s sources)
  obtain p ev looped where w: "walk_single_edge s edges (length edges + 1) = (p, ev, looped)"
    by (metis prod_cases3)
  note f = walk_from [OF w]
  have step: "em (sources @ [s]) = emit_redirect edges mh (em sources) s" by (simp add: em_def)
  show ?case
  proof (cases looped)
    case True
    with f w have eq: "em (sources @ [s]) =
        emit_loop Redirect_loop ''Redirect loop detected'' (path_from edges s) ev (em sources)"
      by (simp add: step emit_redirect_def)
    from True f have "endless edges s" by simp
    with snoc show ?thesis unfolding eq
      by (auto simp: emit_loop_def insert_absorb)
  next
    case False
    with f w have eq: "em (sources @ [s]) =
        (if mh < int (length (path_from edges s)) - 1 \<and> path_from edges s \<notin> set (em_chains (em sources))
         then (em sources)\<lparr>em_chains := em_chains (em sources) @ [path_from edges s],
                em_issues := em_issues (em sources) @ [chain_issue mh (path_from edges s) ev]\<rparr>
         else em sources)"
      by (simp add: step emit_redirect_def)
    from False f have "\<not> endless edges s" by simp
    with snoc show ?thesis unfolding eq by auto
  qed
qed

lemma require_allowed_normalized: "require_allowed_url ds url = Inr t \<Longrightarrow> normalize_url url = Inr t"
  by (erule require_allowed_urlD)

lemma add_redirectD:
  assumes "add_redirect ds (edges, issues) e = Inr (edges', issues')"
  obtains s t where "normalize_url (re_source e) = Inr s" and "normalize_url (re_target e) = Inr t"
    and "edges' = AList.update s (t, re_evidence_id e) edges"
    and "\<forall>v. hop edges s = Some v \<longrightarrow> v = t"
    and "issues' = issues \<or>
      issues' = issues @ [unsafe_issue Redirect_target_unsafe
        ''Redirect target is outside the approved project domains'' s t (re_evidence_id e)]"
  using assms require_allowed_normalized
  by (fastforce simp: add_redirect_def bindE_Inr_iff tryE_Inr_iff hop_def split: option.splits if_splits prod.splits)

lemma hop_update: "hop (AList.update s (t, e) edges) u = (if u = s then Some t else hop edges u)"
  by (simp add: hop_def dict_update_lookup)

lemma redirect_edges_fold:
  assumes "foldE (add_redirect ds) ([], []) reds = Inr (edges, base)"
  shows "(\<forall>e \<in> set reds. \<exists>s t. normalize_url (re_source e) = Inr s \<and> normalize_url (re_target e) = Inr t \<and>
      hop edges s = Some t) \<and> loops_of Redirect_loop base = [] \<and> chains_of base = []"
  using assms
proof (induction reds arbitrary: edges base rule: rev_induct)
  case Nil
  then show ?case by (simp add: loops_of_def chains_of_def)
next
  case (snoc e reds)
  from snoc.prems obtain edges0 base0 where prev: "foldE (add_redirect ds) ([], []) reds = Inr (edges0, base0)"
    and step: "add_redirect ds (edges0, base0) e = Inr (edges, base)"
    by (auto simp: foldE_append bindE_Inr_iff)
  obtain s t where st: "normalize_url (re_source e) = Inr s" "normalize_url (re_target e) = Inr t"
    and edges: "edges = AList.update s (t, re_evidence_id e) edges0"
    and old: "\<forall>v. hop edges0 s = Some v \<longrightarrow> v = t"
    and base: "base = base0 \<or> base = base0 @ [unsafe_issue Redirect_target_unsafe
        ''Redirect target is outside the approved project domains'' s t (re_evidence_id e)]"
    by (rule add_redirectD [OF step])
  note IH = snoc.IH [OF prev]
  have "\<exists>s' t'. normalize_url (re_source e') = Inr s' \<and> normalize_url (re_target e') = Inr t' \<and>
      hop edges s' = Some t'" if "e' \<in> set (reds @ [e])" for e'
  proof (cases "e' = e")
    case True
    with st show ?thesis by (simp add: edges hop_update)
  next
    case False
    with that IH obtain s' t' where "normalize_url (re_source e') = Inr s'"
      "normalize_url (re_target e') = Inr t'" "hop edges0 s' = Some t'" by auto
    with old show ?thesis by (auto simp: edges hop_update)
  qed
  moreover have "loops_of Redirect_loop base = []" "chains_of base = []"
    using IH base by (auto simp: loops_of_def chains_of_def unsafe_issue_def)
  ultimately show ?case by blast
qed

text \<open>
  a redirect graph that is accepted gives every redirect exactly one normalised target; its loops
  are reported exactly once each, as the cycle any endless source runs into, and exactly the terminating
  chains longer than the hop limit are reported, once each.
\<close>

theorem redirect_graph_exact:
  assumes "validate_redirect_graph reds ds max_hops = Inr issues"
  shows "\<exists>edges.
    (\<forall>e \<in> set reds. \<exists>s t. normalize_url (re_source e) = Inr s \<and> normalize_url (re_target e) = Inr t \<and>
       hop edges s = Some t) \<and>
    distinct (loops_of Redirect_loop issues) \<and> distinct (chains_of issues) \<and>
    set (loops_of Redirect_loop issues) =
      {loop_key (path_from edges s) | s. s \<in> fst ` set edges \<and> endless edges s} \<and>
    set (chains_of issues) =
      {path_from edges s | s. s \<in> fst ` set edges \<and> \<not> endless edges s \<and>
         max_hops < int (length (path_from edges s)) - 1}"
proof -
  from assms obtain edges base where f: "foldE (add_redirect ds) ([], []) reds = Inr (edges, base)"
    and issues: "issues = em_issues (foldl (emit_redirect edges max_hops)
       \<lparr>em_loops = [], em_chains = [], em_issues = base\<rparr> (sorted_set (map fst edges)))"
    by (auto simp: validate_redirect_graph_def bindE_Inr_iff)
  note e = redirect_edges_fold [OF f]
  have em: "distinct (loops_of Redirect_loop issues) \<and> distinct (chains_of issues) \<and>
    set (loops_of Redirect_loop issues) =
      {loop_key (path_from edges s) | s. s \<in> set (sorted_set (map fst edges)) \<and> endless edges s} \<and>
    set (chains_of issues) =
      {path_from edges s | s. s \<in> set (sorted_set (map fst edges)) \<and> \<not> endless edges s \<and>
         max_hops < int (length (path_from edges s)) - 1}"
    using emit_redirect_fold [of base edges max_hops "sorted_set (map fst edges)"] e
    unfolding issues by metis
  show ?thesis
    by (rule exI [of _ edges]) (use e em in simp)
qed

definition demo_redirects :: "redirect_edge list" where
  "demo_redirects = map (\<lambda>(s, t). \<lparr>re_source = s, re_target = t, re_status_code = 301, re_evidence_id = ''e''\<rparr>)
     [(''http://e.c/a'', ''http://e.c/b''), (''http://e.c/b'', ''http://e.c/a'')]"

lemma demo_urls:
  "normalize_url ''http://e.c/a'' = Inr ''http://e.c/a''" "normalize_url ''http://e.c/b'' = Inr ''http://e.c/b''"
  "require_allowed_url [''e.c''] ''http://e.c/a'' = Inr ''http://e.c/a''"
  "require_allowed_url [''e.c''] ''http://e.c/b'' = Inr ''http://e.c/b''"
  by code_simp+

lemma redirect_graph_exact_witness:
  "\<exists>issues. validate_redirect_graph demo_redirects [''e.c''] 1 = Inr issues \<and> (\<exists>edges.
    distinct (loops_of Redirect_loop issues) \<and> distinct (chains_of issues) \<and>
    set (loops_of Redirect_loop issues) =
      {loop_key (path_from edges s) | s. s \<in> fst ` set edges \<and> endless edges s} \<and>
    set (chains_of issues) =
      {path_from edges s | s. s \<in> fst ` set edges \<and> \<not> endless edges s \<and>
         1 < int (length (path_from edges s)) - 1})"
proof -
  have "foldE (add_redirect [''e.c'']) ([], []) demo_redirects =
      Inr ([(''http://e.c/a'', ''http://e.c/b'', ''e''), (''http://e.c/b'', ''http://e.c/a'', ''e'')], [])"
    by (simp add: demo_redirects_def add_redirect_def demo_urls)
  then obtain issues where r: "validate_redirect_graph demo_redirects [''e.c''] 1 = Inr issues"
    by (simp add: validate_redirect_graph_def)
  from redirect_graph_exact [OF r] obtain edges where "distinct (loops_of Redirect_loop issues)"
    "distinct (chains_of issues)"
    "set (loops_of Redirect_loop issues) =
      {loop_key (path_from edges s) | s. s \<in> fst ` set edges \<and> endless edges s}"
    "set (chains_of issues) =
      {path_from edges s | s. s \<in> fst ` set edges \<and> \<not> endless edges s \<and>
         1 < int (length (path_from edges s)) - 1}" by (elim exE conjE)
  then show ?thesis by (intro exI [of _ issues] exI [of _ edges] conjI r)
qed

subsection \<open>What the internal links report\<close>

definition link_issue_ok :: "string list \<Rightarrow> page_snapshot list \<Rightarrow> bool \<Rightarrow> graph_issue \<Rightarrow> bool" where
  "link_issue_ok ds pages report_unknown i \<longleftrightarrow>
     (\<exists>source raw source_url target. source \<in> set pages \<and> raw \<in> set (pg_links source) \<and>
        normalize_url (pg_normalized_url source) = Inr source_url \<and> gi_urls i = [source_url, target] \<and>
        bindE (normalize_url_base source_url raw) (require_allowed_url ds) = Inr target \<and>
        (case gi_code i of
           Broken_internal_link \<Rightarrow> \<exists>p c. p \<in> set pages \<and> normalize_url (pg_normalized_url p) = Inr target \<and>
             pg_status_code p = Some c \<and> 400 \<le> c \<and> gi_severity i = Sev_high \<and>
             gi_evidence_ids i = [pg_evidence_id source, pg_evidence_id p]
         | Unknown_internal_target \<Rightarrow> report_unknown \<and> gi_severity i = Sev_info \<and>
             (\<forall>p \<in> set pages. normalize_url (pg_normalized_url p) \<noteq> Inr target)
         | _ \<Rightarrow> False))"

lemma pages_by_url_lookup:
  assumes "pages_by_url pages = Inr d"
  shows "(\<forall>u p. map_of d u = Some p \<longrightarrow> p \<in> set pages \<and> normalize_url (pg_normalized_url p) = Inr u) \<and>
    (\<forall>p \<in> set pages. \<exists>u. normalize_url (pg_normalized_url p) = Inr u \<and> map_of d u \<noteq> None)"
  using assms
proof (induction pages arbitrary: d rule: rev_induct)
  case Nil
  then show ?case by (simp add: pages_by_url_def)
next
  case (snoc p pages)
  from snoc.prems obtain d0 u where d0: "pages_by_url pages = Inr d0"
    and u: "normalize_url (pg_normalized_url p) = Inr u" and d: "d = AList.update u p d0"
    by (auto simp: pages_by_url_def foldE_append bindE_Inr_iff mapR_Inr_iff)
  note IH = snoc.IH [OF d0]
  have look: "map_of d v = (if v = u then Some p else map_of d0 v)" for v
    by (simp add: d dict_update_lookup)
  have "q \<in> set (pages @ [p]) \<and> normalize_url (pg_normalized_url q) = Inr v" if "map_of d v = Some q" for v q
    using that IH u by (cases "v = u") (auto simp: look)
  moreover have "\<exists>v. normalize_url (pg_normalized_url q) = Inr v \<and> map_of d v \<noteq> None"
    if "q \<in> set (pages @ [p])" for q
  proof (cases "q = p")
    case True
    with u show ?thesis by (simp add: look)
  next
    case False
    with that IH obtain v where "normalize_url (pg_normalized_url q) = Inr v" "map_of d0 v \<noteq> None" by auto
    then show ?thesis by (auto simp: look)
  qed
  ultimately show ?case by blast
qed

lemma link_issueD:
  assumes "link_issue ru d source su target = Some i"
  shows "gi_urls i = [su, target] \<and>
    ((\<exists>p c. map_of d target = Some p \<and> pg_status_code p = Some c \<and> 400 \<le> c \<and>
        gi_code i = Broken_internal_link \<and> gi_severity i = Sev_high \<and>
        gi_evidence_ids i = [pg_evidence_id source, pg_evidence_id p]) \<or>
     (ru \<and> map_of d target = None \<and> gi_code i = Unknown_internal_target \<and> gi_severity i = Sev_info))"
  using assms
  by (auto simp: link_issue_def Let_def broken_page_def split: option.splits if_splits)

lemma link_issue_sound:
  assumes d: "pages_by_url pages = Inr d" and "source \<in> set pages" and "raw \<in> set (pg_links source)"
    and "normalize_url (pg_normalized_url source) = Inr su"
    and "bindE (normalize_url_base su raw) (require_allowed_url ds) = Inr target"
    and i: "link_issue ru d source su target = Some i"
  shows "link_issue_ok ds pages ru i"
proof -
  note look = pages_by_url_lookup [OF d]
  have "\<forall>p \<in> set pages. normalize_url (pg_normalized_url p) \<noteq> Inr target" if "map_of d target = None"
    using look that by fastforce
  then have "case gi_code i of
           Broken_internal_link \<Rightarrow> \<exists>p c. p \<in> set pages \<and> normalize_url (pg_normalized_url p) = Inr target \<and>
             pg_status_code p = Some c \<and> 400 \<le> c \<and> gi_severity i = Sev_high \<and>
             gi_evidence_ids i = [pg_evidence_id source, pg_evidence_id p]
         | Unknown_internal_target \<Rightarrow> ru \<and> gi_severity i = Sev_info \<and>
             (\<forall>p \<in> set pages. normalize_url (pg_normalized_url p) \<noteq> Inr target)
         | _ \<Rightarrow> False"
    using link_issueD [OF i] look by (elim conjE disjE exE) (simp_all, blast)
  with link_issueD [OF i] assms(2-5) show ?thesis unfolding link_issue_ok_def by blast
qed

definition links_inv :: "string list \<Rightarrow> page_snapshot list \<Rightarrow> bool \<Rightarrow> link_key list \<times> graph_issue list \<Rightarrow> bool" where
  "links_inv ds pages ru st \<longleftrightarrow> fst st = map (\<lambda>i. (gi_urls i, gi_code i)) (snd st) \<and> distinct (fst st) \<and>
     (\<forall>i \<in> set (snd st). link_issue_ok ds pages ru i)"

lemma add_link_inv:
  assumes "pages_by_url pages = Inr d" and "source \<in> set pages" and "raw \<in> set (pg_links source)"
    and "normalize_url (pg_normalized_url source) = Inr su"
    and "add_link ds ru d source su st raw = Inr st'" and "links_inv ds pages ru st"
  shows "links_inv ds pages ru st'"
proof -
  let ?m = "bindE (normalize_url_base su raw) (require_allowed_url ds)"
  consider e where "?m = Inl e" | target where "?m = Inr target" "link_issue ru d source su target = None"
    | target i where "?m = Inr target" "link_issue ru d source su target = Some i"
    by (metis option.exhaust sum.exhaust)
  then show ?thesis
  proof cases
    case 1
    with assms(5) have "st' = st" by (simp add: add_link_def split: if_splits)
    with assms(6) show ?thesis by simp
  next
    case 2
    with assms(5) have "st' = st" by (simp add: add_link_def)
    with assms(6) show ?thesis by simp
  next
    case (3 target i)
    with assms(5) have "st' = st \<or> (gi_urls i, gi_code i) \<notin> set (fst st) \<and>
        st' = (fst st @ [(gi_urls i, gi_code i)], snd st @ [i])"
      by (simp add: add_link_def Let_def split: if_splits)
    with assms(6) link_issue_sound [OF assms(1-4) 3] show ?thesis by (auto simp: links_inv_def)
  qed
qed

text \<open>
  every internal-link issue comes from a link of a crawled page to a URL inside the approved
  domains; a broken link names a crawled page that answered with an error status and carries the
  evidence of both pages, an unknown target is on no crawled page and reported only when asked for;
  no issue is reported twice.
\<close>

theorem internal_links_sound:
  assumes "validate_internal_links pages ds report_unknown = Inr issues"
  shows "distinct (map (\<lambda>i. (gi_urls i, gi_code i)) issues) \<and>
    (\<forall>i \<in> set issues. link_issue_ok ds pages report_unknown i)"
proof -
  from assms obtain d st where d: "pages_by_url pages = Inr d"
    and st: "foldE (add_page_links ds report_unknown d) ([], []) pages = Inr st" and issues: "issues = snd st"
    by (auto simp: validate_internal_links_def bindE_Inr_iff mapR_Inr_iff)
  have "links_inv ds pages report_unknown st"
  proof (rule foldE_invariant [where I = "links_inv ds pages report_unknown", OF st])
    show "links_inv ds pages report_unknown ([], [])" by (simp add: links_inv_def)
    fix s page t
    assume page: "page \<in> set pages" and s: "links_inv ds pages report_unknown s"
      and "add_page_links ds report_unknown d s page = Inr t"
    then obtain su where su: "normalize_url (pg_normalized_url page) = Inr su"
      and t: "foldE (add_link ds report_unknown d page su) s (pg_links page) = Inr t"
      by (auto simp: add_page_links_def bindE_Inr_iff)
    show "links_inv ds pages report_unknown t"
      by (rule foldE_invariant [where I = "links_inv ds pages report_unknown", OF t s])
        (rule add_link_inv [OF d page _ su])
  qed
  then show ?thesis by (auto simp: links_inv_def issues)
qed

definition demo_page :: "string \<Rightarrow> int \<Rightarrow> string list \<Rightarrow> page_snapshot" where
  "demo_page url status links = \<lparr>pg_id = demo_uuid, pg_project_id = demo_uuid, pg_original_url = url,
     pg_normalized_url = url, pg_status_code = Some status, pg_captured_at = Aware 0,
     pg_evidence_id = demo_uuid, pg_title = None, pg_meta_description = None, pg_h1 = [],
     pg_canonical_url = None, pg_robots_directives = [], pg_content_type = Some ''text/html'',
     pg_body_sha256 = None, pg_links = links, pg_word_count = None, pg_body_bytes = 0,
     pg_response_ms = None, pg_images_total = 0, pg_images_missing_alt = 0, pg_schema_types = [],
     pg_h2 = [], pg_external_links = [], pg_og_title = False, pg_og_description = False, pg_lang = None,
     pg_viewport = False, pg_hreflang_count = 0, pg_analytics_tags = [], pg_url_depth = 0,
     pg_redirect_chain = []\<rparr>"

definition demo_pages :: "page_snapshot list" where
  "demo_pages = [demo_page ''http://e.c/a'' 200 [''/b'', ''http://e.c/b''], demo_page ''http://e.c/b'' 404 []]"

lemma demo_links:
  "bindE (normalize_url_base ''http://e.c/a'' ''/b'') (require_allowed_url [''e.c'']) = Inr ''http://e.c/b''"
  "bindE (normalize_url_base ''http://e.c/a'' ''http://e.c/b'') (require_allowed_url [''e.c'']) = Inr ''http://e.c/b''"
  by code_simp+

lemma internal_links_sound_witness:
  "\<exists>issues. length issues = 1 \<and> distinct (map (\<lambda>i. (gi_urls i, gi_code i)) issues) \<and>
    list_all (link_issue_ok [''e.c''] demo_pages False) issues"
proof -
  have "pages_by_url demo_pages = Inr [(''http://e.c/a'', demo_pages ! 0), (''http://e.c/b'', demo_pages ! 1)]"
    by (simp add: pages_by_url_def demo_pages_def demo_page_def demo_urls)
  then obtain issues where r: "validate_internal_links demo_pages [''e.c''] False = Inr issues"
    and one: "length issues = 1"
    by (auto simp: validate_internal_links_def add_page_links_def demo_pages_def demo_page_def demo_urls
        add_link_def demo_links link_issue_def broken_page_def Let_def)
  show ?thesis
    by (rule exI [of _ issues]) (use one internal_links_sound [OF r] in \<open>simp add: list_all_iff\<close>)
qed

end
