(* ===== verification/Union_Find.thy ===== *)
theory Union_Find
  imports Prelude
begin

text \<open>
  The disjoint-set forest inside \<open>TitleCannibalizationRule\<close> (\<open>audit_engine/rules.py\<close>): \<open>find\<close> with path
  halving over the list \<open>parents\<close>, and the double loop that links every similar pair. The theorems say
  that every \<open>find\<close> returns (the loop ends: the parents always form a forest) and that two elements end
  up with the same root exactly when a chain of similar pairs connects them.
\<close>

text \<open>\<open>find\<close> with path halving; \<open>None\<close> would be a loop that does not end.\<close>

partial_function (option) find_root :: "nat list \<Rightarrow> nat \<Rightarrow> (nat \<times> nat list) option" where
  "find_root parents index =
     (if parents ! index = index then Some (index, parents)
      else let halved = parents[index := parents ! (parents ! index)]
           in find_root halved (halved ! index))"

declare find_root.simps [code]

text \<open>\<open>parents[find(right)] = find(left)\<close>: Python evaluates the right-hand side first.\<close>

definition union_step :: "nat list \<Rightarrow> nat \<Rightarrow> nat \<Rightarrow> nat list option" where
  "union_step parents left right =
     Option.bind (find_root parents left) (\<lambda>(root_left, parents1).
     Option.bind (find_root parents1 right) (\<lambda>(root_right, parents2).
     Some (parents2[root_right := root_left])))"

definition pair_step :: "(nat \<Rightarrow> nat \<Rightarrow> bool) \<Rightarrow> nat list option \<Rightarrow> nat \<times> nat \<Rightarrow> nat list option" where
  "pair_step similar st pair =
     Option.bind st (\<lambda>parents.
       if similar (fst pair) (snd pair) then union_step parents (fst pair) (snd pair) else Some parents)"

definition index_pairs :: "nat \<Rightarrow> (nat \<times> nat) list" where
  "index_pairs n = concat (map (\<lambda>l. map (Pair l) [Suc l..<n]) [0..<n])"

definition link_similar :: "(nat \<Rightarrow> nat \<Rightarrow> bool) \<Rightarrow> nat \<Rightarrow> nat list option" where
  "link_similar similar n = foldl (pair_step similar) (Some [0..<n]) (index_pairs n)"

fun collect_roots :: "nat list \<Rightarrow> nat list \<Rightarrow> nat list option" where
  "collect_roots parents [] = Some []"
| "collect_roots parents (i # is) =
     Option.bind (find_root parents i) (\<lambda>(root, parents').
     map_option ((#) root) (collect_roots parents' is))"

subsection \<open>Forests\<close>

inductive root_of :: "nat list \<Rightarrow> nat \<Rightarrow> nat \<Rightarrow> bool" for p where
  here: "p ! r = r \<Longrightarrow> root_of p r r"
| up: "p ! i \<noteq> i \<Longrightarrow> root_of p (p ! i) r \<Longrightarrow> root_of p i r"

inductive_cases root_ofE: "root_of p i r"

definition ranked :: "(nat \<Rightarrow> nat) \<Rightarrow> nat list \<Rightarrow> bool" where
  "ranked rk p \<longleftrightarrow> (\<forall>i < length p. p ! i < length p \<and> (p ! i \<noteq> i \<longrightarrow> rk (p ! i) < rk i))"

lemma rankedD: "ranked rk p \<Longrightarrow> i < length p \<Longrightarrow> p ! i < length p"
  "ranked rk p \<Longrightarrow> i < length p \<Longrightarrow> p ! i \<noteq> i \<Longrightarrow> rk (p ! i) < rk i"
  by (auto simp: ranked_def)

lemma root_of_fixed: "root_of p i r \<Longrightarrow> p ! r = r"
  by (induction rule: root_of.induct) auto

lemma root_of_unique: "root_of p i r \<Longrightarrow> root_of p i s \<Longrightarrow> r = s"
  by (induction rule: root_of.induct) (auto elim: root_ofE)

lemma root_of_step: "p ! i \<noteq> i \<Longrightarrow> root_of p i r \<longleftrightarrow> root_of p (p ! i) r"
  by (auto elim: root_ofE intro: root_of.intros)

lemma root_of_parent: "root_of p i r \<longleftrightarrow> root_of p (p ! i) r"
  using root_of_step [of p i r] by (cases "p ! i = i") simp_all

lemma root_exists: "ranked rk p \<Longrightarrow> i < length p \<Longrightarrow> \<exists>r < length p. root_of p i r"
proof (induction "rk i" arbitrary: i rule: less_induct)
  case less
  show ?case
  proof (cases "p ! i = i")
    case True
    then show ?thesis using less.prems root_of.here by blast
  next
    case False
    from less.hyps [of "p ! i"] rankedD [OF less.prems] False obtain r where "r < length p" "root_of p (p ! i) r"
      using less.prems by blast
    with False show ?thesis using root_of.up by blast
  qed
qed

lemma root_less: "ranked rk p \<Longrightarrow> i < length p \<Longrightarrow> root_of p i r \<Longrightarrow> r < length p"
  using root_exists root_of_unique by blast

text \<open>Path halving changes neither the ranks nor the roots.\<close>

lemma halve_ranked:
  assumes "ranked rk p" and "i < length p"
  shows "ranked rk (p[i := p ! (p ! i)])"
proof -
  have gp: "p ! (p ! i) < length p" using assms rankedD(1) by blast
  have "p ! (p ! i) \<noteq> i \<Longrightarrow> rk (p ! (p ! i)) < rk i"
    using rankedD [OF assms(1)] assms(2) by (metis less_trans)
  with assms gp show ?thesis by (auto simp: ranked_def nth_list_update)
qed

lemma halve_root:
  assumes "ranked rk p" and "i < length p" and "j < length p"
  shows "root_of (p[i := p ! (p ! i)]) j r \<longleftrightarrow> root_of p j r"
proof -
  let ?h = "p[i := p ! (p ! i)]"
  have keep: "root_of ?h j r" if "j < length p" "root_of p j r" for j r
    using that
  proof (induction "rk j" arbitrary: j rule: less_induct)
    case less
    show ?case
    proof (cases "p ! j = j")
      case True
      with less.prems have "r = j" by (auto elim: root_ofE)
      moreover have "?h ! j = j" using True assms(2) by (auto simp: nth_list_update)
      ultimately show ?thesis using root_of.here by metis
    next
      case False
      show ?thesis
      proof (cases "j = i")
        case True
        let ?q = "p ! (p ! i)"
        have q: "?q < length p" "rk ?q < rk i"
          using rankedD [OF assms(1)] assms(2) False True by (metis less_trans)+
        have "root_of p ?q r" using less.prems(2) True root_of_parent by metis
        with less.hyps q True have "root_of ?h ?q r" by simp
        moreover have "?h ! i = ?q" using assms(2) by simp
        ultimately show ?thesis using True root_of_parent [of ?h i r] by simp
      next
        case other: False
        have "root_of ?h (p ! j) r"
          using less.hyps [of "p ! j"] rankedD [OF assms(1) less.prems(1)] False less.prems(2)
            root_of_parent [of p j r] by simp
        then show ?thesis using other root_of_parent [of ?h j r] by simp
      qed
    qed
  qed
  show ?thesis
  proof
    assume h: "root_of ?h j r"
    obtain s where s: "root_of p j s" using root_exists [OF assms(1,3)] by blast
    from keep [OF assms(3) s] h have "r = s" using root_of_unique by blast
    with s show "root_of p j r" by simp
  qed (rule keep [OF assms(3)])
qed

subsection \<open>Find returns the root\<close>

lemma find_root_spec:
  assumes "ranked rk p" and "i < length p"
  shows "\<exists>r p'. find_root p i = Some (r, p') \<and> root_of p i r \<and> ranked rk p' \<and> length p' = length p \<and>
    (\<forall>j < length p. \<forall>s. root_of p' j s \<longleftrightarrow> root_of p j s)"
  using assms
proof (induction "rk i" arbitrary: i p rule: less_induct)
  case less
  show ?case
  proof (cases "p ! i = i")
    case True
    then show ?thesis using less.prems root_of.here [OF True]
      by (subst find_root.simps) simp
  next
    case False
    let ?h = "p[i := p ! (p ! i)]"
    note ranked_h = halve_ranked [OF less.prems] and root_h = halve_root [OF less.prems]
    have hi: "?h ! i = p ! (p ! i)" using less.prems(2) by simp
    have q: "p ! (p ! i) < length ?h" using rankedD(1) [OF less.prems(1)] less.prems(2) by simp
    have lt: "rk (p ! (p ! i)) < rk i"
      using rankedD [OF less.prems(1)] less.prems(2) False by (metis less_trans)
    obtain r p' where f: "find_root ?h (p ! (p ! i)) = Some (r, p')" "root_of ?h (p ! (p ! i)) r"
      "ranked rk p'" "length p' = length ?h" "\<forall>j < length ?h. \<forall>s. root_of p' j s \<longleftrightarrow> root_of ?h j s"
      using less.hyps [OF lt ranked_h q] by blast
    have "find_root p i = Some (r, p')" using f(1) False hi by (subst find_root.simps) (simp add: Let_def)
    moreover have "root_of p i r"
      using f(2) root_of_parent [of ?h i r] root_h [OF less.prems(2)] hi by simp
    ultimately show ?thesis using f root_h by auto
  qed
qed

subsection \<open>Linking two trees\<close>

definition same_root :: "nat list \<Rightarrow> nat \<Rightarrow> nat \<Rightarrow> bool" where
  "same_root p i j \<longleftrightarrow> (\<exists>r. root_of p i r \<and> root_of p j r)"

lemma link_ranked:
  assumes "ranked rk p" and "a < length p" and "b < length p" and "p ! a = a" and "p ! b = b" and "a \<noteq> b"
  shows "\<exists>rk'. ranked rk' (p[b := a])"
proof -
  let ?rk = "\<lambda>x. if root_of p x b then rk x + rk a + 1 else rk x"
  have "\<not> root_of p a b" using assms(4,6) root_of.here root_of_unique by metis
  then have a: "?rk a < ?rk b" using root_of.here [of p b] assms(5) by simp
  have "?rk (p[b := a] ! i) < ?rk i" if "i < length p" "p[b := a] ! i \<noteq> i" for i
  proof (cases "i = b")
    case True
    show ?thesis unfolding True using a assms(3) by (simp only: nth_list_update_eq)
  next
    case False
    with that have step: "p ! i \<noteq> i" "p[b := a] ! i = p ! i" by simp_all
    with rankedD(2) [OF assms(1) that(1)] show ?thesis using root_of_parent [of p i b] by simp
  qed
  moreover have "p[b := a] ! i < length p" if "i < length p" for i
    using that assms(2) rankedD(1) [OF assms(1) that] by (cases "i = b") simp_all
  ultimately have "ranked ?rk (p[b := a])" unfolding ranked_def length_list_update by blast
  then show ?thesis by blast
qed

lemma link_root:
  assumes "ranked rk p" and "a < length p" and "b < length p" and "p ! a = a" and "p ! b = b" and "a \<noteq> b"
    and "j < length p"
  shows "root_of (p[b := a]) j s \<longleftrightarrow> (if root_of p j b then s = a else root_of p j s)"
proof -
  let ?l = "p[b := a]"
  have la: "root_of ?l a a" using assms(4,6) by (intro root_of.here) simp
  have lb: "root_of ?l b a" using la assms(3,6) by (subst root_of_parent) simp
  have to: "root_of ?l j (if r = b then a else r)" if "j < length p" "root_of p j r" for j r
    using that
  proof (induction "rk j" arbitrary: j rule: less_induct)
    case less
    show ?case
    proof (cases "p ! j = j")
      case True
      with less.prems have r: "r = j" by (auto elim: root_ofE)
      show ?thesis
      proof (cases "j = b")
        case True
        with r lb show ?thesis by simp
      next
        case False
        with \<open>p ! j = j\<close> have "root_of ?l j j" by (intro root_of.here) simp
        with r False show ?thesis by simp
      qed
    next
      case False
      then have jb: "j \<noteq> b" using assms(5) by auto
      have "root_of ?l (p ! j) (if r = b then a else r)"
        using less.hyps [of "p ! j"] rankedD [OF assms(1) less.prems(1)] False less.prems(2)
          root_of_parent [of p j r] by simp
      moreover have "?l ! j = p ! j" using jb by simp
      ultimately show ?thesis using root_of_parent [of ?l j] by metis
    qed
  qed
  obtain r where r: "root_of p j r" using root_exists [OF assms(1,7)] by blast
  from to [OF assms(7) r] have "root_of ?l j s \<longleftrightarrow> s = (if r = b then a else r)"
    using root_of_unique by blast
  moreover have "root_of p j b \<longleftrightarrow> r = b" "root_of p j s \<longleftrightarrow> s = r" using r root_of_unique by blast+
  ultimately show ?thesis by simp
qed

definition forest :: "nat \<Rightarrow> nat list \<Rightarrow> bool" where
  "forest n p \<longleftrightarrow> length p = n \<and> (\<exists>rk. ranked rk p)"

lemma union_step_spec:
  assumes "forest n p" and "l < n" and "r < n"
  shows "\<exists>p'. union_step p l r = Some p' \<and> forest n p' \<and>
    (\<forall>i < n. \<forall>j < n. same_root p' i j \<longleftrightarrow> same_root p i j \<or>
       same_root p i l \<and> same_root p r j \<or> same_root p i r \<and> same_root p l j)"
proof -
  from assms(1) obtain rk where n: "length p = n" and rk: "ranked rk p" by (auto simp: forest_def)
  obtain a p1 where 1: "find_root p l = Some (a, p1)" "root_of p l a" "ranked rk p1" "length p1 = n"
    "\<forall>j < n. \<forall>s. root_of p1 j s \<longleftrightarrow> root_of p j s"
    using find_root_spec [OF rk, of l] assms n by auto
  obtain b p2 where 2: "find_root p1 r = Some (b, p2)" "root_of p1 r b" "ranked rk p2" "length p2 = n"
    "\<forall>j < n. \<forall>s. root_of p2 j s \<longleftrightarrow> root_of p1 j s"
    using find_root_spec [OF 1(3), of r] assms 1(4) by auto
  have u: "union_step p l r = Some (p2[b := a])" using 1(1) 2(1) by (simp add: union_step_def)
  have roots: "root_of p2 j s \<longleftrightarrow> root_of p j s" if "j < n" for j s using that 1(5) 2(5) by simp
  have ab: "a < n" "b < n" "root_of p l a" "root_of p r b"
    using 1(2) 2(2) 1(5) assms n root_less [OF rk] by auto
  have fix_a: "p2 ! a = a" "p2 ! b = b"
    using roots [OF assms(2)] roots [OF assms(3)] ab root_of_fixed by blast+
  have sr: "same_root p i j \<longleftrightarrow> (\<exists>s. root_of p2 i s \<and> root_of p2 j s)" if "i < n" "j < n" for i j
    using that roots by (auto simp: same_root_def)
  have srl: "same_root p i l \<longleftrightarrow> root_of p2 i a" "same_root p l i \<longleftrightarrow> root_of p2 i a"
    "same_root p i r \<longleftrightarrow> root_of p2 i b" "same_root p r i \<longleftrightarrow> root_of p2 i b" if "i < n" for i
    using that roots ab root_of_unique by (auto simp: same_root_def) blast+
  show ?thesis
  proof (cases "a = b")
    case True
    then have "p2[b := a] = p2" using fix_a by (metis list_update_id)
    moreover have "same_root p2 i j \<longleftrightarrow> same_root p i j \<or> same_root p i l \<and> same_root p r j \<or>
        same_root p i r \<and> same_root p l j" if "i < n" "j < n" for i j
      using that True by (auto simp: srl sr) (auto simp: same_root_def)
    ultimately show ?thesis using u 2(3,4) by (auto simp: forest_def)
  next
    case False
    have forest': "forest n (p2[b := a])"
      using link_ranked [OF 2(3) _ _ fix_a False] ab 2(4) by (simp add: forest_def)
    have lr: "root_of (p2[b := a]) j s \<longleftrightarrow> (if root_of p2 j b then s = a else root_of p2 j s)" if "j < n" for j s
      using link_root [OF 2(3) _ _ fix_a False, of j s] that ab 2(4) by simp
    have ex: "\<exists>s. root_of p2 j s" if "j < n" for j using root_exists [OF 2(3)] that 2(4) by blast
    have "same_root (p2[b := a]) i j \<longleftrightarrow> same_root p i j \<or> same_root p i l \<and> same_root p r j \<or>
        same_root p i r \<and> same_root p l j" if ij: "i < n" "j < n" for i j
    proof -
      obtain s t where st: "root_of p2 i s" "root_of p2 j t" using ex ij by blast
      then have s: "root_of p2 i x \<longleftrightarrow> x = s" and t: "root_of p2 j x \<longleftrightarrow> x = t" for x
        using root_of_unique by blast+
      show ?thesis using ij by (auto simp: same_root_def [of "p2[b := a]"] lr srl sr s t)
    qed
    with u forest' show ?thesis by blast
  qed
qed

subsection \<open>Clusters are the connected components\<close>

definition connected :: "(nat \<times> nat) set \<Rightarrow> nat \<Rightarrow> nat \<Rightarrow> bool" where
  "connected S i j \<longleftrightarrow> (i, j) \<in> (S \<union> S\<inverse>)\<^sup>*"

lemma connected_refl [simp]: "connected S i i"
  by (simp add: connected_def)

lemma connected_trans: "connected S i j \<Longrightarrow> connected S j k \<Longrightarrow> connected S i k"
  unfolding connected_def by (rule rtrancl_trans)

lemma connected_sym: "connected S i j \<Longrightarrow> connected S j i"
  unfolding connected_def by (metis Un_commute converse_Un converse_converse rtrancl_converseD)

lemma connected_mono: "S \<subseteq> T \<Longrightarrow> connected S i j \<Longrightarrow> connected T i j"
  unfolding connected_def by (erule rtrancl_mono [THEN subsetD, rotated]) auto

lemma connected_insert:
  "connected (insert (l, r) S) i j \<longleftrightarrow>
     connected S i j \<or> connected S i l \<and> connected S r j \<or> connected S i r \<and> connected S l j"
proof
  assume "connected (insert (l, r) S) i j"
  then have "(i, j) \<in> (insert (l, r) S \<union> (insert (l, r) S)\<inverse>)\<^sup>*" by (simp add: connected_def)
  then show "connected S i j \<or> connected S i l \<and> connected S r j \<or> connected S i r \<and> connected S l j"
  proof (induction rule: rtrancl_induct)
    case (step y z)
    then consider "(y, z) \<in> S \<union> S\<inverse>" | "y = l" "z = r" | "y = r" "z = l" by blast
    then show ?case
    proof cases
      case 1
      then have "connected S y z" by (auto simp: connected_def)
      with step.IH show ?thesis by (meson connected_trans)
    qed (use step.IH in auto)
  qed simp
next
  have sub: "connected S i j \<Longrightarrow> connected (insert (l, r) S) i j" for i j
    by (rule connected_mono [of S]) auto
  have lr: "connected (insert (l, r) S) l r" by (auto simp: connected_def)
  note rl = connected_sym [OF lr]
  assume "connected S i j \<or> connected S i l \<and> connected S r j \<or> connected S i r \<and> connected S l j"
  then consider "connected S i j" | "connected S i l" "connected S r j" | "connected S i r" "connected S l j"
    by blast
  then show "connected (insert (l, r) S) i j"
  proof cases
    case 1
    then show ?thesis by (rule sub)
  next
    case 2
    show ?thesis by (rule connected_trans [OF sub [OF 2(1)] connected_trans [OF lr sub [OF 2(2)]]])
  next
    case 3
    show ?thesis by (rule connected_trans [OF sub [OF 3(1)] connected_trans [OF rl sub [OF 3(2)]]])
  qed
qed

lemma identity_forest: "forest n [0..<n]" "i < n \<Longrightarrow> j < n \<Longrightarrow> same_root [0..<n] i j \<longleftrightarrow> i = j"
proof -
  show "forest n [0..<n]" by (auto simp: forest_def ranked_def)
  have "root_of [0..<n] i r \<longleftrightarrow> r = i" if "i < n" for i r
    using that by (auto elim: root_ofE intro: root_of.here)
  then show "i < n \<Longrightarrow> j < n \<Longrightarrow> same_root [0..<n] i j \<longleftrightarrow> i = j" by (auto simp: same_root_def)
qed

lemma pair_steps_spec:
  assumes "\<forall>(l, r) \<in> set pairs. l < n \<and> r < n"
  shows "\<exists>p. foldl (pair_step similar) (Some [0..<n]) pairs = Some p \<and> forest n p \<and>
    (\<forall>i < n. \<forall>j < n. same_root p i j \<longleftrightarrow>
       connected {(l, r). (l, r) \<in> set pairs \<and> similar l r} i j)"
  using assms
proof (induction pairs rule: rev_induct)
  case Nil
  have "connected {} i j \<longleftrightarrow> i = j" for i j by (simp add: connected_def)
  then show ?case using identity_forest by simp
next
  case (snoc pr pairs)
  obtain l r where pr: "pr = (l, r)" by (cases pr)
  let ?S = "{(l, r). (l, r) \<in> set pairs \<and> similar l r}"
  let ?T = "{(l', r'). (l', r') \<in> set (pairs @ [pr]) \<and> similar l' r'}"
  from snoc obtain p where p: "foldl (pair_step similar) (Some [0..<n]) pairs = Some p" "forest n p"
    "\<forall>i < n. \<forall>j < n. same_root p i j \<longleftrightarrow> connected ?S i j" and lr: "l < n" "r < n"
    by (auto simp: pr)
  show ?case
  proof (cases "similar l r")
    case True
    then have T: "?T = insert (l, r) ?S" by (auto simp: pr)
    from union_step_spec [OF p(2) lr] obtain p' where p': "union_step p l r = Some p'" "forest n p'"
      "\<forall>i < n. \<forall>j < n. same_root p' i j \<longleftrightarrow> same_root p i j \<or>
       same_root p i l \<and> same_root p r j \<or> same_root p i r \<and> same_root p l j" by blast
    have "same_root p' i j \<longleftrightarrow> connected ?T i j" if "i < n" "j < n" for i j
      unfolding T connected_insert using that p'(3) p(3) lr by simp
    moreover have "foldl (pair_step similar) (Some [0..<n]) (pairs @ [pr]) = Some p'"
      using p(1) p'(1) True by (simp add: pair_step_def pr)
    ultimately show ?thesis using p'(2) by blast
  next
    case False
    then have T: "?T = ?S" by (auto simp: pr)
    have "foldl (pair_step similar) (Some [0..<n]) (pairs @ [pr]) = Some p"
      using p(1) False by (simp add: pair_step_def pr)
    with p(2,3) show ?thesis unfolding T by blast
  qed
qed

lemma collect_roots_spec:
  assumes "forest n p" and "\<forall>i \<in> set is. i < n"
  shows "\<exists>roots. collect_roots p is = Some roots \<and> list_all2 (root_of p) is roots"
  using assms
proof (induction "is" arbitrary: p)
  case (Cons i "is")
  then obtain rk where rk: "ranked rk p" and n: "length p = n" by (auto simp: forest_def)
  obtain r p' where f: "find_root p i = Some (r, p')" "root_of p i r" "ranked rk p'" "length p' = n"
    "\<forall>j < n. \<forall>s. root_of p' j s \<longleftrightarrow> root_of p j s"
    using find_root_spec [OF rk, of i] Cons.prems n by auto
  have "forest n p'" using f(3,4) by (auto simp: forest_def)
  with Cons obtain roots where roots: "collect_roots p' is = Some roots" "list_all2 (root_of p') is roots"
    by auto
  have "list_all2 (root_of p) is roots"
    using roots(2) f(5) Cons.prems(2) by (auto simp: list_all2_conv_all_nth)
  with f roots(1) show ?case by auto
qed simp

lemma set_index_pairs: "(l, r) \<in> set (index_pairs n) \<longleftrightarrow> l < r \<and> r < n"
  by (auto simp: index_pairs_def image_iff intro!: bexI [of _ l])

lemma cluster_roots:
  "\<exists>p roots. link_similar similar n = Some p \<and> collect_roots p [0..<n] = Some roots \<and>
     length roots = n \<and>
     (\<forall>i < n. \<forall>j < n. roots ! i = roots ! j \<longleftrightarrow> connected {(l, r). l < r \<and> r < n \<and> similar l r} i j)"
proof -
  have pairs: "\<forall>(l, r) \<in> set (index_pairs n). l < n \<and> r < n"
    by (auto simp: set_index_pairs)
  obtain p where p: "link_similar similar n = Some p" "forest n p"
    "\<forall>i < n. \<forall>j < n. same_root p i j \<longleftrightarrow> connected {(l, r). (l, r) \<in> set (index_pairs n) \<and> similar l r} i j"
    using pair_steps_spec [OF pairs, of similar] by (auto simp: link_similar_def)
  obtain roots where roots: "collect_roots p [0..<n] = Some roots" "list_all2 (root_of p) [0..<n] roots"
    using collect_roots_spec [OF p(2), of "[0..<n]"] by auto
  then have len: "length roots = n" and r: "\<And>i. i < n \<Longrightarrow> root_of p i (roots ! i)"
    by (auto simp: list_all2_conv_all_nth)
  have "roots ! i = roots ! j \<longleftrightarrow> same_root p i j" if "i < n" "j < n" for i j
    using r [OF that(1)] r [OF that(2)] root_of_unique unfolding same_root_def by metis
  with p(3) roots(1) len show ?thesis using p(1) by (auto simp: set_index_pairs)
qed

end
