(* ===== verification/Rules.thy ===== *)
theory Rules
  imports Scoring Graph Union_Find
begin

text \<open>
  \<open>audit_engine/rules.py\<close>: the deterministic rules over frozen crawl evidence. A rule is a generator:
  \<open>evaluate\<close> gives the sequence of what it does, each step a finding it constructs or an exception it
  raises (a call of \<open>urlsplit\<close> or \<open>require_allowed_url\<close> that fails). \<open>run_rules\<close> consumes the steps in
  order: a finding draws the next identifier of \<open>uuid4\<close> (the parameter \<open>ids\<close>) and is checked by its
  constructor, and the first exception aborts the run. Sets whose order does not matter are lists.
\<close>

subsection \<open>Context\<close>

definition RULESET_VERSION :: string where
  "RULESET_VERSION = ''1.1.0''"

definition BASE_MODULES :: "string list" where
  "BASE_MODULES = [''technical'', ''on_page'', ''performance'', ''analytics'', ''keyword_architecture'',
     ''authority'', ''cro'', ''geo_aeo'']"

fun enabled_modules :: "business_profile \<Rightarrow> string list" where
  "enabled_modules Service_saas = BASE_MODULES"
| "enabled_modules Local = BASE_MODULES @ [''local'']"
| "enabled_modules Ecommerce = BASE_MODULES @ [''ecommerce'']"
| "enabled_modules Hybrid = BASE_MODULES @ [''local'', ''ecommerce'']"

record crawl_integrity =
  ci_fetched_pages :: int
  ci_challenged_pages :: int
  ci_rate_limited_pages :: int
  ci_quarantined_urls :: "string list"
  ci_note :: string

definition challenge_share :: "crawl_integrity \<Rightarrow> rat" where
  "challenge_share ci =
     (let total = ci_fetched_pages ci + ci_challenged_pages ci in
      if total \<noteq> 0 then fdiv (of_int (ci_challenged_pages ci)) (of_int total) else 0)"

definition integrity_status :: "crawl_integrity \<Rightarrow> string" where
  "integrity_status ci =
     (let share = challenge_share ci in
      if fl (3 / 10) < share then ''blocked'' else if fl (5 / 100) < share then ''degraded'' else ''clean'')"

record audit_context =
  cx_project_id :: string
  cx_pages :: "page_snapshot list"
  cx_allowed_domains :: "string list"
  cx_business_profile :: business_profile
  cx_challenged_urls :: "string list"
  cx_crawl_integrity :: "crawl_integrity option"

definition evaluable_pages :: "audit_context \<Rightarrow> page_snapshot list" where
  "evaluable_pages cx =
     (if cx_challenged_urls cx = [] then cx_pages cx
      else filter (\<lambda>p. pg_normalized_url p \<notin> set (cx_challenged_urls cx)) (cx_pages cx))"

type_synonym rule_step = "exn + finding"

record rule =
  rl_id :: string
  rl_category :: string
  rl_evaluate :: "audit_context \<Rightarrow> rule_step list"

subsection \<open>Helpers\<close>

definition page_finding :: "audit_context \<Rightarrow> page_snapshot \<Rightarrow> string \<Rightarrow> string \<Rightarrow> severity \<Rightarrow> string \<Rightarrow> string \<Rightarrow>
    risk_class \<Rightarrow> rule_step" where
  "page_finding cx page category rule_id sev title description risk = Inr
     \<lparr>fd_id = [], fd_project_id = cx_project_id cx, fd_category = category, fd_rule_id = rule_id,
      fd_rule_version = RULESET_VERSION, fd_severity = sev, fd_title = title,
      fd_description = description, fd_evidence_ids = [pg_evidence_id page],
      fd_affected_urls = [pg_normalized_url page],
      fd_affected_share = fdiv 1 (of_nat (max 1 (length (cx_pages cx)))), fd_confidence = 1, fd_risk = risk\<rparr>"

definition AFFECTED_URL_CAP :: nat where
  "AFFECTED_URL_CAP = 50"

definition STOPWORDS :: "string list" where
  "STOPWORDS = [''a'', ''an'', ''and'', ''are'', ''at'', ''by'', ''for'', ''from'', ''in'', ''is'', ''of'',
     ''on'', ''or'', ''the'', ''to'', ''with'', ''your'', ''our'']"

definition UTILITY_SEGMENTS :: "string list" where
  "UTILITY_SEGMENTS = [''privacy'', ''privacy-policy'', ''terms'', ''terms-of-service'',
     ''terms-and-conditions'', ''login'', ''log-in'', ''signin'', ''sign-in'', ''signup'', ''sign-up'',
     ''register'', ''cart'', ''checkout'', ''account'', ''my-account'', ''search'', ''tag'', ''tags'',
     ''legal'', ''cookies'', ''cookie-policy'', ''thank-you'', ''unsubscribe'', ''404'', ''sitemap'']"

definition is_quarantined :: "audit_context \<Rightarrow> page_snapshot \<Rightarrow> bool" where
  "is_quarantined cx page \<longleftrightarrow> pg_normalized_url page \<in> set (cx_challenged_urls cx)"

definition is_success :: "page_snapshot \<Rightarrow> bool" where
  "is_success page \<longleftrightarrow> opt_any (\<lambda>c. 200 \<le> c \<and> c < 300) (pg_status_code page)"

definition is_success_html :: "page_snapshot \<Rightarrow> bool" where
  "is_success_html page \<longleftrightarrow>
     is_success page \<and> (falsy (pg_content_type page) \<or>
       contains ''html'' (casefold (opt_or [] (pg_content_type page))))"

definition path_of :: "page_snapshot \<Rightarrow> exn + string" where
  "path_of page = mapR (\<lambda>u. if u_path u = [] then ''/'' else u_path u) (urlsplit (pg_normalized_url page))"

definition is_homepage_path :: "string \<Rightarrow> bool" where
  "is_homepage_path path \<longleftrightarrow> path = [] \<or> path = ''/''"

definition is_utility_path :: "string \<Rightarrow> bool" where
  "is_utility_path path \<longleftrightarrow>
     list_ex (\<lambda>s. s \<noteq> [] \<and> casefold s \<in> set UTILITY_SEGMENTS) (split_on CHR ''/'' path)"

definition blank :: "string option \<Rightarrow> bool" where
  "blank s \<longleftrightarrow> strip (opt_or [] s) = []"

fun first_h1 :: "string list \<Rightarrow> string option" where
  "first_h1 [] = None"
| "first_h1 (v # vs) = (if strip v \<noteq> [] then Some (casefold (join '' '' (split_ws v))) else first_h1 vs)"

definition title_tokens :: "string \<Rightarrow> string list" where
  "title_tokens title =
     filter (\<lambda>t. t \<notin> set STOPWORDS)
       (remdups (filter (\<lambda>w. w \<noteq> []) (split_by (\<lambda>c. \<not> lower_char c \<and> \<not> digit_char c) (casefold title))))"

definition has_schema :: "string list \<Rightarrow> page_snapshot \<Rightarrow> bool" where
  "has_schema wanted page \<longleftrightarrow> list_ex (\<lambda>t. casefold t \<in> set wanted) (pg_schema_types page)"

definition site_finding :: "audit_context \<Rightarrow> page_snapshot list \<Rightarrow> string \<Rightarrow> string \<Rightarrow> severity \<Rightarrow> string \<Rightarrow>
    string \<Rightarrow> nat \<Rightarrow> rule_step" where
  "site_finding cx affected category rule_id sev title description how_many = Inr
     \<lparr>fd_id = [], fd_project_id = cx_project_id cx, fd_category = category, fd_rule_id = rule_id,
      fd_rule_version = RULESET_VERSION, fd_severity = sev, fd_title = title,
      fd_description = description,
      fd_evidence_ids = take AFFECTED_URL_CAP (fromkeys (map pg_evidence_id affected)),
      fd_affected_urls = take AFFECTED_URL_CAP (fromkeys (map pg_normalized_url affected)),
      fd_affected_share = min 1 (fdiv (of_nat how_many) (of_nat (max 1 (length (cx_pages cx))))),
      fd_confidence = 1, fd_risk = Risk_low\<rparr>"

definition each_page :: "(page_snapshot \<Rightarrow> rule_step list) \<Rightarrow> audit_context \<Rightarrow> rule_step list" where
  "each_page body cx = concat (map body (cx_pages cx))"

text \<open>The first element with the least key, \<open>min(xs, key=f)\<close> of a non-empty list.\<close>

fun min_by :: "('a \<Rightarrow> 'k::linorder) \<Rightarrow> 'a \<Rightarrow> 'a list \<Rightarrow> 'a" where
  "min_by f best [] = best"
| "min_by f best (x # xs) = min_by f (if f x < f best then x else best) xs"

subsection \<open>Rules over single pages\<close>

definition HTTPStatusRule :: "audit_context \<Rightarrow> rule_step list" where
  "HTTPStatusRule cx = each_page (\<lambda>page.
     if is_quarantined cx page then []
     else case pg_status_code page of None \<Rightarrow> []
     | Some status \<Rightarrow> if status < 400 then []
       else [page_finding cx page ''technical'' ''technical.http_status'' (if 500 \<le> status then Sev_critical else Sev_high) (''HTTP '' @ str_of_int status @ '' response'')
         (''The crawled URL did not return a successful or redirect response.'') Risk_low]) cx"

definition TitleRule :: "audit_context \<Rightarrow> rule_step list" where
  "TitleRule cx = each_page (\<lambda>page.
     if is_quarantined cx page \<or> \<not> is_success page then []
     else if blank (pg_title page)
     then [page_finding cx page ''on_page'' ''on_page.title'' Sev_high (''Missing document title'')
         (''The successful HTML page has no non-empty title element.'') Risk_low]
     else if 65 < length (strip (opt_or [] (pg_title page)))
     then [page_finding cx page ''on_page'' ''on_page.title'' Sev_low (''Long document title'')
         (''The title is longer than the configured 65-character editorial review threshold.'') Risk_low]
     else []) cx"

definition MetaDescriptionRule :: "audit_context \<Rightarrow> rule_step list" where
  "MetaDescriptionRule cx = each_page (\<lambda>page.
     if \<not> is_quarantined cx page \<and> is_success page \<and> blank (pg_meta_description page)
     then [page_finding cx page ''on_page'' ''on_page.meta_description'' Sev_medium (''Missing meta description'')
         (''The successful HTML page has no non-empty meta description.'') Risk_low]
     else []) cx"

definition H1Rule :: "audit_context \<Rightarrow> rule_step list" where
  "H1Rule cx = each_page (\<lambda>page.
     if is_quarantined cx page \<or> \<not> is_success page then []
     else let filled = filter (\<lambda>v. v \<noteq> []) (map strip (pg_h1 page)) in
       if filled = []
       then [page_finding cx page ''on_page'' ''on_page.h1'' Sev_high (''Missing primary heading'')
         (''The successful HTML page has no non-empty H1 heading.'') Risk_low]
       else if 1 < length filled
       then [page_finding cx page ''on_page'' ''on_page.h1'' Sev_medium (''Multiple primary headings'')
         (''The page contains '' @ str_of_nat (length filled) @ '' non-empty H1 headings and needs editorial review.'') Risk_low]
       else []) cx"

definition CanonicalBoundaryRule :: "audit_context \<Rightarrow> rule_step list" where
  "CanonicalBoundaryRule cx = each_page (\<lambda>page.
     if falsy (pg_canonical_url page) then []
     else case require_allowed_url (cx_allowed_domains cx) (opt_or [] (pg_canonical_url page)) of
       Inr url \<Rightarrow> []
     | Inl e \<Rightarrow> if is_url_error e
         then [page_finding cx page ''technical'' ''technical.canonical_boundary'' Sev_high (''Canonical points outside approved domains'')
         (''The declared canonical target is outside the project's approved domain boundary.'') Risk_high]
         else [Inl e]) cx"

definition RobotsDirectiveRule :: "audit_context \<Rightarrow> rule_step list" where
  "RobotsDirectiveRule cx = each_page (\<lambda>page.
     if list_ex (\<lambda>v. casefold (strip v) = ''noindex'' \<or> casefold (strip v) = ''none'') (pg_robots_directives page)
     then [page_finding cx page ''technical'' ''technical.robots_directive'' Sev_low (''Noindex directive detected'')
         (''A noindex-equivalent directive was observed; human review must confirm intent.'') Risk_moderate]
     else []) cx"

definition RedirectChainLengthRule :: "audit_context \<Rightarrow> rule_step list" where
  "RedirectChainLengthRule cx = each_page (\<lambda>page.
     if 2 < length (pg_redirect_chain page)
     then [page_finding cx page ''technical'' ''technical.redirect_chain_length'' Sev_medium (''Long redirect chain'')
         (''The URL only resolved after '' @ str_of_nat (length (pg_redirect_chain page) - 1) @ '' redirect hops; every extra hop wastes crawl budget and dilutes link signals.'') Risk_low]
     else []) cx"

definition CanonicalMissingRule :: "audit_context \<Rightarrow> rule_step list" where
  "CanonicalMissingRule cx = each_page (\<lambda>page.
     if is_success_html page \<and> blank (pg_canonical_url page)
     then [page_finding cx page ''technical'' ''technical.canonical_missing'' Sev_low (''Missing canonical tag'')
         (''The successful HTML page declares no canonical URL, leaving it exposed to parameter and duplicate-content variants.'') Risk_low]
     else []) cx"

definition InsecureInternalLinksRule :: "audit_context \<Rightarrow> rule_step list" where
  "InsecureInternalLinksRule cx = each_page (\<lambda>page.
     let insecure = filter (prefix ''http://'') (pg_links page) in
     if insecure \<noteq> []
     then [page_finding cx page ''technical'' ''technical.insecure_internal_links'' Sev_medium (''Insecure internal links'')
         (''The page contains '' @ str_of_nat (length insecure) @ '' internal links using the http:// scheme instead of https://.'') Risk_low]
     else []) cx"

definition URLHygieneRule :: "audit_context \<Rightarrow> rule_step list" where
  "URLHygieneRule cx = each_page (\<lambda>page.
     case path_of page of Inl e \<Rightarrow> [Inl e]
     | Inr path \<Rightarrow>
       let problems = (if list_ex upper_char path then [''uppercase characters''] else []) @
             (if CHR ''_'' \<in> set path then [''underscores''] else []) @
             (if 115 < length path then [''a '' @ str_of_nat (length path) @ ''-character path''] else [])
       in if problems \<noteq> []
       then [page_finding cx page ''technical'' ''technical.url_hygiene'' Sev_low (''URL formatting issues'')
         (''The URL path contains '' @ join '', '' problems @ ''; lowercase hyphenated paths are easier to maintain and share.'') Risk_low]
       else []) cx"

definition DeepPageRule :: "audit_context \<Rightarrow> rule_step list" where
  "DeepPageRule cx = each_page (\<lambda>page.
     if 4 < pg_url_depth page
     then [page_finding cx page ''technical'' ''technical.deep_page'' Sev_low (''Page buried deep in the site structure'')
         (''The URL sits '' @ str_of_int (pg_url_depth page) @ '' path segments deep; pages beyond four levels are crawled and discovered less often.'') Risk_low]
     else []) cx"

definition TitleShortRule :: "audit_context \<Rightarrow> rule_step list" where
  "TitleShortRule cx = each_page (\<lambda>page.
     let title = strip (opt_or [] (pg_title page)) in
     if is_success page \<and> title \<noteq> [] \<and> length title < 15
     then [page_finding cx page ''on_page'' ''on_page.title_short'' Sev_low (''Very short page title'')
         (''The title is only '' @ str_of_nat (length title) @ '' characters; titles under 15 characters rarely describe the page topic.'') Risk_low]
     else []) cx"

definition ThinContentRule :: "audit_context \<Rightarrow> rule_step list" where
  "ThinContentRule cx = each_page (\<lambda>page.
     if is_quarantined cx page \<or> \<not> is_success_html page then []
     else case path_of page of Inl e \<Rightarrow> [Inl e]
     | Inr path \<Rightarrow> if is_utility_path path then []
       else case pg_word_count page of None \<Rightarrow> []
       | Some n \<Rightarrow> if n < 200
         then [page_finding cx page ''on_page'' ''on_page.thin_content'' Sev_medium (''Thin page content'')
         (''Only '' @ str_of_int n @ '' words of visible text were observed; thin pages struggle to satisfy any search intent.'') Risk_low]
         else []) cx"

definition ImageAltMissingRule :: "audit_context \<Rightarrow> rule_step list" where
  "ImageAltMissingRule cx = each_page (\<lambda>page.
     if is_success_html page \<and> 0 < pg_images_missing_alt page
     then [page_finding cx page ''on_page'' ''on_page.image_alt_missing'' Sev_low (''Images missing alt text'')
         (str_of_int (pg_images_missing_alt page) @ '' of '' @ str_of_int (pg_images_total page) @ '' images on the page have no alt attribute text.'') Risk_low]
     else []) cx"

definition H2MissingRule :: "audit_context \<Rightarrow> rule_step list" where
  "H2MissingRule cx = each_page (\<lambda>page.
     if \<not> is_success_html page then []
     else case pg_word_count page of None \<Rightarrow> []
     | Some n \<Rightarrow> if 600 < n \<and> pg_h2 page = []
       then [page_finding cx page ''on_page'' ''on_page.h2_missing'' Sev_low (''Long page without H2 subheadings'')
         (''The page holds '' @ str_of_int n @ '' words but no H2 subheadings, making it harder to scan and to earn featured snippets.'') Risk_low]
       else []) cx"

definition SlowResponseRule :: "audit_context \<Rightarrow> rule_step list" where
  "SlowResponseRule cx = each_page (\<lambda>page.
     case pg_response_ms page of None \<Rightarrow> []
     | Some ms \<Rightarrow> if 1200 < ms
       then [page_finding cx page ''performance'' ''performance.slow_response'' (if 2500 < ms then Sev_high else Sev_medium) (''Slow server response'')
         (''The HTML document took '' @ str_of_int ms @ '' ms to download; responses above 1200 ms hold back every downstream rendering metric.'') Risk_low]
       else []) cx"

definition HeavyPageRule :: "audit_context \<Rightarrow> rule_step list" where
  "HeavyPageRule cx = each_page (\<lambda>page.
     if 1500000 < pg_body_bytes page
     then [page_finding cx page ''performance'' ''performance.heavy_page'' Sev_low (''Heavy document payload'')
         (''The response body is '' @ str_thousands (nat (pg_body_bytes page)) @ '' bytes; documents above 1.5 MB slow first render on constrained connections.'') Risk_low]
     else []) cx"

definition GenericTitleRule :: "audit_context \<Rightarrow> rule_step list" where
  "GenericTitleRule cx = each_page (\<lambda>page.
     let title = strip (opt_or [] (pg_title page)) in
     if is_success page \<and> title \<noteq> [] \<and> length (split_ws title) \<le> 2
     then [page_finding cx page ''keyword_architecture'' ''keyword_architecture.generic_title'' Sev_low (''Generic brand-only title'')
         (''The title '' @ [CHR 0x22] @ title @ [CHR 0x22] @ '' appears to be just the site or brand name and targets no page-specific topic.'') Risk_low]
     else []) cx"

subsection \<open>Rules over the site\<close>

text \<open>The groups of at least two pages that share a value, in the order the values first occur.\<close>

definition shared_groups :: "(page_snapshot \<Rightarrow> string option) \<Rightarrow> page_snapshot list \<Rightarrow> page_snapshot list list" where
  "shared_groups value pages =
     filter (\<lambda>g. 2 \<le> length g)
       (map snd (group_by (\<lambda>p. opt_or [] (value p)) (filter (\<lambda>p. is_success p \<and> \<not> falsy (value p)) pages)))"

definition DuplicateContentRule :: "audit_context \<Rightarrow> rule_step list" where
  "DuplicateContentRule cx =
     (let duplicates = shared_groups pg_body_sha256 (cx_pages cx); affected = concat duplicates in
      if duplicates = [] then []
      else [site_finding cx affected ''technical'' ''technical.duplicate_content'' Sev_medium
       (''Duplicate page content detected'')
       (str_of_nat (length affected) @ '' crawled pages across '' @ str_of_nat (length duplicates) @ '' groups returned byte-identical bodies; duplicates split ranking signals between URLs.'') (length affected)])"

definition broken_pairs :: "page_snapshot list \<Rightarrow> (page_snapshot \<times> page_snapshot \<times> int) list" where
  "broken_pairs pages =
     (let by_url = foldl (\<lambda>d p. AList.update (pg_normalized_url p) p d) [] pages in
      concat (map (\<lambda>page. concat (map (\<lambda>link.
        case map_of by_url link of None \<Rightarrow> []
        | Some target \<Rightarrow> (case pg_status_code target of None \<Rightarrow> []
            | Some c \<Rightarrow> if 400 \<le> c then [(page, target, c)] else []))
        (pg_links page))) pages))"

definition BrokenInternalLinkRule :: "audit_context \<Rightarrow> rule_step list" where
  "BrokenInternalLinkRule cx =
     (let pairs = broken_pairs (cx_pages cx);
          listing = join ''; '' (map (\<lambda>(source, target, c). pg_normalized_url source @ '' -> '' @
            pg_normalized_url target @ '' (HTTP '' @ str_of_int c @ '')'') (take 10 pairs));
          affected = concat (map (\<lambda>(source, target, c). [source, target]) pairs)
      in if pairs = [] then []
      else [site_finding cx affected ''technical'' ''technical.broken_internal_link'' Sev_high
       (''Broken internal links'')
       (str_of_nat (length pairs) @ '' internal link'' @ (if length pairs \<noteq> 1 then ''s point'' else '' points'') @ '' at URLs that returned an error status in this crawl: '' @ listing @ ''.'') (length (remdups (map (\<lambda>(source, target, c). pg_normalized_url target) pairs)))])"

definition linked_urls :: "page_snapshot list \<Rightarrow> string list" where
  "linked_urls pages = concat (map (\<lambda>p. filter (\<lambda>l. l \<noteq> pg_normalized_url p) (pg_links p)) pages)"

text \<open>\<open>path_of\<close> is called on successful HTML pages only, and its exception ends the generator.\<close>

definition orphans :: "page_snapshot list \<Rightarrow> exn + page_snapshot list" where
  "orphans pages =
     mapR concat (mapE (\<lambda>p.
       if \<not> is_success_html p then Inr []
       else mapR (\<lambda>path. if \<not> is_homepage_path path \<and> pg_normalized_url p \<notin> set (linked_urls pages)
                         then [p] else []) (path_of p)) pages)"

definition OrphanPageRule :: "audit_context \<Rightarrow> rule_step list" where
  "OrphanPageRule cx =
     (case orphans (cx_pages cx) of Inl e \<Rightarrow> [Inl e]
      | Inr affected \<Rightarrow> if affected = [] then []
      else [site_finding cx affected ''technical'' ''technical.orphan_page'' Sev_medium
       (''Orphaned pages with no internal links'')
       (str_of_nat (length affected) @ '' crawled pages receive no internal links from any other crawled page, so they depend entirely on external discovery.'') (length affected)])"

definition DuplicateFieldRule :: "string \<Rightarrow> severity \<Rightarrow> string \<Rightarrow> (page_snapshot \<Rightarrow> string option) \<Rightarrow>
    audit_context \<Rightarrow> rule_step list" where
  "DuplicateFieldRule rule_id sev label value cx =
     (let duplicates = shared_groups value (cx_pages cx); affected = concat duplicates in
      if duplicates = [] then []
      else [site_finding cx affected ''on_page'' rule_id sev
       (''Duplicate '' @ label @ '' across pages'')
       (str_of_nat (length affected) @ '' pages share an identical '' @ label @ '' across '' @
        str_of_nat (length duplicates) @ '' group'' @ (if length duplicates \<noteq> 1 then ''s'' else []) @
        ''; each page should describe its own topic.'') (length affected)])"

definition folded :: "string option \<Rightarrow> string option" where
  "folded s = (let v = casefold (strip (opt_or [] s)) in if v = [] then None else Some v)"

definition TitleDuplicateRule :: "audit_context \<Rightarrow> rule_step list" where
  "TitleDuplicateRule =
     DuplicateFieldRule ''on_page.title_duplicate'' Sev_medium ''title'' (\<lambda>p. folded (pg_title p))"

definition MetaDescriptionDuplicateRule :: "audit_context \<Rightarrow> rule_step list" where
  "MetaDescriptionDuplicateRule =
     DuplicateFieldRule ''on_page.meta_description_duplicate'' Sev_medium ''meta description''
       (\<lambda>p. folded (pg_meta_description p))"

definition H1DuplicateRule :: "audit_context \<Rightarrow> rule_step list" where
  "H1DuplicateRule =
     DuplicateFieldRule ''on_page.h1_duplicate'' Sev_low ''H1 heading'' (\<lambda>p. first_h1 (pg_h1 p))"

definition page_share :: "page_snapshot list \<Rightarrow> page_snapshot list \<Rightarrow> rat" where
  "page_share part whole = fdiv (of_nat (length part)) (of_nat (length whole))"

definition TrackingCoverageRule :: "audit_context \<Rightarrow> rule_step list" where
  "TrackingCoverageRule cx =
     (let html_pages = filter is_success_html (cx_pages cx);
          untracked = filter (\<lambda>p. pg_analytics_tags p = []) html_pages;
          share = page_share untracked html_pages
      in if html_pages = [] then []
      else if fl (8 / 10) \<le> share
      then [site_finding cx untracked ''analytics'' ''analytics.tracking_missing'' Sev_high
       (''Analytics tracking is absent site-wide'')
       (str_of_nat (length untracked) @ '' of '' @ str_of_nat (length html_pages) @ '' crawled HTML pages ('' @ fmt_pct 0 share @ '') show no recognised analytics tag, so performance cannot be measured.'') (length untracked)]
      else if fl (2 / 10) \<le> share
      then [site_finding cx untracked ''analytics'' ''analytics.tracking_partial'' Sev_medium
       (''Analytics tracking has coverage gaps'')
       (str_of_nat (length untracked) @ '' of '' @ str_of_nat (length html_pages) @ '' crawled HTML pages ('' @ fmt_pct 0 share @ '') show no recognised analytics tag; partial coverage skews every reported metric.'') (length untracked)]
      else [])"

definition StructuredDataMissingRule :: "audit_context \<Rightarrow> rule_step list" where
  "StructuredDataMissingRule cx =
     (let html_pages = filter is_success_html (cx_pages cx);
          lacking = filter (\<lambda>p. pg_schema_types p = []) html_pages;
          share = page_share lacking html_pages
      in if html_pages = [] then []
      else if 1 / 2 \<le> share
      then [site_finding cx lacking ''geo_aeo'' ''geo_aeo.structured_data_missing'' Sev_medium
       (''Structured data missing on most pages'')
       (str_of_nat (length lacking) @ '' of '' @ str_of_nat (length html_pages) @ '' crawled HTML pages ('' @ fmt_pct 0 share @ '') expose no structured data, limiting rich-result and AI-answer eligibility.'') (length lacking)]
      else [])"

definition page_rank :: "page_snapshot \<Rightarrow> int \<times> string" where
  "page_rank p = (pg_url_depth p, pg_normalized_url p)"

definition OrganizationSchemaMissingRule :: "audit_context \<Rightarrow> rule_step list" where
  "OrganizationSchemaMissingRule cx =
     (case filter is_success_html (cx_pages cx) of [] \<Rightarrow> []
      | first # rest \<Rightarrow>
        if list_ex (has_schema [''organization'', ''localbusiness'', ''website'']) (first # rest) then []
        else [site_finding cx [min_by page_rank first rest] ''geo_aeo'' ''geo_aeo.organization_schema_missing'' Sev_medium
       (''No Organization, WebSite or LocalBusiness schema'')
       (''No crawled page declares Organization, WebSite or LocalBusiness structured data, so search engines and answer engines cannot verify the entity.'') (1)])"

definition HTMLLangMissingRule :: "audit_context \<Rightarrow> rule_step list" where
  "HTMLLangMissingRule cx =
     (let lacking = filter (\<lambda>p. is_success_html p \<and> blank (pg_lang p)) (cx_pages cx)
      in if lacking = [] then []
      else [site_finding cx lacking ''geo_aeo'' ''geo_aeo.html_lang_missing'' Sev_low
       (''Pages without an html lang attribute'')
       (str_of_nat (length lacking) @ '' crawled HTML pages do not declare a document language, which weakens locale targeting and accessibility.'') (length lacking)])"

definition LocalBusinessSchemaMissingRule :: "audit_context \<Rightarrow> rule_step list" where
  "LocalBusinessSchemaMissingRule cx =
     (case filter is_success_html (cx_pages cx) of [] \<Rightarrow> []
      | first # rest \<Rightarrow>
        if list_ex (has_schema [''localbusiness'']) (first # rest) then []
        else [site_finding cx [min_by page_rank first rest] ''local'' ''local.localbusiness_schema_missing'' Sev_medium
       (''No LocalBusiness schema found'')
       (''No crawled page declares LocalBusiness structured data, so local pack and knowledge panel signals cannot be reinforced from the website.'') (1)])"

definition product_pages :: "page_snapshot list \<Rightarrow> exn + page_snapshot list" where
  "product_pages pages =
     mapR concat (mapE (\<lambda>p.
       if \<not> is_success_html p then Inr []
       else mapR (\<lambda>path. if contains ''/product'' (casefold path) then [p] else []) (path_of p)) pages)"

definition ProductSchemaMissingRule :: "audit_context \<Rightarrow> rule_step list" where
  "ProductSchemaMissingRule cx =
     (case product_pages (cx_pages cx) of Inl e \<Rightarrow> [Inl e]
      | Inr products \<Rightarrow>
        let lacking = filter (\<lambda>p. \<not> has_schema [''product''] p) products in
        if products = [] then []
        else if 1 / 2 \<le> page_share lacking products
        then [site_finding cx lacking ''ecommerce'' ''ecommerce.product_schema_missing'' Sev_high
       (''Product pages without Product schema'')
       (str_of_nat (length lacking) @ '' of '' @ str_of_nat (length products) @ '' product-path pages expose no Product structured data, forfeiting price and availability rich results.'') (length lacking)]
        else [])"

definition CrawlDegradationRule :: "audit_context \<Rightarrow> rule_step list" where
  "CrawlDegradationRule cx = (case cx_crawl_integrity cx of None \<Rightarrow> []
     | Some ci \<Rightarrow> if integrity_status ci = ''clean'' then []
       else let share = challenge_share ci; quarantined = take AFFECTED_URL_CAP (ci_quarantined_urls ci) in
         [Inr \<lparr>fd_id = [], fd_project_id = cx_project_id cx, fd_category = ''technical'',
            fd_rule_id = ''technical.crawl_degraded'', fd_rule_version = RULESET_VERSION,
            fd_severity = Sev_info, fd_title = ''Crawl coverage was reduced by bot protection'',
            fd_description = str_of_int (ci_challenged_pages ci) @ '' of '' @
              str_of_int (ci_fetched_pages ci + ci_challenged_pages ci) @ '' requested URLs ('' @
              fmt_pct 0 share @ '') returned a bot-challenge or rate-limit response ('' @
              str_of_int (ci_rate_limited_pages ci) @ '' were explicit rate limits), so crawl status is '' @
              [CHR 0x27] @ integrity_status ci @ [CHR 0x27] @
              ''. Those URLs were quarantined and produced no findings; '' @
              ''the audit describes only the pages we could actually read.'' @
              (if quarantined \<noteq> [] then '' Examples: '' @ join '', '' (take 5 quarantined) @ ''.'' else []),
            fd_evidence_ids = [], fd_affected_urls = quarantined, fd_affected_share = min 1 share,
            fd_confidence = 1, fd_risk = Risk_low\<rparr>])"

subsection \<open>Clusters of titles that compete for the same keywords\<close>

definition jaccard :: "string list \<Rightarrow> string list \<Rightarrow> rat" where
  "jaccard a b = fdiv (of_nat (length (filter (\<lambda>t. t \<in> set b) (remdups a))))
                      (of_nat (length (remdups (a @ b))))"

definition title_candidates :: "page_snapshot list \<Rightarrow> (page_snapshot \<times> string list) list" where
  "title_candidates pages =
     filter (\<lambda>c. snd c \<noteq> [])
       (map (\<lambda>p. (p, title_tokens (opt_or [] (pg_title p))))
         (filter (\<lambda>p. is_success p \<and> \<not> blank (pg_title p)) pages))"

definition title_clusters :: "(page_snapshot \<times> string list) list \<Rightarrow> page_snapshot list list option" where
  "title_clusters candidates =
     (let n = length candidates;
          similar = (\<lambda>l r. fl (8 / 10) \<le> jaccard (snd (candidates ! l)) (snd (candidates ! r))) in
      Option.bind (link_similar similar n) (\<lambda>parents.
      Option.bind (collect_roots parents [0..<n]) (\<lambda>roots.
      Some (map (map (fst \<circ> snd)) (map snd (group_by fst (zip roots candidates)))))))"

definition TitleCannibalizationRule :: "audit_context \<Rightarrow> rule_step list" where
  "TitleCannibalizationRule cx =
     (case title_clusters (title_candidates (cx_pages cx)) of
        None \<Rightarrow> [Inl (RuntimeError ''find does not return'')]
      | Some clusters \<Rightarrow>
          let overlapping = filter (\<lambda>g. 2 \<le> length g) clusters;
              listing = join '' | '' (map (\<lambda>g. ''cluster: '' @ join '', '' (map pg_normalized_url (take 5 g)))
                          (take 5 overlapping));
              affected = concat overlapping
          in if overlapping = [] then []
             else [site_finding cx affected ''keyword_architecture''
               ''keyword_architecture.title_cannibalization'' Sev_medium
               ''Pages competing for the same title keywords''
               (str_of_nat (length affected) @ '' pages across '' @ str_of_nat (length overlapping) @
                '' clusters share nearly identical title keyword sets and may cannibalise each other. '' @
                listing @ ''.'') (length affected)])"

subsection \<open>Running the rules\<close>

definition make_rule :: "string \<Rightarrow> string \<Rightarrow> (audit_context \<Rightarrow> rule_step list) \<Rightarrow> rule" where
  "make_rule rule_id category evaluate =
     \<lparr>rl_id = rule_id, rl_category = category, rl_evaluate = evaluate\<rparr>"

definition DEFAULT_RULES :: "rule list" where
  "DEFAULT_RULES = [
     make_rule ''technical.http_status'' ''technical'' HTTPStatusRule,
     make_rule ''on_page.title'' ''on_page'' TitleRule,
     make_rule ''on_page.meta_description'' ''on_page'' MetaDescriptionRule,
     make_rule ''on_page.h1'' ''on_page'' H1Rule,
     make_rule ''technical.canonical_boundary'' ''technical'' CanonicalBoundaryRule,
     make_rule ''technical.robots_directive'' ''technical'' RobotsDirectiveRule,
     make_rule ''technical.redirect_chain_length'' ''technical'' RedirectChainLengthRule,
     make_rule ''technical.canonical_missing'' ''technical'' CanonicalMissingRule,
     make_rule ''technical.duplicate_content'' ''technical'' DuplicateContentRule,
     make_rule ''technical.insecure_internal_links'' ''technical'' InsecureInternalLinksRule,
     make_rule ''technical.broken_internal_link'' ''technical'' BrokenInternalLinkRule,
     make_rule ''technical.url_hygiene'' ''technical'' URLHygieneRule,
     make_rule ''technical.deep_page'' ''technical'' DeepPageRule,
     make_rule ''technical.orphan_page'' ''technical'' OrphanPageRule,
     make_rule ''on_page.title_duplicate'' ''on_page'' TitleDuplicateRule,
     make_rule ''on_page.meta_description_duplicate'' ''on_page'' MetaDescriptionDuplicateRule,
     make_rule ''on_page.h1_duplicate'' ''on_page'' H1DuplicateRule,
     make_rule ''on_page.title_short'' ''on_page'' TitleShortRule,
     make_rule ''on_page.thin_content'' ''on_page'' ThinContentRule,
     make_rule ''on_page.image_alt_missing'' ''on_page'' ImageAltMissingRule,
     make_rule ''on_page.h2_missing'' ''on_page'' H2MissingRule,
     make_rule ''performance.slow_response'' ''performance'' SlowResponseRule,
     make_rule ''performance.heavy_page'' ''performance'' HeavyPageRule,
     make_rule ''analytics.tracking_missing'' ''analytics'' TrackingCoverageRule,
     make_rule ''geo_aeo.structured_data_missing'' ''geo_aeo'' StructuredDataMissingRule,
     make_rule ''geo_aeo.organization_schema_missing'' ''geo_aeo'' OrganizationSchemaMissingRule,
     make_rule ''geo_aeo.html_lang_missing'' ''geo_aeo'' HTMLLangMissingRule,
     make_rule ''keyword_architecture.title_cannibalization'' ''keyword_architecture'' TitleCannibalizationRule,
     make_rule ''keyword_architecture.generic_title'' ''keyword_architecture'' GenericTitleRule,
     make_rule ''ecommerce.product_schema_missing'' ''ecommerce'' ProductSchemaMissingRule,
     make_rule ''local.localbusiness_schema_missing'' ''local'' LocalBusinessSchemaMissingRule,
     make_rule ''technical.crawl_degraded'' ''technical'' CrawlDegradationRule]"

definition construct :: "(nat \<Rightarrow> string) \<Rightarrow> finding list \<Rightarrow> rule_step \<Rightarrow> exn + finding list" where
  "construct ids fs step =
     bindE step (\<lambda>draft.
     let f = draft\<lparr>fd_id := ids (length fs)\<rparr> in
     bindE (check_finding f) (\<lambda>_. Inr (fs @ [f])))"

definition run_rule :: "(nat \<Rightarrow> string) \<Rightarrow> audit_context \<Rightarrow> finding list \<Rightarrow> rule \<Rightarrow> exn + finding list" where
  "run_rule ids cx fs r =
     (if rl_category r \<in> set (enabled_modules (cx_business_profile cx))
      then foldE (construct ids) fs (rl_evaluate r cx) else Inr fs)"

definition evaluation_context :: "audit_context \<Rightarrow> audit_context" where
  "evaluation_context cx =
     (if cx_challenged_urls cx = [] then cx else cx\<lparr>cx_pages := evaluable_pages cx\<rparr>)"

definition run_rules :: "(nat \<Rightarrow> string) \<Rightarrow> audit_context \<Rightarrow> rule list \<Rightarrow> exn + finding list" where
  "run_rules ids cx rules = foldE (run_rule ids (evaluation_context cx)) [] rules"

subsection \<open>Every step of a rule is grounded in the pages it saw\<close>

named_theorems grounding "introduction rules for steps_grounded"

definition grounded :: "audit_context \<Rightarrow> string \<Rightarrow> finding \<Rightarrow> bool" where
  "grounded cx category f \<longleftrightarrow>
     fd_project_id f = cx_project_id cx \<and> fd_category f = category \<and> fd_rule_version f = RULESET_VERSION \<and>
     (fd_severity f = Sev_info \<or>
        fd_affected_urls f \<noteq> [] \<and> fd_evidence_ids f \<noteq> [] \<and>
        set (fd_affected_urls f) \<subseteq> pg_normalized_url ` set (cx_pages cx) \<and>
        set (fd_evidence_ids f) \<subseteq> pg_evidence_id ` set (cx_pages cx))"

definition steps_grounded :: "audit_context \<Rightarrow> string \<Rightarrow> rule_step list \<Rightarrow> bool" where
  "steps_grounded cx category steps \<longleftrightarrow> (\<forall>f. Inr f \<in> set steps \<longrightarrow> grounded cx category f)"

lemma grounded_Nil [grounding]: "steps_grounded cx c []"
  by (simp add: steps_grounded_def)

lemma grounded_Inl [grounding]: "steps_grounded cx c [Inl e]"
  by (simp add: steps_grounded_def)

lemma grounded_page [grounding]:
  "page \<in> set (cx_pages cx) \<Longrightarrow> steps_grounded cx c [page_finding cx page c r s t d k]"
  by (simp add: steps_grounded_def page_finding_def grounded_def)

lemma cap_pos [simp]: "0 < AFFECTED_URL_CAP"
  by (simp add: AFFECTED_URL_CAP_def)

lemma take_fromkeys:
  "xs \<noteq> [] \<Longrightarrow> take AFFECTED_URL_CAP (fromkeys xs) \<noteq> []"
  "set (take n (fromkeys xs)) \<subseteq> set xs"
  using set_take_subset [of n "fromkeys xs"] by auto

lemma grounded_site [grounding]:
  assumes "set affected \<subseteq> set (cx_pages cx)" and "affected \<noteq> []"
  shows "steps_grounded cx c [site_finding cx affected c r s t d n]"
proof -
  have "set (take AFFECTED_URL_CAP (fromkeys (map f affected))) \<subseteq> f ` set (cx_pages cx)" for f :: "page_snapshot \<Rightarrow> string"
    using take_fromkeys(2) [of AFFECTED_URL_CAP "map f affected"] assms(1) by auto
  then show ?thesis using take_fromkeys(1) assms(2)
    by (simp add: steps_grounded_def site_finding_def grounded_def)
qed

lemma grounded_if [grounding]:
  "(b \<Longrightarrow> steps_grounded cx c m) \<Longrightarrow> (\<not> b \<Longrightarrow> steps_grounded cx c n) \<Longrightarrow> steps_grounded cx c (if b then m else n)"
  by simp

lemma grounded_option [grounding]:
  "(x = None \<Longrightarrow> steps_grounded cx c m) \<Longrightarrow> (\<And>a. x = Some a \<Longrightarrow> steps_grounded cx c (f a)) \<Longrightarrow>
   steps_grounded cx c (case x of None \<Rightarrow> m | Some a \<Rightarrow> f a)"
  by (cases x) simp_all

lemma grounded_sum [grounding]:
  "(\<And>e. x = Inl e \<Longrightarrow> steps_grounded cx c (f e)) \<Longrightarrow> (\<And>a. x = Inr a \<Longrightarrow> steps_grounded cx c (g a)) \<Longrightarrow>
   steps_grounded cx c (case x of Inl e \<Rightarrow> f e | Inr a \<Rightarrow> g a)"
  by (cases x) simp_all

lemma grounded_list [grounding]:
  "(xs = [] \<Longrightarrow> steps_grounded cx c m) \<Longrightarrow> (\<And>y ys. xs = y # ys \<Longrightarrow> steps_grounded cx c (f y ys)) \<Longrightarrow>
   steps_grounded cx c (case xs of [] \<Rightarrow> m | y # ys \<Rightarrow> f y ys)"
  by (cases xs) simp_all

lemma grounded_each [grounding]:
  "(\<And>page. page \<in> set (cx_pages cx) \<Longrightarrow> steps_grounded cx c (body page)) \<Longrightarrow>
   steps_grounded cx c (each_page body cx)"
  by (auto simp: steps_grounded_def each_page_def)

lemmas page_rule_defs = HTTPStatusRule_def TitleRule_def MetaDescriptionRule_def H1Rule_def
  CanonicalBoundaryRule_def RobotsDirectiveRule_def RedirectChainLengthRule_def CanonicalMissingRule_def
  InsecureInternalLinksRule_def URLHygieneRule_def DeepPageRule_def TitleShortRule_def
  ThinContentRule_def ImageAltMissingRule_def H2MissingRule_def SlowResponseRule_def HeavyPageRule_def
  GenericTitleRule_def

lemma page_rules_grounded:
  "steps_grounded cx ''technical'' (HTTPStatusRule cx)" "steps_grounded cx ''on_page'' (TitleRule cx)"
  "steps_grounded cx ''on_page'' (MetaDescriptionRule cx)" "steps_grounded cx ''on_page'' (H1Rule cx)"
  "steps_grounded cx ''technical'' (CanonicalBoundaryRule cx)"
  "steps_grounded cx ''technical'' (RobotsDirectiveRule cx)"
  "steps_grounded cx ''technical'' (RedirectChainLengthRule cx)"
  "steps_grounded cx ''technical'' (CanonicalMissingRule cx)"
  "steps_grounded cx ''technical'' (InsecureInternalLinksRule cx)"
  "steps_grounded cx ''technical'' (URLHygieneRule cx)" "steps_grounded cx ''technical'' (DeepPageRule cx)"
  "steps_grounded cx ''on_page'' (TitleShortRule cx)" "steps_grounded cx ''on_page'' (ThinContentRule cx)"
  "steps_grounded cx ''on_page'' (ImageAltMissingRule cx)" "steps_grounded cx ''on_page'' (H2MissingRule cx)"
  "steps_grounded cx ''performance'' (SlowResponseRule cx)"
  "steps_grounded cx ''performance'' (HeavyPageRule cx)"
  "steps_grounded cx ''keyword_architecture'' (GenericTitleRule cx)"
  unfolding page_rule_defs Let_def by (intro grounding; assumption)+

lemma group_by_subset:
  "g \<in> set (map snd (group_by k xs)) \<Longrightarrow> set g \<subseteq> set xs \<and> g \<noteq> []"
  by (auto simp: group_by_entry filter_empty_conv)

lemma shared_groups_subset:
  "set (concat (shared_groups v pages)) \<subseteq> set pages"
  "shared_groups v pages \<noteq> [] \<Longrightarrow> concat (shared_groups v pages) \<noteq> []"
proof -
  have g: "set g \<subseteq> set pages \<and> g \<noteq> []" if "g \<in> set (shared_groups v pages)" for g
    using that group_by_subset [of g _ "filter (\<lambda>p. is_success p \<and> \<not> falsy (v p)) pages"]
    by (fastforce simp: shared_groups_def)
  then show "set (concat (shared_groups v pages)) \<subseteq> set pages" by auto
  assume "shared_groups v pages \<noteq> []"
  with g show "concat (shared_groups v pages) \<noteq> []" by (cases "shared_groups v pages") auto
qed

lemma page_dict:
  "map_of (foldl (\<lambda>d p. AList.update (pg_normalized_url p) p d) [] pages) u = Some q \<Longrightarrow>
   q \<in> set pages \<and> pg_normalized_url q = u"
  by (induction pages rule: rev_induct) (auto simp: dict_update_lookup split: if_splits)

lemma broken_pairsD:
  assumes "(source, target, c) \<in> set (broken_pairs pages)"
  shows "source \<in> set pages \<and> target \<in> set pages \<and> pg_normalized_url target \<in> set (pg_links source) \<and>
    pg_status_code target = Some c \<and> 400 \<le> c"
  using assms
  by (auto simp: broken_pairs_def Let_def dest!: page_dict [OF sym] split: option.splits if_splits)

lemma mapE_concat_subset:
  assumes "mapR concat (mapE f xs) = Inr ys" and "\<And>x zs. x \<in> set xs \<Longrightarrow> f x = Inr zs \<Longrightarrow> set zs \<subseteq> {x}"
  shows "set ys \<subseteq> set xs"
  using assms mapE_set [of f xs] by (fastforce simp: mapR_Inr_iff)

lemma orphans_subset: "orphans pages = Inr ys \<Longrightarrow> set ys \<subseteq> set pages"
  unfolding orphans_def by (erule mapE_concat_subset) (auto simp: mapR_Inr_iff split: if_splits)

lemma product_pages_subset: "product_pages pages = Inr ys \<Longrightarrow> set ys \<subseteq> set pages"
  unfolding product_pages_def by (erule mapE_concat_subset) (auto simp: mapR_Inr_iff split: if_splits)

lemma title_clusters_subset:
  assumes "title_clusters (title_candidates pages) = Some cs" and "g \<in> set cs"
  shows "set g \<subseteq> set pages \<and> g \<noteq> []"
proof -
  obtain roots :: "nat list" where
    "cs = map (map (fst \<circ> snd)) (map snd (group_by fst (zip roots (title_candidates pages))))"
    using assms(1) unfolding title_clusters_def Let_def bind_eq_Some_conv by blast
  with assms(2) obtain h where g: "g = map (fst \<circ> snd) h"
    and "h \<in> set (map snd (group_by fst (zip roots (title_candidates pages))))" by auto
  then have h: "set h \<subseteq> set (zip roots (title_candidates pages))" "h \<noteq> []" using group_by_subset by blast+
  have "set g \<subseteq> fst ` set (title_candidates pages)"
    using h(1) by (force simp: g dest: set_zip_rightD)
  also have "\<dots> \<subseteq> set pages" by (auto simp: title_candidates_def)
  finally show ?thesis using h(2) g by simp
qed

lemma min_by_in: "min_by f b xs \<in> insert b (set xs)"
  by (induction f b xs rule: min_by.induct) (auto split: if_splits)

lemma page_share_nonempty: "0 < t \<Longrightarrow> t \<le> page_share xs ys \<Longrightarrow> xs \<noteq> []"
  by (auto simp: page_share_def fdiv_def)

lemma broken_pairs_pages:
  "set (concat (map (\<lambda>(source, target, c). [source, target]) (broken_pairs pages))) \<subseteq> set pages"
  by (auto dest: broken_pairsD)

lemma site_rules_grounded:
  "steps_grounded cx ''technical'' (DuplicateContentRule cx)"
  "steps_grounded cx ''technical'' (BrokenInternalLinkRule cx)"
  "steps_grounded cx ''technical'' (OrphanPageRule cx)"
  "steps_grounded cx ''on_page'' (DuplicateFieldRule i s l v cx)"
  "steps_grounded cx ''geo_aeo'' (HTMLLangMissingRule cx)"
proof -
  show "steps_grounded cx ''technical'' (DuplicateContentRule cx)"
    "steps_grounded cx ''on_page'' (DuplicateFieldRule i s l v cx)"
    unfolding DuplicateContentRule_def DuplicateFieldRule_def Let_def
    by (intro grounding shared_groups_subset; assumption)+
  have pair: "broken_pairs (cx_pages cx) \<noteq> [] \<Longrightarrow>
      concat (map (\<lambda>(source, target, c). [source, target]) (broken_pairs (cx_pages cx))) \<noteq> []"
    by (cases "broken_pairs (cx_pages cx)") auto
  show "steps_grounded cx ''technical'' (BrokenInternalLinkRule cx)"
    unfolding BrokenInternalLinkRule_def Let_def by (intro grounding broken_pairs_pages pair)
  show "steps_grounded cx ''technical'' (OrphanPageRule cx)"
    unfolding OrphanPageRule_def by (intro grounding orphans_subset; assumption)
  show "steps_grounded cx ''geo_aeo'' (HTMLLangMissingRule cx)"
    unfolding HTMLLangMissingRule_def Let_def by (intro grounding; (assumption | auto))
qed

lemma fl_weights_pos: "0 < fl (8 / 10)" "0 < fl (2 / 10)"
proof -
  have "fl (2 / 10) \<le> fl (8 / 10)" by (rule b64.mono) simp
  moreover show "0 < fl (2 / 10)" unfolding fl_tenths by simp
  ultimately show "0 < fl (8 / 10)" by linarith
qed

lemma share_rules_grounded:
  "steps_grounded cx ''analytics'' (TrackingCoverageRule cx)"
  "steps_grounded cx ''geo_aeo'' (StructuredDataMissingRule cx)"
  "steps_grounded cx ''ecommerce'' (ProductSchemaMissingRule cx)"
proof -
  show "steps_grounded cx ''analytics'' (TrackingCoverageRule cx)"
    unfolding TrackingCoverageRule_def Let_def
    by (intro grounding page_share_nonempty [OF fl_weights_pos(1)] page_share_nonempty [OF fl_weights_pos(2)];
        (assumption | auto))
  show "steps_grounded cx ''geo_aeo'' (StructuredDataMissingRule cx)"
    unfolding StructuredDataMissingRule_def Let_def
    by (intro grounding page_share_nonempty [of "1 / 2"]; (assumption | auto))
  show "steps_grounded cx ''ecommerce'' (ProductSchemaMissingRule cx)"
    unfolding ProductSchemaMissingRule_def Let_def
    by (intro grounding page_share_nonempty [of "1 / 2"]; (assumption | auto dest: product_pages_subset))
qed

lemma representative_rules_grounded:
  "steps_grounded cx ''geo_aeo'' (OrganizationSchemaMissingRule cx)"
  "steps_grounded cx ''local'' (LocalBusinessSchemaMissingRule cx)"
proof -
  have rep: "set [min_by page_rank y ys] \<subseteq> set (cx_pages cx)"
    if "filter is_success_html (cx_pages cx) = y # ys" for y ys
    using min_by_in [of page_rank y ys] arg_cong [OF that, of set] by auto
  show "steps_grounded cx ''geo_aeo'' (OrganizationSchemaMissingRule cx)"
    "steps_grounded cx ''local'' (LocalBusinessSchemaMissingRule cx)"
    unfolding OrganizationSchemaMissingRule_def LocalBusinessSchemaMissingRule_def
    by (intro grounding rep; (assumption | simp))+
qed

lemma cluster_rule_grounded: "steps_grounded cx ''keyword_architecture'' (TitleCannibalizationRule cx)"
proof -
  have "set (concat (filter p cs)) \<subseteq> set (cx_pages cx)" "filter p cs \<noteq> [] \<Longrightarrow> concat (filter p cs) \<noteq> []"
    if "title_clusters (title_candidates (cx_pages cx)) = Some cs" for cs p
  proof -
    note sub = title_clusters_subset [OF that]
    show "set (concat (filter p cs)) \<subseteq> set (cx_pages cx)" using sub by auto
    show "filter p cs \<noteq> [] \<Longrightarrow> concat (filter p cs) \<noteq> []" using sub by (auto simp: filter_empty_conv)
  qed
  then show ?thesis unfolding TitleCannibalizationRule_def Let_def
    by (intro grounding; (assumption | blast))
qed

lemma degraded_rule_grounded: "steps_grounded cx ''technical'' (CrawlDegradationRule cx)"
proof -
  have "steps_grounded cx ''technical'' [Inr f]"
    if "fd_severity f = Sev_info" "fd_project_id f = cx_project_id cx" "fd_category f = ''technical''"
      "fd_rule_version f = RULESET_VERSION" for f
    using that by (simp add: steps_grounded_def grounded_def)
  then show ?thesis unfolding CrawlDegradationRule_def Let_def
    by (intro grounding; simp)
qed

subsection \<open>The contract of a set of rules\<close>

text \<open>
  What \<open>run_rules\<close> relies on of its rules: each step of a rule is grounded in the pages of the context
  and has the category of the rule.
\<close>

locale rule_set =
  fixes rules :: "rule list"
  assumes rule_grounded: "r \<in> set rules \<Longrightarrow> steps_grounded cx (rl_category r) (rl_evaluate r cx)"
begin

definition reported :: "(nat \<Rightarrow> string) \<Rightarrow> audit_context \<Rightarrow> finding list \<Rightarrow> bool" where
  "reported ids cx fs \<longleftrightarrow> map fd_id fs = map ids [0..<length fs] \<and>
     (\<forall>f \<in> set fs. check_finding f = Inr () \<and> grounded cx (fd_category f) f \<and>
        fd_category f \<in> set (enabled_modules (cx_business_profile cx)))"

lemma grounded_id [simp]: "grounded cx c (f\<lparr>fd_id := i\<rparr>) = grounded cx c f"
  by (simp add: grounded_def)

lemma construct_reported:
  assumes "construct ids fs step = Inr fs'" and "steps_grounded cx c [step]"
    and "c \<in> set (enabled_modules (cx_business_profile cx))" and "reported ids cx fs"
  shows "reported ids cx fs'"
proof -
  from assms(1) obtain d where d: "step = Inr d" "check_finding (d\<lparr>fd_id := ids (length fs)\<rparr>) = Inr ()"
    and fs': "fs' = fs @ [d\<lparr>fd_id := ids (length fs)\<rparr>]"
    by (auto simp: construct_def bindE_Inr_iff Let_def)
  with assms(2) have g: "grounded cx c d" by (simp add: steps_grounded_def)
  then have "fd_category d = c" by (simp add: grounded_def)
  with assms(3,4) d g show ?thesis by (simp add: reported_def fs')
qed

lemma run_rule_reported:
  assumes "run_rule ids cx fs r = Inr fs'" and "r \<in> set rules" and "reported ids cx fs"
  shows "reported ids cx fs'"
proof (cases "rl_category r \<in> set (enabled_modules (cx_business_profile cx))")
  case True
  with assms(1) have f: "foldE (construct ids) fs (rl_evaluate r cx) = Inr fs'" by (simp add: run_rule_def)
  show ?thesis
  proof (rule foldE_invariant [where I = "reported ids cx", OF f assms(3)])
    fix s step t
    assume "step \<in> set (rl_evaluate r cx)" "reported ids cx s" "construct ids s step = Inr t"
    moreover from this have "steps_grounded cx (rl_category r) [step]"
      using rule_grounded [OF assms(2), of cx] by (auto simp: steps_grounded_def)
    ultimately show "reported ids cx t" using True construct_reported by blast
  qed
next
  case False
  with assms(1,3) show ?thesis by (simp add: run_rule_def)
qed

lemma run_rules_reported:
  assumes "run_rules ids cx rules = Inr fs"
  shows "reported ids (evaluation_context cx) fs"
  using assms unfolding run_rules_def
proof (rule foldE_invariant [where I = "reported ids (evaluation_context cx)"])
  show "reported ids (evaluation_context cx) []" by (simp add: reported_def)
qed (rule run_rule_reported)

end

lemma default_rule_cases:
  "r \<in> set DEFAULT_RULES \<Longrightarrow> steps_grounded cx (rl_category r) (rl_evaluate r cx)"
  unfolding DEFAULT_RULES_def make_rule_def list.set
  by (elim insertE emptyE)
    (simp_all add: page_rules_grounded site_rules_grounded share_rules_grounded
      representative_rules_grounded cluster_rule_grounded degraded_rule_grounded
      TitleDuplicateRule_def MetaDescriptionDuplicateRule_def H1DuplicateRule_def)

interpretation default_rules: rule_set DEFAULT_RULES
  by unfold_locales (rule default_rule_cases)

lemma in_evaluation_pages:
  "p \<in> set (cx_pages (evaluation_context cx)) \<longleftrightarrow>
     p \<in> set (cx_pages cx) \<and> pg_normalized_url p \<notin> set (cx_challenged_urls cx)"
  by (auto simp: evaluation_context_def evaluable_pages_def)

lemma evaluation_context_fields [simp]:
  "cx_project_id (evaluation_context cx) = cx_project_id cx"
  "cx_business_profile (evaluation_context cx) = cx_business_profile cx"
  by (simp_all add: evaluation_context_def)

text \<open>
  C9: a run of the default rules returns findings that all satisfy the contract of \<open>Finding\<close>, belong to
  the project and to a module enabled for its business profile, and carry the identifiers drawn in order;
  every finding that is not informational names at least one page and cites evidence of pages of the
  crawl only, and none of those pages is a challenged one: a bot challenge is never reported as a defect.
\<close>

theorem run_rules_grounded:
  assumes "run_rules ids cx DEFAULT_RULES = Inr fs"
  shows "map fd_id fs = map ids [0..<length fs] \<and>
    (\<forall>f \<in> set fs. check_finding f = Inr () \<and> fd_project_id f = cx_project_id cx \<and>
       fd_category f \<in> set (enabled_modules (cx_business_profile cx)) \<and>
       (fd_severity f \<noteq> Sev_info \<longrightarrow>
          fd_affected_urls f \<noteq> [] \<and> fd_evidence_ids f \<noteq> [] \<and>
          (\<forall>u \<in> set (fd_affected_urls f). u \<notin> set (cx_challenged_urls cx) \<and>
             u \<in> pg_normalized_url ` set (cx_pages cx)) \<and>
          (\<forall>e \<in> set (fd_evidence_ids f). \<exists>p \<in> set (cx_pages cx). pg_evidence_id p = e \<and>
             pg_normalized_url p \<notin> set (cx_challenged_urls cx))))"
proof -
  have rep: "map fd_id fs = map ids [0..<length fs]"
    "\<forall>f \<in> set fs. check_finding f = Inr () \<and> grounded (evaluation_context cx) (fd_category f) f \<and>
        fd_category f \<in> set (enabled_modules (cx_business_profile (evaluation_context cx)))"
    using default_rules.run_rules_reported [OF assms] unfolding default_rules.reported_def by blast+
  have "set (fd_affected_urls f) \<subseteq> pg_normalized_url ` set (cx_pages (evaluation_context cx)) \<and>
      set (fd_evidence_ids f) \<subseteq> pg_evidence_id ` set (cx_pages (evaluation_context cx)) \<and>
      fd_affected_urls f \<noteq> [] \<and> fd_evidence_ids f \<noteq> []"
    if "f \<in> set fs" "fd_severity f \<noteq> Sev_info" for f
    using rep(2) that by (auto simp: grounded_def)
  then have "fd_affected_urls f \<noteq> [] \<and> fd_evidence_ids f \<noteq> [] \<and>
      (\<forall>u \<in> set (fd_affected_urls f). u \<notin> set (cx_challenged_urls cx) \<and> u \<in> pg_normalized_url ` set (cx_pages cx)) \<and>
      (\<forall>e \<in> set (fd_evidence_ids f). \<exists>p \<in> set (cx_pages cx). pg_evidence_id p = e \<and>
         pg_normalized_url p \<notin> set (cx_challenged_urls cx))"
    if "f \<in> set fs" "fd_severity f \<noteq> Sev_info" for f
    using that by (fastforce simp: in_evaluation_pages)
  with rep show ?thesis by (auto simp: grounded_def)
qed

definition demo_context :: audit_context where
  "demo_context = \<lparr>cx_project_id = demo_uuid,
     cx_pages = [(demo_page ''http://e.c/a'' 503 []), (demo_page ''http://e.c/b'' 404 [])],
     cx_allowed_domains = [''e.c''], cx_business_profile = Local,
     cx_challenged_urls = [''http://e.c/a''], cx_crawl_integrity = None\<rparr>"

lemma demo_run:
  "(case run_rules (\<lambda>n. demo_uuid) demo_context DEFAULT_RULES of Inl e \<Rightarrow> False
    | Inr fs \<Rightarrow> length fs = 1)"
  by code_simp

lemma run_rules_grounded_witness:
  "\<exists>fs. run_rules (\<lambda>n. demo_uuid) demo_context DEFAULT_RULES = Inr fs \<and> length fs = 1 \<and>
    map fd_id fs = [demo_uuid] \<and> list_all (\<lambda>f. check_finding f = Inr ()) fs"
proof -
  obtain fs where r: "run_rules (\<lambda>n. demo_uuid) demo_context DEFAULT_RULES = Inr fs" and one: "length fs = 1"
    using demo_run by (auto split: sum.splits)
  from run_rules_grounded [OF r] show ?thesis
    by (intro exI [of _ fs]) (use r one in \<open>auto simp: list_all_iff\<close>)
qed

text \<open>
  C10: the clusters of pages competing for the same title keywords are always computed (no \<open>find\<close> of the
  union-find loops for ever), every candidate page is in exactly one, and two candidates are in the same
  cluster exactly when a chain of pairs with a Jaccard similarity of at least 0.8 connects them.
\<close>

theorem title_clusters_components:
  "\<exists>roots :: nat list. title_clusters candidates =
      Some (map (map (fst \<circ> snd)) (map snd (group_by fst (zip roots candidates)))) \<and>
    length roots = length candidates \<and>
    (\<forall>i < length candidates. \<forall>j < length candidates. roots ! i = roots ! j \<longleftrightarrow>
       connected {(l, r). l < r \<and> r < length candidates \<and>
         fl (8 / 10) \<le> jaccard (snd (candidates ! l)) (snd (candidates ! r))} i j)"
proof -
  let ?similar = "\<lambda>l r. fl (8 / 10) \<le> jaccard (snd (candidates ! l)) (snd (candidates ! r))"
  obtain p roots where "link_similar ?similar (length candidates) = Some p"
    "collect_roots p [0..<length candidates] = Some roots" "length roots = length candidates"
    "\<forall>i < length candidates. \<forall>j < length candidates. roots ! i = roots ! j \<longleftrightarrow>
       connected {(l, r). l < r \<and> r < length candidates \<and> ?similar l r} i j"
    using cluster_roots by blast
  then show ?thesis unfolding title_clusters_def Let_def by (intro exI [of _ roots]) simp
qed

lemma title_clusters_components_witness:
  "\<exists>roots :: nat list. title_clusters (title_candidates demo_pages) =
      Some (map (map (fst \<circ> snd)) (map snd (group_by fst (zip roots (title_candidates demo_pages)))))"
  using title_clusters_components [of "title_candidates demo_pages"] by blast

lemma orphans_exact:
  assumes "orphans pages = Inr ys"
  shows "set ys = {p \<in> set pages. is_success_html p \<and>
    (\<exists>path. path_of p = Inr path \<and> \<not> is_homepage_path path) \<and>
    (\<forall>q \<in> set pages. pg_normalized_url p \<in> set (pg_links q) \<longrightarrow> pg_normalized_url q = pg_normalized_url p)}"
proof -
  let ?f = "\<lambda>p. if \<not> is_success_html p then Inr []
     else mapR (\<lambda>path. if \<not> is_homepage_path path \<and> pg_normalized_url p \<notin> set (linked_urls pages)
                       then [p] else []) (path_of p)"
  obtain yss where yss: "mapE ?f pages = Inr yss" and ys: "ys = concat yss"
    using assms unfolding orphans_def by (auto simp: mapR_Inr_iff)
  have each: "\<exists>zs. zs \<in> set yss \<and> ?f p = Inr zs" if "p \<in> set pages" for p
    using mapE_all [OF yss that] by blast
  have linked: "u \<notin> set (linked_urls pages) \<longleftrightarrow>
      (\<forall>q \<in> set pages. u \<in> set (pg_links q) \<longrightarrow> pg_normalized_url q = u)" for u
    by (auto simp: linked_urls_def)
  have one: "p \<in> set zs \<longleftrightarrow> is_success_html p \<and> (\<exists>path. path_of p = Inr path \<and> \<not> is_homepage_path path) \<and>
      pg_normalized_url p \<notin> set (linked_urls pages)" if "?f p = Inr zs" for p zs
    using that by (auto simp: mapR_Inr_iff split: if_splits)
  have only: "p = q" if "?f q = Inr zs" "p \<in> set zs" for p q zs
    using that by (auto simp: mapR_Inr_iff split: if_splits)
  show ?thesis
  proof (intro set_eqI iffI)
    fix p assume "p \<in> set ys"
    then obtain zs where zs: "zs \<in> set yss" "p \<in> set zs" by (auto simp: ys)
    from mapE_set [OF yss zs(1)] obtain q where q: "q \<in> set pages" "?f q = Inr zs" by blast
    with only zs(2) have "q = p" by metis
    with q one [of p zs] zs(2) show "p \<in> {p \<in> set pages. is_success_html p \<and>
      (\<exists>path. path_of p = Inr path \<and> \<not> is_homepage_path path) \<and>
      (\<forall>q \<in> set pages. pg_normalized_url p \<in> set (pg_links q) \<longrightarrow> pg_normalized_url q = pg_normalized_url p)}"
      unfolding linked by blast
  next
    fix p assume "p \<in> {p \<in> set pages. is_success_html p \<and>
      (\<exists>path. path_of p = Inr path \<and> \<not> is_homepage_path path) \<and>
      (\<forall>q \<in> set pages. pg_normalized_url p \<in> set (pg_links q) \<longrightarrow> pg_normalized_url q = pg_normalized_url p)}"
    then have p: "p \<in> set pages" "is_success_html p" "\<exists>path. path_of p = Inr path \<and> \<not> is_homepage_path path"
      "pg_normalized_url p \<notin> set (linked_urls pages)" unfolding linked by blast+
    from each [OF p(1)] obtain zs where zs: "zs \<in> set yss" "?f p = Inr zs" by blast
    from one [OF zs(2)] p(2-4) have "p \<in> set zs" by blast
    with zs(1) show "p \<in> set ys" by (auto simp: ys)
  qed
qed

definition is_orphan :: "page_snapshot list \<Rightarrow> page_snapshot \<Rightarrow> bool" where
  "is_orphan pages p \<longleftrightarrow> is_success_html p \<and>
     (\<exists>path. path_of p = Inr path \<and> \<not> is_homepage_path path) \<and>
     (\<forall>q \<in> set pages. pg_normalized_url p \<in> set (pg_links q) \<longrightarrow> pg_normalized_url q = pg_normalized_url p)"

text \<open>
  the orphan rule reports only successful HTML pages other than the home page to which no other
  crawled page links, and every one of them when they are at most fifty.
\<close>

theorem orphan_rule_exact:
  assumes "Inr f \<in> set (OrphanPageRule cx)"
  shows "set (fd_affected_urls f) \<subseteq> pg_normalized_url ` {p \<in> set (cx_pages cx). is_orphan (cx_pages cx) p} \<and>
    (card (pg_normalized_url ` {p \<in> set (cx_pages cx). is_orphan (cx_pages cx) p}) \<le> 50 \<longrightarrow>
       set (fd_affected_urls f) = pg_normalized_url ` {p \<in> set (cx_pages cx). is_orphan (cx_pages cx) p})"
proof -
  from assms obtain ys where ys: "orphans (cx_pages cx) = Inr ys"
    and f: "fd_affected_urls f = take AFFECTED_URL_CAP (fromkeys (map pg_normalized_url ys))"
    by (auto simp: OrphanPageRule_def site_finding_def split: sum.splits if_splits)
  let ?us = "fromkeys (map pg_normalized_url ys)"
  have us: "set ?us = pg_normalized_url ` {p \<in> set (cx_pages cx). is_orphan (cx_pages cx) p}"
    using orphans_exact [OF ys] by (simp add: is_orphan_def)
  have "take AFFECTED_URL_CAP ?us = ?us" if "card (set ?us) \<le> 50"
    using that distinct_card [of ?us] by (simp add: AFFECTED_URL_CAP_def)
  with us show ?thesis unfolding f using set_take_subset [of AFFECTED_URL_CAP ?us] by metis
qed

definition demo_orphans :: audit_context where
  "demo_orphans = demo_context\<lparr>cx_pages := [demo_page ''http://e.c/'' 200 [], demo_page ''http://e.c/b'' 200 []]\<rparr>"

lemma demo_orphan_rule:
  "(case hd (OrphanPageRule demo_orphans) of Inr f \<Rightarrow> fd_affected_urls f = [''http://e.c/b''] | Inl e \<Rightarrow> False)"
  "OrphanPageRule demo_orphans \<noteq> []"
  by code_simp+

lemma orphan_rule_exact_witness:
  "\<exists>f :: finding. fd_affected_urls f = [''http://e.c/b''] \<and>
    {''http://e.c/b''} \<subseteq> pg_normalized_url ` {p \<in> set (cx_pages demo_orphans). is_orphan (cx_pages demo_orphans) p}"
proof -
  obtain f where f: "Inr f \<in> set (OrphanPageRule demo_orphans)" "fd_affected_urls f = [''http://e.c/b'']"
    using demo_orphan_rule by (cases "OrphanPageRule demo_orphans") (auto split: sum.splits)
  with orphan_rule_exact [of f demo_orphans] show ?thesis by (intro exI [of _ f]) simp
qed

end
