(* ===== verification/Effects.thy ===== *)
theory Effects
  imports Prelude
begin

text \<open>
  Code with effects: an action takes a state and returns an exception or a result together with the state
  it leaves, also when it raises. \<open>spec P m Q E\<close> is the contract of an action: from a state satisfying
  \<open>P\<close> it ends in one satisfying \<open>Q\<close> of its result or \<open>E\<close> of its exception. The collection \<open>spec_intros\<close>
  has one rule per construct, so that the contract of a handler follows its text.
\<close>

type_synonym ('s, 'e, 'a) action = "'s \<Rightarrow> ('e + 'a) \<times> 's"

definition ret :: "'a \<Rightarrow> ('s, 'e, 'a) action" where
  "ret a s = (Inr a, s)"

definition raise :: "'e \<Rightarrow> ('s, 'e, 'a) action" where
  "raise e s = (Inl e, s)"

definition bindA :: "('s, 'e, 'a) action \<Rightarrow> ('a \<Rightarrow> ('s, 'e, 'b) action) \<Rightarrow> ('s, 'e, 'b) action" where
  "bindA m f s = (case m s of (Inl e, s') \<Rightarrow> (Inl e, s') | (Inr a, s') \<Rightarrow> f a s')"

definition pureA :: "'e + 'a \<Rightarrow> ('s, 'e, 'a) action" where
  "pureA r s = (r, s)"

definition gets :: "('s \<Rightarrow> 'a) \<Rightarrow> ('s, 'e, 'a) action" where
  "gets f s = (Inr (f s), s)"

definition modifyA :: "('s \<Rightarrow> 's) \<Rightarrow> ('s, 'e, unit) action" where
  "modifyA f s = (Inr (), f s)"

definition catchA :: "('s, 'e, 'a) action \<Rightarrow> ('e \<Rightarrow> ('s, 'f, 'b) action) \<Rightarrow> ('a \<Rightarrow> ('s, 'f, 'b) action) \<Rightarrow>
    ('s, 'f, 'b) action" where
  "catchA m handler cont s = (case m s of (Inl e, s') \<Rightarrow> handler e s' | (Inr a, s') \<Rightarrow> cont a s')"

lemmas action_defs = ret_def raise_def bindA_def pureA_def gets_def modifyA_def catchA_def

lemma bindA_simps [simp]:
  "bindA (ret a) f = f a"
  "bindA (raise e) f = raise e"
  "bindA (pureA (Inr a)) f = f a"
  "bindA (pureA (Inl e)) f = raise e"
  "bindA (gets g) f s = f (g s) s"
  "bindA (modifyA h) k s = k () (h s)"
  by (simp_all add: action_defs fun_eq_iff)

definition spec :: "('s \<Rightarrow> bool) \<Rightarrow> ('s, 'e, 'a) action \<Rightarrow> ('a \<Rightarrow> 's \<Rightarrow> bool) \<Rightarrow> ('e \<Rightarrow> 's \<Rightarrow> bool) \<Rightarrow> bool" where
  "spec P m Q E \<longleftrightarrow>
     (\<forall>s. P s \<longrightarrow> (case fst (m s) of Inl e \<Rightarrow> E e (snd (m s)) | Inr a \<Rightarrow> Q a (snd (m s))))"

named_theorems spec_intros "one rule of the contract calculus per construct"

lemma specI:
  "(\<And>s e. P s \<Longrightarrow> fst (m s) = Inl e \<Longrightarrow> E e (snd (m s))) \<Longrightarrow>
   (\<And>s a. P s \<Longrightarrow> fst (m s) = Inr a \<Longrightarrow> Q a (snd (m s))) \<Longrightarrow> spec P m Q E"
  by (simp add: spec_def split: sum.split)

lemma spec_InrD: "spec P m Q E \<Longrightarrow> P s \<Longrightarrow> m s = (Inr a, s') \<Longrightarrow> Q a s'"
  by (metis fst_conv snd_conv spec_def sum.simps(6))

lemma spec_InlD: "spec P m Q E \<Longrightarrow> P s \<Longrightarrow> m s = (Inl e, s') \<Longrightarrow> E e s'"
  by (metis fst_conv snd_conv spec_def sum.simps(5))

lemma spec_weaken:
  assumes "spec P m Q E" and "\<And>s. P' s \<Longrightarrow> P s" and "\<And>a s. Q a s \<Longrightarrow> Q' a s" and "\<And>e s. E e s \<Longrightarrow> E' e s"
  shows "spec P' m Q' E'"
  using assms by (simp add: spec_def split: sum.splits)

lemma spec_ret [spec_intros]: "(\<And>s. P s \<Longrightarrow> Q a s) \<Longrightarrow> spec P (ret a) Q E"
  by (simp add: spec_def ret_def)

lemma spec_raise [spec_intros]: "(\<And>s. P s \<Longrightarrow> E e s) \<Longrightarrow> spec P (raise e) Q E"
  by (simp add: spec_def raise_def)

lemma spec_pure [spec_intros]:
  "(\<And>a s. r = Inr a \<Longrightarrow> P s \<Longrightarrow> Q a s) \<Longrightarrow> (\<And>e s. r = Inl e \<Longrightarrow> P s \<Longrightarrow> E e s) \<Longrightarrow> spec P (pureA r) Q E"
  by (simp add: spec_def pureA_def split: sum.split)

lemma spec_gets [spec_intros]: "(\<And>s. P s \<Longrightarrow> Q (f s) s) \<Longrightarrow> spec P (gets f) Q E"
  by (simp add: spec_def gets_def)

lemma spec_modify [spec_intros]: "(\<And>s. P s \<Longrightarrow> Q () (f s)) \<Longrightarrow> spec P (modifyA f) Q E"
  by (simp add: spec_def modifyA_def)

lemma spec_bind:
  assumes "spec P m R E" and "\<And>a. spec (R a) (f a) Q E"
  shows "spec P (bindA m f) Q E"
proof (rule specI)
  fix s e assume "P s" "fst (bindA m f s) = Inl e"
  then show "E e (snd (bindA m f s))"
    using assms by (cases "m s"; cases "fst (m s)") (fastforce simp: bindA_def spec_def split: sum.splits)+
next
  fix s a assume "P s" "fst (bindA m f s) = Inr a"
  then show "Q a (snd (bindA m f s))"
    using assms by (cases "m s"; cases "fst (m s)") (fastforce simp: bindA_def spec_def split: sum.splits)+
qed

lemma spec_gets_bind: "(\<And>x. P x \<Longrightarrow> g x = a) \<Longrightarrow> spec P (f a) Q E \<Longrightarrow> spec P (bindA (gets g) f) Q E"
  by (simp add: spec_def split: sum.split) (simp split: sum.splits)

lemma spec_pure_bind:
  "(\<And>a. c = Inr a \<Longrightarrow> spec P (f a) Q E) \<Longrightarrow> (\<And>e s. c = Inl e \<Longrightarrow> P s \<Longrightarrow> E e s) \<Longrightarrow>
   spec P (bindA (pureA c) f) Q E"
  by (cases c) (simp_all add: spec_raise)

lemma spec_modify_bind:
  "(\<And>x. P x \<Longrightarrow> P' (h x)) \<Longrightarrow> spec P' (f ()) Q E \<Longrightarrow> spec P (bindA (modifyA h) f) Q E"
  by (simp add: spec_def split: sum.split) (simp split: sum.splits)

lemma spec_catch:
  assumes "spec P m R F" and "\<And>a. spec (R a) (k a) Q E" and "\<And>e. spec (F e) (h e) Q E"
  shows "spec P (catchA m h k) Q E"
proof (rule specI)
  fix s e assume "P s" "fst (catchA m h k s) = Inl e"
  then show "E e (snd (catchA m h k s))"
    using assms by (cases "m s"; cases "fst (m s)") (fastforce simp: catchA_def spec_def split: sum.splits)+
next
  fix s a assume "P s" "fst (catchA m h k s) = Inr a"
  then show "Q a (snd (catchA m h k s))"
    using assms by (cases "m s"; cases "fst (m s)") (fastforce simp: catchA_def spec_def split: sum.splits)+
qed

lemma spec_if [spec_intros]:
  "(b \<Longrightarrow> spec P m Q E) \<Longrightarrow> (\<not> b \<Longrightarrow> spec P n Q E) \<Longrightarrow> spec P (if b then m else n) Q E"
  by simp

lemma spec_option [spec_intros]:
  "(x = None \<Longrightarrow> spec P m Q E) \<Longrightarrow> (\<And>a. x = Some a \<Longrightarrow> spec P (f a) Q E) \<Longrightarrow>
   spec P (case x of None \<Rightarrow> m | Some a \<Rightarrow> f a) Q E"
  by (cases x) simp_all

lemma spec_sum [spec_intros]:
  "(\<And>e. x = Inl e \<Longrightarrow> spec P (f e) Q E) \<Longrightarrow> (\<And>a. x = Inr a \<Longrightarrow> spec P (g a) Q E) \<Longrightarrow>
   spec P (case x of Inl e \<Rightarrow> f e | Inr a \<Rightarrow> g a) Q E"
  by (cases x) simp_all

lemma spec_prod [spec_intros]:
  "(\<And>a b. x = (a, b) \<Longrightarrow> spec P (f a b) Q E) \<Longrightarrow> spec P (case x of (a, b) \<Rightarrow> f a b) Q E"
  by (cases x) simp

lemma spec_Let [spec_intros]: "spec P (f x) Q E \<Longrightarrow> spec P (Let x f) Q E"
  by simp

lemma spec_fact: "(\<And>s. P s \<Longrightarrow> b) \<Longrightarrow> (b \<Longrightarrow> spec P m Q E) \<Longrightarrow> spec P m Q E"
  by (auto simp: spec_def)

text \<open>An invariant of the state that an action keeps, whether it returns or raises.\<close>

definition keeps :: "('s \<Rightarrow> bool) \<Rightarrow> ('s, 'e, 'a) action \<Rightarrow> bool" where
  "keeps I m \<longleftrightarrow> (\<forall>s. I s \<longrightarrow> I (snd (m s)))"

named_theorems keeps_intros "which constructs keep an invariant"

lemma keepsI: "(\<And>s. I s \<Longrightarrow> I (snd (m s))) \<Longrightarrow> keeps I m"
  by (simp add: keeps_def)

lemma keepsD: "keeps I m \<Longrightarrow> I s \<Longrightarrow> m s = (r, s') \<Longrightarrow> I s'"
  by (metis keeps_def snd_conv)

lemma keeps_pure [keeps_intros]: "keeps I (ret a)" "keeps I (raise e)" "keeps I (pureA r)" "keeps I (gets f)"
  by (simp_all add: keeps_def action_defs)

lemma keeps_modify [keeps_intros]: "(\<And>s. I s \<Longrightarrow> I (f s)) \<Longrightarrow> keeps I (modifyA f)"
  by (simp add: keeps_def modifyA_def)

lemma keeps_bind [keeps_intros]:
  "keeps I m \<Longrightarrow> (\<And>a s s'. m s = (Inr a, s') \<Longrightarrow> keeps I (f a)) \<Longrightarrow> keeps I (bindA m f)"
  unfolding keeps_def bindA_def by (fastforce split: sum.split prod.split)

lemma keeps_catch [keeps_intros]:
  "keeps I m \<Longrightarrow> (\<And>e. keeps I (h e)) \<Longrightarrow> (\<And>a. keeps I (k a)) \<Longrightarrow> keeps I (catchA m h k)"
  unfolding keeps_def catchA_def by (fastforce split: sum.split prod.split)

lemma keeps_if [keeps_intros]:
  "(b \<Longrightarrow> keeps I m) \<Longrightarrow> (\<not> b \<Longrightarrow> keeps I n) \<Longrightarrow> keeps I (if b then m else n)"
  by simp

lemma keeps_option [keeps_intros]:
  "(x = None \<Longrightarrow> keeps I m) \<Longrightarrow> (\<And>a. x = Some a \<Longrightarrow> keeps I (f a)) \<Longrightarrow>
   keeps I (case x of None \<Rightarrow> m | Some a \<Rightarrow> f a)"
  by (cases x) simp_all

lemma keeps_sum [keeps_intros]:
  "(\<And>e. x = Inl e \<Longrightarrow> keeps I (f e)) \<Longrightarrow> (\<And>a. x = Inr a \<Longrightarrow> keeps I (g a)) \<Longrightarrow>
   keeps I (case x of Inl e \<Rightarrow> f e | Inr a \<Rightarrow> g a)"
  by (cases x) simp_all

lemma keeps_prod [keeps_intros]:
  "(\<And>a b. x = (a, b) \<Longrightarrow> keeps I (f a b)) \<Longrightarrow> keeps I (case x of (a, b) \<Rightarrow> f a b)"
  by (cases x) simp

lemma keeps_Let [keeps_intros]: "keeps I (f x) \<Longrightarrow> keeps I (Let x f)"
  by simp

text \<open>A loop over a list whose body may raise; what it did to the state before stays.\<close>

fun foldA :: "('b \<Rightarrow> 'a \<Rightarrow> ('s, 'e, 'b) action) \<Rightarrow> 'b \<Rightarrow> 'a list \<Rightarrow> ('s, 'e, 'b) action" where
  "foldA f b [] = ret b"
| "foldA f b (x # xs) = bindA (f b x) (\<lambda>b'. foldA f b' xs)"

lemma keeps_fold [keeps_intros]: "(\<And>b x. keeps I (f b x)) \<Longrightarrow> keeps I (foldA f b xs)"
  by (induction xs arbitrary: b) (auto intro!: keeps_intros)

lemma foldA_invariant:
  assumes "foldA f b xs s = (Inr c, t)" and "I [] b s"
    and "\<And>past b x s b' s'. x \<in> set xs \<Longrightarrow> I past b s \<Longrightarrow> f b x s = (Inr b', s') \<Longrightarrow> I (past @ [x]) b' s'"
  shows "I xs c t"
proof -
  have "I (past @ xs) c t" if "foldA f b xs s = (Inr c, t)" "I past b s"
    "\<And>past b x s b' s'. x \<in> set xs \<Longrightarrow> I past b s \<Longrightarrow> f b x s = (Inr b', s') \<Longrightarrow> I (past @ [x]) b' s'" for past
    using that
  proof (induction xs arbitrary: b s past)
    case Nil
    then show ?case by (simp add: ret_def)
  next
    case (Cons x xs)
    from Cons.prems(1) obtain b' s' where step: "f b x s = (Inr b', s')" and rest: "foldA f b' xs s' = (Inr c, t)"
      by (auto simp: bindA_def split: prod.splits sum.splits)
    have "I (past @ [x]) b' s'" by (rule Cons.prems(3) [OF _ Cons.prems(2) step]) simp
    with rest have "I ((past @ [x]) @ xs) c t"
      by (rule Cons.IH) (use Cons.prems(3) in simp)
    then show ?case by simp
  qed
  from this [of "[]"] assms show ?thesis by simp
qed

subsection \<open>Results of an action\<close>

lemma bindA_Inr:
  "bindA m f s = (Inr b, t) \<longleftrightarrow> (\<exists>a u. m s = (Inr a, u) \<and> f a u = (Inr b, t))"
  by (auto simp: bindA_def split: prod.splits sum.splits)

lemma bindA_Inl:
  "bindA m f s = (Inl e, t) \<longleftrightarrow> m s = (Inl e, t) \<or> (\<exists>a u. m s = (Inr a, u) \<and> f a u = (Inl e, t))"
  by (auto simp: bindA_def split: prod.splits sum.splits)

lemma ret_result: "ret a s = (x, t) \<longleftrightarrow> x = Inr a \<and> t = s"
  by (auto simp: ret_def)

lemma pure_result: "pureA r s = (x, t) \<longleftrightarrow> r = x \<and> t = s"
  by (auto simp: pureA_def)

lemma raise_result: "raise e s = (x, t) \<longleftrightarrow> x = Inl e \<and> t = s"
  by (auto simp: raise_def)

lemma gets_result: "gets g s = (x, t) \<longleftrightarrow> x = Inr (g s) \<and> t = s"
  by (auto simp: gets_def)

lemma modify_result: "modifyA h s = (x, t) \<longleftrightarrow> x = Inr () \<and> t = h s"
  by (auto simp: modifyA_def)

lemmas action_cases = bindA_Inr bindA_Inl ret_result pure_result raise_result gets_result modify_result

text \<open>A loop that raises stopped at one item, in a state the invariant holds of.\<close>

lemma foldA_raised:
  assumes "foldA f b xs s = (Inl e, t)" and "I b s"
    and "\<And>b x s b' s'. x \<in> set xs \<Longrightarrow> I b s \<Longrightarrow> f b x s = (Inr b', s') \<Longrightarrow> I b' s'"
  shows "\<exists>c x u. x \<in> set xs \<and> I c u \<and> f c x u = (Inl e, t)"
  using assms
proof (induction xs arbitrary: b s)
  case Nil
  then show ?case by (simp add: ret_result)
next
  case (Cons x xs)
  show ?case
  proof (cases "\<exists>b' s'. f b x s = (Inr b', s')")
    case False
    then have "f b x s = (Inl e, t)" using Cons.prems(1) by (auto simp: action_cases)
    with Cons.prems(2) show ?thesis by auto
  next
    case True
    then obtain b' s' where step: "f b x s = (Inr b', s')" by blast
    have inv: "I b' s'" by (rule Cons.prems(3) [OF _ Cons.prems(2) step]) simp
    have "foldA f b' xs s' = (Inl e, t)" using Cons.prems(1) step by (auto simp: action_cases)
    from Cons.IH [OF this inv] Cons.prems(3) show ?thesis by (meson list.set_intros(2))
  qed
qed

lemma foldA_total:
  assumes "\<And>b x s. x \<in> set xs \<Longrightarrow> \<exists>b' s'. f b x s = (Inr b', s')"
  shows "\<exists>c t. foldA f b xs s = (Inr c, t)"
  using assms
proof (induction xs arbitrary: b s)
  case Nil
  then show ?case by (simp add: ret_def)
next
  case (Cons x xs)
  obtain b' s' where "f b x s = (Inr b', s')" using Cons.prems [of x b s] by auto
  moreover obtain c t where "foldA f b' xs s' = (Inr c, t)" using Cons.IH Cons.prems by (meson list.set_intros(2))
  ultimately show ?case by (simp add: bindA_def)
qed

end
