(* ===== verification/Html.thy ===== *)
theory Html
  imports Urls
begin

text \<open>
  The document parser of \<open>audit_engine/crawler.py\<close> (\<open>_DocumentParser\<close>): a record of its attributes and one
  function per handler. The tokenizer of \<open>html.parser\<close> is a parameter of the crawler: it turns a text
  into the sequence of handler calls, an \<open>html_event\<close> each. \<open>json.loads\<close> is the parameter \<open>loads\<close>,
  \<open>None\<close> for the exceptions the handler swallows.
\<close>

datatype html_event =
    Start_tag string "(string \<times> string option) list"
  | End_tag string
  | Data string

datatype json_node =
    Json_str string
  | Json_list "json_node list"
  | Json_obj "(string \<times> json_node) list"
  | Json_scalar

subsection \<open>Structured data\<close>

definition MAX_SCHEMA_TYPES :: nat where "MAX_SCHEMA_TYPES = 20"
definition MAX_H2 :: nat where "MAX_H2 = 40"
definition MAX_EXTERNAL_LINKS :: nat where "MAX_EXTERNAL_LINKS = 200"

definition declared_types :: "json_node option \<Rightarrow> string list" where
  "declared_types declared = (case declared of
       Some (Json_str s) \<Rightarrow> (if strip s \<noteq> [] then [strip s] else [])
     | Some (Json_list xs) \<Rightarrow>
         concat (map (\<lambda>x. case x of Json_str s \<Rightarrow> if strip s \<noteq> [] then [strip s] else [] | _ \<Rightarrow> []) xs)
     | _ \<Rightarrow> [])"

fun collect_schema_types :: "json_node \<Rightarrow> string list" where
  "collect_schema_types (Json_obj kvs) =
     declared_types (map_of kvs ''@type'') @ concat (map (\<lambda>kv. collect_schema_types (snd kv)) kvs)"
| "collect_schema_types (Json_list xs) = concat (map collect_schema_types xs)"
| "collect_schema_types _ = []"

definition itemtype_tail :: "string \<Rightarrow> string" where
  "itemtype_tail token =
     (let tail0 = rstrip_of (\<lambda>c. c = CHR ''/'') (strip token);
          tail1 = snd (snd (rpartition_on CHR ''#'' tail0))
      in snd (snd (rpartition_on CHR ''/'' tail1)))"

subsection \<open>Parser state\<close>

record parser_state =
  ps_links :: "string list"
  ps_canonical :: "string option"
  ps_title_parts :: "string list"
  ps_h1_parts :: "string list list"
  ps_h2_parts :: "string list list"
  ps_meta_description :: "string option"
  ps_robots :: "string list"
  ps_text_parts :: "string list"
  ps_images_total :: nat
  ps_images_missing_alt :: nat
  ps_schema_type_values :: "string list"
  ps_og_title :: bool
  ps_og_description :: bool
  ps_lang :: "string option"
  ps_viewport :: bool
  ps_hreflang_count :: nat
  ps_in_title :: bool
  ps_in_h1 :: bool
  ps_in_h2 :: bool
  ps_skip_depth :: nat
  ps_in_ldjson :: bool
  ps_ldjson_parts :: "string list"

definition new_parser :: parser_state where
  "new_parser = \<lparr>ps_links = [], ps_canonical = None, ps_title_parts = [], ps_h1_parts = [],
     ps_h2_parts = [], ps_meta_description = None, ps_robots = [], ps_text_parts = [],
     ps_images_total = 0, ps_images_missing_alt = 0, ps_schema_type_values = [], ps_og_title = False,
     ps_og_description = False, ps_lang = None, ps_viewport = False, ps_hreflang_count = 0,
     ps_in_title = False, ps_in_h1 = False, ps_in_h2 = False, ps_skip_depth = 0, ps_in_ldjson = False,
     ps_ldjson_parts = []\<rparr>"

definition SKIPPED :: "string list" where
  "SKIPPED = [''script'', ''style'', ''noscript'']"

text \<open>\<open>values.get(name, "")\<close> over the dict of the attributes, whose last occurrence of a name wins.\<close>

definition attr_value :: "(string \<times> string option) list \<Rightarrow> string \<Rightarrow> string" where
  "attr_value attrs name =
     opt_or [] (map_of (rev (map (\<lambda>(n, v). (casefold n, opt_or [] v)) attrs)) name)"

definition nonempty_text :: "string \<Rightarrow> string option" where
  "nonempty_text s = (if s = [] then None else Some s)"

subsection \<open>Handlers\<close>

definition start_skipped :: "string \<Rightarrow> (string \<Rightarrow> string) \<Rightarrow> parser_state \<Rightarrow> parser_state" where
  "start_skipped lowered values s =
     (if lowered \<in> set SKIPPED
      then let s = s\<lparr>ps_skip_depth := ps_skip_depth s + 1\<rparr> in
        if lowered = ''script'' \<and>
           casefold (strip (fst (partition_on CHR '';'' (values ''type'')))) = ''application/ld+json''
        then s\<lparr>ps_in_ldjson := True, ps_ldjson_parts := []\<rparr> else s
      else s)"

definition start_itemtype :: "(string \<Rightarrow> string) \<Rightarrow> parser_state \<Rightarrow> parser_state" where
  "start_itemtype values s = s\<lparr>ps_schema_type_values :=
     ps_schema_type_values s @ filter (\<lambda>t. t \<noteq> []) (map itemtype_tail (split_ws (values ''itemtype'')))\<rparr>"

definition start_link :: "(string \<Rightarrow> string) \<Rightarrow> parser_state \<Rightarrow> parser_state" where
  "start_link values s =
     (let rel = split_ws (casefold (values ''rel''));
          s = (if ''canonical'' \<in> set rel \<and> values ''href'' \<noteq> []
               then s\<lparr>ps_canonical := Some (values ''href'')\<rparr> else s)
      in if ''alternate'' \<in> set rel \<and> strip (values ''hreflang'') \<noteq> []
         then s\<lparr>ps_hreflang_count := ps_hreflang_count s + 1\<rparr> else s)"

definition start_img :: "(string \<Rightarrow> string) \<Rightarrow> parser_state \<Rightarrow> parser_state" where
  "start_img values s = s\<lparr>ps_images_total := ps_images_total s + 1,
     ps_images_missing_alt := ps_images_missing_alt s + (if strip (values ''alt'') = [] then 1 else 0)\<rparr>"

definition start_meta :: "(string \<Rightarrow> string) \<Rightarrow> parser_state \<Rightarrow> parser_state" where
  "start_meta values s =
     (let name = casefold (values ''name''); prop = casefold (values ''property'');
          content = values ''content'';
          s = (if name = ''description'' \<and> ps_meta_description s = None
               then s\<lparr>ps_meta_description := nonempty_text (strip content)\<rparr>
               else if name = ''robots'' \<or> name = ''googlebot''
               then s\<lparr>ps_robots := ps_robots s @
                      map (\<lambda>i. casefold (strip i)) (filter (\<lambda>i. strip i \<noteq> []) (split_on CHR '','' content))\<rparr>
               else if name = ''viewport'' then s\<lparr>ps_viewport := True\<rparr> else s)
      in if prop = ''og:title'' \<and> strip content \<noteq> [] then s\<lparr>ps_og_title := True\<rparr>
         else if prop = ''og:description'' \<and> strip content \<noteq> [] then s\<lparr>ps_og_description := True\<rparr>
         else s)"

definition start_dispatch :: "string \<Rightarrow> (string \<Rightarrow> string) \<Rightarrow> parser_state \<Rightarrow> parser_state" where
  "start_dispatch lowered values s =
     (if lowered = ''html'' \<and> ps_lang s = None
      then s\<lparr>ps_lang := nonempty_text (strip (values ''lang''))\<rparr>
      else if lowered = ''a'' \<and> values ''href'' \<noteq> [] then s\<lparr>ps_links := ps_links s @ [values ''href'']\<rparr>
      else if lowered = ''link'' then start_link values s
      else if lowered = ''img'' then start_img values s
      else if lowered = ''meta'' then start_meta values s
      else if lowered = ''title'' then s\<lparr>ps_in_title := True\<rparr>
      else if lowered = ''h1'' then s\<lparr>ps_in_h1 := True, ps_h1_parts := ps_h1_parts s @ [[]]\<rparr>
      else if lowered = ''h2''
      then s\<lparr>ps_in_h2 := True,
             ps_h2_parts := (if length (ps_h2_parts s) < MAX_H2 then ps_h2_parts s @ [[]] else ps_h2_parts s)\<rparr>
      else s)"

definition handle_starttag :: "string \<Rightarrow> (string \<times> string option) list \<Rightarrow> parser_state \<Rightarrow> parser_state" where
  "handle_starttag tag attrs s =
     (let values = attr_value attrs; lowered = casefold tag in
      start_dispatch lowered values (start_itemtype values (start_skipped lowered values s)))"

definition handle_endtag :: "(string \<Rightarrow> json_node option) \<Rightarrow> string \<Rightarrow> parser_state \<Rightarrow> parser_state" where
  "handle_endtag loads tag s =
     (let lowered = casefold tag in
      if lowered \<in> set SKIPPED
      then let s = s\<lparr>ps_skip_depth := ps_skip_depth s - 1\<rparr> in
        if lowered = ''script'' \<and> ps_in_ldjson s
        then let payload = strip (concat (ps_ldjson_parts s));
                 s = s\<lparr>ps_in_ldjson := False, ps_ldjson_parts := []\<rparr>
             in case (if payload = [] then None else loads payload) of
                  None \<Rightarrow> s
                | Some document \<Rightarrow>
                    s\<lparr>ps_schema_type_values := ps_schema_type_values s @ collect_schema_types document\<rparr>
        else s
      else if lowered = ''title'' then s\<lparr>ps_in_title := False\<rparr>
      else if lowered = ''h1'' then s\<lparr>ps_in_h1 := False\<rparr>
      else if lowered = ''h2'' then s\<lparr>ps_in_h2 := False\<rparr>
      else s)"

definition append_last :: "string \<Rightarrow> string list list \<Rightarrow> string list list" where
  "append_last d parts = (if parts = [] then [] else butlast parts @ [last parts @ [d]])"

definition add_text :: "string \<Rightarrow> parser_state \<Rightarrow> parser_state" where
  "add_text d s =
     (if ps_skip_depth s = 0 \<and> strip d \<noteq> [] then s\<lparr>ps_text_parts := ps_text_parts s @ [d]\<rparr> else s)"

definition add_title :: "string \<Rightarrow> parser_state \<Rightarrow> parser_state" where
  "add_title d s = (if ps_in_title s then s\<lparr>ps_title_parts := ps_title_parts s @ [d]\<rparr> else s)"

definition add_h1 :: "string \<Rightarrow> parser_state \<Rightarrow> parser_state" where
  "add_h1 d s = (if ps_in_h1 s then s\<lparr>ps_h1_parts := append_last d (ps_h1_parts s)\<rparr> else s)"

definition add_h2 :: "string \<Rightarrow> parser_state \<Rightarrow> parser_state" where
  "add_h2 d s = (if ps_in_h2 s then s\<lparr>ps_h2_parts := append_last d (ps_h2_parts s)\<rparr> else s)"

definition handle_data :: "string \<Rightarrow> parser_state \<Rightarrow> parser_state" where
  "handle_data d s =
     (if ps_in_ldjson s then s\<lparr>ps_ldjson_parts := ps_ldjson_parts s @ [d]\<rparr>
      else add_h2 d (add_h1 d (add_title d (add_text d s))))"

fun handle :: "(string \<Rightarrow> json_node option) \<Rightarrow> parser_state \<Rightarrow> html_event \<Rightarrow> parser_state" where
  "handle loads s (Start_tag tag attrs) = handle_starttag tag attrs s"
| "handle loads s (End_tag tag) = handle_endtag loads tag s"
| "handle loads s (Data d) = handle_data d s"

definition feed :: "(string \<Rightarrow> json_node option) \<Rightarrow> html_event list \<Rightarrow> parser_state" where
  "feed loads events = foldl (handle loads) new_parser events"

subsection \<open>The parsed document\<close>

record parsed_document =
  pd_title :: "string option"
  pd_meta_description :: "string option"
  pd_h1 :: "string list"
  pd_canonical_url :: "string option"
  pd_robots_directives :: "string list"
  pd_links :: "string list"
  pd_word_count :: nat
  pd_images_total :: nat
  pd_images_missing_alt :: nat
  pd_schema_types :: "string list"
  pd_h2 :: "string list"
  pd_external_links :: "string list"
  pd_og_title :: bool
  pd_og_description :: bool
  pd_lang :: "string option"
  pd_viewport :: bool
  pd_hreflang_count :: nat

definition empty_document :: parsed_document where
  "empty_document = \<lparr>pd_title = None, pd_meta_description = None, pd_h1 = [], pd_canonical_url = None,
     pd_robots_directives = [], pd_links = [], pd_word_count = 0, pd_images_total = 0,
     pd_images_missing_alt = 0, pd_schema_types = [], pd_h2 = [], pd_external_links = [],
     pd_og_title = False, pd_og_description = False, pd_lang = None, pd_viewport = False,
     pd_hreflang_count = 0\<rparr>"

definition sort_link :: "string \<Rightarrow> string list \<Rightarrow> string list \<times> string list \<Rightarrow> string \<Rightarrow>
    exn + (string list \<times> string list)" where
  "sort_link base_url allowed_domains st href =
     tryE is_url_error (normalize_url_base base_url href) (\<lambda>_. Inr st) (\<lambda>normalized.
     tryE is_url_error (require_allowed_url allowed_domains normalized)
       (\<lambda>_. Inr (fst st, normalized # snd st))
       (\<lambda>link. Inr (link # fst st, snd st)))"

definition document_result :: "string \<Rightarrow> string list \<Rightarrow> parser_state \<Rightarrow> exn + parsed_document" where
  "document_result base_url allowed_domains s =
     bindE (case ps_canonical s of None \<Rightarrow> Inr None
            | Some c \<Rightarrow> tryE is_url_error (normalize_url_base base_url c) (\<lambda>_. Inr None) (\<lambda>u. Inr (Some u)))
       (\<lambda>canonical.
     bindE (foldE (sort_link base_url allowed_domains) ([], []) (ps_links s)) (\<lambda>(links, external).
     Inr \<lparr>pd_title = nonempty_text (squash (concat (ps_title_parts s))),
          pd_meta_description = ps_meta_description s,
          pd_h1 = map (\<lambda>parts. squash (concat parts)) (ps_h1_parts s),
          pd_canonical_url = canonical,
          pd_robots_directives = fromkeys (ps_robots s),
          pd_links = sorted_set links,
          pd_word_count = length (split_ws (join '' '' (ps_text_parts s))),
          pd_images_total = ps_images_total s,
          pd_images_missing_alt = ps_images_missing_alt s,
          pd_schema_types = take MAX_SCHEMA_TYPES (fromkeys (ps_schema_type_values s)),
          pd_h2 = take MAX_H2 (filter (\<lambda>h. h \<noteq> []) (map (\<lambda>parts. squash (concat parts)) (ps_h2_parts s))),
          pd_external_links = take MAX_EXTERNAL_LINKS (sorted_set external),
          pd_og_title = ps_og_title s, pd_og_description = ps_og_description s, pd_lang = ps_lang s,
          pd_viewport = ps_viewport s, pd_hreflang_count = ps_hreflang_count s\<rparr>))"

subsection \<open>Links of a document\<close>

definition inside_links :: "string \<Rightarrow> string list \<Rightarrow> string list \<Rightarrow> string set" where
  "inside_links base_url ds hrefs =
     {l. \<exists>href \<in> set hrefs. \<exists>n. normalize_url_base base_url href = Inr n \<and> require_allowed_url ds n = Inr l}"

definition outside_links :: "string \<Rightarrow> string list \<Rightarrow> string list \<Rightarrow> string set" where
  "outside_links base_url ds hrefs =
     {n. \<exists>href \<in> set hrefs. normalize_url_base base_url href = Inr n \<and>
         (\<exists>e. require_allowed_url ds n = Inl e \<and> is_url_error e)}"

lemma sort_link_Inr:
  assumes "sort_link base_url ds (ls, es) href = Inr (ls', es')"
  shows "set ls' = set ls \<union> inside_links base_url ds [href]"
    and "set es' = set es \<union> outside_links base_url ds [href]"
proof -
  show "set ls' = set ls \<union> inside_links base_url ds [href]"
    using assms by (cases "normalize_url_base base_url href")
      (auto simp: sort_link_def inside_links_def tryE_Inr_iff split: if_splits)
  show "set es' = set es \<union> outside_links base_url ds [href]"
    using assms by (cases "normalize_url_base base_url href")
      (auto simp: sort_link_def outside_links_def tryE_Inr_iff split: if_splits)
qed

lemma sorted_links:
  assumes "foldE (sort_link base_url ds) st hrefs = Inr st'"
  shows "set (fst st') = set (fst st) \<union> inside_links base_url ds hrefs \<and>
         set (snd st') = set (snd st) \<union> outside_links base_url ds hrefs"
  using assms
proof (induction hrefs arbitrary: st)
  case Nil
  then show ?case by (simp add: inside_links_def outside_links_def)
next
  case (Cons h hs)
  from Cons.prems obtain s1 where s1: "sort_link base_url ds st h = Inr s1"
    and rest: "foldE (sort_link base_url ds) s1 hs = Inr st'" by (auto simp: bindE_Inr_iff)
  have one: "set (fst s1) = set (fst st) \<union> inside_links base_url ds [h]"
    "set (snd s1) = set (snd st) \<union> outside_links base_url ds [h]"
    using sort_link_Inr [of base_url ds "fst st" "snd st" h "fst s1" "snd s1"] s1 by simp_all
  have "inside_links base_url ds (h # hs) = inside_links base_url ds [h] \<union> inside_links base_url ds hs"
    "outside_links base_url ds (h # hs) = outside_links base_url ds [h] \<union> outside_links base_url ds hs"
    by (auto simp: inside_links_def outside_links_def)
  with one Cons.IH [OF rest] show ?case by auto
qed

lemma document_resultD:
  assumes "document_result base_url ds s = Inr d"
  obtains st where "foldE (sort_link base_url ds) ([], []) (ps_links s) = Inr st"
    and "pd_links d = sorted_set (fst st)"
    and "pd_external_links d = take MAX_EXTERNAL_LINKS (sorted_set (snd st))"
    and "pd_images_total d = ps_images_total s" "pd_images_missing_alt d = ps_images_missing_alt s"
    and "pd_robots_directives d = fromkeys (ps_robots s)"
    and "pd_schema_types d = take MAX_SCHEMA_TYPES (fromkeys (ps_schema_type_values s))"
    and "length (pd_h2 d) \<le> MAX_H2" "length (pd_h1 d) = length (ps_h1_parts s)"
proof -
  from assms obtain canonical st where "foldE (sort_link base_url ds) ([], []) (ps_links s) = Inr st"
    and "(case st of (links, external) \<Rightarrow> document_result base_url ds s = Inr d \<and>
       pd_links d = sorted_set links \<and> pd_external_links d = take MAX_EXTERNAL_LINKS (sorted_set external) \<and>
       pd_images_total d = ps_images_total s \<and> pd_images_missing_alt d = ps_images_missing_alt s \<and>
       pd_robots_directives d = fromkeys (ps_robots s) \<and>
       pd_schema_types d = take MAX_SCHEMA_TYPES (fromkeys (ps_schema_type_values s)) \<and>
       length (pd_h2 d) \<le> MAX_H2 \<and> length (pd_h1 d) = length (ps_h1_parts s))"
    unfolding document_result_def bindE_Inr_iff by fastforce
  then show ?thesis by (intro that [of st]) (auto split: prod.splits)
qed

text \<open>
  the internal links of a parsed document are, sorted and without repetition, exactly the links of
  its anchors that resolve against the page inside the approved domains; every external link is outside
  of them, and at most two hundred are kept.
\<close>

theorem document_links_exact:
  assumes "document_result base_url ds s = Inr d"
  shows "sorted (pd_links d) \<and> distinct (pd_links d) \<and>
    set (pd_links d) = inside_links base_url ds (ps_links s) \<and>
    (\<forall>l \<in> set (pd_links d). \<exists>u. urlsplit l = Inr u \<and> inside_domains ds u) \<and>
    sorted (pd_external_links d) \<and> length (pd_external_links d) \<le> 200 \<and>
    set (pd_external_links d) \<subseteq> outside_links base_url ds (ps_links s)"
proof -
  obtain st where f: "foldE (sort_link base_url ds) ([], []) (ps_links s) = Inr st"
    and l: "pd_links d = sorted_set (fst st)"
    and e: "pd_external_links d = take MAX_EXTERNAL_LINKS (sorted_set (snd st))"
    by (rule document_resultD [OF assms])
  have s: "set (fst st) = inside_links base_url ds (ps_links s)"
    "set (snd st) = outside_links base_url ds (ps_links s)" using sorted_links [OF f] by simp_all
  have "\<exists>u. urlsplit l = Inr u \<and> inside_domains ds u" if "l \<in> inside_links base_url ds (ps_links s)" for l
    using that by (auto simp: inside_links_def dest: require_allowed_urlD host_allowed_inside
        elim: require_allowed_urlD)
  with s show ?thesis unfolding l e
    by (auto simp: MAX_EXTERNAL_LINKS_def sorted_wrt_take dest: in_set_takeD)
qed

definition demo_events :: "html_event list" where
  "demo_events = [Start_tag ''html'' [(''lang'', Some ''en'')],
     Start_tag ''meta'' [(''name'', Some ''robots''), (''content'', Some ''NoIndex, ,follow'')],
     Start_tag ''title'' [], Data '' A  page '', End_tag ''title'',
     Start_tag ''script'' [], Data ''var x'', End_tag ''script'',
     Start_tag ''a'' [(''href'', Some ''b?x=1'')], Data ''to b'', End_tag ''a'',
     Start_tag ''a'' [(''HREF'', Some ''http://other.org/'')], Data ''out'', End_tag ''a'',
     Start_tag ''img'' [(''alt'', None)]]"

lemma demo_document:
  "case document_result ''http://e.c/'' [''e.c''] (feed (\<lambda>_. None) demo_events) of Inl e \<Rightarrow> False
   | Inr d \<Rightarrow> pd_links d = [''http://e.c/b?x=1''] \<and> pd_external_links d = [''http://other.org/''] \<and>
       pd_word_count d = 5 \<and> pd_title d = Some ''A page'' \<and> pd_robots_directives d = [''noindex'', ''follow'']"
  by code_simp

lemma document_links_exact_witness:
  "\<exists>d :: parsed_document. pd_links d = [''http://e.c/b?x=1''] \<and>
     {''http://e.c/b?x=1''} = inside_links ''http://e.c/'' [''e.c''] (ps_links (feed (\<lambda>_. None) demo_events)) \<and>
     pd_external_links d = [''http://other.org/''] \<and>
     set (pd_external_links d) \<subseteq> outside_links ''http://e.c/'' [''e.c''] (ps_links (feed (\<lambda>_. None) demo_events))"
proof -
  obtain d where d: "document_result ''http://e.c/'' [''e.c''] (feed (\<lambda>_. None) demo_events) = Inr d"
    "pd_links d = [''http://e.c/b?x=1'']" "pd_external_links d = [''http://other.org/'']"
    using demo_document by (auto split: sum.splits)
  with document_links_exact [OF d(1)] show ?thesis by (intro exI [of _ d]) simp
qed

fun anchor :: "html_event \<Rightarrow> string list" where
  "anchor (Start_tag tag attrs) =
     (if casefold tag = ''a'' \<and> attr_value attrs ''href'' \<noteq> [] then [attr_value attrs ''href''] else [])"
| "anchor _ = []"

fun image :: "html_event \<Rightarrow> nat" where
  "image (Start_tag tag attrs) = (if casefold tag = ''img'' then 1 else 0)"
| "image _ = 0"

text \<open>What each part of a handler leaves alone, and what it adds.\<close>

lemma start_skipped_fields [simp]:
  "ps_links (start_skipped l v s) = ps_links s"
  "ps_images_total (start_skipped l v s) = ps_images_total s"
  "ps_images_missing_alt (start_skipped l v s) = ps_images_missing_alt s"
  "ps_h2_parts (start_skipped l v s) = ps_h2_parts s"
  "ps_robots (start_skipped l v s) = ps_robots s"
  "ps_schema_type_values (start_skipped l v s) = ps_schema_type_values s"
  by (simp_all add: start_skipped_def Let_def)

lemma start_itemtype_fields [simp]:
  "ps_links (start_itemtype v s) = ps_links s"
  "ps_images_total (start_itemtype v s) = ps_images_total s"
  "ps_images_missing_alt (start_itemtype v s) = ps_images_missing_alt s"
  "ps_h2_parts (start_itemtype v s) = ps_h2_parts s"
  "ps_robots (start_itemtype v s) = ps_robots s"
  "ps_schema_type_values (start_itemtype v s) =
     ps_schema_type_values s @ filter (\<lambda>t. t \<noteq> []) (map itemtype_tail (split_ws (v ''itemtype'')))"
  by (simp_all add: start_itemtype_def)

lemma start_link_fields [simp]:
  "ps_links (start_link v s) = ps_links s"
  "ps_images_total (start_link v s) = ps_images_total s"
  "ps_images_missing_alt (start_link v s) = ps_images_missing_alt s"
  "ps_h2_parts (start_link v s) = ps_h2_parts s"
  "ps_robots (start_link v s) = ps_robots s"
  "ps_schema_type_values (start_link v s) = ps_schema_type_values s"
  by (simp_all add: start_link_def Let_def)

definition robots_of :: "(string \<Rightarrow> string) \<Rightarrow> string list" where
  "robots_of v = map (\<lambda>i. casefold (strip i)) (filter (\<lambda>i. strip i \<noteq> []) (split_on CHR '','' (v ''content'')))"

lemma start_meta_fields [simp]:
  "ps_links (start_meta v s) = ps_links s"
  "ps_images_total (start_meta v s) = ps_images_total s"
  "ps_images_missing_alt (start_meta v s) = ps_images_missing_alt s"
  "ps_h2_parts (start_meta v s) = ps_h2_parts s"
  "ps_schema_type_values (start_meta v s) = ps_schema_type_values s"
  by (simp_all add: start_meta_def Let_def)

lemma start_meta_robots:
  "ps_robots (start_meta v s) = ps_robots s \<or> ps_robots (start_meta v s) = ps_robots s @ robots_of v"
  by (simp add: start_meta_def robots_of_def Let_def)

lemma handle_end_fields [simp]:
  "ps_links (handle_endtag loads tag s) = ps_links s"
  "ps_images_total (handle_endtag loads tag s) = ps_images_total s"
  "ps_images_missing_alt (handle_endtag loads tag s) = ps_images_missing_alt s"
  "ps_h2_parts (handle_endtag loads tag s) = ps_h2_parts s"
  "ps_robots (handle_endtag loads tag s) = ps_robots s"
  by (simp_all add: handle_endtag_def Let_def split: option.split)

lemma handle_end_schema:
  "ps_schema_type_values (handle_endtag loads tag s) = ps_schema_type_values s \<or>
   (\<exists>doc. ps_schema_type_values (handle_endtag loads tag s) = ps_schema_type_values s @ collect_schema_types doc)"
  by (auto simp: handle_endtag_def Let_def split: option.split)

lemma add_text_fields [simp]:
  "ps_links (add_text d s) = ps_links s"
  "ps_images_total (add_text d s) = ps_images_total s"
  "ps_images_missing_alt (add_text d s) = ps_images_missing_alt s"
  "length (ps_h2_parts (add_text d s)) = length (ps_h2_parts s)"
  "ps_robots (add_text d s) = ps_robots s"
  "ps_schema_type_values (add_text d s) = ps_schema_type_values s"
  by (simp_all add: add_text_def append_last_def)

lemma add_title_fields [simp]:
  "ps_links (add_title d s) = ps_links s"
  "ps_images_total (add_title d s) = ps_images_total s"
  "ps_images_missing_alt (add_title d s) = ps_images_missing_alt s"
  "length (ps_h2_parts (add_title d s)) = length (ps_h2_parts s)"
  "ps_robots (add_title d s) = ps_robots s"
  "ps_schema_type_values (add_title d s) = ps_schema_type_values s"
  by (simp_all add: add_title_def append_last_def)

lemma add_h1_fields [simp]:
  "ps_links (add_h1 d s) = ps_links s"
  "ps_images_total (add_h1 d s) = ps_images_total s"
  "ps_images_missing_alt (add_h1 d s) = ps_images_missing_alt s"
  "length (ps_h2_parts (add_h1 d s)) = length (ps_h2_parts s)"
  "ps_robots (add_h1 d s) = ps_robots s"
  "ps_schema_type_values (add_h1 d s) = ps_schema_type_values s"
  by (simp_all add: add_h1_def append_last_def)

lemma add_h2_fields [simp]:
  "ps_links (add_h2 d s) = ps_links s"
  "ps_images_total (add_h2 d s) = ps_images_total s"
  "ps_images_missing_alt (add_h2 d s) = ps_images_missing_alt s"
  "length (ps_h2_parts (add_h2 d s)) = length (ps_h2_parts s)"
  "ps_robots (add_h2 d s) = ps_robots s"
  "ps_schema_type_values (add_h2 d s) = ps_schema_type_values s"
  by (simp_all add: add_h2_def append_last_def)

lemma handle_data_fields [simp]:
  "ps_links (handle_data d s) = ps_links s"
  "ps_images_total (handle_data d s) = ps_images_total s"
  "ps_images_missing_alt (handle_data d s) = ps_images_missing_alt s"
  "length (ps_h2_parts (handle_data d s)) = length (ps_h2_parts s)"
  "ps_robots (handle_data d s) = ps_robots s"
  "ps_schema_type_values (handle_data d s) = ps_schema_type_values s"
  by (cases "ps_in_ldjson s"; simp add: handle_data_def)+

lemma handle_links: "ps_links (handle loads s e) = ps_links s @ anchor e"
  by (cases e) (simp_all add: handle_starttag_def start_dispatch_def start_img_def Let_def)

lemma handle_images: "ps_images_total (handle loads s e) = ps_images_total s + image e"
  by (cases e) (simp_all add: handle_starttag_def start_dispatch_def start_img_def Let_def)

lemma feed_snoc: "feed loads (events @ [e]) = handle loads (feed loads events) e"
  by (simp add: feed_def)

lemma feed_links: "ps_links (feed loads events) = concat (map anchor events)"
  by (induction events rule: rev_induct) (simp_all add: feed_snoc handle_links, simp add: feed_def new_parser_def)

lemma feed_images: "ps_images_total (feed loads events) = sum_list (map image events)"
  by (induction events rule: rev_induct) (simp_all add: feed_snoc handle_images, simp add: feed_def new_parser_def)

lemma sort_link_raises:
  "raises_only (\<lambda>e. is_value_error e \<and> \<not> is_url_error e) (sort_link base_url ds st href)"
proof -
  have "is_value_error e" if "normalize_url_base base_url href = Inl e" for e
    using raises_onlyD [OF normalize_url_raises that [unfolded normalize_url_base_def]] .
  moreover have "is_value_error e" if "require_allowed_url ds n = Inl e" for e n
  proof (rule raises_onlyD [OF _ that])
    show "raises_only is_value_error (require_allowed_url ds n)"
      unfolding require_allowed_url_def normalize_url_def
      by (intro raises_intros) (use normalized_hostname in auto)
  qed
  ultimately show ?thesis unfolding sort_link_def by (intro raises_intros) auto
qed

lemma foldE_raises:
  "(\<And>s x. raises_only P (f s x)) \<Longrightarrow> raises_only P (foldE f s xs)"
  by (induction xs arbitrary: s) (auto intro!: raises_intros)

lemma bad_href: "normalize_url_base ''http://e.c/'' ''http://['' = Inl (ValueError ''Invalid IPv6 URL'')"
  by code_simp

lemma bad_anchor: "anchor (Start_tag ''a'' [(''href'', Some ''http://['')]) = [''http://['']"
  by code_simp

text \<open>
  C15: one anchor whose target does not parse (an unclosed bracket in the host) makes the whole document
  raise a plain \<open>ValueError\<close>, which the handler of \<open>URLValidationError\<close> does not catch: the good links
  of the page are lost with it.
\<close>

theorem one_bad_href_loses_document:
  assumes "Start_tag ''a'' [(''href'', Some ''http://['')] \<in> set events"
  shows "\<exists>e. document_result ''http://e.c/'' ds (feed loads events) = Inl e \<and>
    is_value_error e \<and> \<not> is_url_error e"
proof -
  let ?s = "feed loads events" and ?P = "\<lambda>e. is_value_error e \<and> \<not> is_url_error e"
  have "''http://['' \<in> set (anchor (Start_tag ''a'' [(''href'', Some ''http://['')]))"
    unfolding bad_anchor by simp
  then have in_links: "''http://['' \<in> set (ps_links ?s)"
    using assms unfolding feed_links set_concat set_map by blast
  have "\<exists>e. foldE (sort_link ''http://e.c/'' ds) st hrefs = Inl e" if "''http://['' \<in> set hrefs" for st hrefs
    using that
  proof (induction hrefs arbitrary: st)
    case (Cons h hs)
    then show ?case
      by (cases "sort_link ''http://e.c/'' ds st h") (auto simp: sort_link_def bad_href)
  qed simp
  then obtain e where "foldE (sort_link ''http://e.c/'' ds) ([], []) (ps_links ?s) = Inl e"
    using in_links by blast
  then have not_Inr: "document_result ''http://e.c/'' ds ?s \<noteq> Inr d" for d
    by (auto simp: document_result_def bindE_Inr_iff)
  have "is_value_error e" if "normalize_url_base b c = Inl e" for b c e
    using raises_onlyD [OF normalize_url_raises that [unfolded normalize_url_base_def]] .
  then have "raises_only ?P (document_result ''http://e.c/'' ds ?s)"
    unfolding document_result_def
    by (intro raises_intros foldE_raises sort_link_raises) auto
  with not_Inr show ?thesis
    by (cases "document_result ''http://e.c/'' ds ?s") (auto dest: raises_onlyD)
qed

lemma one_bad_href_loses_document_witness:
  "\<exists>e. document_result ''http://e.c/'' [''e.c''] (feed (\<lambda>_. None)
     (demo_events @ [Start_tag ''a'' [(''href'', Some ''http://['')]])) = Inl e \<and> is_value_error e \<and> \<not> is_url_error e"
  by (rule one_bad_href_loses_document) simp

subsection \<open>Counters and lists of the parser\<close>

definition parser_ok :: "parser_state \<Rightarrow> bool" where
  "parser_ok s \<longleftrightarrow> ps_images_missing_alt s \<le> ps_images_total s \<and> length (ps_h2_parts s) \<le> MAX_H2 \<and>
     list_all (\<lambda>r. r \<noteq> [] \<and> casefold r = r) (ps_robots s) \<and>
     list_all (\<lambda>t. t \<noteq> []) (ps_schema_type_values s)"

lemma declared_types_nonempty: "t \<in> set (declared_types d) \<Longrightarrow> t \<noteq> []"
proof (cases d)
  case (Some j)
  then show "t \<in> set (declared_types d) \<Longrightarrow> t \<noteq> []"
    by (cases j) (auto simp: declared_types_def split: if_splits json_node.split_asm)
qed (simp add: declared_types_def)

lemma schema_types_nonempty: "t \<in> set (collect_schema_types n) \<Longrightarrow> t \<noteq> []"
proof (induction n rule: collect_schema_types.induct)
  case (1 kvs)
  then show ?case using declared_types_nonempty by auto
qed auto

lemma start_ok:
  assumes "parser_ok s"
  shows "parser_ok (start_dispatch l v s)"
proof (cases "l = ''meta''")
  case True
  then have "start_dispatch l v s = start_meta v s" by (simp add: start_dispatch_def)
  moreover have "list_all (\<lambda>r. r \<noteq> [] \<and> casefold r = r) (robots_of v)"
    by (auto simp: robots_of_def list_all_iff)
  ultimately show ?thesis using assms start_meta_robots [of v s]
    by (elim disjE) (simp_all add: parser_ok_def)
next
  case False
  then show ?thesis using assms
    by (simp add: parser_ok_def start_dispatch_def start_img_def MAX_H2_def)
qed

lemma handle_ok:
  assumes "parser_ok s"
  shows "parser_ok (handle loads s e)"
proof (cases e)
  case (Start_tag tag attrs)
  have "parser_ok (start_itemtype (attr_value attrs) (start_skipped (casefold tag) (attr_value attrs) s))"
    using assms by (auto simp: parser_ok_def list_all_iff)
  then show ?thesis by (simp add: Start_tag handle_starttag_def Let_def start_ok)
next
  case (End_tag tag)
  then show ?thesis using assms handle_end_schema [of loads tag s]
    by (auto simp: parser_ok_def list_all_iff dest: schema_types_nonempty)
next
  case (Data d)
  then show ?thesis using assms by (simp add: parser_ok_def)
qed

text \<open>
  whatever sequence of tags and text the tokenizer delivers, the parser counts every image exactly
  once and never more images without a text alternative than images, keeps at most forty second-level
  headings, and collects only non-empty robots directives in lower case and non-empty schema types; its
  anchors are those of the tags, in order.
\<close>

theorem feed_counts:
  "ps_links (feed loads events) = concat (map anchor events) \<and>
   ps_images_total (feed loads events) = sum_list (map image events) \<and>
   ps_images_missing_alt (feed loads events) \<le> ps_images_total (feed loads events) \<and>
   length (ps_h2_parts (feed loads events)) \<le> 40 \<and>
   list_all (\<lambda>r. r \<noteq> [] \<and> casefold r = r) (ps_robots (feed loads events)) \<and>
   list_all (\<lambda>t. t \<noteq> []) (ps_schema_type_values (feed loads events))"
proof -
  have "parser_ok (feed loads events)"
  proof (induction events rule: rev_induct)
    case Nil
    then show ?case by (simp add: feed_def parser_ok_def new_parser_def)
  next
    case (snoc e es)
    then show ?case by (simp add: feed_snoc handle_ok)
  qed
  then show ?thesis by (simp add: parser_ok_def feed_links feed_images MAX_H2_def)
qed

end
