(* ===== verification/Responses.thy ===== *)
theory Responses
  imports Effects Py_Text Py_Float
begin

text \<open>
  How \<open>audit_engine/crawler.py\<close> reads a fetched response: the \<open>Retry-After\<close> header, the classification of
  bot challenges and throttling (\<open>classify_challenge\<close>), the analytics signatures, and the decoding of a
  body. Bytes are characters; \<open>decode charset body\<close> is the parameter for \<open>bytes.decode\<close> with
  \<open>errors="replace"\<close> (its \<open>LookupError\<close> is \<open>OtherError ''LookupError''\<close>).
\<close>

subsection \<open>Numbers in headers\<close>

text \<open>\<open>int(text)\<close>: an optional sign, digits with single underscores between them, at most 4300 digits.\<close>

fun digit_groups :: "string \<Rightarrow> bool" where
  "digit_groups [] = False"
| "digit_groups [c] = digit_char c"
| "digit_groups (c # d # s) =
     (digit_char c \<and> (if d = CHR ''_'' then s \<noteq> [] \<and> digit_groups s else digit_groups (d # s)))"

definition int_digits :: "string \<Rightarrow> nat option" where
  "int_digits s = (let ds = filter (\<lambda>c. c \<noteq> CHR ''_'') s in
     if digit_groups s \<and> length ds \<le> 4300 then Some (nat_of_digits ds) else None)"

definition py_int :: "string \<Rightarrow> int option" where
  "py_int text = (case strip text of
       [] \<Rightarrow> None
     | c # s \<Rightarrow> if c = CHR ''-'' then map_option (\<lambda>n. - int n) (int_digits s)
                else if c = CHR ''+'' then map_option int (int_digits s)
                else map_option int (int_digits (c # s)))"

definition parse_retry_after :: "string option \<Rightarrow> nat option" where
  "parse_retry_after header = (case header of None \<Rightarrow> None
     | Some s \<Rightarrow> if s = [] then None
        else let t = strip s in
          if \<not> is_digits t then None else if 4300 < length t then None else Some (nat_of_digits t))"

subsection \<open>Responses\<close>

record fetch_response =
  fr_status :: int
  fr_headers :: "(string \<times> string) list"
  fr_body :: string
  fr_url :: string

definition header :: "string \<Rightarrow> fetch_response \<Rightarrow> string option" where
  "header name r = map_of (fr_headers r) name"

definition CHALLENGE_BODY_MARKERS :: "string list" where
  "CHALLENGE_BODY_MARKERS = [''verifying your connection'', ''just a moment'', ''attention required'',
     ''checking your browser'', ''cf-browser-verification'', ''cf_chl_opt'', ''access denied'',
     ''enable javascript and cookies to continue'', ''ddos protection by'', ''please verify you are a human'']"

definition CHALLENGE_PREVIEW_BYTES :: nat where "CHALLENGE_PREVIEW_BYTES = 8192"
definition CHALLENGE_MAX_BODY_BYTES :: nat where "CHALLENGE_MAX_BODY_BYTES = 100000"
definition RATE_LIMIT_KIND :: string where "RATE_LIMIT_KIND = ''rate_limited''"
definition BOT_CHALLENGE_KIND :: string where "BOT_CHALLENGE_KIND = ''bot_challenge''"
definition ACCESS_DENIED_KIND :: string where "ACCESS_DENIED_KIND = ''access_denied''"

record challenge_signal =
  cs_challenge :: bool
  cs_kind :: "string option"
  cs_retry_after :: "nat option"
  cs_marker :: "string option"

definition rate_limited :: "challenge_signal \<Rightarrow> bool" where
  "rate_limited s \<longleftrightarrow> cs_kind s = Some RATE_LIMIT_KIND"

definition challenge_marker :: "string \<Rightarrow> string option" where
  "challenge_marker body_text = find (\<lambda>needle. contains needle (casefold body_text)) CHALLENGE_BODY_MARKERS"

definition header_retry_after :: "(string \<times> string) list \<Rightarrow> nat option" where
  "header_retry_after headers =
     parse_retry_after (map_of (rev (map (\<lambda>(n, v). (casefold n, v)) headers)) ''retry-after'')"

definition classify_challenge ::
    "int \<Rightarrow> (string \<times> string) list \<Rightarrow> string \<Rightarrow> nat option \<Rightarrow> challenge_signal" where
  "classify_challenge status headers body_text body_bytes =
     (let retry_after = header_retry_after headers; marker = challenge_marker body_text;
          signal = (\<lambda>kind. \<lparr>cs_challenge = True, cs_kind = Some kind, cs_retry_after = retry_after,
                      cs_marker = marker\<rparr>)
      in if status = 429 then signal RATE_LIMIT_KIND
      else if status = 503 \<and> (retry_after \<noteq> None \<or> marker \<noteq> None) then signal RATE_LIMIT_KIND
      else if status = 403 \<and> marker \<noteq> None then signal ACCESS_DENIED_KIND
      else if marker \<noteq> None \<and> 200 \<le> status \<and> status < 300 \<and>
              (body_bytes = None \<or> opt_any (\<lambda>n. n \<le> CHALLENGE_MAX_BODY_BYTES) body_bytes)
      then signal BOT_CHALLENGE_KIND
      else \<lparr>cs_challenge = False, cs_kind = None, cs_retry_after = None, cs_marker = None\<rparr>)"

subsection \<open>Analytics\<close>

definition ANALYTICS_SIGNATURES :: "(string \<times> string list) list" where
  "ANALYTICS_SIGNATURES = [
     (''ga4'', [''gtag('', ''googletagmanager.com/gtag'']),
     (''gtm'', [''googletagmanager.com/gtm.js'', ''GTM-'']),
     (''ua'', [''google-analytics.com/analytics.js'']),
     (''meta_pixel'', [''connect.facebook.net'']),
     (''hotjar'', [''static.hotjar.com'']),
     (''segment'', [''cdn.segment.com''])]"

definition detect_analytics_tags :: "string \<Rightarrow> string list" where
  "detect_analytics_tags html_text =
     map fst (filter (\<lambda>(tag, needles). list_ex (\<lambda>needle.
         if needle = ''GTM-'' then contains needle html_text
         else contains (casefold needle) (casefold html_text)) needles) ANALYTICS_SIGNATURES)"

subsection \<open>Decoding\<close>

type_synonym decoder = "string \<Rightarrow> string \<Rightarrow> exn + string"

fun after_first :: "string \<Rightarrow> string \<Rightarrow> string option" where
  "after_first needle [] = (if needle = [] then Some [] else None)"
| "after_first needle (c # s) =
     (if prefix needle (c # s) then Some (drop (length needle) (c # s)) else after_first needle s)"

definition charset_of :: "string option \<Rightarrow> string" where
  "charset_of content_type =
     (case after_first ''charset='' (casefold (opt_or [] content_type)) of
        None \<Rightarrow> ''utf-8''
      | Some rest \<Rightarrow>
          let is_quote = (\<lambda>c. c = CHR 0x22);
              name = rstrip_of is_quote (lstrip_of is_quote (strip (fst (partition_on CHR '';'' rest))))
          in if name = [] then ''utf-8'' else name)"

definition is_lookup_error :: "exn \<Rightarrow> bool" where
  "is_lookup_error e \<longleftrightarrow> (case e of OtherError name m \<Rightarrow> name = ''LookupError'' | _ \<Rightarrow> False)"

definition decode_body :: "decoder \<Rightarrow> string option \<Rightarrow> string \<Rightarrow> exn + string" where
  "decode_body decode content_type body =
     tryE is_lookup_error (decode (charset_of content_type) body) (\<lambda>_. decode ''utf-8'' body) Inr"

definition media_type :: "string option \<Rightarrow> string" where
  "media_type content_type = casefold (strip (fst (partition_on CHR '';'' (opt_or [] content_type))))"

subsection \<open>Challenges\<close>

record challenge =
  ch_kind :: string
  ch_response :: "fetch_response option"
  ch_retry_after :: "nat option"
  ch_redirect_chain :: "string list"
  ch_response_ms :: "nat option"

datatype fetch_error = Challenged challenge | Failed exn

definition raise_for_challenge ::
    "decoder \<Rightarrow> fetch_response \<Rightarrow> string list \<Rightarrow> nat \<Rightarrow> fetch_error + unit" where
  "raise_for_challenge decode response chain elapsed_ms =
     (let content_type = header ''content-type'' response; media = media_type content_type;
          preview = (if media = [] \<or> prefix ''text/'' media \<or> contains ''html'' media
                     then decode_body decode content_type (take CHALLENGE_PREVIEW_BYTES (fr_body response))
                     else Inr [])
      in case preview of
           Inl e \<Rightarrow> Inl (Failed e)
         | Inr text \<Rightarrow>
             let signal = classify_challenge (fr_status response) (fr_headers response) text
                            (Some (length (fr_body response)))
             in if \<not> cs_challenge signal then Inr ()
                else Inl (Challenged \<lparr>ch_kind = opt_or BOT_CHALLENGE_KIND (cs_kind signal),
                       ch_response = Some response, ch_retry_after = cs_retry_after signal,
                       ch_redirect_chain = chain, ch_response_ms = Some elapsed_ms\<rparr>))"

subsection \<open>What is quarantined\<close>

text \<open>
  C15: a response is classified as a challenge exactly when it is a 429, a 503 with a readable
  \<open>Retry-After\<close> or a marker in its text, a 403 with a marker, or a 2xx with a marker whose body is at most
  100000 bytes; the first two are the rate limits, and an ordinary page is never one.
\<close>

theorem classify_challenge_exact:
  "(cs_challenge (classify_challenge status headers body_text body_bytes) \<longleftrightarrow>
      status = 429 \<or>
      status = 503 \<and> (header_retry_after headers \<noteq> None \<or> challenge_marker body_text \<noteq> None) \<or>
      challenge_marker body_text \<noteq> None \<and>
        (status = 403 \<or> status \<in> {200..299} \<and> (case body_bytes of None \<Rightarrow> True | Some n \<Rightarrow> n \<le> 100000))) \<and>
   (rate_limited (classify_challenge status headers body_text body_bytes) \<longleftrightarrow>
      cs_challenge (classify_challenge status headers body_text body_bytes) \<and> status \<in> {429, 503}) \<and>
   (\<not> cs_challenge (classify_challenge status headers body_text body_bytes) \<longrightarrow>
      classify_challenge status headers body_text body_bytes =
        \<lparr>cs_challenge = False, cs_kind = None, cs_retry_after = None, cs_marker = None\<rparr>)"
  by (cases body_bytes)
    (auto simp: classify_challenge_def Let_def rate_limited_def RATE_LIMIT_KIND_def ACCESS_DENIED_KIND_def
      BOT_CHALLENGE_KIND_def CHALLENGE_MAX_BODY_BYTES_def)

lemma classify_challenge_exact_witness:
  "classify_challenge 200 [] ''an article'' (Some 10) =
     \<lparr>cs_challenge = False, cs_kind = None, cs_retry_after = None, cs_marker = None\<rparr>"
proof -
  have "\<not> cs_challenge (classify_challenge 200 [] ''an article'' (Some 10))" by code_simp
  with classify_challenge_exact [of 200 "[]" "''an article''" "Some 10"] show ?thesis by blast
qed

end
