(* ===== verification/Transport.thy ===== *)
theory Transport
  imports Responses Urls
begin

text \<open>
  \<open>PinnedHTTPTransport.fetch\<close> of \<open>audit_engine/crawler.py\<close>: the request on the wire, the attempt on each
  approved address in turn, and the limits on what is read. The socket, the TLS handshake and
  \<open>http.client\<close> are the parameter \<open>exchange\<close>: it connects to one address and port, with the server name
  for TLS, sends the bytes and delivers the status, the header fields and the body, or raises.
\<close>

record raw_response =
  rw_status :: int
  rw_headers :: "(string \<times> string) list"
  rw_body :: string

type_synonym 'w exchange = "string \<Rightarrow> nat \<Rightarrow> string option \<Rightarrow> string \<Rightarrow> rat \<Rightarrow> ('w, exn, raw_response) action"

definition CRLF :: string where "CRLF = [CHR 0x0D, CHR 0x0A]"

definition safe_header :: "string \<Rightarrow> string \<Rightarrow> exn + unit" where
  "safe_header name v = raise_first [
     (name = [] \<or> list_ex (\<lambda>c. c \<in> {CHR 0x0D, CHR 0x0A, CHR '':''}) name, ValueError ''Invalid HTTP header name''),
     (CHR 0x0D \<in> set v \<or> CHR 0x0A \<in> set v, ValueError ''Invalid HTTP header value'')]"

definition RESERVED_HEADERS :: "string list" where
  "RESERVED_HEADERS = [''host'', ''connection'', ''content-length'', ''transfer-encoding'']"

definition base_headers :: "string \<Rightarrow> (string \<times> string) list" where
  "base_headers host_header = [
     (''Host'', host_header),
     (''User-Agent'', ''TrafficRadiusEvidenceBot/1.0''),
     (''Accept'', ''text/html,application/xhtml+xml,text/plain;q=0.8,*/*;q=0.1''),
     (''Accept-Encoding'', ''identity''),
     (''Connection'', ''close'')]"

definition add_header :: "(string \<times> string) list \<Rightarrow> string \<times> string \<Rightarrow> exn + (string \<times> string) list" where
  "add_header hs nv = (case nv of (name, v) \<Rightarrow>
     bindE (safe_header name v) (\<lambda>_.
     if casefold name \<in> set RESERVED_HEADERS then Inr hs else Inr (AList.update name v hs)))"

definition host_header :: "resolved_target \<Rightarrow> string \<Rightarrow> string" where
  "host_header target scheme =
     (if rt_port target = default_port scheme then rt_host target
      else rt_host target @ '':'' @ str_of_nat (rt_port target))"

definition request_line :: "string \<Rightarrow> url \<Rightarrow> string" where
  "request_line method parsed =
     method @ '' '' @ urlunsplit \<lparr>u_scheme = [], u_netloc = [],
        u_path = (if u_path parsed = [] then ''/'' else u_path parsed), u_query = u_query parsed,
        u_fragment = []\<rparr> @ '' HTTP/1.1''"

definition header_line :: "string \<times> string \<Rightarrow> string" where
  "header_line nv = fst nv @ '': '' @ snd nv"

definition request_head :: "string \<Rightarrow> url \<Rightarrow> (string \<times> string) list \<Rightarrow> string" where
  "request_head method parsed hs =
     request_line method parsed @ CRLF @ concat (map (\<lambda>nv. header_line nv @ CRLF) hs) @ CRLF"

definition build_wire ::
    "resolved_target \<Rightarrow> string \<Rightarrow> (string \<times> string) list \<Rightarrow> string \<Rightarrow> url \<Rightarrow> exn + string" where
  "build_wire target method headers payload parsed =
     bindE (foldE add_header (base_headers (host_header target (u_scheme parsed))) headers) (\<lambda>hs.
     let hs = (if payload = [] then hs else AList.update ''Content-Length'' (str_of_nat (length payload)) hs);
         head = request_head method parsed hs
     in if list_ex (\<lambda>c. 128 \<le> code c) head
        then Inl (ValueError ''UnicodeEncodeError'') else Inr (head @ payload))"

definition declared_length :: "(string \<times> string) list \<Rightarrow> string option" where
  "declared_length hs = (case filter (\<lambda>nv. casefold (fst nv) = ''content-length'') hs of
       [] \<Rightarrow> None | vs \<Rightarrow> Some (join '', '' (map snd vs)))"

definition read_response :: "string \<Rightarrow> nat \<Rightarrow> raw_response \<Rightarrow> exn + fetch_response" where
  "read_response url max_bytes raw =
     bindE (case declared_length (rw_headers raw) of
              None \<Rightarrow> Inr ()
            | Some d \<Rightarrow> if d = [] then Inr () else (case py_int d of
                None \<Rightarrow> Inl (UnsafeHTTPResponse ''Invalid Content-Length header'')
              | Some n \<Rightarrow> if int max_bytes < n
                  then Inl (ResponseTooLarge ''Response exceeds configured byte limit'') else Inr ())) (\<lambda>_.
     let body = take (max_bytes + 1) (rw_body raw) in
     if max_bytes < length body then Inl (ResponseTooLarge ''Response exceeds configured byte limit'')
     else Inr \<lparr>fr_status = rw_status raw,
                fr_headers = foldl (\<lambda>d nv. AList.update (casefold (fst nv)) (snd nv) d) [] (rw_headers raw),
                fr_body = body, fr_url = url\<rparr>)"

fun is_os_error :: "exn \<Rightarrow> bool" where
  "is_os_error (OSError m) = True"
| "is_os_error e = False"

fun try_addresses :: "(string \<Rightarrow> ('w, exn, 'a) action) \<Rightarrow> string list \<Rightarrow> ('w, exn, 'a) action" where
  "try_addresses attempt [] = raise (CrawlError ''All approved target addresses failed'')"
| "try_addresses attempt (ip # ips) =
     catchA (attempt ip) (\<lambda>e. if is_os_error e then try_addresses attempt ips else raise e) ret"

definition pinned_fetch ::
    "'w exchange \<Rightarrow> resolved_target \<Rightarrow> string \<Rightarrow> (string \<times> string) list \<Rightarrow> string \<Rightarrow> rat \<Rightarrow> int \<Rightarrow>
     ('w, exn, fetch_response) action" where
  "pinned_fetch exchange target method headers payload timeout max_bytes =
     (let method = map to_upper method in
      if method \<notin> {''GET'', ''HEAD'', ''POST''} then raise (ValueError ''Transport method is not permitted'')
      else if timeout \<le> 0 \<or> max_bytes \<le> 0 then raise (ValueError ''timeout and max_bytes must be positive'')
      else bindA (pureA (urlsplit (rt_url target))) (\<lambda>parsed.
           bindA (pureA (build_wire target method headers payload parsed)) (\<lambda>wire.
           try_addresses (\<lambda>ip.
             bindA (exchange ip (rt_port target)
                      (if u_scheme parsed = ''https'' then Some (rt_host target) else None) wire timeout)
               (\<lambda>raw. pureA (read_response (rt_url target) (nat max_bytes) raw)))
             (rt_ips target))))"

subsection \<open>Addresses\<close>

lemma try_addresses_keeps:
  assumes "\<And>ip. ip \<in> set ips \<Longrightarrow> keeps I (attempt ip)"
  shows "keeps I (try_addresses attempt ips)"
  using assms by (induction ips) (auto intro!: keeps_intros)

lemma try_addresses_spec:
  assumes "\<And>ip. ip \<in> set ips \<Longrightarrow> spec (\<lambda>_. True) (attempt ip) (\<lambda>a _. Q a) (\<lambda>_ _. True)"
  shows "spec (\<lambda>_. True) (try_addresses attempt ips) (\<lambda>a _. Q a) (\<lambda>_ _. True)"
  using assms
proof (induction ips)
  case Nil
  then show ?case by (simp add: spec_def raise_def)
next
  case (Cons ip ips)
  then show ?case unfolding try_addresses.simps
    by (intro spec_catch [where R = "\<lambda>a _. Q a" and F = "\<lambda>_ _. True"] spec_intros) simp_all
qed

text \<open>
  the transport opens connections only to the addresses the guard approved, on the port of the target
  and, for https, under its host name: whatever is unchanged by every exchange with those is unchanged by
  a fetch, also when it raises.
\<close>

theorem fetch_contacts_approved:
  assumes "\<And>ip sni wire. ip \<in> set (rt_ips target) \<Longrightarrow> sni = None \<or> sni = Some (rt_host target) \<Longrightarrow>
      keeps I (exchange ip (rt_port target) sni wire timeout)"
  shows "keeps I (pinned_fetch exchange target method headers payload timeout max_bytes)"
  unfolding pinned_fetch_def
  by (intro keeps_intros try_addresses_keeps assms) auto

text \<open>A network in which every exchange is recorded and the first address refuses the connection.\<close>

definition demo_exchange :: "(string \<times> nat) list exchange" where
  "demo_exchange ip p sni wire timeout s =
     (if ip = ''1.1.1.1'' then Inl (OSError ''refused'')
      else Inr \<lparr>rw_status = 200, rw_headers = [(''Content-Type'', ''text/html'')], rw_body = ''page''\<rparr>,
      s @ [(ip, p)])"

definition demo_target :: resolved_target where
  "demo_target = \<lparr>rt_url = ''http://ex.com/a'', rt_host = ''ex.com'', rt_port = 80,
     rt_ips = [''1.1.1.1'', ''8.8.8.8'']\<rparr>"

lemma fetch_contacts_approved_witness:
  "list_all (\<lambda>c. fst c \<in> {''1.1.1.1'', ''8.8.8.8''} \<and> snd c = 80)
     (snd (pinned_fetch demo_exchange demo_target ''GET'' [] [] 15 100 []))"
proof -
  have "keeps (list_all (\<lambda>c. fst c \<in> {''1.1.1.1'', ''8.8.8.8''} \<and> snd c = 80))
      (pinned_fetch demo_exchange demo_target ''GET'' [] [] 15 100)"
    by (rule fetch_contacts_approved) (auto simp: keeps_def demo_exchange_def demo_target_def)
  then show ?thesis unfolding keeps_def by simp
qed

subsection \<open>The limit on the body\<close>

lemma read_responseD:
  assumes "read_response url n raw = Inr r"
  shows "length (fr_body r) \<le> n" and "fr_body r = rw_body raw" and "fr_url r = url"
    and "fr_status r = rw_status raw"
  using assms by (auto simp: read_response_def bindE_Inr_iff Let_def split: if_splits)

text \<open>
  a fetch that returns has made a connection whose whole body fits the configured limit, is labelled
  with the normalised URL of the target and keeps the status of the peer: an oversized body is an error,
  never a truncated page.
\<close>

theorem fetch_body_bounded:
  assumes "pinned_fetch exchange target method headers payload timeout max_bytes s = (Inr r, s')"
  shows "int (length (fr_body r)) \<le> max_bytes \<and> fr_url r = rt_url target \<and>
    (\<exists>raw. fr_body r = rw_body raw \<and> fr_status r = rw_status raw \<and>
      (\<exists>ip \<in> set (rt_ips target). \<exists>sni wire u u'.
         exchange ip (rt_port target) sni wire timeout u = (Inr raw, u')))"
proof -
  let ?Q = "\<lambda>r. int (length (fr_body r)) \<le> max_bytes \<and> fr_url r = rt_url target \<and>
    (\<exists>raw. fr_body r = rw_body raw \<and> fr_status r = rw_status raw \<and>
      (\<exists>ip \<in> set (rt_ips target). \<exists>sni wire u u'.
         exchange ip (rt_port target) sni wire timeout u = (Inr raw, u')))"
  have one: "spec (\<lambda>_. True) (bindA (exchange ip (rt_port target) sni wire timeout)
      (\<lambda>raw. pureA (read_response (rt_url target) (nat max_bytes) raw))) (\<lambda>r _. ?Q r) (\<lambda>_ _. True)"
    if "ip \<in> set (rt_ips target)" "0 < max_bytes" for ip sni wire
  proof (rule spec_bind)
    show "spec (\<lambda>_. True) (exchange ip (rt_port target) sni wire timeout)
        (\<lambda>raw _. \<exists>u u'. exchange ip (rt_port target) sni wire timeout u = (Inr raw, u')) (\<lambda>_ _. True)"
      by (rule specI) (auto, metis prod.collapse)
    fix raw
    show "spec (\<lambda>_. \<exists>u u'. exchange ip (rt_port target) sni wire timeout u = (Inr raw, u'))
        (pureA (read_response (rt_url target) (nat max_bytes) raw)) (\<lambda>r _. ?Q r) (\<lambda>_ _. True)"
    proof (intro spec_intros)
      fix r s assume read: "read_response (rt_url target) (nat max_bytes) raw = Inr r"
        and ex: "\<exists>u u'. exchange ip (rt_port target) sni wire timeout u = (Inr raw, u')"
      note facts = read_responseD [OF read]
      have "int (length (fr_body r)) \<le> max_bytes" using facts(1) that(2) by linarith
      with facts(2-4) ex that(1) show "?Q r" by blast
    qed simp
  qed
  have "spec (\<lambda>_. True) (pinned_fetch exchange target method headers payload timeout max_bytes)
      (\<lambda>r _. ?Q r) (\<lambda>_ _. True)"
    unfolding pinned_fetch_def
    by (intro spec_intros spec_bind [where R = "\<lambda>_ _. True"] try_addresses_spec one) auto
  from spec_InrD [OF this _ assms] show ?thesis by simp
qed

lemma fetch_body_bounded_witness:
  "\<exists>r :: fetch_response. fr_body r = ''page'' \<and> int (length (fr_body r)) \<le> 4 \<and> fr_url r = ''http://ex.com/a''"
proof -
  have "case pinned_fetch demo_exchange demo_target ''GET'' [] [] 15 4 [] of
      (Inl e, s) \<Rightarrow> False | (Inr r, s) \<Rightarrow> fr_body r = ''page''"
    by code_simp
  then obtain r s where "pinned_fetch demo_exchange demo_target ''GET'' [] [] 15 4 [] = (Inr r, s)"
    and "fr_body r = ''page''" by (auto split: prod.splits sum.splits)
  with fetch_body_bounded [OF this(1)] show ?thesis by (intro exI [of _ r]) (simp add: demo_target_def)
qed

subsection \<open>The request\<close>

definition no_breaks :: "string \<Rightarrow> bool" where
  "no_breaks s \<longleftrightarrow> CHR 0x0D \<notin> set s \<and> CHR 0x0A \<notin> set s"

lemma no_breaks_append [simp]: "no_breaks (s @ t) \<longleftrightarrow> no_breaks s \<and> no_breaks t"
  by (auto simp: no_breaks_def)

lemma no_breaks_digits: "no_breaks (str_of_nat n)"
  by (auto simp: no_breaks_def dest!: str_of_nat_digits simp: digit_char_def)

definition named :: "string \<Rightarrow> (string \<times> string) list \<Rightarrow> (string \<times> string) list" where
  "named key hs = filter (\<lambda>nv. casefold (fst nv) = key) hs"

lemma named_update: "casefold n \<noteq> key \<Longrightarrow> named key (AList.update n v hs) = named key hs"
  by (induction hs) (auto simp: named_def)

lemma update_fresh: "n \<notin> fst ` set hs \<Longrightarrow> AList.update n v hs = hs @ [(n, v)]"
  by (induction hs) auto

lemma named_fresh: "named (casefold n) hs = [] \<Longrightarrow> AList.update n v hs = hs @ [(n, v)]"
  by (rule update_fresh) (auto simp: named_def filter_empty_conv)

definition clean_headers :: "string \<Rightarrow> (string \<times> string) list \<Rightarrow> bool" where
  "clean_headers hh hs \<longleftrightarrow> (\<forall>nv \<in> set hs. no_breaks (fst nv) \<and> no_breaks (snd nv)) \<and>
     named ''host'' hs = [(''Host'', hh)] \<and> named ''connection'' hs = [(''Connection'', ''close'')] \<and>
     named ''content-length'' hs = [] \<and> named ''transfer-encoding'' hs = []"

lemma base_headers_clean: "no_breaks hh \<Longrightarrow> clean_headers hh (base_headers hh)"
proof -
  assume "no_breaks hh"
  moreover have "list_all (\<lambda>nv. no_breaks (fst nv) \<and> no_breaks (snd nv)) (tl (base_headers []))"
    "named ''host'' (tl (base_headers [])) = []" "named ''connection'' (base_headers []) = [(''Connection'', ''close'')]"
    "named ''content-length'' (base_headers []) = []" "named ''transfer-encoding'' (base_headers []) = []"
    "casefold ''Host'' = ''host''" "no_breaks ''Host''"
    by code_simp+
  ultimately show ?thesis
    by (simp add: clean_headers_def base_headers_def named_def)
qed

lemma set_update: "nv \<in> set (AList.update n v hs) \<Longrightarrow> nv = (n, v) \<or> nv \<in> set hs"
  by (induction hs) (auto split: if_splits)

lemma add_header_clean:
  assumes "add_header hs nv = Inr hs'" and "clean_headers hh hs"
  shows "clean_headers hh hs'"
proof -
  obtain n v where nv: "nv = (n, v)" by fastforce
  from assms(1) have safe: "no_breaks n \<and> no_breaks v"
    and cases: "hs' = hs \<or> hs' = AList.update n v hs \<and> casefold n \<notin> set RESERVED_HEADERS"
    by (auto simp: nv add_header_def bindE_Inr_iff safe_header_def no_breaks_def list_ex_iff split: if_splits)
  from cases show ?thesis
  proof
    assume "hs' = AList.update n v hs \<and> casefold n \<notin> set RESERVED_HEADERS"
    moreover from this have "casefold n \<noteq> ''host''" "casefold n \<noteq> ''connection''"
      "casefold n \<noteq> ''content-length''" "casefold n \<noteq> ''transfer-encoding''"
      by (auto simp: RESERVED_HEADERS_def)
    ultimately show ?thesis using assms(2) safe
      by (auto simp: clean_headers_def named_update dest!: set_update)
  qed (use assms(2) in simp)
qed

lemma urlsplit_no_breaks:
  assumes "urlsplit s = Inr u"
  shows "no_breaks (u_path u)" and "no_breaks (u_query u)"
proof -
  obtain sch s1 n s2 s3 f1 frag path f2 query where
    sch: "split_scheme [] (url_clean s) = (sch, s1)" and n: "split_netloc s1 = (n, s2)"
    and s3: "partition_on CHR ''#'' s2 = (s3, f1, frag)"
    and path: "partition_on CHR ''?'' s3 = (path, f2, query)"
    by (metis prod_cases3 surj_pair)
  from assms sch n s3 path have u: "u_path u = path" "u_query u = query"
    by (auto simp: urlsplit_in_def bindE_Inr_iff)
  have clean: "no_breaks (url_clean s)" by (auto simp: url_clean_def no_breaks_def)
  have "set s1 \<subseteq> set (url_clean s)"
    using sch partition_on_parts(4) [of "CHR '':''" "url_clean s"]
    by (auto simp: split_scheme_def split: prod.splits if_splits)
  moreover have "set s2 \<subseteq> set s1" by (rule split_netlocD(3) [OF n])
  moreover have "set s3 \<subseteq> set s2" by (rule partition_on_parts(3) [OF s3])
  ultimately have sub: "set s3 \<subseteq> set (url_clean s)" by blast
  have "set path \<subseteq> set s3" "set query \<subseteq> set s3" by (rule partition_on_parts(3,4) [OF path])+
  with sub clean show "no_breaks (u_path u)" "no_breaks (u_query u)"
    unfolding u no_breaks_def by blast+
qed

lemma hostname_from_netloc:
  assumes "hostname u = Some h" and "c \<in> set h" and "\<not> lower_char c"
  shows "c \<in> set (u_netloc u)"
proof -
  let ?n = "u_netloc u"
  define hp where "hp = snd (snd (rpartition_on CHR ''@'' ?n))"
  have hp: "set hp \<subseteq> set ?n"
    by (auto simp: hp_def rpartition_on_def dest!: set_takeWhileD split: if_splits)
  obtain pre f rest where b: "partition_on CHR ''['' hp = (pre, f, rest)" by (metis prod_cases3)
  obtain host f' rest' where r: "partition_on CHR '']'' rest = (host, f', rest')" by (metis prod_cases3)
  obtain host2 f2 rest2 where k: "partition_on CHR '':'' hp = (host2, f2, rest2)" by (metis prod_cases3)
  obtain g q where hi: "hostinfo ?n = (g, q)" by fastforce
  have "g = (if f then host else host2)"
    using hi by (simp add: hostinfo_def b r k Let_def flip: hp_def split: if_splits)
  then have g: "set g \<subseteq> set ?n"
    using hp partition_on_parts(4) [OF b] partition_on_parts(3) [OF r] partition_on_parts(3) [OF k]
    by (auto split: if_splits)
  obtain a f3 z where parts: "partition_on CHR ''%'' g = (a, f3, z)" by (metis prod_cases3)
  have h: "h = casefold a @ (if f3 then ''%'' else []) @ z"
    using assms(1) hi parts by (auto simp: hostname_def Let_def split: if_splits)
  from h assms(2) consider "c \<in> set (casefold a)" | "f3 \<and> c = CHR ''%''" | "c \<in> set z"
    by (auto split: if_splits)
  then have "c \<in> set g"
  proof cases
    case 1
    then obtain x where "x \<in> set a" "to_lower x = c" by (auto simp: casefold_def)
    with to_lower_other [OF assms(3), of x] show ?thesis using partition_on_parts(3) [OF parts] by auto
  next
    case 2
    then show ?thesis using partition_on_parts(2) [OF parts] by simp
  next
    case 3
    then show ?thesis using partition_on_parts(4) [OF parts] by auto
  qed
  with g show ?thesis by blast
qed

lemma validate_host_no_breaks:
  assumes "validate resolve g url = Inr t"
  shows "no_breaks (rt_host t)"
proof -
  obtain u h where u: "urlsplit (rt_url t) = Inr u" "hostname u = Some h" "canonical_host h = Inr (rt_host t)"
    using validate_inside [OF assms] by blast
  have "c \<notin> set (rt_host t)" if "c = CHR 0x0D \<or> c = CHR 0x0A" for c
  proof
    assume "c \<in> set (rt_host t)"
    moreover have low: "\<not> lower_char c" using that by (auto simp: lower_char_def)
    ultimately have "c \<in> set h" by (rule in_canonical_host [OF u(3)])
    from hostname_from_netloc [OF u(2) this low] urlsplit_netlocD(1) [OF u(1)] that
    show False by (auto simp: layout_char_def)
  qed
  then show ?thesis by (auto simp: no_breaks_def)
qed

text \<open>
  C12: the request written for a target the guard approved cannot be split or smuggled: its head is the
  request line and one line per header, none with a line break inside, closed by one empty line; it has
  exactly one \<open>Host\<close>, naming the approved host, exactly one \<open>Connection: close\<close>, no transfer encoding,
  and a content length exactly when there is a payload, equal to its size, whatever headers the caller
  gives.
\<close>

theorem wire_not_injectable:
  assumes "validate resolve g url = Inr target" and "urlsplit (rt_url target) = Inr parsed"
    and "no_breaks method" and "build_wire target method headers payload parsed = Inr wire"
  shows "\<exists>hs. wire = concat (map (\<lambda>l. l @ CRLF) (request_line method parsed # map header_line hs)) @ CRLF @ payload \<and>
    list_all no_breaks (request_line method parsed # map header_line hs) \<and>
    named ''host'' hs = [(''Host'', host_header target (u_scheme parsed))] \<and>
    named ''connection'' hs = [(''Connection'', ''close'')] \<and> named ''transfer-encoding'' hs = [] \<and>
    named ''content-length'' hs = (if payload = [] then [] else [(''Content-Length'', str_of_nat (length payload))])"
proof -
  let ?hh = "host_header target (u_scheme parsed)"
  have hh: "no_breaks ?hh"
    using validate_host_no_breaks [OF assms(1)] no_breaks_digits
    by (simp add: host_header_def, simp add: no_breaks_def)
  obtain hs where hs: "foldE add_header (base_headers ?hh) headers = Inr hs"
    and wire: "wire = request_head method parsed
      (if payload = [] then hs else AList.update ''Content-Length'' (str_of_nat (length payload)) hs) @ payload"
    using assms(4) by (auto simp: build_wire_def bindE_Inr_iff Let_def split: if_splits)
  have clean: "clean_headers ?hh hs"
    by (rule foldE_invariant [OF hs, where I = "clean_headers ?hh"])
      (use hh base_headers_clean add_header_clean in blast)+
  let ?hs = "if payload = [] then hs else hs @ [(''Content-Length'', str_of_nat (length payload))]"
  have fold: "casefold ''Content-Length'' = ''content-length''" "no_breaks ''Content-Length''" by code_simp+
  have "AList.update ''Content-Length'' v hs = hs @ [(''Content-Length'', v)]" for v
    using named_fresh [of "''Content-Length''" hs] clean unfolding fold clean_headers_def by blast
  then have w: "wire = request_head method parsed ?hs @ payload" using wire by simp
  have lines: "no_breaks (request_line method parsed)"
    using assms(3) urlsplit_no_breaks [OF assms(2)]
    by (auto simp: request_line_def urlunsplit_def Let_def no_breaks_def)
  have each: "\<forall>nv \<in> set ?hs. no_breaks (header_line nv)"
    using clean fold no_breaks_digits by (auto simp: clean_headers_def header_line_def no_breaks_def)
  show ?thesis
  proof (intro exI conjI)
    show "wire = concat (map (\<lambda>l. l @ CRLF) (request_line method parsed # map header_line ?hs)) @ CRLF @ payload"
      unfolding w request_head_def by (simp add: comp_def)
    show "list_all no_breaks (request_line method parsed # map header_line ?hs)"
      using lines each by (simp add: list_all_iff)
  qed (use clean fold in \<open>auto simp: clean_headers_def named_def\<close>)
qed

definition demo_parsed :: url where
  "demo_parsed = \<lparr>u_scheme = ''https'', u_netloc = ''ex.com'', u_path = ''/a'', u_query = [], u_fragment = []\<rparr>"

definition secure_target :: resolved_target where
  "secure_target = \<lparr>rt_url = ''https://ex.com/a'', rt_host = ''ex.com'', rt_port = 443,
     rt_ips = [''1.1.1.1'', ''8.8.8.8'']\<rparr>"

lemma demo_wire:
  "validate demo_resolver \<lparr>g_domains = [''ex.com''], g_answers = 16\<rparr> ''https://ex.com/a'' = Inr secure_target"
  "urlsplit (rt_url secure_target) = Inr demo_parsed"
  "no_breaks ''GET''"
  "case build_wire secure_target ''GET'' [(''HOST'', ''evil.org''), (''X-A'', ''1'')] [] demo_parsed of
     Inl e \<Rightarrow> False | Inr w \<Rightarrow> prefix ''GET /a HTTP/1.1'' w"
  by code_simp+

lemma wire_not_injectable_witness:
  "\<exists>hs wire. build_wire secure_target ''GET'' [(''HOST'', ''evil.org''), (''X-A'', ''1'')] [] demo_parsed = Inr wire \<and>
     wire = concat (map (\<lambda>l. l @ CRLF) (request_line ''GET'' demo_parsed # map header_line hs)) @ CRLF @ [] \<and>
     list_all no_breaks (request_line ''GET'' demo_parsed # map header_line hs)"
proof -
  obtain wire where w: "build_wire secure_target ''GET'' [(''HOST'', ''evil.org''), (''X-A'', ''1'')] [] demo_parsed = Inr wire"
    using demo_wire(4) by (auto split: sum.splits)
  from wire_not_injectable [OF demo_wire(1) demo_wire(2) demo_wire(3) w] w show ?thesis by blast
qed

end
