(* ===== verification/Robots_Txt.thy ===== *)
theory Robots_Txt
  imports Py_Url
begin

text \<open>
  The part of \<open>urllib.robotparser\<close> (Python 3.12) that \<open>RobotsCache\<close> uses: \<open>RobotFileParser.parse\<close> over
  the lines of a robots.txt file and \<open>can_fetch\<close>. Delays, request rates and site maps are read only for
  their effect on the grouping of lines into entries.
\<close>

subsection \<open>Lines\<close>

definition line_break :: "char \<Rightarrow> bool" where
  "line_break c \<longleftrightarrow> code c \<in> {10, 11, 12, 13, 28, 29, 30}"

fun lines_from :: "string \<Rightarrow> string \<Rightarrow> string list" where
  "lines_from acc [] = (if acc = [] then [] else [rev acc])"
| "lines_from acc [c] = (if line_break c then [rev acc] else [rev (c # acc)])"
| "lines_from acc (c # d # s) =
     (if code c = 13 \<and> code d = 10 then rev acc # lines_from [] s
      else if line_break c then rev acc # lines_from [] (d # s)
      else lines_from (c # acc) (d # s))"

definition splitlines :: "string \<Rightarrow> string list" where
  "splitlines s = lines_from [] s"

subsection \<open>Entries\<close>

record robots_rule =
  rr_path :: string
  rr_allow :: bool

record robots_entry =
  re_agents :: "string list"
  re_rules :: "robots_rule list"

record robots_file =
  rf_entries :: "robots_entry list"
  rf_default :: "robots_entry option"

text \<open>\<open>urlunparse(urlparse(s))\<close>, with the scheme and host dropped or kept.\<close>

definition reparse :: "bool \<Rightarrow> string \<Rightarrow> exn + string" where
  "reparse keep_host s =
     mapR (\<lambda>u. case split_params u of (p, params) \<Rightarrow>
             urlunsplit ((if keep_host then u else u\<lparr>u_scheme := [], u_netloc := []\<rparr>)
               \<lparr>u_path := with_params p params\<rparr>)) (urlsplit s)"

definition rule_line :: "string \<Rightarrow> bool \<Rightarrow> exn + robots_rule" where
  "rule_line path allow =
     mapR (\<lambda>p. \<lparr>rr_path = quote ''/'' p, rr_allow = (path = [] \<or> allow)\<rparr>) (reparse True path)"

definition add_entry :: "robots_entry \<Rightarrow> robots_file \<Rightarrow> robots_file" where
  "add_entry e f =
     (if ''*'' \<in> set (re_agents e)
      then f\<lparr>rf_default := (case rf_default f of None \<Rightarrow> Some e | Some d \<Rightarrow> Some d)\<rparr>
      else f\<lparr>rf_entries := rf_entries f @ [e]\<rparr>)"

definition no_entry :: robots_entry where
  "no_entry = \<lparr>re_agents = [], re_rules = []\<rparr>"

datatype group_state = Outside | Agents | Rules

record robots_parse =
  rp_state :: group_state
  rp_entry :: robots_entry
  rp_file :: robots_file

definition directive :: "string \<Rightarrow> (string \<times> string) option" where
  "directive line =
     (let bare = strip (fst (partition_on CHR ''#'' line)) in
      case partition_on CHR '':'' bare of (key, found, rest) \<Rightarrow>
        if found then Some (casefold (strip key), unquote (strip rest)) else None)"

definition end_group :: "robots_parse \<Rightarrow> robots_parse" where
  "end_group s = (case rp_state s of
       Outside \<Rightarrow> s
     | Agents \<Rightarrow> s\<lparr>rp_entry := no_entry, rp_state := Outside\<rparr>
     | Rules \<Rightarrow> s\<lparr>rp_file := add_entry (rp_entry s) (rp_file s), rp_entry := no_entry, rp_state := Outside\<rparr>)"

definition add_agent :: "string \<Rightarrow> robots_parse \<Rightarrow> robots_parse" where
  "add_agent agent s =
     (let s = (if rp_state s = Rules then end_group s else s)
      in s\<lparr>rp_entry := (rp_entry s)\<lparr>re_agents := re_agents (rp_entry s) @ [agent]\<rparr>, rp_state := Agents\<rparr>)"

definition add_rule :: "string \<Rightarrow> bool \<Rightarrow> robots_parse \<Rightarrow> exn + robots_parse" where
  "add_rule path allow s =
     (if rp_state s = Outside then Inr s
      else mapR (\<lambda>r. s\<lparr>rp_entry := (rp_entry s)\<lparr>re_rules := re_rules (rp_entry s) @ [r]\<rparr>, rp_state := Rules\<rparr>)
             (rule_line path allow))"

definition parse_line :: "robots_parse \<Rightarrow> string \<Rightarrow> exn + robots_parse" where
  "parse_line s line =
     (let s = (if line = [] then end_group s else s) in
      case directive line of None \<Rightarrow> Inr s
      | Some (key, v) \<Rightarrow>
          if key = ''user-agent'' then Inr (add_agent v s)
          else if key = ''disallow'' then add_rule v False s
          else if key = ''allow'' then add_rule v True s
          else if key = ''crawl-delay'' \<or> key = ''request-rate''
          then Inr (if rp_state s = Outside then s else s\<lparr>rp_state := Rules\<rparr>)
          else Inr s)"

definition parse_robots :: "string list \<Rightarrow> exn + robots_file" where
  "parse_robots lines =
     mapR (\<lambda>s. if rp_state s = Rules then add_entry (rp_entry s) (rp_file s) else rp_file s)
       (foldE parse_line
         \<lparr>rp_state = Outside, rp_entry = no_entry, rp_file = \<lparr>rf_entries = [], rf_default = None\<rparr>\<rparr> lines)"

subsection \<open>Permission\<close>

definition rule_applies :: "string \<Rightarrow> robots_rule \<Rightarrow> bool" where
  "rule_applies path r \<longleftrightarrow> rr_path r = ''*'' \<or> prefix (rr_path r) path"

definition entry_applies :: "string \<Rightarrow> robots_entry \<Rightarrow> bool" where
  "entry_applies agent e \<longleftrightarrow>
     (let name = casefold (fst (partition_on CHR ''/'' agent))
      in list_ex (\<lambda>a. a = ''*'' \<or> contains (casefold a) name) (re_agents e))"

definition entry_allows :: "string \<Rightarrow> robots_entry \<Rightarrow> bool" where
  "entry_allows path e = (case find (rule_applies path) (re_rules e) of None \<Rightarrow> True | Some r \<Rightarrow> rr_allow r)"

definition robots_can_fetch :: "robots_file \<Rightarrow> string \<Rightarrow> string \<Rightarrow> exn + bool" where
  "robots_can_fetch f agent url =
     mapR (\<lambda>p. let path = (if quote ''/'' p = [] then ''/'' else quote ''/'' p) in
             case find (entry_applies agent) (rf_entries f) of
               Some e \<Rightarrow> entry_allows path e
             | None \<Rightarrow> (case rf_default f of Some e \<Rightarrow> entry_allows path e | None \<Rightarrow> True))
       (reparse False (unquote url))"

definition demo_robots :: string where
  "demo_robots = ''User-agent: *'' @ [CHR 0x0A] @ ''Allow: /private/ok'' @ [CHR 0x0A] @
     ''Disallow: /private  # closed'' @ [CHR 0x0D, CHR 0x0A]"

lemma demo_robots_checks:
  "bindE (parse_robots (splitlines demo_robots)) (\<lambda>f. robots_can_fetch f ''Bot/1.0'' ''http://e.c/private/x'') = Inr False"
  "bindE (parse_robots (splitlines demo_robots)) (\<lambda>f. robots_can_fetch f ''Bot/1.0'' ''http://e.c/private/ok?a=1'') = Inr True"
  "bindE (parse_robots (splitlines demo_robots)) (\<lambda>f. robots_can_fetch f ''Bot/1.0'' ''http://e.c/'') = Inr True"
  by code_simp+

end
