(* ===== verification/Crawler.thy ===== *)
theory Crawler
  imports Html Transport Robots_Txt
begin

text \<open>
  \<open>RobotsCache\<close> and \<open>BoundedCrawler\<close> of \<open>audit_engine/crawler.py\<close>. The crawler's attributes are the
  record \<open>crawler_state\<close>, the local variables of \<open>crawl\<close> the record \<open>crawl_run\<close>; every method is an action
  over one of them. What lies outside the program is a record of parameters \<open>crawl_env\<close> over a world
  \<open>'w\<close>: the transport, the DNS answers (which may differ from call to call), the clock, the sleep, the
  text decoding, the HTML tokenizer, the JSON parser and SHA-256. Floats are binary64 values.
\<close>

subsection \<open>Configuration\<close>

record crawl_config =
  cc_allowed_domains :: "string list"
  cc_max_pages :: int
  cc_max_depth :: int
  cc_max_duration :: rat
  cc_timeout :: rat
  cc_max_body :: int
  cc_max_robots :: int
  cc_max_redirects :: int
  cc_min_delay :: rat
  cc_user_agent :: string
  cc_obey_robots :: bool
  cc_backoff :: rat
  cc_max_delay :: rat
  cc_max_retry_after :: rat

definition check_crawl_config :: "crawl_config \<Rightarrow> exn + unit" where
  "check_crawl_config c = raise_first [
     (cc_allowed_domains c = [], ValueError ''allowed_domains cannot be empty''),
     (cc_max_pages c < 1 \<or> cc_max_depth c < 0 \<or> cc_max_redirects c < 0, ValueError ''Crawler budgets are invalid''),
     (min (min (cc_max_duration c) (cc_timeout c)) (min (of_int (cc_max_body c)) (of_int (cc_max_robots c))) \<le> 0,
        ValueError ''Crawler time and byte limits must be positive''),
     (cc_min_delay c < 0, ValueError ''Host delay cannot be negative''),
     (cc_backoff c < 1, ValueError ''Challenge backoff multiplier must be at least 1''),
     (cc_max_delay c < cc_min_delay c, ValueError ''max_host_delay_seconds cannot be below min_host_delay_seconds''),
     (cc_max_retry_after c < 0, ValueError ''max_retry_after_seconds cannot be negative'')]"

definition default_config :: "string list \<Rightarrow> crawl_config" where
  "default_config domains = \<lparr>cc_allowed_domains = domains, cc_max_pages = 250, cc_max_depth = 5,
     cc_max_duration = 900, cc_timeout = 15, cc_max_body = 5000000, cc_max_robots = 512000,
     cc_max_redirects = 5, cc_min_delay = 1 / 2, cc_user_agent = ''TrafficRadiusEvidenceBot/1.0'',
     cc_obey_robots = True, cc_backoff = 4, cc_max_delay = 8, cc_max_retry_after = 30\<rparr>"

subsection \<open>Environment and state\<close>

record 'w crawl_env =
  env_fetch :: "resolved_target \<Rightarrow> (string \<times> string) list \<Rightarrow> rat \<Rightarrow> int \<Rightarrow> ('w, exn, fetch_response) action"
  env_resolve :: "'w \<Rightarrow> resolver"
  env_monotonic :: "'w \<Rightarrow> rat \<times> 'w"
  env_sleep :: "rat \<Rightarrow> 'w \<Rightarrow> 'w"
  env_decode :: decoder
  env_tokens :: "string \<Rightarrow> exn + html_event list"
  env_loads :: "string \<Rightarrow> json_node option"
  env_sha256 :: "string \<Rightarrow> string"

datatype policy = Fixed bool | Parsed robots_file

record 'w crawler_state =
  cw_world :: 'w
  cw_policies :: "string \<rightharpoonup> policy"
  cw_last :: "string \<rightharpoonup> rat"
  cw_delay :: "string \<rightharpoonup> rat"

definition new_crawler :: "'w \<Rightarrow> 'w crawler_state" where
  "new_crawler w = \<lparr>cw_world = w, cw_policies = Map.empty, cw_last = Map.empty, cw_delay = Map.empty\<rparr>"

definition on_world :: "('w, 'e, 'a) action \<Rightarrow> ('w crawler_state, 'e, 'a) action" where
  "on_world m s = (case m (cw_world s) of (r, w) \<Rightarrow> (r, s\<lparr>cw_world := w\<rparr>))"

definition clock :: "'w crawl_env \<Rightarrow> ('w crawler_state, 'e, rat) action" where
  "clock env = on_world (\<lambda>w. case env_monotonic env w of (t, w') \<Rightarrow> (Inr t, w'))"

definition pause :: "'w crawl_env \<Rightarrow> rat \<Rightarrow> ('w crawler_state, 'e, unit) action" where
  "pause env d = on_world (modifyA (env_sleep env d))"

definition failing :: "('s, exn, 'a) action \<Rightarrow> ('s, fetch_error, 'a) action" where
  "failing m = catchA m (\<lambda>e. raise (Failed e)) ret"

definition guarded_fetch ::
    "'w crawl_env \<Rightarrow> crawl_config \<Rightarrow> ssrf_guard \<Rightarrow> string \<Rightarrow> int \<Rightarrow> ('w crawler_state, exn, fetch_response) action" where
  "guarded_fetch env cfg g url max_bytes =
     bindA (gets (\<lambda>s. validate (env_resolve env (cw_world s)) g url)) (\<lambda>checked.
     bindA (pureA checked) (\<lambda>target.
     on_world (env_fetch env target [(''User-Agent'', cc_user_agent cfg)] (cc_timeout cfg) max_bytes)))"

subsection \<open>Robots\<close>

fun robots_failure :: "exn \<Rightarrow> bool" where
  "robots_failure (CrawlError m) = True"
| "robots_failure (ResponseTooLarge m) = True"
| "robots_failure (UnsafeHTTPResponse m) = True"
| "robots_failure (URLValidationError m) = True"
| "robots_failure (SSRFBlockedError m) = True"
| "robots_failure (OSError m) = True"
| "robots_failure e = False"

definition policy_of :: "'w crawl_env \<Rightarrow> fetch_response \<Rightarrow> exn + policy" where
  "policy_of env response =
     (if 200 \<le> fr_status response \<and> fr_status response < 300
      then bindE (env_decode env ''utf-8'' (fr_body response)) (\<lambda>text.
           mapR Parsed (parse_robots (splitlines text)))
      else if fr_status response = 429 \<or> 500 \<le> fr_status response then Inr (Fixed False)
      else Inr (Fixed True))"

definition load_policy ::
    "'w crawl_env \<Rightarrow> crawl_config \<Rightarrow> ssrf_guard \<Rightarrow> string \<Rightarrow> ('w crawler_state, exn, policy) action" where
  "load_policy env cfg g origin =
     catchA (guarded_fetch env cfg g (origin @ ''/robots.txt'') (cc_max_robots cfg))
       (\<lambda>e. if robots_failure e then ret (Fixed False) else raise e)
       (\<lambda>response. pureA (policy_of env response))"

definition apply_policy :: "crawl_config \<Rightarrow> string \<Rightarrow> policy \<Rightarrow> exn + bool" where
  "apply_policy cfg url p = (case p of Fixed b \<Rightarrow> Inr b | Parsed f \<Rightarrow> robots_can_fetch f (cc_user_agent cfg) url)"

definition can_fetch ::
    "'w crawl_env \<Rightarrow> crawl_config \<Rightarrow> ssrf_guard \<Rightarrow> string \<Rightarrow> ('w crawler_state, exn, bool) action" where
  "can_fetch env cfg g url =
     (if \<not> cc_obey_robots cfg then ret True
      else bindA (pureA (urlsplit url)) (\<lambda>parsed.
        let origin = urlunsplit (parsed\<lparr>u_path := [], u_query := [], u_fragment := []\<rparr>) in
        bindA (gets (\<lambda>s. cw_policies s origin)) (\<lambda>known.
        bindA (case known of Some p \<Rightarrow> ret p
               | None \<Rightarrow> bindA (load_policy env cfg g origin) (\<lambda>p.
                   bindA (modifyA (\<lambda>s. s\<lparr>cw_policies := (cw_policies s)(origin \<mapsto> p)\<rparr>)) (\<lambda>_. ret p)))
          (\<lambda>p. pureA (apply_policy cfg url p)))))"

subsection \<open>Host delays\<close>

definition host_of :: "string \<Rightarrow> exn + string" where
  "host_of url = mapR (\<lambda>u. casefold (u_netloc u)) (urlsplit url)"

definition host_delay :: "crawl_config \<Rightarrow> 'w crawler_state \<Rightarrow> string \<Rightarrow> rat" where
  "host_delay cfg s host = opt_or (cc_min_delay cfg) (cw_delay s host)"

definition widened_delay :: "crawl_config \<Rightarrow> rat \<Rightarrow> rat" where
  "widened_delay cfg current =
     (let widened = fmul (max current (cc_min_delay cfg)) (cc_backoff cfg);
          widened = (if widened \<le> 0 then min 1 (cc_max_delay cfg) else widened)
      in min widened (cc_max_delay cfg))"

definition apply_backoff :: "crawl_config \<Rightarrow> string \<Rightarrow> ('w crawler_state, 'e, rat) action" where
  "apply_backoff cfg host =
     bindA (gets (\<lambda>s. widened_delay cfg (host_delay cfg s host))) (\<lambda>delay.
     bindA (modifyA (\<lambda>s. s\<lparr>cw_delay := (cw_delay s)(host \<mapsto> delay)\<rparr>)) (\<lambda>_. ret delay))"

definition mark_request :: "'w crawl_env \<Rightarrow> string \<Rightarrow> ('w crawler_state, 'e, unit) action" where
  "mark_request env host = bindA (clock env) (\<lambda>t. modifyA (\<lambda>s. s\<lparr>cw_last := (cw_last s)(host \<mapsto> t)\<rparr>))"

definition throttle :: "'w crawl_env \<Rightarrow> crawl_config \<Rightarrow> string \<Rightarrow> ('w crawler_state, exn, unit) action" where
  "throttle env cfg url =
     bindA (pureA (host_of url)) (\<lambda>host.
     bindA (clock env) (\<lambda>now.
     bindA (gets (\<lambda>s. (cw_last s host, host_delay cfg s host))) (\<lambda>(last_request, delay).
     bindA (case last_request of None \<Rightarrow> ret ()
            | Some t \<Rightarrow> let remaining = fsub delay (fsub now t) in
                if 0 < remaining then pause env remaining else ret ()) (\<lambda>_.
     mark_request env host))))"

subsection \<open>Redirects\<close>

type_synonym fetched = "fetch_response \<times> string list \<times> nat"

definition REDIRECT_CODES :: "int list" where
  "REDIRECT_CODES = [301, 302, 303, 307, 308]"

definition fetch_page ::
    "'w crawl_env \<Rightarrow> crawl_config \<Rightarrow> ssrf_guard \<Rightarrow> string \<Rightarrow> ('w crawler_state, fetch_error, fetch_response \<times> nat) action" where
  "fetch_page env cfg g url =
     bindA (failing (can_fetch env cfg g url)) (\<lambda>permitted.
     if \<not> permitted then raise (Failed (CrawlError ''robots.txt does not permit this URL''))
     else bindA (failing (throttle env cfg url)) (\<lambda>_.
          bindA (clock env) (\<lambda>started.
          bindA (failing (guarded_fetch env cfg g url (cc_max_body cfg))) (\<lambda>response.
          bindA (clock env) (\<lambda>ended.
          ret (response, nat (rhe (fmul (fsub ended started) 1000))))))))"

definition location_of :: "fetch_response \<Rightarrow> fetch_error + string" where
  "location_of response =
     (case header ''location'' response of
        None \<Rightarrow> Inl (Failed (CrawlError ''Redirect response is missing Location''))
      | Some l \<Rightarrow> if l = [] then Inl (Failed (CrawlError ''Redirect response is missing Location'')) else Inr l)"

definition follow ::
    "'w crawl_env \<Rightarrow> ssrf_guard \<Rightarrow> string list \<Rightarrow> string \<Rightarrow> string \<Rightarrow> ('w crawler_state, fetch_error, string) action" where
  "follow env g chain current location =
     bindA (gets (\<lambda>s. validate_redirect (env_resolve env (cw_world s)) g current location)) (\<lambda>checked.
     bindA (failing (pureA checked)) (\<lambda>target.
     if rt_url target \<in> set chain then raise (Failed (CrawlError ''Redirect loop detected'')) else ret (rt_url target)))"

fun fetch_hops ::
    "'w crawl_env \<Rightarrow> crawl_config \<Rightarrow> ssrf_guard \<Rightarrow> nat \<Rightarrow> string \<Rightarrow> string list \<Rightarrow>
     ('w crawler_state, fetch_error, fetched) action" where
  "fetch_hops env cfg g 0 current chain =
     bindA (fetch_page env cfg g current) (\<lambda>(response, ms).
     if fr_status response \<notin> set REDIRECT_CODES
     then bindA (pureA (raise_for_challenge (env_decode env) response chain ms)) (\<lambda>_. ret (response, chain, ms))
     else bindA (pureA (location_of response)) (\<lambda>_. raise (Failed (CrawlError ''Redirect limit exceeded''))))"
| "fetch_hops env cfg g (Suc n) current chain =
     bindA (fetch_page env cfg g current) (\<lambda>(response, ms).
     if fr_status response \<notin> set REDIRECT_CODES
     then bindA (pureA (raise_for_challenge (env_decode env) response chain ms)) (\<lambda>_. ret (response, chain, ms))
     else bindA (pureA (location_of response)) (\<lambda>location.
          bindA (follow env g chain current location) (\<lambda>next_url.
          fetch_hops env cfg g n next_url (chain @ [next_url]))))"

definition fetch_following_redirects ::
    "'w crawl_env \<Rightarrow> crawl_config \<Rightarrow> ssrf_guard \<Rightarrow> string \<Rightarrow> ('w crawler_state, fetch_error, fetched) action" where
  "fetch_following_redirects env cfg g url = fetch_hops env cfg g (nat (cc_max_redirects cfg)) url [url]"

subsection \<open>What requests leave unchanged\<close>

text \<open>
  The interface between the crawler and the world it acts on: an invariant that every fetch of a target
  approved by the guard, every reading of the clock and every sleep keeps. Robots files, redirects and
  pages are fetched through the same guard, so every action of the crawler keeps it.
\<close>

locale crawl_world =
  fixes env :: "'w crawl_env" and g :: ssrf_guard and I :: "'w \<Rightarrow> bool"
  assumes fetch_keeps: "validate (env_resolve env w) g url = Inr target \<Longrightarrow> keeps I (env_fetch env target hs timeout n)"
    and clock_keeps: "I w \<Longrightarrow> I (snd (env_monotonic env w))"
    and sleep_keeps: "I w \<Longrightarrow> I (env_sleep env d w)"
begin

lemma on_world_keeps: "keeps I m \<Longrightarrow> keeps (\<lambda>s. I (cw_world s)) (on_world m)"
  by (auto simp: keeps_def on_world_def split: prod.split)

lemma clock_action: "keeps (\<lambda>s. I (cw_world s)) (clock env)"
  unfolding clock_def by (intro on_world_keeps keepsI) (auto split: prod.split dest: clock_keeps)

lemma pause_action: "keeps (\<lambda>s. I (cw_world s)) (pause env d)"
  unfolding pause_def by (intro on_world_keeps keeps_intros sleep_keeps)

lemma guarded_fetch_action: "keeps (\<lambda>s. I (cw_world s)) (guarded_fetch env cfg g url n)"
  unfolding guarded_fetch_def
  by (intro keeps_intros on_world_keeps) (auto simp: gets_def pureA_def intro: fetch_keeps)

lemma failing_action: "keeps J m \<Longrightarrow> keeps J (failing m)"
  unfolding failing_def by (intro keeps_intros)

lemma mark_request_action: "keeps (\<lambda>s. I (cw_world s)) (mark_request env host)"
  unfolding mark_request_def by (intro keeps_intros clock_action) simp

lemma backoff_action: "keeps (\<lambda>s. I (cw_world s)) (apply_backoff cfg host)"
  unfolding apply_backoff_def by (intro keeps_intros) simp

lemma can_fetch_action: "keeps (\<lambda>s. I (cw_world s)) (can_fetch env cfg g url)"
  unfolding can_fetch_def load_policy_def by (intro keeps_intros guarded_fetch_action) simp

lemma throttle_action: "keeps (\<lambda>s. I (cw_world s)) (throttle env cfg url)"
  unfolding throttle_def by (intro keeps_intros clock_action pause_action mark_request_action)

lemma fetch_page_action: "keeps (\<lambda>s. I (cw_world s)) (fetch_page env cfg g url)"
  unfolding fetch_page_def
  by (intro keeps_intros failing_action can_fetch_action throttle_action guarded_fetch_action clock_action)

lemma follow_action: "keeps (\<lambda>s. I (cw_world s)) (follow env g chain current location)"
  unfolding follow_def by (intro keeps_intros failing_action)

lemma fetch_hops_action: "keeps (\<lambda>s. I (cw_world s)) (fetch_hops env cfg g n current chain)"
  by (induction n arbitrary: current chain)
    (auto intro!: keeps_intros fetch_page_action follow_action)

lemma fetch_redirects_action: "keeps (\<lambda>s. I (cw_world s)) (fetch_following_redirects env cfg g url)"
  unfolding fetch_following_redirects_def by (rule fetch_hops_action)

end

subsection \<open>The pinned transport as the world of the crawler\<close>

text \<open>
  The crawler's default transport is \<open>PinnedHTTPTransport\<close>. The network below it is any \<open>exchange\<close> with
  any DNS, clock and decoders; a log records the address and port of every connection.
\<close>

type_synonym 'n logged = "(string \<times> nat) list \<times> 'n"

definition logging :: "'n exchange \<Rightarrow> 'n logged exchange" where
  "logging ex ip p sni wire timeout w =
     (case ex ip p sni wire timeout (snd w) of (r, n) \<Rightarrow> (r, (fst w @ [(ip, p)], n)))"

definition pinned_env :: "'n crawl_env \<Rightarrow> 'n exchange \<Rightarrow> 'n logged crawl_env" where
  "pinned_env net ex =
     \<lparr>env_fetch = (\<lambda>target headers. pinned_fetch (logging ex) target ''GET'' headers []),
      env_resolve = (\<lambda>w. env_resolve net (snd w)),
      env_monotonic = (\<lambda>w. case env_monotonic net (snd w) of (t, n) \<Rightarrow> (t, (fst w, n))),
      env_sleep = (\<lambda>d w. (fst w, env_sleep net d (snd w))),
      env_decode = env_decode net, env_tokens = env_tokens net, env_loads = env_loads net,
      env_sha256 = env_sha256 net\<rparr>"

definition public_address :: "string \<Rightarrow> bool" where
  "public_address ip \<longleftrightarrow> (\<exists>a. ip = ip_text a \<and> is_global a)"

definition public_log :: "'n logged \<Rightarrow> bool" where
  "public_log w \<longleftrightarrow> (\<forall>c \<in> set (fst w). public_address (fst c))"

lemma validated_addresses:
  assumes "validate resolve g url = Inr t" and "ip \<in> set (rt_ips t)"
  shows "public_address ip"
proof -
  obtain answers ips where "collect_ips [] (slice_to (g_answers g) answers) = Inr ips" "rt_ips t = sorted_set ips"
    by (rule validateD [OF assms(1)])
  with collect_ips_Inr [OF this(1)] assms(2) show ?thesis unfolding public_address_def
    by auto (metis is_public_ipD option.inject)
qed

lemma pinned_fetch_keeps:
  assumes "\<And>ip sni wire. ip \<in> set (rt_ips target) \<Longrightarrow> keeps I (exchange ip (rt_port target) sni wire timeout)"
  shows "keeps I (pinned_fetch exchange target method headers payload timeout n)"
  unfolding pinned_fetch_def by (intro keeps_intros try_addresses_keeps assms) auto

interpretation pinned: crawl_world "pinned_env net ex" g public_log
  for net :: "'n crawl_env" and ex :: "'n exchange" and g
proof
  fix w :: "'n logged" and url target hs timeout n
  assume ok: "validate (env_resolve (pinned_env net ex) w) g url = Inr target"
  have "keeps public_log (logging ex ip (rt_port target) sni wire timeout)" if "ip \<in> set (rt_ips target)" for ip sni wire
    using validated_addresses [OF ok that]
    by (auto simp: keeps_def logging_def public_log_def split: prod.split)
  then show "keeps public_log (env_fetch (pinned_env net ex) target hs timeout n)"
    by (auto simp: pinned_env_def intro: pinned_fetch_keeps)
qed (auto simp: pinned_env_def public_log_def split: prod.split)

subsection \<open>Host delays\<close>

definition float_config :: "crawl_config \<Rightarrow> bool" where
  "float_config c \<longleftrightarrow> fl (cc_min_delay c) = cc_min_delay c \<and> fl (cc_backoff c) = cc_backoff c \<and>
     fl (cc_max_delay c) = cc_max_delay c"

definition delays_ok :: "crawl_config \<Rightarrow> 'w crawler_state \<Rightarrow> bool" where
  "delays_ok cfg s \<longleftrightarrow> (\<forall>host d. cw_delay s host = Some d \<longrightarrow>
     cc_min_delay cfg \<le> d \<and> d \<le> cc_max_delay cfg \<and> fl d = d)"

lemma host_delay_range:
  assumes "check_crawl_config cfg = Inr ()" and "float_config cfg" and "delays_ok cfg s"
  shows "cc_min_delay cfg \<le> host_delay cfg s host" and "host_delay cfg s host \<le> cc_max_delay cfg"
    and "fl (host_delay cfg s host) = host_delay cfg s host"
  using assms unfolding check_crawl_config_def raise_first_Inr_iff
  by (cases "cw_delay s host"; auto simp: host_delay_def float_config_def delays_ok_def)+

text \<open>
  backing off a host never shortens its delay, never exceeds the configured maximum, makes the delay
  positive whenever that maximum is, and leaves the delays of the other hosts alone; it keeps every recorded
  delay between the configured bounds.
\<close>

theorem backoff_widens:
  assumes "check_crawl_config cfg = Inr ()" and "float_config cfg" and "delays_ok cfg s"
  shows "\<exists>d s'. apply_backoff cfg host s = (Inr d :: exn + rat, s') \<and> host_delay cfg s' host = d \<and>
    host_delay cfg s host \<le> d \<and> d \<le> cc_max_delay cfg \<and> (0 < cc_max_delay cfg \<longrightarrow> 0 < d) \<and>
    delays_ok cfg s' \<and> (\<forall>h. h \<noteq> host \<longrightarrow> host_delay cfg s' h = host_delay cfg s h)"
proof -
  let ?c = "host_delay cfg s host" and ?d = "widened_delay cfg (host_delay cfg s host)"
  note range = host_delay_range [OF assms]
  have cfg: "0 \<le> cc_min_delay cfg" "1 \<le> cc_backoff cfg" "cc_min_delay cfg \<le> cc_max_delay cfg"
    using assms(1) unfolding check_crawl_config_def raise_first_Inr_iff by auto
  have nonneg: "0 \<le> ?c" by (rule order_trans [OF cfg(1) range(1)])
  have "max ?c (cc_min_delay cfg) = ?c" using range(1) by simp
  moreover have "?c \<le> fmul ?c (cc_backoff cfg)"
  proof -
    have "?c * 1 \<le> ?c * cc_backoff cfg" using cfg nonneg by (intro mult_left_mono) auto
    then have "fl ?c \<le> fl (?c * cc_backoff cfg)" by (intro fl_mono) simp
    then show ?thesis by (simp add: range(3) fmul_def)
  qed
  ultimately have d: "?c \<le> ?d" "?d \<le> cc_max_delay cfg" "0 < cc_max_delay cfg \<Longrightarrow> 0 < ?d"
    using range(2) nonneg by (auto simp: widened_delay_def Let_def)
  have "fl (1 :: rat) = 1" using fl_of_nat [of 1] by simp
  then have fl: "fl ?d = ?d"
    using assms(2) by (auto simp: widened_delay_def Let_def float_config_def fmul_def min_def)
  have run: "apply_backoff cfg host s = (Inr ?d, s\<lparr>cw_delay := (cw_delay s)(host \<mapsto> ?d)\<rparr>)"
    by (simp add: apply_backoff_def action_defs)
  show ?thesis unfolding run
  proof (intro exI conjI refl)
    show "delays_ok cfg (s\<lparr>cw_delay := (cw_delay s)(host \<mapsto> ?d)\<rparr>)"
      using assms(3) d fl order_trans [OF range(1) d(1)] by (auto simp: delays_ok_def)
  qed (use d in \<open>auto simp: host_delay_def\<close>)
qed

lemma demo_config: "check_crawl_config (default_config [''e.c'']) = Inr ()" "float_config (default_config [''e.c''])"
  by code_simp+

lemma backoff_widens_witness:
  "\<exists>d s'. apply_backoff (default_config [''e.c'']) ''e.c'' (new_crawler ()) = (Inr d :: exn + rat, s') \<and>
    1 / 2 \<le> d \<and> d \<le> 8 \<and> host_delay (default_config [''e.c'']) s' ''f.c'' = 1 / 2"
proof -
  have "delays_ok (default_config [''e.c'']) (new_crawler ())" by (simp add: delays_ok_def new_crawler_def)
  from backoff_widens [OF demo_config this, of "''e.c''"] obtain d s' where
    r: "apply_backoff (default_config [''e.c'']) ''e.c'' (new_crawler ()) = (Inr d :: exn + rat, s')"
    "host_delay (default_config [''e.c'']) (new_crawler ()) ''e.c'' \<le> d" "d \<le> cc_max_delay (default_config [''e.c''])"
    "\<forall>h. h \<noteq> ''e.c'' \<longrightarrow> host_delay (default_config [''e.c'']) s' h = host_delay (default_config [''e.c'']) (new_crawler ()) h"
    by blast
  have "''f.c'' \<noteq> ''e.c''" by simp
  with r(4) have "host_delay (default_config [''e.c'']) s' ''f.c'' = 1 / 2"
    by (simp add: host_delay_def new_crawler_def default_config_def)
  moreover from r have "1 / 2 \<le> d" "d \<le> 8"
    by (simp_all add: host_delay_def new_crawler_def default_config_def)
  ultimately show ?thesis using r(1) by blast
qed

subsection \<open>The redirect chain\<close>

definition inside_url :: "ssrf_guard \<Rightarrow> string \<Rightarrow> bool" where
  "inside_url g url \<longleftrightarrow> (\<exists>u. urlsplit url = Inr u \<and> inside_domains (g_domains g) u)"

lemma redirect_target_inside:
  assumes "validate_redirect resolve g current location = Inr t"
  shows "inside_url g (rt_url t)"
proof -
  obtain target where "validate resolve g target = Inr t"
    using assms by (auto simp: validate_redirect_def bindE_Inr_iff split: if_splits)
  from validate_inside [OF this] show ?thesis by (auto simp: inside_url_def)
qed

lemma follow_spec:
  "spec (\<lambda>_. True) (follow env g chain current location)
     (\<lambda>u _. u \<notin> set chain \<and> inside_url g u) (\<lambda>_ _. True)"
  unfolding follow_def
proof (rule spec_bind)
  show "spec (\<lambda>_. True) (gets (\<lambda>s. validate_redirect (env_resolve env (cw_world s)) g current location))
      (\<lambda>checked _. \<forall>t. checked = Inr t \<longrightarrow> inside_url g (rt_url t)) (\<lambda>_ _. True)"
    by (intro spec_gets) (auto intro: redirect_target_inside)
  fix checked :: "exn + resolved_target"
  show "spec (\<lambda>_. \<forall>t. checked = Inr t \<longrightarrow> inside_url g (rt_url t))
      (bindA (failing (pureA checked)) (\<lambda>target. if rt_url target \<in> set chain
         then raise (Failed (CrawlError ''Redirect loop detected'')) else ret (rt_url target)))
      (\<lambda>u _. u \<notin> set chain \<and> inside_url g u) (\<lambda>_ _. True)"
    by (cases checked) (auto simp: spec_def action_defs failing_def)
qed

definition good_chain :: "ssrf_guard \<Rightarrow> nat \<Rightarrow> string list \<Rightarrow> string list \<Rightarrow> bool" where
  "good_chain g n chain chain' \<longleftrightarrow> distinct chain' \<and> hd chain' = hd chain \<and>
     length chain' \<le> length chain + n \<and> list_all (inside_url g) (tl chain')"

definition final_response :: "decoder \<Rightarrow> fetched \<Rightarrow> bool" where
  "final_response decode f = (case f of (response, chain, ms) \<Rightarrow>
     fr_status response \<notin> set REDIRECT_CODES \<and> raise_for_challenge decode response chain ms = Inr ())"

lemma fetch_page_spec: "spec (\<lambda>_. True) (fetch_page env cfg g url) (\<lambda>_ _. True) (\<lambda>_ _. True)"
  by (rule specI) simp_all

lemma finish_spec:
  assumes "fr_status response \<notin> set REDIRECT_CODES" and "good_chain g n chain0 chain"
  shows "spec (\<lambda>_. True) (bindA (pureA (raise_for_challenge decode response chain ms)) (\<lambda>_. ret (response, chain, ms)))
    (\<lambda>f _. good_chain g n chain0 (fst (snd f)) \<and> final_response decode f) (\<lambda>_ _. True)"
  using assms by (cases "raise_for_challenge decode response chain ms")
    (simp_all add: spec_def action_defs final_response_def)

lemma fetch_hops_spec:
  assumes "chain \<noteq> []" and "distinct chain" and "list_all (inside_url g) (tl chain)"
  shows "spec (\<lambda>_. True) (fetch_hops env cfg g n current chain)
    (\<lambda>f _. good_chain g n chain (fst (snd f)) \<and> final_response (env_decode env) f) (\<lambda>_ _. True)"
  using assms
proof (induction n arbitrary: current chain)
  case 0
  then have chain: "good_chain g 0 chain chain" by (simp add: good_chain_def)
  show ?case unfolding fetch_hops.simps
  proof (intro spec_bind [OF fetch_page_spec] spec_prod spec_if finish_spec chain)
    fix response show "spec (\<lambda>_. True) (bindA (pureA (location_of response))
        (\<lambda>_. raise (Failed (CrawlError ''Redirect limit exceeded''))))
        (\<lambda>f _. good_chain g 0 chain (fst (snd f)) \<and> final_response (env_decode env) f) (\<lambda>_ _. True)"
      by (cases "location_of response") (simp_all add: spec_def action_defs)
  qed simp
next
  case (Suc n)
  then have chain: "good_chain g (Suc n) chain chain" by (simp add: good_chain_def)
  have step: "spec (\<lambda>_. True) (fetch_hops env cfg g n u (chain @ [u]))
      (\<lambda>f _. good_chain g (Suc n) chain (fst (snd f)) \<and> final_response (env_decode env) f) (\<lambda>_ _. True)"
    if "u \<notin> set chain \<and> inside_url g u" for u
  proof (rule spec_weaken [OF Suc.IH [of "chain @ [u]" u]])
    show "good_chain g (Suc n) chain (fst (snd f)) \<and> final_response (env_decode env) f"
      if "good_chain g n (chain @ [u]) (fst (snd f)) \<and> final_response (env_decode env) f" for f
      using that Suc.prems(1) by (simp add: good_chain_def)
  qed (use Suc.prems that in auto)
  show ?case unfolding fetch_hops.simps
  proof (intro spec_bind [OF fetch_page_spec] spec_prod spec_if finish_spec chain)
    fix response
    have "spec (\<lambda>_. True) (bindA (follow env g chain current location) (\<lambda>u. fetch_hops env cfg g n u (chain @ [u])))
        (\<lambda>f _. good_chain g (Suc n) chain (fst (snd f)) \<and> final_response (env_decode env) f) (\<lambda>_ _. True)" for location
    proof (rule spec_bind [OF follow_spec])
      fix u show "spec (\<lambda>_. u \<notin> set chain \<and> inside_url g u) (fetch_hops env cfg g n u (chain @ [u]))
          (\<lambda>f _. good_chain g (Suc n) chain (fst (snd f)) \<and> final_response (env_decode env) f) (\<lambda>_ _. True)"
        by (rule spec_fact) (auto intro: spec_weaken [OF step])
    qed
    then show "spec (\<lambda>_. True) (bindA (pureA (location_of response)) (\<lambda>location.
        bindA (follow env g chain current location) (\<lambda>u. fetch_hops env cfg g n u (chain @ [u]))))
        (\<lambda>f _. good_chain g (Suc n) chain (fst (snd f)) \<and> final_response (env_decode env) f) (\<lambda>_ _. True)"
      by (rule spec_bind [where R = "\<lambda>_ _. True", rotated]) (simp add: spec_def pureA_def split: sum.split)
  qed simp
qed

text \<open>
  C11: a fetch that returns followed a chain of redirects that starts at the requested URL, repeats no URL,
  has at most the configured number of hops and stays inside the approved domains; its last response is
  neither a redirect nor a challenge.
\<close>

theorem redirect_chain_bounded:
  assumes "fetch_following_redirects env cfg g url s = (Inr (response, chain, ms), s')"
  shows "hd chain = url \<and> distinct chain \<and> length chain \<le> nat (cc_max_redirects cfg) + 1 \<and>
    list_all (inside_url g) (tl chain) \<and> fr_status response \<notin> {301, 302, 303, 307, 308} \<and>
    raise_for_challenge (env_decode env) response chain ms = Inr ()"
proof -
  have "spec (\<lambda>_. True) (fetch_following_redirects env cfg g url)
    (\<lambda>f _. good_chain g (nat (cc_max_redirects cfg)) [url] (fst (snd f)) \<and> final_response (env_decode env) f)
    (\<lambda>_ _. True)"
    unfolding fetch_following_redirects_def by (rule fetch_hops_spec) simp_all
  from spec_InrD [OF this TrueI assms] show ?thesis
    by (simp add: good_chain_def final_response_def REDIRECT_CODES_def)
qed

text \<open>A site of three pages, the first of which redirects to the second; time stands still.\<close>

definition demo_env :: "unit crawl_env" where
  "demo_env = \<lparr>
     env_fetch = (\<lambda>t hs timeout n w.
       (if rt_url t = ''http://ex.com/'' then
          Inr \<lparr>fr_status = 301, fr_headers = [(''location'', ''/b'')], fr_body = [], fr_url = rt_url t\<rparr>
        else if rt_url t = ''http://ex.com/robots.txt'' then
          Inr \<lparr>fr_status = 404, fr_headers = [], fr_body = [], fr_url = rt_url t\<rparr>
        else if rt_url t = ''http://ex.com/b'' then
          Inr \<lparr>fr_status = 200, fr_headers = [(''content-type'', ''text/html'')], fr_body = ''page'', fr_url = rt_url t\<rparr>
        else Inr \<lparr>fr_status = 429, fr_headers = [(''retry-after'', ''5'')], fr_body = [], fr_url = rt_url t\<rparr>, w)),
     env_resolve = (\<lambda>w. demo_resolver), env_monotonic = (\<lambda>w. (0, w)), env_sleep = (\<lambda>d w. w),
     env_decode = (\<lambda>charset body. Inr body),
     env_tokens = (\<lambda>text. Inr [Start_tag ''a'' [(''href'', Some ''/c'')], Data text, End_tag ''a'']),
     env_loads = (\<lambda>s. None), env_sha256 = (\<lambda>body. ''sha'')\<rparr>"

definition demo_guard :: ssrf_guard where
  "demo_guard = \<lparr>g_domains = [''ex.com''], g_answers = 16\<rparr>"

lemma demo_fetch:
  "case fetch_following_redirects demo_env (default_config [''ex.com'']) demo_guard ''http://ex.com/'' (new_crawler ()) of
     (Inl e, s) \<Rightarrow> False | (Inr (r, chain, ms), s) \<Rightarrow> chain = [''http://ex.com/'', ''http://ex.com/b''] \<and> fr_status r = 200"
  by code_simp

lemma redirect_chain_bounded_witness:
  "\<exists>chain. chain = [''http://ex.com/'', ''http://ex.com/b''] \<and> distinct chain \<and>
     length chain \<le> nat (cc_max_redirects (default_config [''ex.com''])) + 1 \<and> list_all (inside_url demo_guard) (tl chain)"
proof -
  obtain r chain ms s where f: "fetch_following_redirects demo_env (default_config [''ex.com'']) demo_guard
      ''http://ex.com/'' (new_crawler ()) = (Inr (r, chain, ms), s)"
    and "chain = [''http://ex.com/'', ''http://ex.com/b'']"
    using demo_fetch by (auto split: prod.splits sum.splits)
  with redirect_chain_bounded [OF f] show ?thesis by blast
qed

subsection \<open>Robots\<close>

definition origin_of :: "url \<Rightarrow> string" where
  "origin_of u = urlunsplit (u\<lparr>u_path := [], u_query := [], u_fragment := []\<rparr>)"

lemma can_fetch_known:
  assumes "cc_obey_robots cfg" and "urlsplit url = Inr u" and "cw_policies s (origin_of u) = Some p"
  shows "can_fetch env cfg g url s = (apply_policy cfg url p, s)"
  using assms by (cases "apply_policy cfg url p")
    (simp_all add: can_fetch_def action_defs origin_of_def Let_def)

lemma fetch_page_denied:
  assumes "can_fetch env cfg g url s = (Inr False, s')"
  shows "fetch_page env cfg g url s = (Inl (Failed (CrawlError ''robots.txt does not permit this URL'')), s')"
  using assms by (simp add: fetch_page_def failing_def action_defs)


definition closed_env :: "unit crawl_env" where
  "closed_env = demo_env\<lparr>env_fetch := (\<lambda>t hs timeout n w. (Inl (OSError ''timed out''), w))\<rparr>"

lemma closed_env_fetch:
  "case urlsplit ''http://ex.com/b'' of Inl e \<Rightarrow> False | Inr u \<Rightarrow> origin_of u = ''http://ex.com''"
  "case guarded_fetch closed_env (default_config [''ex.com'']) demo_guard (''http://ex.com'' @ ''/robots.txt'')
      (cc_max_robots (default_config [''ex.com''])) (new_crawler ()) of
     (Inl (OSError m), s) \<Rightarrow> True | _ \<Rightarrow> False"
  by code_simp+


end
