(* ===== verification/Crawl.thy ===== *)
theory Crawl
  imports Crawler
begin

text \<open>
  \<open>BoundedCrawler.crawl\<close>: the records it returns, one action \<open>crawl_step\<close> per turn of its loop (the budget
  checks, the fetch, the requeue after a challenge, the parsing of the page and the queueing of its links)
  and the loop itself, a \<open>partial_function\<close> whose result \<open>None\<close> would mean that it does not return.
\<close>

subsection \<open>Results\<close>

record crawled_page =
  cp_requested_url :: string
  cp_final_url :: string
  cp_status_code :: int
  cp_content_type :: "string option"
  cp_body_sha256 :: string
  cp_title :: "string option"
  cp_meta_description :: "string option"
  cp_h1 :: "string list"
  cp_canonical_url :: "string option"
  cp_robots_directives :: "string list"
  cp_links :: "string list"
  cp_redirect_chain :: "string list"
  cp_word_count :: "nat option"
  cp_body_bytes :: nat
  cp_response_ms :: "nat option"
  cp_images_total :: nat
  cp_images_missing_alt :: nat
  cp_schema_types :: "string list"
  cp_h2 :: "string list"
  cp_external_links :: "string list"
  cp_og_title :: bool
  cp_og_description :: bool
  cp_lang :: "string option"
  cp_viewport :: bool
  cp_hreflang_count :: nat
  cp_analytics_tags :: "string list"
  cp_challenge :: bool
  cp_challenge_kind :: "string option"
  cp_retry_after :: "nat option"

record crawl_failure =
  cf_url :: string
  cf_code :: string
  cf_message :: string
  cf_challenge :: bool
  cf_challenge_kind :: "string option"
  cf_retry_after :: "nat option"

record crawl_result =
  cx_result_pages :: "crawled_page list"
  cx_result_failures :: "crawl_failure list"
  cx_discovered_count :: nat
  cx_stopped_reason :: string
  cx_challenged_count :: nat
  cx_rate_limited_count :: nat

subsection \<open>The variables of the loop\<close>

record 'w crawl_run =
  cr_state :: "'w crawler_state"
  cr_queue :: "(string \<times> int) list"
  cr_discovered :: "string list"
  cr_pages :: "crawled_page list"
  cr_failures :: "crawl_failure list"
  cr_retried :: "string list"

definition on_state :: "('w crawler_state, 'e, 'a) action \<Rightarrow> ('w crawl_run, 'e, 'a) action" where
  "on_state m r = (case m (cr_state r) of (x, s) \<Rightarrow> (x, r\<lparr>cr_state := s\<rparr>))"

definition add_failure :: "crawl_failure \<Rightarrow> ('w crawl_run, 'e, unit) action" where
  "add_failure f = modifyA (\<lambda>r. r\<lparr>cr_failures := cr_failures r @ [f]\<rparr>)"

definition add_crawled :: "crawled_page \<Rightarrow> ('w crawl_run, 'e, unit) action" where
  "add_crawled p = modifyA (\<lambda>r. r\<lparr>cr_pages := cr_pages r @ [p]\<rparr>)"

fun exn_name :: "exn \<Rightarrow> string" where
  "exn_name (ValueError m) = ''ValueError''"
| "exn_name (URLValidationError m) = ''URLValidationError''"
| "exn_name (SSRFBlockedError m) = ''SSRFBlockedError''"
| "exn_name (ContractError m) = ''ContractError''"
| "exn_name (RuntimeError m) = ''RuntimeError''"
| "exn_name (CrawlError m) = ''CrawlError''"
| "exn_name (ResponseTooLarge m) = ''ResponseTooLarge''"
| "exn_name (UnsafeHTTPResponse m) = ''UnsafeHTTPResponse''"
| "exn_name (OSError m) = ''OSError''"
| "exn_name (AssertionError m) = ''AssertionError''"
| "exn_name (OtherError name m) = name"

definition plain_failure :: "string \<Rightarrow> string \<Rightarrow> string \<Rightarrow> crawl_failure" where
  "plain_failure url failure_code message = \<lparr>cf_url = url, cf_code = failure_code, cf_message = message,
     cf_challenge = False, cf_challenge_kind = None, cf_retry_after = None\<rparr>"

subsection \<open>Challenges\<close>

text \<open>\<open>float(n)\<close> of an integer: above the largest binary64 value it raises.\<close>

definition float_of_nat :: "nat \<Rightarrow> exn + rat" where
  "float_of_nat n =
     (if 2 ^ 1024 - 2 ^ 970 \<le> n then Inl (OtherError ''OverflowError'' ''int too large to convert to float'')
      else Inr (fl (of_nat n)))"

definition challenge_wait :: "crawl_config \<Rightarrow> nat option \<Rightarrow> exn + rat" where
  "challenge_wait cfg retry_after = (case retry_after of None \<Rightarrow> Inr 0
     | Some n \<Rightarrow> mapR (\<lambda>f. min f (cc_max_retry_after cfg)) (float_of_nat n))"

definition requeue_after_challenge ::
    "'w crawl_env \<Rightarrow> crawl_config \<Rightarrow> rat \<Rightarrow> string \<Rightarrow> int \<Rightarrow> challenge \<Rightarrow> ('w crawl_run, exn, bool) action" where
  "requeue_after_challenge env cfg started url depth err =
     bindA (pureA (host_of url)) (\<lambda>host.
     bindA (on_state (apply_backoff cfg host)) (\<lambda>_.
     bindA (gets cr_retried) (\<lambda>retried.
     if url \<in> set retried then ret False
     else bindA (pureA (challenge_wait cfg (ch_retry_after err))) (\<lambda>wait.
       bindA (on_state (clock env)) (\<lambda>now.
       if fsub (cc_max_duration cfg) (fsub now started) \<le> wait then ret False
       else bindA (if 0 < wait
                   then bindA (on_state (pause env wait)) (\<lambda>_. on_state (mark_request env host)) else ret ()) (\<lambda>_.
            bindA (modifyA (\<lambda>r. r\<lparr>cr_retried := url # cr_retried r, cr_queue := cr_queue r @ [(url, depth)]\<rparr>)) (\<lambda>_.
            ret True)))))))"

definition challenged_page :: "'w crawl_env \<Rightarrow> string \<Rightarrow> challenge \<Rightarrow> crawled_page" where
  "challenged_page env url err =
     (let body = (case ch_response err of None \<Rightarrow> [] | Some r \<Rightarrow> fr_body r) in
      \<lparr>cp_requested_url = url,
       cp_final_url = (case ch_response err of None \<Rightarrow> url | Some r \<Rightarrow> fr_url r),
       cp_status_code = (case ch_response err of None \<Rightarrow> 429 | Some r \<Rightarrow> fr_status r),
       cp_content_type = (case ch_response err of None \<Rightarrow> None | Some r \<Rightarrow> header ''content-type'' r),
       cp_body_sha256 = env_sha256 env body, cp_title = None, cp_meta_description = None, cp_h1 = [],
       cp_canonical_url = None, cp_robots_directives = [], cp_links = [],
       cp_redirect_chain = (if ch_redirect_chain err = [] then [url] else ch_redirect_chain err),
       cp_word_count = None, cp_body_bytes = length body, cp_response_ms = ch_response_ms err,
       cp_images_total = 0, cp_images_missing_alt = 0, cp_schema_types = [], cp_h2 = [],
       cp_external_links = [], cp_og_title = False, cp_og_description = False, cp_lang = None,
       cp_viewport = False, cp_hreflang_count = 0, cp_analytics_tags = [], cp_challenge = True,
       cp_challenge_kind = Some (ch_kind err), cp_retry_after = ch_retry_after err\<rparr>)"

definition challenge_failure :: "string \<Rightarrow> challenge \<Rightarrow> crawl_failure" where
  "challenge_failure url err = \<lparr>cf_url = url, cf_code = ''challenge_response'',
     cf_message = ''Origin returned a '' @ ch_kind err @ '' response; the URL was quarantined.'',
     cf_challenge = True, cf_challenge_kind = Some (ch_kind err), cf_retry_after = ch_retry_after err\<rparr>"

definition handle_fetch_error ::
    "'w crawl_env \<Rightarrow> crawl_config \<Rightarrow> rat \<Rightarrow> string \<Rightarrow> int \<Rightarrow> fetch_error \<Rightarrow> ('w crawl_run, exn, unit) action" where
  "handle_fetch_error env cfg started requested depth err = (case err of
       Challenged c \<Rightarrow>
         bindA (requeue_after_challenge env cfg started requested depth c) (\<lambda>again.
         if again then ret ()
         else bindA (add_crawled (challenged_page env requested c)) (\<lambda>_.
              add_failure (challenge_failure requested c)))
     | Failed e \<Rightarrow> add_failure (plain_failure requested ''fetch_failed'' (exn_name e)))"

subsection \<open>Pages\<close>

definition HTML_TYPES :: "string list" where
  "HTML_TYPES = [''text/html'', ''application/xhtml+xml'']"

definition parse_error :: "exn \<Rightarrow> bool" where
  "parse_error e \<longleftrightarrow> is_value_error e \<or> (case e of OtherError name m \<Rightarrow> name = ''TypeError'' | _ \<Rightarrow> False)"

text \<open>The document, its word count, the analytics tags, and whether the parse failed.\<close>

definition parse_page ::
    "'w crawl_env \<Rightarrow> crawl_config \<Rightarrow> fetch_response \<Rightarrow> exn + parsed_document \<times> nat option \<times> string list \<times> bool" where
  "parse_page env cfg response =
     (let content_type = header ''content-type'' response in
      if media_type content_type \<notin> set HTML_TYPES then Inr (empty_document, None, [], False)
      else bindE (decode_body (env_decode env) content_type (fr_body response)) (\<lambda>text.
        tryE parse_error
          (bindE (env_tokens env text) (\<lambda>events.
             document_result (fr_url response) (cc_allowed_domains cfg) (feed (env_loads env) events)))
          (\<lambda>_. Inr (empty_document, None, detect_analytics_tags text, True))
          (\<lambda>d. Inr (d, Some (pd_word_count d), detect_analytics_tags text, False))))"

definition content_page ::
    "'w crawl_env \<Rightarrow> string \<Rightarrow> fetched \<Rightarrow> parsed_document \<Rightarrow> nat option \<Rightarrow> string list \<Rightarrow> crawled_page" where
  "content_page env requested fetched d words tags = (case fetched of (response, chain, ms) \<Rightarrow>
     \<lparr>cp_requested_url = requested, cp_final_url = fr_url response, cp_status_code = fr_status response,
      cp_content_type = header ''content-type'' response, cp_body_sha256 = env_sha256 env (fr_body response),
      cp_title = pd_title d, cp_meta_description = pd_meta_description d, cp_h1 = pd_h1 d,
      cp_canonical_url = pd_canonical_url d, cp_robots_directives = pd_robots_directives d,
      cp_links = pd_links d, cp_redirect_chain = chain, cp_word_count = words,
      cp_body_bytes = length (fr_body response), cp_response_ms = Some ms,
      cp_images_total = pd_images_total d, cp_images_missing_alt = pd_images_missing_alt d,
      cp_schema_types = pd_schema_types d, cp_h2 = pd_h2 d, cp_external_links = pd_external_links d,
      cp_og_title = pd_og_title d, cp_og_description = pd_og_description d, cp_lang = pd_lang d,
      cp_viewport = pd_viewport d, cp_hreflang_count = pd_hreflang_count d, cp_analytics_tags = tags,
      cp_challenge = False, cp_challenge_kind = None, cp_retry_after = None\<rparr>)"

fun enqueue :: "int \<Rightarrow> string list \<Rightarrow> (string \<times> int) list \<times> string list \<Rightarrow> (string \<times> int) list \<times> string list" where
  "enqueue depth [] qd = qd"
| "enqueue depth (link # links) (queue, discovered) =
     enqueue depth links
       (if link \<in> set discovered then (queue, discovered) else (queue @ [(link, depth)], link # discovered))"

definition queue_links :: "int \<Rightarrow> string list \<Rightarrow> ('w crawl_run, 'e, unit) action" where
  "queue_links depth links = modifyA (\<lambda>r. case enqueue depth links (cr_queue r, cr_discovered r) of
     (queue, discovered) \<Rightarrow> r\<lparr>cr_queue := queue, cr_discovered := discovered\<rparr>)"

definition handle_response ::
    "'w crawl_env \<Rightarrow> crawl_config \<Rightarrow> string \<Rightarrow> int \<Rightarrow> fetched \<Rightarrow> ('w crawl_run, exn, unit) action" where
  "handle_response env cfg requested depth fetched =
     bindA (pureA (parse_page env cfg (fst fetched))) (\<lambda>(d, words, tags, failed).
     bindA (if failed then add_failure (plain_failure requested ''html_parse_failed'' ''HTML parse failed safely'')
            else ret ()) (\<lambda>_.
     bindA (add_crawled (content_page env requested fetched d words tags)) (\<lambda>_.
     if depth < cc_max_depth cfg then queue_links (depth + 1) (pd_links d) else ret ())))"

subsection \<open>The loop\<close>

text \<open>One turn: \<open>Some reason\<close> when the loop ends, \<open>None\<close> when it goes on.\<close>

definition crawl_step ::
    "'w crawl_env \<Rightarrow> crawl_config \<Rightarrow> ssrf_guard \<Rightarrow> rat \<Rightarrow> ('w crawl_run, exn, string option) action" where
  "crawl_step env cfg g started =
     bindA (gets cr_queue) (\<lambda>queue. case queue of [] \<Rightarrow> ret (Some ''queue_exhausted'')
     | entry # rest \<Rightarrow>
       bindA (gets (\<lambda>r. cc_max_pages cfg \<le> int (length (cr_pages r) + length (cr_failures r)))) (\<lambda>spent.
       if spent then ret (Some ''page_budget_reached'')
       else bindA (on_state (clock env)) (\<lambda>now.
       if cc_max_duration cfg \<le> fsub now started then ret (Some ''duration_budget_reached'')
       else bindA (modifyA (\<lambda>r. r\<lparr>cr_queue := rest\<rparr>)) (\<lambda>_.
            bindA (catchA (on_state (fetch_following_redirects env cfg g (fst entry)))
              (handle_fetch_error env cfg started (fst entry) (snd entry))
              (handle_response env cfg (fst entry) (snd entry))) (\<lambda>_. ret None)))))"

partial_function (option) crawl_loop ::
    "'w crawl_env \<Rightarrow> crawl_config \<Rightarrow> ssrf_guard \<Rightarrow> rat \<Rightarrow> 'w crawl_run \<Rightarrow> ((exn + string) \<times> 'w crawl_run) option" where
  "crawl_loop env cfg g started r = (case crawl_step env cfg g started r of
       (Inl e, r') \<Rightarrow> Some (Inl e, r')
     | (Inr (Some reason), r') \<Rightarrow> Some (Inr reason, r')
     | (Inr None, r') \<Rightarrow> crawl_loop env cfg g started r')"

declare crawl_loop.simps [code]

definition seed_step ::
    "crawl_config \<Rightarrow> (string \<times> int) list \<times> string list \<Rightarrow> string \<Rightarrow> exn + (string \<times> int) list \<times> string list" where
  "seed_step cfg qd seed =
     mapR (\<lambda>url. enqueue 0 [url] qd) (require_allowed_url (cc_allowed_domains cfg) seed)"

definition result_of :: "string \<Rightarrow> 'w crawl_run \<Rightarrow> crawl_result" where
  "result_of reason r =
     (let challenged = filter cp_challenge (cr_pages r) in
      \<lparr>cx_result_pages = cr_pages r, cx_result_failures = cr_failures r,
       cx_discovered_count = length (cr_discovered r), cx_stopped_reason = reason,
       cx_challenged_count = length challenged,
       cx_rate_limited_count = length (filter (\<lambda>p. cp_challenge_kind p = Some RATE_LIMIT_KIND) challenged)\<rparr>)"

definition crawl ::
    "'w crawl_env \<Rightarrow> crawl_config \<Rightarrow> ssrf_guard \<Rightarrow> string list \<Rightarrow> 'w crawler_state \<Rightarrow>
     ((exn + crawl_result) \<times> 'w crawler_state) option" where
  "crawl env cfg g seeds s =
     (if seeds = [] then Some (Inl (ValueError ''At least one crawl seed is required''), s)
      else case foldE (seed_step cfg) ([], []) seeds of
        Inl e \<Rightarrow> Some (Inl e, s)
      | Inr (queue, discovered) \<Rightarrow>
          (case clock env s of (t, s') \<Rightarrow>
           (case t of Inl e \<Rightarrow> Some (Inl e, s')
            | Inr started \<Rightarrow>
                map_option (\<lambda>(outcome, r). (mapR (\<lambda>reason. result_of reason r) outcome, cr_state r))
                  (crawl_loop env cfg g started
                     \<lparr>cr_state = s', cr_queue = queue, cr_discovered = discovered, cr_pages = [],
                      cr_failures = [], cr_retried = []\<rparr>))))"

subsection \<open>The turns of the loop as a step relation\<close>

definition outcomes :: "'w crawl_run \<Rightarrow> nat" where
  "outcomes r = length (cr_pages r) + length (cr_failures r)"

definition next_frontier ::
    "crawl_config \<Rightarrow> int \<Rightarrow> string list \<Rightarrow> (string \<times> int) list \<Rightarrow> string list \<Rightarrow> (string \<times> int) list \<times> string list" where
  "next_frontier cfg depth links rest discovered =
     (if depth < cc_max_depth cfg then enqueue (depth + 1) links (rest, discovered) else (rest, discovered))"

text \<open>
  What a turn does to the variables of the loop: it takes the first entry of the queue, within the page
  budget, and either requeues it once after a challenge, quarantines it, records a failure, or records a
  page with, at most, the failure of its parse, and queues the new links of the page.
\<close>

inductive turn :: "'w crawl_env \<Rightarrow> crawl_config \<Rightarrow> 'w crawl_run \<Rightarrow> 'w crawl_run \<Rightarrow> bool"
  for env :: "'w crawl_env" and cfg :: crawl_config where
  requeue: "cr_queue r = (u, d) # rest \<Longrightarrow> int (outcomes r) < cc_max_pages cfg \<Longrightarrow> u \<notin> set (cr_retried r) \<Longrightarrow>
    turn env cfg r (r\<lparr>cr_state := s, cr_queue := rest @ [(u, d)], cr_retried := u # cr_retried r\<rparr>)"
| quarantine: "cr_queue r = (u, d) # rest \<Longrightarrow> int (outcomes r) < cc_max_pages cfg \<Longrightarrow>
    turn env cfg r (r\<lparr>cr_state := s, cr_queue := rest, cr_pages := cr_pages r @ [challenged_page env u c],
      cr_failures := cr_failures r @ [challenge_failure u c]\<rparr>)"
| failed: "cr_queue r = (u, d) # rest \<Longrightarrow> int (outcomes r) < cc_max_pages cfg \<Longrightarrow>
    turn env cfg r (r\<lparr>cr_state := s, cr_queue := rest,
      cr_failures := cr_failures r @ [plain_failure u ''fetch_failed'' name]\<rparr>)"
| crawled: "cr_queue r = (u, d) # rest \<Longrightarrow> int (outcomes r) < cc_max_pages cfg \<Longrightarrow>
    parse_page env cfg (fst f) = Inr (doc, words, tags, bad) \<Longrightarrow>
    next_frontier cfg d (pd_links doc) rest (cr_discovered r) = (queue', discovered') \<Longrightarrow>
    turn env cfg r (r\<lparr>cr_state := s, cr_queue := queue', cr_discovered := discovered',
      cr_pages := cr_pages r @ [content_page env u f doc words tags],
      cr_failures := cr_failures r @
        (if bad then [plain_failure u ''html_parse_failed'' ''HTML parse failed safely''] else [])\<rparr>)"

inductive_cases turnE: "turn env cfg r r'"

definition only_state :: "'w crawl_run \<Rightarrow> 'w crawl_run \<Rightarrow> bool" where
  "only_state r x \<longleftrightarrow> cr_queue x = cr_queue r \<and> cr_retried x = cr_retried r \<and> cr_pages x = cr_pages r \<and>
     cr_failures x = cr_failures r \<and> cr_discovered x = cr_discovered r"

lemma only_stateD: "only_state r x \<Longrightarrow> x = r\<lparr>cr_state := cr_state x\<rparr>"
  by (rule crawl_run.equality) (simp_all add: only_state_def)

lemma only_state_refl [simp]: "only_state r r"
  by (simp add: only_state_def)

lemma on_state_spec: "spec (only_state r) (on_state m) (\<lambda>_. only_state r) (\<lambda>_ _. True)"
  by (simp add: spec_def on_state_def only_state_def split: prod.split sum.split)

lemma on_state_seq:
  "(\<And>a. spec (only_state r) (f a) Q (\<lambda>_ _. True)) \<Longrightarrow> spec (only_state r) (bindA (on_state m) f) Q (\<lambda>_ _. True)"
  by (rule spec_bind [OF on_state_spec])

lemma requeue_spec:
  "spec (only_state r) (requeue_after_challenge env cfg started u d c)
     (\<lambda>again x. if again then u \<notin> set (cr_retried r) \<and>
        only_state (r\<lparr>cr_queue := cr_queue r @ [(u, d)], cr_retried := u # cr_retried r\<rparr>) x
      else only_state r x) (\<lambda>_ _. True)"
proof -
  let ?Q = "\<lambda>again x. if again then u \<notin> set (cr_retried r) \<and>
        only_state (r\<lparr>cr_queue := cr_queue r @ [(u, d)], cr_retried := u # cr_retried r\<rparr>) x
      else only_state r x"
  have no: "spec (only_state r) (ret False) ?Q (\<lambda>_ _. True)" by (intro spec_ret) simp
  have wait: "spec (only_state r) (if 0 < wait
       then bindA (on_state (pause env wait)) (\<lambda>_. on_state (mark_request env host)) else ret ())
     (\<lambda>_. only_state r) (\<lambda>_ _. True)" for wait host
    by (intro spec_if on_state_seq on_state_spec spec_ret) simp
  have yes: "spec (only_state r) (bindA (modifyA (\<lambda>r. r\<lparr>cr_retried := u # cr_retried r,
       cr_queue := cr_queue r @ [(u, d)]\<rparr>)) (\<lambda>_. ret True)) ?Q (\<lambda>_ _. True)" if "u \<notin> set (cr_retried r)"
    using that by (intro spec_modify_bind spec_ret) (auto simp: only_state_def)
  show ?thesis unfolding requeue_after_challenge_def
    by (intro spec_pure_bind on_state_seq spec_gets_bind [where a = "cr_retried r"] spec_if no spec_bind [OF wait] yes)
      (simp_all add: only_state_def)
qed

definition failed_turn :: "'w crawl_env \<Rightarrow> 'w crawl_run \<Rightarrow> string \<Rightarrow> int \<Rightarrow> 'w crawl_run \<Rightarrow> bool" where
  "failed_turn env r u d x \<longleftrightarrow>
     (u \<notin> set (cr_retried r) \<and>
       only_state (r\<lparr>cr_queue := cr_queue r @ [(u, d)], cr_retried := u # cr_retried r\<rparr>) x) \<or>
     (\<exists>c. only_state (r\<lparr>cr_pages := cr_pages r @ [challenged_page env u c],
            cr_failures := cr_failures r @ [challenge_failure u c]\<rparr>) x) \<or>
     (\<exists>name. only_state (r\<lparr>cr_failures := cr_failures r @ [plain_failure u ''fetch_failed'' name]\<rparr>) x)"

lemma error_spec:
  "spec (only_state r) (handle_fetch_error env cfg started u d err) (\<lambda>_. failed_turn env r u d) (\<lambda>_ _. True)"
proof (cases err)
  case (Failed e)
  then show ?thesis unfolding handle_fetch_error_def add_failure_def
    by (auto simp: failed_turn_def only_state_def intro!: spec_modify)
next
  case (Challenged c)
  have rest: "spec (\<lambda>x. if again then u \<notin> set (cr_retried r) \<and>
        only_state (r\<lparr>cr_queue := cr_queue r @ [(u, d)], cr_retried := u # cr_retried r\<rparr>) x
      else only_state r x)
      (if again then ret () else bindA (add_crawled (challenged_page env u c)) (\<lambda>_. add_failure (challenge_failure u c)))
      (\<lambda>_. failed_turn env r u d) (\<lambda>_ _. True)" for again
  proof (cases again)
    case True
    then show ?thesis by (auto simp: failed_turn_def intro!: spec_ret)
  next
    case False
    show ?thesis unfolding add_crawled_def add_failure_def
      using False by (auto simp: spec_def modifyA_def failed_turn_def only_state_def)
  qed
  show ?thesis unfolding handle_fetch_error_def Challenged fetch_error.case
    by (rule spec_bind [OF requeue_spec rest])
qed

definition crawled_turn ::
    "'w crawl_env \<Rightarrow> crawl_config \<Rightarrow> 'w crawl_run \<Rightarrow> string \<Rightarrow> int \<Rightarrow> fetched \<Rightarrow> 'w crawl_run \<Rightarrow> bool" where
  "crawled_turn env cfg r u d f x \<longleftrightarrow>
     (\<exists>doc words tags bad queue' discovered'. parse_page env cfg (fst f) = Inr (doc, words, tags, bad) \<and>
        next_frontier cfg d (pd_links doc) (cr_queue r) (cr_discovered r) = (queue', discovered') \<and>
        only_state (r\<lparr>cr_queue := queue', cr_discovered := discovered',
          cr_pages := cr_pages r @ [content_page env u f doc words tags],
          cr_failures := cr_failures r @
            (if bad then [plain_failure u ''html_parse_failed'' ''HTML parse failed safely''] else [])\<rparr>) x)"

lemma response_spec:
  "spec (only_state r) (handle_response env cfg u d f) (\<lambda>_. crawled_turn env cfg r u d f) (\<lambda>_ _. True)"
proof (cases "parse_page env cfg (fst f)")
  case (Inl e)
  then show ?thesis by (auto simp: handle_response_def intro!: spec_raise)
next
  case (Inr out)
  obtain doc words tags bad where out: "out = (doc, words, tags, bad)" by (metis prod_cases4)
  obtain queue' discovered' where frontier: "next_frontier cfg d (pd_links doc) (cr_queue r) (cr_discovered r) = (queue', discovered')"
    by fastforce
  have run: "handle_response env cfg u d f x = (Inr (), x\<lparr>
      cr_failures := cr_failures x @ (if bad then [plain_failure u ''html_parse_failed'' ''HTML parse failed safely''] else []),
      cr_pages := cr_pages x @ [content_page env u f doc words tags],
      cr_queue := fst (next_frontier cfg d (pd_links doc) (cr_queue x) (cr_discovered x)),
      cr_discovered := snd (next_frontier cfg d (pd_links doc) (cr_queue x) (cr_discovered x))\<rparr>)" for x
    by (simp add: handle_response_def Inr out add_failure_def add_crawled_def queue_links_def next_frontier_def
        ret_def modifyA_def split: prod.split)
  show ?thesis
    using frontier Inr out by (auto simp: spec_def run crawled_turn_def only_state_def)
qed

lemma failed_turnD:
  assumes "failed_turn env (r\<lparr>cr_queue := rest\<rparr>) u d x" and "cr_queue r = (u, d) # rest"
    and "int (outcomes r) < cc_max_pages cfg"
  shows "turn env cfg r x"
  using assms(1) unfolding failed_turn_def
proof (elim disjE exE conjE)
  assume "u \<notin> set (cr_retried (r\<lparr>cr_queue := rest\<rparr>))"
    "only_state (r\<lparr>cr_queue := rest, cr_queue := cr_queue (r\<lparr>cr_queue := rest\<rparr>) @ [(u, d)],
      cr_retried := u # cr_retried (r\<lparr>cr_queue := rest\<rparr>)\<rparr>) x"
  then have "u \<notin> set (cr_retried r)"
    and x: "x = r\<lparr>cr_state := cr_state x, cr_queue := rest @ [(u, d)], cr_retried := u # cr_retried r\<rparr>"
    by (auto simp: only_state_def)
  then show ?thesis using turn.requeue [OF assms(2,3)] by metis
next
  fix c assume "only_state (r\<lparr>cr_queue := rest, cr_pages := cr_pages (r\<lparr>cr_queue := rest\<rparr>) @ [challenged_page env u c],
      cr_failures := cr_failures (r\<lparr>cr_queue := rest\<rparr>) @ [challenge_failure u c]\<rparr>) x"
  then have "x = r\<lparr>cr_state := cr_state x, cr_queue := rest, cr_pages := cr_pages r @ [challenged_page env u c],
      cr_failures := cr_failures r @ [challenge_failure u c]\<rparr>" by (auto simp: only_state_def)
  then show ?thesis using turn.quarantine [OF assms(2,3)] by metis
next
  fix name assume "only_state (r\<lparr>cr_queue := rest,
      cr_failures := cr_failures (r\<lparr>cr_queue := rest\<rparr>) @ [plain_failure u ''fetch_failed'' name]\<rparr>) x"
  then have "x = r\<lparr>cr_state := cr_state x, cr_queue := rest,
      cr_failures := cr_failures r @ [plain_failure u ''fetch_failed'' name]\<rparr>" by (auto simp: only_state_def)
  then show ?thesis using turn.failed [OF assms(2,3)] by metis
qed

lemma crawled_turnD:
  assumes "crawled_turn env cfg (r\<lparr>cr_queue := rest\<rparr>) u d f x" and "cr_queue r = (u, d) # rest"
    and "int (outcomes r) < cc_max_pages cfg"
  shows "turn env cfg r x"
proof -
  obtain doc words tags bad queue' discovered' where
    p: "parse_page env cfg (fst f) = Inr (doc, words, tags, bad)"
    and n: "next_frontier cfg d (pd_links doc) rest (cr_discovered r) = (queue', discovered')"
    and x: "only_state (r\<lparr>cr_queue := queue', cr_discovered := discovered',
          cr_pages := cr_pages r @ [content_page env u f doc words tags],
          cr_failures := cr_failures r @
            (if bad then [plain_failure u ''html_parse_failed'' ''HTML parse failed safely''] else [])\<rparr>) x"
    using assms(1) unfolding crawled_turn_def by auto
  have "x = r\<lparr>cr_state := cr_state x, cr_queue := queue', cr_discovered := discovered',
          cr_pages := cr_pages r @ [content_page env u f doc words tags],
          cr_failures := cr_failures r @
            (if bad then [plain_failure u ''html_parse_failed'' ''HTML parse failed safely''] else [])\<rparr>"
    using x by (auto simp: only_state_def)
  then show ?thesis using turn.crawled [OF assms(2,3) p n] by metis
qed

definition stopped :: "crawl_config \<Rightarrow> string \<Rightarrow> 'w crawl_run \<Rightarrow> bool" where
  "stopped cfg reason r \<longleftrightarrow>
     reason = ''queue_exhausted'' \<and> cr_queue r = [] \<or>
     reason = ''page_budget_reached'' \<and> cc_max_pages cfg \<le> int (outcomes r) \<or>
     reason = ''duration_budget_reached'' \<and> cr_queue r \<noteq> []"

lemma step_spec:
  "spec (only_state r) (crawl_step env cfg g started)
     (\<lambda>stop x. case stop of
         None \<Rightarrow> turn env cfg r x
       | Some reason \<Rightarrow> only_state r x \<and> stopped cfg reason r) (\<lambda>_ _. True)"
  (is "spec _ _ ?Q _")
proof (cases "cr_queue r")
  case Nil
  then show ?thesis unfolding crawl_step_def
    by (intro spec_gets_bind [where a = "[]"]) (auto simp: only_state_def stopped_def intro!: spec_ret)
next
  case (Cons entry rest)
  obtain u d where entry: "entry = (u, d)" by fastforce
  have turn: "spec (only_state (r\<lparr>cr_queue := rest\<rparr>))
      (catchA (on_state (fetch_following_redirects env cfg g u)) (handle_fetch_error env cfg started u d)
        (handle_response env cfg u d)) (\<lambda>_ x. turn env cfg r x) (\<lambda>_ _. True)"
    if "int (outcomes r) < cc_max_pages cfg"
  proof (rule spec_catch [where R = "\<lambda>_. only_state (r\<lparr>cr_queue := rest\<rparr>)" and F = "\<lambda>_. only_state (r\<lparr>cr_queue := rest\<rparr>)"])
    show "spec (only_state (r\<lparr>cr_queue := rest\<rparr>)) (on_state (fetch_following_redirects env cfg g u))
        (\<lambda>_. only_state (r\<lparr>cr_queue := rest\<rparr>)) (\<lambda>_. only_state (r\<lparr>cr_queue := rest\<rparr>))"
      by (simp add: spec_def on_state_def only_state_def split: prod.split sum.split)
    show "spec (only_state (r\<lparr>cr_queue := rest\<rparr>)) (handle_response env cfg u d f) (\<lambda>_ x. turn env cfg r x) (\<lambda>_ _. True)" for f
      by (rule spec_weaken [OF response_spec]) (use crawled_turnD [where r = r and rest = rest and u = u and d = d and f = f] Cons entry that in auto)
    show "spec (only_state (r\<lparr>cr_queue := rest\<rparr>)) (handle_fetch_error env cfg started u d e) (\<lambda>_ x. turn env cfg r x) (\<lambda>_ _. True)" for e
      by (rule spec_weaken [OF error_spec]) (use failed_turnD [where r = r and rest = rest and u = u and d = d] Cons entry that in auto)
  qed
  have stop: "spec (only_state r) (ret (Some reason)) ?Q (\<lambda>_ _. True)"
    if "stopped cfg reason r" for reason
    using that by (intro spec_ret) simp
  have go: "spec (only_state (r\<lparr>cr_queue := rest\<rparr>)) (bindA (catchA (on_state (fetch_following_redirects env cfg g u))
      (handle_fetch_error env cfg started u d) (handle_response env cfg u d)) (\<lambda>_. ret None)) ?Q (\<lambda>_ _. True)"
    if "int (outcomes r) < cc_max_pages cfg"
    by (rule spec_bind [OF turn [OF that]]) (intro spec_ret, simp)
  show ?thesis unfolding crawl_step_def
  proof (rule spec_gets_bind [where a = "cr_queue r"])
    show "spec (only_state r) (case cr_queue r of [] \<Rightarrow> ret (Some ''queue_exhausted'')
     | entry # rest \<Rightarrow>
       bindA (gets (\<lambda>r. cc_max_pages cfg \<le> int (length (cr_pages r) + length (cr_failures r)))) (\<lambda>spent.
       if spent then ret (Some ''page_budget_reached'')
       else bindA (on_state (clock env)) (\<lambda>now.
       if cc_max_duration cfg \<le> fsub now started then ret (Some ''duration_budget_reached'')
       else bindA (modifyA (\<lambda>r. r\<lparr>cr_queue := rest\<rparr>)) (\<lambda>_.
            bindA (catchA (on_state (fetch_following_redirects env cfg g (fst entry)))
              (handle_fetch_error env cfg started (fst entry) (snd entry))
              (handle_response env cfg (fst entry) (snd entry))) (\<lambda>_. ret None))))) ?Q (\<lambda>_ _. True)"
      unfolding Cons list.case entry fst_conv snd_conv
      by (intro spec_gets_bind [where a = "cc_max_pages cfg \<le> int (outcomes r)"] spec_if on_state_seq stop
          spec_modify_bind [where P' = "only_state (r\<lparr>cr_queue := rest\<rparr>)"] go)
        (auto simp: only_state_def outcomes_def stopped_def Cons)
  qed (simp add: only_state_def)
qed

lemma crawl_loop_runs:
  assumes "crawl_loop env cfg g started r = Some (Inr reason, r')"
  shows "\<exists>x. (turn env cfg)\<^sup>*\<^sup>* r x \<and> only_state x r' \<and> stopped cfg reason x"
proof -
  have "\<forall>reason r'. y = (Inr reason, r') \<longrightarrow> (\<exists>x. (turn env cfg)\<^sup>*\<^sup>* r x \<and> only_state x r' \<and> stopped cfg reason x)"
    if "crawl_loop env cfg g started r = Some y" for y
  proof (rule crawl_loop.raw_induct [OF _ that])
    fix loop env cfg g started r y
    assume IH: "\<And>env cfg g started r y. loop env cfg g started r = Some y \<Longrightarrow>
        \<forall>reason r'. y = (Inr reason, r') \<longrightarrow> (\<exists>x. (turn env cfg)\<^sup>*\<^sup>* r x \<and> only_state x r' \<and> stopped cfg reason x)"
      and body: "(case crawl_step env cfg g started r of (Inl e, r') \<Rightarrow> Some (Inl e, r')
         | (Inr None, r') \<Rightarrow> loop env cfg g started r' | (Inr (Some reason), r') \<Rightarrow> Some (Inr reason, r')) = Some y"
    obtain o1 x1 where step: "crawl_step env cfg g started r = (o1, x1)" by fastforce
    show "\<forall>reason r'. y = (Inr reason, r') \<longrightarrow> (\<exists>x. (turn env cfg)\<^sup>*\<^sup>* r x \<and> only_state x r' \<and> stopped cfg reason x)"
    proof (cases o1)
      case (Inr stop)
      note post = spec_InrD [OF step_spec only_state_refl step [unfolded Inr]]
      show ?thesis
      proof (cases stop)
        case None
        with post have turn: "turn env cfg r x1" by simp
        have "loop env cfg g started x1 = Some y" using body step Inr None by simp
        from IH [OF this] turn show ?thesis by (blast intro: converse_rtranclp_into_rtranclp)
      next
        case (Some reason)
        with post body step Inr show ?thesis by auto
      qed
    qed (use body step in auto)
  qed
  with assms show ?thesis by blast
qed

subsection \<open>The frontier\<close>

lemma enqueue_new:
  assumes "enqueue depth links (q, disc) = (q', disc')"
  shows "\<exists>new. distinct new \<and> set new = set links - set disc \<and> q' = q @ map (\<lambda>l. (l, depth)) new \<and> disc' = rev new @ disc"
  using assms
proof (induction links arbitrary: q disc)
  case Nil
  then show ?case by simp
next
  case (Cons l ls)
  show ?case
  proof (cases "l \<in> set disc")
    case True
    with Cons.prems Cons.IH [of q disc] show ?thesis by (simp add: insert_Diff_if)
  next
    case False
    with Cons.prems Cons.IH [of "q @ [(l, depth)]" "l # disc"] obtain new where
      "distinct new" "set new = set ls - set (l # disc)" "q' = (q @ [(l, depth)]) @ map (\<lambda>l. (l, depth)) new"
      "disc' = rev new @ l # disc" by auto
    with False show ?thesis by (intro exI [of _ "l # new"]) auto
  qed
qed

definition finished :: "'w crawl_run \<Rightarrow> string set" where
  "finished r = cp_requested_url ` set (cr_pages r) \<union> cf_url ` set (cr_failures r)"

definition frontier_ok :: "'w crawl_run \<Rightarrow> bool" where
  "frontier_ok r \<longleftrightarrow> distinct (map fst (cr_queue r)) \<and> distinct (cr_discovered r) \<and>
     set (cr_discovered r) = fst ` set (cr_queue r) \<union> finished r \<and> fst ` set (cr_queue r) \<inter> finished r = {} \<and>
     distinct (map cp_requested_url (cr_pages r)) \<and> distinct (map cf_url (cr_failures r)) \<and>
     set (cr_retried r) \<subseteq> set (cr_discovered r)"

lemma challenged_urls [simp]:
  "cp_requested_url (challenged_page env u c) = u" "cf_url (challenge_failure u c) = u"
  "cp_requested_url (content_page env u f doc words tags) = u" "cf_url (plain_failure u k m) = u"
  by (simp_all add: challenged_page_def challenge_failure_def content_page_def plain_failure_def Let_def
      split: prod.split)

lemma next_frontier_new:
  assumes "next_frontier cfg d links rest disc = (q', disc')"
  shows "\<exists>new. distinct new \<and> set new \<subseteq> set links \<and> set new \<inter> set disc = {} \<and>
    q' = rest @ map (\<lambda>l. (l, d + 1)) new \<and> disc' = rev new @ disc \<and> (new \<noteq> [] \<longrightarrow> d < cc_max_depth cfg)"
proof (cases "d < cc_max_depth cfg")
  case True
  with assms have "enqueue (d + 1) links (rest, disc) = (q', disc')" by (simp add: next_frontier_def)
  from enqueue_new [OF this] True show ?thesis by blast
next
  case False
  with assms show ?thesis by (intro exI [of _ "[]"]) (simp add: next_frontier_def)
qed

lemma turn_frontier:
  assumes "turn env cfg r x" and "frontier_ok r"
  shows "frontier_ok x"
  using assms
proof (induction rule: turn.induct)
  case (requeue r u d rest s)
  then show ?case by (auto simp: frontier_ok_def finished_def)
next
  case (quarantine r u d rest s c)
  then show ?case by (auto simp: frontier_ok_def finished_def)
next
  case (failed r u d rest s name)
  then show ?case by (auto simp: frontier_ok_def finished_def)
next
  case (crawled r u d rest f doc words tags bad queue' discovered' s)
  from next_frontier_new [OF crawled(4)] obtain new where new: "distinct new"
    "set new \<inter> set (cr_discovered r) = {}" "queue' = rest @ map (\<lambda>l. (l, d + 1)) new"
    "discovered' = rev new @ cr_discovered r" by blast
  have ids: "map fst (map (\<lambda>l. (l, d + 1)) new) = new" by (simp add: comp_def)
  from crawled(1) crawled(5) have q: "u \<notin> fst ` set rest" "distinct (map fst rest)"
    "set (cr_discovered r) = insert u (fst ` set rest \<union> finished r)"
    "u \<notin> finished r" "fst ` set rest \<inter> finished r = {}"
    by (auto simp: frontier_ok_def)
  have fin: "finished (r\<lparr>cr_state := s, cr_queue := queue', cr_discovered := discovered',
      cr_pages := cr_pages r @ [content_page env u f doc words tags],
      cr_failures := cr_failures r @
        (if bad then [plain_failure u ''html_parse_failed'' ''HTML parse failed safely''] else [])\<rparr>) = insert u (finished r)"
    by (auto simp: finished_def)
  have queue: "distinct (map fst queue')" "fst ` set queue' = fst ` set rest \<union> set new"
    using new(1,2) q by (auto simp: new(3) comp_def image_Un image_image)
  have disc: "distinct discovered'" "set discovered' = set new \<union> set (cr_discovered r)"
    using new(1,2) crawled(5) by (auto simp: new(4) frontier_ok_def)
  have sides: "fst ` set queue' \<inter> insert u (finished r) = {}" using q new(2) by (auto simp: queue)
  show ?case unfolding frontier_ok_def fin
    using queue disc sides q crawled(5) by (auto simp: frontier_ok_def finished_def)
qed

subsection \<open>Runs from the seeds\<close>

definition start_run :: "'w crawler_state \<Rightarrow> (string \<times> int) list \<Rightarrow> string list \<Rightarrow> 'w crawl_run" where
  "start_run s queue discovered = \<lparr>cr_state = s, cr_queue = queue, cr_discovered = discovered, cr_pages = [],
     cr_failures = [], cr_retried = []\<rparr>"

definition allowed :: "crawl_config \<Rightarrow> string \<Rightarrow> bool" where
  "allowed cfg u \<longleftrightarrow> (\<exists>raw. require_allowed_url (cc_allowed_domains cfg) raw = Inr u)"

lemma allowed_inside: "allowed cfg u \<Longrightarrow> \<exists>v. urlsplit u = Inr v \<and> inside_domains (cc_allowed_domains cfg) v"
  unfolding allowed_def by (metis host_allowed_inside require_allowed_urlD)

definition seed_urls :: "crawl_config \<Rightarrow> string list \<Rightarrow> string set" where
  "seed_urls cfg seeds = {u. \<exists>seed \<in> set seeds. require_allowed_url (cc_allowed_domains cfg) seed = Inr u}"

definition seeded :: "crawl_config \<Rightarrow> string list \<Rightarrow> (string \<times> int) list \<times> string list \<Rightarrow> bool" where
  "seeded cfg seeds qd \<longleftrightarrow> distinct (map fst (fst qd)) \<and> distinct (snd qd) \<and> set (snd qd) = fst ` set (fst qd) \<and>
     (\<forall>e \<in> set (fst qd). snd e = 0 \<and> fst e \<in> seed_urls cfg seeds)"

lemma seed_urls_allowed: "u \<in> seed_urls cfg seeds \<Longrightarrow> allowed cfg u"
  by (auto simp: seed_urls_def allowed_def)

lemma seeds_seeded:
  assumes "foldE (seed_step cfg) ([], []) seeds = Inr qd"
  shows "seeded cfg seeds qd"
proof (rule foldE_invariant [OF assms])
  show "seeded cfg seeds ([], [])" by (simp add: seeded_def)
  fix qd seed qd' assume "seed \<in> set seeds" and inv: "seeded cfg seeds qd" and "seed_step cfg qd seed = Inr qd'"
  moreover obtain q disc where qd: "qd = (q, disc)" by fastforce
  ultimately obtain url where url: "require_allowed_url (cc_allowed_domains cfg) seed = Inr url"
    and qd': "qd' = (if url \<in> set disc then (q, disc) else (q @ [(url, 0)], url # disc))"
    by (auto simp: seed_step_def mapR_Inr_iff)
  have "url \<in> seed_urls cfg seeds" using url \<open>seed \<in> set seeds\<close> by (auto simp: seed_urls_def)
  with inv qd' show "seeded cfg seeds qd'"
    by (cases "url \<in> set disc") (simp_all add: qd seeded_def ball_Un)
qed

lemma crawlD:
  assumes "crawl env cfg g seeds s = Some (Inr res, s')"
  obtains queue discovered s1 started reason x where "seeds \<noteq> []"
    and "foldE (seed_step cfg) ([], []) seeds = Inr (queue, discovered)"
    and "(turn env cfg)\<^sup>*\<^sup>* (start_run s1 queue discovered) x" and "stopped cfg reason x"
    and "res = result_of reason x"
proof -
  obtain queue discovered s1 started reason r' where ne: "seeds \<noteq> []"
    and f: "foldE (seed_step cfg) ([], []) seeds = Inr (queue, discovered)"
    and loop: "crawl_loop env cfg g started (start_run s1 queue discovered) = Some (Inr reason, r')"
    and res: "res = result_of reason r'"
    using assms unfolding crawl_def start_run_def
    by (auto simp: mapR_Inr_iff split: if_splits sum.splits prod.splits)
  from crawl_loop_runs [OF loop] obtain x where x: "(turn env cfg)\<^sup>*\<^sup>* (start_run s1 queue discovered) x"
    "only_state x r'" "stopped cfg reason x" by blast
  have "res = result_of reason x" using res x(2) by (simp add: result_of_def only_state_def Let_def)
  with ne f x show ?thesis using that by blast
qed

lemma turns_keep:
  assumes "(turn env cfg)\<^sup>*\<^sup>* r x" and "P r" and "\<And>r x. turn env cfg r x \<Longrightarrow> P r \<Longrightarrow> P x"
  shows "P x"
  using assms(1,2) by (induction rule: rtranclp_induct) (auto intro: assms(3))

lemma start_frontier: "seeded cfg seeds (queue, discovered) \<Longrightarrow> frontier_ok (start_run s queue discovered)"
  by (simp add: seeded_def frontier_ok_def start_run_def finished_def)

subsection \<open>The crawl ends\<close>

definition crawl_measure :: "crawl_config \<Rightarrow> ('w crawl_run \<times> 'w crawl_run) set" where
  "crawl_measure cfg = measures [\<lambda>r. nat (cc_max_pages cfg - int (outcomes r)),
     \<lambda>r. card (set (cr_discovered r) - set (cr_retried r))]"

lemma turn_decreases:
  assumes "turn env cfg r x" and "frontier_ok r"
  shows "(x, r) \<in> crawl_measure cfg"
  using assms
proof (induction rule: turn.induct)
  case (requeue r u d rest s)
  have "u \<in> set (cr_discovered r)" using requeue by (auto simp: frontier_ok_def)
  with requeue(3) have "card (set (cr_discovered r) - insert u (set (cr_retried r))) <
      card (set (cr_discovered r) - set (cr_retried r))" by (intro psubset_card_mono) auto
  then show ?case by (simp add: crawl_measure_def outcomes_def)
qed (auto simp: crawl_measure_def outcomes_def)

lemma crawl_loop_returns:
  "frontier_ok r \<Longrightarrow> \<exists>y. crawl_loop env cfg g started r = Some y"
proof (induction r rule: wf_induct [of "crawl_measure cfg"])
  case 1
  then show ?case by (simp add: crawl_measure_def)
next
  case (2 r)
  obtain o1 x1 where step: "crawl_step env cfg g started r = (o1, x1)" by fastforce
  show ?case
  proof (cases "\<exists>s. o1 = Inr None")
    case True
    then have "turn env cfg r x1" using spec_InrD [OF step_spec only_state_refl, of env cfg g started r None x1] step
      by simp
    with turn_decreases turn_frontier 2 have "\<exists>y. crawl_loop env cfg g started x1 = Some y" by blast
    with step True show ?thesis by (subst crawl_loop.simps) simp
  next
    case False
    with step show ?thesis
      by (subst crawl_loop.simps) (auto split: sum.split option.split)
  qed
qed

lemma crawl_returns: "\<exists>out. crawl env cfg g seeds s = Some out"
proof (cases "seeds = []")
  case False
  show ?thesis
  proof (cases "foldE (seed_step cfg) ([], []) seeds")
    case (Inr qd)
    obtain queue discovered where qd: "qd = (queue, discovered)" by fastforce
    have ok: "frontier_ok (start_run s1 queue discovered)" for s1 :: "'a crawler_state"
      using start_frontier seeds_seeded [OF Inr] qd by blast
    obtain t :: "exn + rat" and s1 where c: "clock env s = (t, s1)" by fastforce
    show ?thesis
    proof (cases t)
      case (Inr started)
      from crawl_loop_returns [OF ok, of env cfg g started s1] False \<open>foldE _ _ _ = _\<close> c Inr qd show ?thesis
        by (auto simp: crawl_def start_run_def)
    qed (use False \<open>foldE _ _ _ = _\<close> c qd in \<open>simp add: crawl_def\<close>)
  qed (use False in \<open>simp add: crawl_def\<close>)
qed (simp add: crawl_def)

text \<open>
  C6: a crawl always returns or raises, whatever the servers answer, however the clock runs and however
  many redirects, challenges and links they produce: every turn of the loop uses up the page budget or
  the single retry of a discovered URL.
\<close>

theorem crawl_terminates: "\<exists>out. crawl env cfg g seeds s = Some out"
  by (rule crawl_returns)

subsection \<open>What a crawl returns\<close>

lemma parse_page_links:
  assumes "parse_page env cfg response = Inr (doc, words, tags, bad)"
  shows "\<forall>l \<in> set (pd_links doc). allowed cfg l"
proof -
  from assms consider "doc = empty_document"
    | events where "document_result (fr_url response) (cc_allowed_domains cfg) (feed (env_loads env) events) = Inr doc"
    by (auto simp: parse_page_def Let_def bindE_Inr_iff tryE_Inr_iff split: if_splits)
  then show ?thesis
  proof cases
    case (2 events)
    obtain st where "foldE (sort_link (fr_url response) (cc_allowed_domains cfg)) ([], [])
        (ps_links (feed (env_loads env) events)) = Inr st" "pd_links doc = sorted_set (fst st)"
      by (rule document_resultD [OF 2])
    with sorted_links [OF this(1)] show ?thesis by (auto simp: inside_links_def allowed_def)
  qed (simp add: empty_document_def)
qed

definition allowed_run :: "crawl_config \<Rightarrow> 'w crawl_run \<Rightarrow> bool" where
  "allowed_run cfg r \<longleftrightarrow> list_all (allowed cfg) (cr_discovered r) \<and>
     list_all (\<lambda>p. list_all (allowed cfg) (cp_links p)) (cr_pages r)"

lemma page_links [simp]:
  "cp_links (challenged_page env u c) = []" "cp_links (content_page env u f doc words tags) = pd_links doc"
  by (simp_all add: challenged_page_def content_page_def Let_def split: prod.split)

lemma turn_allowed:
  assumes "turn env cfg r x" and "allowed_run cfg r"
  shows "allowed_run cfg x"
  using assms
proof (induction rule: turn.induct)
  case (crawled r u d rest f doc words tags bad queue' discovered' s)
  from next_frontier_new [OF crawled(4)] obtain new where "set new \<subseteq> set (pd_links doc)"
    "discovered' = rev new @ cr_discovered r" by blast
  with parse_page_links [OF crawled(3)] crawled(5) show ?case
    by (auto simp: allowed_run_def list_all_iff subset_iff)
qed (simp_all add: allowed_run_def)

text \<open>Pages and failures stay within the page budget, one more at most for a page that counts twice.\<close>

definition within_budget :: "crawl_config \<Rightarrow> 'w crawl_run \<Rightarrow> bool" where
  "within_budget cfg r \<longleftrightarrow> int (outcomes r) \<le> cc_max_pages cfg + 1"

lemma turn_budget: "turn env cfg r x \<Longrightarrow> within_budget cfg r \<Longrightarrow> within_budget cfg x"
  by (induction rule: turn.induct) (auto simp: within_budget_def outcomes_def)

lemma result_fields [simp]:
  "cx_result_pages (result_of reason r) = cr_pages r" "cx_result_failures (result_of reason r) = cr_failures r"
  "cx_discovered_count (result_of reason r) = length (cr_discovered r)"
  "cx_stopped_reason (result_of reason r) = reason"
  by (simp_all add: result_of_def Let_def)

definition result_urls :: "crawl_result \<Rightarrow> string set" where
  "result_urls res = cp_requested_url ` set (cx_result_pages res) \<union> cf_url ` set (cx_result_failures res)"

text \<open>
  C7: no URL has two pages or two failures in the result of a crawl, and every URL in it, with every
  internal link of its pages, lies inside the approved domains; no more URLs have an outcome than were
  discovered, and when the queue was exhausted every discovered URL has one.
\<close>

theorem crawl_outcomes:
  assumes "crawl env cfg g seeds s = Some (Inr res, s')"
  shows "distinct (map cp_requested_url (cx_result_pages res)) \<and> distinct (map cf_url (cx_result_failures res)) \<and>
    (\<forall>u \<in> result_urls res \<union> \<Union> (set ` cp_links ` set (cx_result_pages res)).
       \<exists>v. urlsplit u = Inr v \<and> inside_domains (cc_allowed_domains cfg) v) \<and>
    card (result_urls res) \<le> cx_discovered_count res \<and>
    (cx_stopped_reason res = ''queue_exhausted'' \<longrightarrow> card (result_urls res) = cx_discovered_count res)"
proof -
  obtain queue discovered s1 started reason x where
    f: "foldE (seed_step cfg) ([], []) seeds = Inr (queue, discovered)"
    and run: "(turn env cfg)\<^sup>*\<^sup>* (start_run s1 queue discovered) x" and stop: "stopped cfg reason x"
    and res: "res = result_of reason x" by (rule crawlD [OF assms])
  note seeded = seeds_seeded [OF f]
  have ok: "frontier_ok x"
    by (rule turns_keep [where P = frontier_ok, OF run start_frontier [OF seeded]]) (rule turn_frontier)
  have "allowed_run cfg (start_run s1 queue discovered)"
    using seeded seed_urls_allowed by (fastforce simp: allowed_run_def start_run_def seeded_def list_all_iff)
  then have inside: "allowed_run cfg x" by (rule turns_keep [OF run]) (rule turn_allowed)
  have urls: "result_urls res = finished x" by (simp add: res result_urls_def finished_def)
  have disc: "set (cr_discovered x) = fst ` set (cr_queue x) \<union> finished x"
    "length (cr_discovered x) = card (set (cr_discovered x))"
    using ok distinct_card [of "cr_discovered x"] by (simp_all add: frontier_ok_def)
  have "allowed cfg u" if "u \<in> finished x \<union> \<Union> (set ` cp_links ` set (cr_pages x))" for u
    using that inside disc(1) by (auto simp: allowed_run_def list_all_iff)
  moreover have "card (finished x) \<le> length (cr_discovered x)"
    unfolding disc(2) by (rule card_mono [OF finite_set]) (use disc(1) in auto)
  moreover have "card (finished x) = length (cr_discovered x)" if "reason = ''queue_exhausted''"
    using stop that disc by (simp add: stopped_def)
  ultimately show ?thesis using ok allowed_inside unfolding urls
    by (auto simp: res frontier_ok_def)
qed

text \<open>
  a crawl with a valid configuration returns at most one more page and failure together than the page
  budget, and reports that the budget stopped it only when it was used up.
\<close>

theorem crawl_budget:
  assumes "check_crawl_config cfg = Inr ()" and "crawl env cfg g seeds s = Some (Inr res, s')"
  shows "int (length (cx_result_pages res) + length (cx_result_failures res)) \<le> cc_max_pages cfg + 1 \<and>
    (cx_stopped_reason res = ''page_budget_reached'' \<longrightarrow>
       cc_max_pages cfg \<le> int (length (cx_result_pages res) + length (cx_result_failures res)))"
proof -
  obtain queue discovered s1 started reason x where
    run: "(turn env cfg)\<^sup>*\<^sup>* (start_run s1 queue discovered) x" and stop: "stopped cfg reason x"
    and res: "res = result_of reason x" by (rule crawlD [OF assms(2)])
  have "1 \<le> cc_max_pages cfg" using assms(1) unfolding check_crawl_config_def raise_first_Inr_iff by auto
  then have "within_budget cfg (start_run s1 queue discovered)"
    by (simp add: within_budget_def outcomes_def start_run_def)
  then have "within_budget cfg x" by (rule turns_keep [OF run]) (rule turn_budget)
  then show ?thesis using stop by (auto simp: res within_budget_def outcomes_def stopped_def)
qed

subsection \<open>Depth\<close>

text \<open>\<open>reached pages seeds n u\<close>: \<open>u\<close> is \<open>n\<close> links away from a seed, along links of the crawled pages.\<close>

inductive reached :: "crawled_page list \<Rightarrow> string set \<Rightarrow> nat \<Rightarrow> string \<Rightarrow> bool"
  for pages :: "crawled_page list" and seeds :: "string set" where
  seed: "u \<in> seeds \<Longrightarrow> reached pages seeds 0 u"
| link: "reached pages seeds n (cp_requested_url p) \<Longrightarrow> p \<in> set pages \<Longrightarrow> u \<in> set (cp_links p) \<Longrightarrow>
    reached pages seeds (Suc n) u"

lemma reached_mono: "reached pages seeds n u \<Longrightarrow> reached (pages @ ps) seeds n u"
  by (induction rule: reached.induct) (auto intro: reached.intros)

definition depth_ok :: "crawl_config \<Rightarrow> string set \<Rightarrow> 'w crawl_run \<Rightarrow> bool" where
  "depth_ok cfg seeds r \<longleftrightarrow>
     (\<forall>(u, d) \<in> set (cr_queue r). 0 \<le> d \<and> d \<le> cc_max_depth cfg \<and> reached (cr_pages r) seeds (nat d) u) \<and>
     (\<forall>u \<in> finished r. \<exists>n. int n \<le> cc_max_depth cfg \<and> reached (cr_pages r) seeds n u)"

lemma turn_depth:
  assumes "turn env cfg r x" and "depth_ok cfg seeds r"
  shows "depth_ok cfg seeds x"
  using assms
proof (induction rule: turn.induct)
  case (requeue r u d rest s)
  then show ?case by (auto simp: depth_ok_def finished_def)
next
  case (quarantine r u d rest s c)
  then have "0 \<le> d" "d \<le> cc_max_depth cfg" "reached (cr_pages r) seeds (nat d) u" by (auto simp: depth_ok_def)
  then have "\<exists>n. int n \<le> cc_max_depth cfg \<and> reached (cr_pages r @ ps) seeds n u" for ps
    by (intro exI [of _ "nat d"]) (auto intro: reached_mono)
  with quarantine show ?case unfolding depth_ok_def finished_def
    by (auto intro: reached_mono) (blast intro: reached_mono)+
next
  case (failed r u d rest s name)
  then have "0 \<le> d" "d \<le> cc_max_depth cfg" "reached (cr_pages r) seeds (nat d) u" by (auto simp: depth_ok_def)
  then have "\<exists>n. int n \<le> cc_max_depth cfg \<and> reached (cr_pages r) seeds n u"
    by (intro exI [of _ "nat d"]) auto
  with failed show ?case by (auto simp: depth_ok_def finished_def)
next
  case (crawled r u d rest f doc words tags bad queue' discovered' s)
  let ?pages = "cr_pages r @ [content_page env u f doc words tags]"
  from crawled(1,5) have d: "0 \<le> d" "d \<le> cc_max_depth cfg" "reached (cr_pages r) seeds (nat d) u"
    by (auto simp: depth_ok_def)
  then have u: "reached ?pages seeds (nat d) u" "\<exists>n. int n \<le> cc_max_depth cfg \<and> reached ?pages seeds n u"
    by (auto intro: reached_mono) (intro exI [of _ "nat d"], auto intro: reached_mono)
  obtain new where new: "set new \<subseteq> set (pd_links doc)" "queue' = rest @ map (\<lambda>l. (l, d + 1)) new"
    "new \<noteq> [] \<longrightarrow> d < cc_max_depth cfg" using next_frontier_new [OF crawled(4)] by blast
  have "reached ?pages seeds (nat (d + 1)) l \<and> d + 1 \<le> cc_max_depth cfg" if "l \<in> set new" for l
  proof -
    have "nat (d + 1) = Suc (nat d)" using d(1) by simp
    moreover have "reached ?pages seeds (Suc (nat d)) l"
      by (rule reached.link [where p = "content_page env u f doc words tags"]) (use u that new(1) in auto)
    ultimately show ?thesis using that new(3) by (cases new) auto
  qed
  with crawled(1,5) d(1) u(2) show ?case unfolding depth_ok_def finished_def new(2)
    by (auto intro: reached_mono) (blast intro: reached_mono)+
qed

text \<open>
  every URL with an outcome is a seed or can be reached from one by at most the configured number of
  links, each on a page of the result.
\<close>

theorem crawl_depth_bounded:
  assumes "check_crawl_config cfg = Inr ()" and "crawl env cfg g seeds s = Some (Inr res, s')"
    and "u \<in> result_urls res"
  shows "\<exists>n. int n \<le> cc_max_depth cfg \<and>
    reached (cx_result_pages res) (seed_urls cfg seeds) n u"
proof -
  let ?S = "seed_urls cfg seeds"
  obtain queue discovered s1 started reason x where
    f: "foldE (seed_step cfg) ([], []) seeds = Inr (queue, discovered)"
    and run: "(turn env cfg)\<^sup>*\<^sup>* (start_run s1 queue discovered) x"
    and res: "res = result_of reason x" by (rule crawlD [OF assms(2)])
  have "0 \<le> cc_max_depth cfg" using assms(1) unfolding check_crawl_config_def raise_first_Inr_iff by auto
  moreover have "\<forall>e \<in> set queue. snd e = 0 \<and> fst e \<in> ?S" using seeds_seeded [OF f] by (simp add: seeded_def)
  ultimately have "depth_ok cfg ?S (start_run s1 queue discovered)"
    by (fastforce simp: depth_ok_def start_run_def finished_def intro: reached.seed)
  then have "depth_ok cfg ?S x" by (rule turns_keep [OF run]) (rule turn_depth)
  with assms(3) show ?thesis by (auto simp: res result_urls_def depth_ok_def finished_def)
qed

subsection \<open>A small crawl\<close>

text \<open>One page that links to itself, without a robots file.\<close>

definition small_config :: crawl_config where
  "small_config = (default_config [''ex.com''])\<lparr>cc_obey_robots := False\<rparr>"

definition small_env :: "unit crawl_env" where
  "small_env = demo_env\<lparr>env_tokens := (\<lambda>text. Inr [Start_tag ''a'' [(''href'', Some ''/b'')], Data text, End_tag ''a''])\<rparr>"

lemma small_config_ok: "check_crawl_config small_config = Inr ()" "cc_max_depth small_config = 5"
  "cc_max_pages small_config = 250"
  by code_simp+

lemma small_steps:
  "foldE (seed_step small_config) ([], []) [''http://ex.com/b''] = Inr ([(''http://ex.com/b'', 0)], [''http://ex.com/b''])"
  "case crawl_step small_env small_config demo_guard 0
      (start_run (new_crawler ()) [(''http://ex.com/b'', 0)] [''http://ex.com/b'']) of
     (Inr None, r) \<Rightarrow> map cp_requested_url (cr_pages r) = [''http://ex.com/b''] \<and> cr_queue r = [] \<and>
        cr_failures r = [] \<and> cr_discovered r = [''http://ex.com/b'']
   | _ \<Rightarrow> False"
  by code_simp+

definition small_outcome :: "crawl_result \<Rightarrow> bool" where
  "small_outcome res \<longleftrightarrow> map cp_requested_url (cx_result_pages res) = [''http://ex.com/b''] \<and>
     cx_result_failures res = [] \<and> cx_discovered_count res = 1 \<and> cx_stopped_reason res = ''queue_exhausted''"

lemma small_crawl:
  obtains res s where "crawl small_env small_config demo_guard [''http://ex.com/b''] (new_crawler ()) = Some (Inr res, s)"
    and "small_outcome res"
proof -
  obtain r where step: "crawl_step small_env small_config demo_guard 0
      (start_run (new_crawler ()) [(''http://ex.com/b'', 0)] [''http://ex.com/b'']) = (Inr None, r)"
    and r: "map cp_requested_url (cr_pages r) = [''http://ex.com/b'']" "cr_queue r = []" "cr_failures r = []"
      "cr_discovered r = [''http://ex.com/b'']"
    using small_steps(2) by (auto split: prod.splits sum.splits option.splits)
  have "crawl_step small_env small_config demo_guard 0 r = (Inr (Some ''queue_exhausted''), r)"
    by (simp add: crawl_step_def r(2) ret_def)
  then have "crawl_loop small_env small_config demo_guard 0 r = Some (Inr ''queue_exhausted'', r)"
    by (subst crawl_loop.simps) simp
  then have "crawl_loop small_env small_config demo_guard 0
      (start_run (new_crawler ()) [(''http://ex.com/b'', 0)] [''http://ex.com/b'']) = Some (Inr ''queue_exhausted'', r)"
    by (subst crawl_loop.simps) (simp add: step)
  moreover have "clock small_env (new_crawler ()) = (Inr 0 :: exn + rat, new_crawler ())"
    by (simp add: clock_def on_world_def small_env_def demo_env_def new_crawler_def)
  ultimately have "crawl small_env small_config demo_guard [''http://ex.com/b''] (new_crawler ()) =
      Some (Inr (result_of ''queue_exhausted'' r), cr_state r)"
    unfolding crawl_def small_steps(1) sum.case prod.case by (simp flip: start_run_def)
  then show ?thesis
    by (rule that) (use r in \<open>simp add: small_outcome_def\<close>)
qed

lemma crawl_outcomes_witness:
  "\<exists>res :: crawl_result. cx_stopped_reason res = ''queue_exhausted'' \<and> distinct (map cp_requested_url (cx_result_pages res)) \<and>
     card (result_urls res) = cx_discovered_count res \<and> cx_discovered_count res = 1"
proof -
  obtain res s where c: "crawl small_env small_config demo_guard [''http://ex.com/b''] (new_crawler ()) = Some (Inr res, s)"
    and r: "small_outcome res" by (rule small_crawl)
  note r = r [unfolded small_outcome_def]
  from crawl_outcomes [OF c] r show ?thesis by (intro exI [of _ res]) simp
qed

lemma crawl_budget_witness:
  "\<exists>res :: crawl_result. map cp_requested_url (cx_result_pages res) = [''http://ex.com/b''] \<and>
     int (length (cx_result_pages res) + length (cx_result_failures res)) \<le> 251"
proof -
  obtain res s where c: "crawl small_env small_config demo_guard [''http://ex.com/b''] (new_crawler ()) = Some (Inr res, s)"
    and r: "small_outcome res" by (rule small_crawl)
  note r = r [unfolded small_outcome_def]
  from crawl_budget [OF small_config_ok(1) c] r show ?thesis
    by (intro exI [of _ res]) (simp add: small_config_ok)
qed

lemma crawl_depth_bounded_witness:
  "\<exists>(res :: crawl_result) n. int n \<le> 5 \<and> reached (cx_result_pages res) (seed_urls small_config [''http://ex.com/b'']) n ''http://ex.com/b''"
proof -
  obtain res s where c: "crawl small_env small_config demo_guard [''http://ex.com/b''] (new_crawler ()) = Some (Inr res, s)"
    and r: "small_outcome res" by (rule small_crawl)
  note r = r [unfolded small_outcome_def]
  have "''http://ex.com/b'' \<in> result_urls res" using r by (auto simp: result_urls_def map_eq_Cons_conv)
  from crawl_depth_bounded [OF small_config_ok(1) c this] show ?thesis unfolding small_config_ok by blast
qed

subsection \<open>Refinement of the step relation\<close>

text \<open>
  C8: the crawl refines the step relation \<open>turn\<close>: a result is the end of a sequence of its turns from the
  normalised seeds, each at depth 0, and reports the reason for which the loop may stop there.
\<close>

theorem crawl_refines_turns:
  assumes "crawl env cfg g seeds s = Some (Inr res, s')"
  shows "\<exists>queue discovered s1 x. foldE (seed_step cfg) ([], []) seeds = Inr (queue, discovered) \<and>
    (turn env cfg)\<^sup>*\<^sup>* (start_run s1 queue discovered) x \<and> res = result_of (cx_stopped_reason res) x \<and>
    stopped cfg (cx_stopped_reason res) x"
  using assms by (rule crawlD) (metis result_fields(4))

lemma crawl_refines_turns_witness:
  "\<exists>s1 x res. (turn small_env small_config)\<^sup>*\<^sup>* (start_run s1 [(''http://ex.com/b'', 0)] [''http://ex.com/b'']) x \<and>
     map cp_requested_url (cx_result_pages res) = [''http://ex.com/b''] \<and> res = result_of (cx_stopped_reason res) x"
proof -
  obtain res s where c: "crawl small_env small_config demo_guard [''http://ex.com/b''] (new_crawler ()) = Some (Inr res, s)"
    and r: "small_outcome res" by (rule small_crawl)
  note r = r [unfolded small_outcome_def]
  from crawl_refines_turns [OF c] obtain s1 x where
    t: "(turn small_env small_config)\<^sup>*\<^sup>* (start_run s1 [(''http://ex.com/b'', 0)] [''http://ex.com/b'']) x"
    and res: "res = result_of (cx_stopped_reason res) x" unfolding small_steps(1) by auto
  show ?thesis
    by (intro exI [of _ s1] exI [of _ x] exI [of _ res] conjI) (rule t, rule r [THEN conjunct1], rule res)
qed

subsection \<open>Challenges in the result\<close>

definition empty_challenge :: "crawled_page \<Rightarrow> bool" where
  "empty_challenge p \<longleftrightarrow> cp_title p = None \<and> cp_meta_description p = None \<and> cp_h1 p = [] \<and> cp_links p = [] \<and>
     cp_external_links p = [] \<and> cp_word_count p = None \<and> cp_canonical_url p = None \<and> cp_analytics_tags p = []"

definition quarantined_ok :: "'w crawl_run \<Rightarrow> bool" where
  "quarantined_ok r \<longleftrightarrow>
     list_all (\<lambda>p. cp_challenge p \<longrightarrow> empty_challenge p \<and>
       (\<exists>f \<in> set (cr_failures r). cf_url f = cp_requested_url p \<and> cf_code f = ''challenge_response'' \<and>
          cf_challenge_kind f = cp_challenge_kind p)) (cr_pages r) \<and>
     map cp_requested_url (filter cp_challenge (cr_pages r)) = map cf_url (filter cf_challenge (cr_failures r))"

lemma page_challenges [simp]:
  "cp_challenge (challenged_page env u c)" "empty_challenge (challenged_page env u c)"
  "cp_challenge_kind (challenged_page env u c) = Some (ch_kind c)"
  "\<not> cp_challenge (content_page env u f doc words tags)"
  "cf_challenge (challenge_failure u c)" "cf_code (challenge_failure u c) = ''challenge_response''"
  "cf_challenge_kind (challenge_failure u c) = Some (ch_kind c)"
  "\<not> cf_challenge (plain_failure u k m)"
  by (simp_all add: challenged_page_def empty_challenge_def content_page_def challenge_failure_def plain_failure_def
      Let_def split: prod.split)

lemma turn_quarantined: "turn env cfg r x \<Longrightarrow> quarantined_ok r \<Longrightarrow> quarantined_ok x"
  by (induction rule: turn.induct) (auto simp: quarantined_ok_def list_all_iff)

text \<open>
  a page marked as a challenge carries nothing of the interstitial as content and has its own failure
  record of the same kind; the challenge count of the result is the number of such failures, and the rate
  limits are counted among them.
\<close>

theorem crawl_quarantines:
  assumes "crawl env cfg g seeds s = Some (Inr res, s')"
  shows "list_all (\<lambda>p. cp_challenge p \<longrightarrow> empty_challenge p \<and>
      (\<exists>f \<in> set (cx_result_failures res). cf_url f = cp_requested_url p \<and> cf_code f = ''challenge_response'' \<and>
         cf_challenge_kind f = cp_challenge_kind p)) (cx_result_pages res) \<and>
    cx_challenged_count res = length (filter cf_challenge (cx_result_failures res)) \<and>
    cx_rate_limited_count res \<le> cx_challenged_count res"
proof -
  obtain queue discovered s1 started reason x where
    run: "(turn env cfg)\<^sup>*\<^sup>* (start_run s1 queue discovered) x" and res: "res = result_of reason x"
    by (rule crawlD [OF assms])
  have "quarantined_ok (start_run s1 queue discovered)" by (simp add: quarantined_ok_def start_run_def)
  then have ok: "quarantined_ok x" by (rule turns_keep [OF run]) (rule turn_quarantined)
  have "length (filter cp_challenge (cr_pages x)) = length (filter cf_challenge (cr_failures x))"
    using ok unfolding quarantined_ok_def by (metis length_map)
  then show ?thesis using ok length_filter_le [of "\<lambda>p. cp_challenge_kind p = Some RATE_LIMIT_KIND" "filter cp_challenge (cr_pages x)"]
    by (simp add: res result_of_def Let_def quarantined_ok_def)
qed

lemma crawl_quarantines_witness:
  "\<exists>res :: crawl_result. map cp_requested_url (cx_result_pages res) = [''http://ex.com/b''] \<and> cx_challenged_count res = 0"
proof -
  obtain res s where c: "crawl small_env small_config demo_guard [''http://ex.com/b''] (new_crawler ()) = Some (Inr res, s)"
    and r: "small_outcome res" by (rule small_crawl)
  note r = r [unfolded small_outcome_def]
  from crawl_quarantines [OF c] r show ?thesis by (intro exI [of _ res]) simp
qed

subsection \<open>Connections\<close>

context crawl_world
begin

lemma on_state_action:
  "keeps (\<lambda>s. I (cw_world s)) m \<Longrightarrow> keeps (\<lambda>r. I (cw_world (cr_state r))) (on_state m)"
  by (auto simp: keeps_def on_state_def split: prod.split)

lemma requeue_action: "keeps (\<lambda>r. I (cw_world (cr_state r))) (requeue_after_challenge env cfg started u d c)"
  unfolding requeue_after_challenge_def
  by (intro keeps_intros on_state_action backoff_action clock_action pause_action mark_request_action) simp

lemma step_action: "keeps (\<lambda>r. I (cw_world (cr_state r))) (crawl_step env cfg g started)"
proof -
  have err: "keeps (\<lambda>r. I (cw_world (cr_state r))) (handle_fetch_error env cfg started u d e)" for u d e
    unfolding handle_fetch_error_def add_crawled_def add_failure_def
    by (cases e) (auto intro!: keeps_intros requeue_action)
  have ok: "keeps (\<lambda>r. I (cw_world (cr_state r))) (handle_response env cfg u d f)" for u d f
    unfolding handle_response_def add_crawled_def add_failure_def queue_links_def
    by (intro keeps_intros) (auto split: prod.split)
  have "keeps (\<lambda>r. I (cw_world (cr_state r))) (case q of [] \<Rightarrow> ret (Some ''queue_exhausted'')
     | entry # rest \<Rightarrow>
       bindA (gets (\<lambda>r. cc_max_pages cfg \<le> int (length (cr_pages r) + length (cr_failures r)))) (\<lambda>spent.
       if spent then ret (Some ''page_budget_reached'')
       else bindA (on_state (clock env)) (\<lambda>now.
       if cc_max_duration cfg \<le> fsub now started then ret (Some ''duration_budget_reached'')
       else bindA (modifyA (\<lambda>r. r\<lparr>cr_queue := rest\<rparr>)) (\<lambda>_.
            bindA (catchA (on_state (fetch_following_redirects env cfg g (fst entry)))
              (handle_fetch_error env cfg started (fst entry) (snd entry))
              (handle_response env cfg (fst entry) (snd entry))) (\<lambda>_. ret None)))))" for q
    by (cases q) (auto intro!: keeps_intros on_state_action clock_action fetch_redirects_action err ok)
  then show ?thesis unfolding crawl_step_def by (intro keeps_intros)
qed

lemma loop_action:
  assumes "crawl_loop env cfg g started r = Some (out, r')" and "I (cw_world (cr_state r))"
  shows "I (cw_world (cr_state r'))"
proof -
  have "env' = env \<longrightarrow> g' = g \<longrightarrow> I (cw_world (cr_state r)) \<longrightarrow> I (cw_world (cr_state (snd y)))"
    if "crawl_loop env' cfg g' started r = Some y" for env' g' started r y
  proof (rule crawl_loop.raw_induct [OF _ that])
    fix loop env' cfg g' started r y
    assume IH: "\<And>env' cfg g' started r y. loop env' cfg g' started r = Some y \<Longrightarrow>
        env' = env \<longrightarrow> g' = g \<longrightarrow> I (cw_world (cr_state r)) \<longrightarrow> I (cw_world (cr_state (snd y)))"
      and body: "(case crawl_step env' cfg g' started r of (Inl e, r') \<Rightarrow> Some (Inl e, r')
         | (Inr None, r') \<Rightarrow> loop env' cfg g' started r' | (Inr (Some reason), r') \<Rightarrow> Some (Inr reason, r')) = Some y"
    obtain o1 x1 where step: "crawl_step env' cfg g' started r = (o1, x1)" by fastforce
    show "env' = env \<longrightarrow> g' = g \<longrightarrow> I (cw_world (cr_state r)) \<longrightarrow> I (cw_world (cr_state (snd y)))"
    proof (intro impI)
      assume "env' = env" "g' = g" "I (cw_world (cr_state r))"
      with keepsD [OF step_action this(3), of cfg started o1 x1] step have "I (cw_world (cr_state x1))" by simp
      with body step IH [of env' cfg g' started x1 y] \<open>env' = env\<close> \<open>g' = g\<close> show "I (cw_world (cr_state (snd y)))"
        by (auto split: sum.splits option.splits)
    qed
  qed
  with assms show ?thesis by fastforce
qed

lemma crawl_action:
  assumes "crawl env cfg g seeds s = Some (out, s')" and "I (cw_world s)"
  shows "I (cw_world s')"
proof -
  have clock: "I (cw_world t)" if "clock env s = (c, t)" for c :: "exn + rat" and t
    using keepsD [OF clock_action assms(2) that] .
  show ?thesis using assms clock unfolding crawl_def
    by (fastforce dest: loop_action split: if_splits sum.splits prod.splits)
qed

end

text \<open>
  C5: a crawl over the pinned transport, whatever the DNS answers and however they change between calls,
  whatever the pages, redirects and robots files say, connects only to globally routable addresses.
\<close>

theorem crawl_contacts_public:
  "\<exists>out s'. crawl (pinned_env net ex) cfg g seeds (new_crawler ([], n)) = Some (out, s') \<and>
     list_all (\<lambda>c. public_address (fst c)) (fst (cw_world s'))"
proof -
  obtain out s' where run: "crawl (pinned_env net ex) cfg g seeds (new_crawler ([], n)) = Some (out, s')"
    using crawl_returns [of "pinned_env net ex" cfg g seeds "new_crawler ([], n)"] by auto
  have "public_log (cw_world (new_crawler ([], n)))" by (simp add: public_log_def new_crawler_def)
  from pinned.crawl_action [OF run this] run show ?thesis by (auto simp: public_log_def list_all_iff)
qed

subsection \<open>A delay that is too long for a float\<close>

text \<open>
  C20: a challenge whose \<open>Retry-After\<close> is a number of seconds too large for a float makes the handler raise
  \<open>OverflowError\<close> out of the crawl instead of quarantining the URL: one response can abort the run.
\<close>

theorem huge_retry_after_aborts:
  assumes "host_of url = Inr host" and "url \<notin> set (cr_retried r)" and "ch_retry_after c = Some n" and "2 ^ 1024 \<le> n"
  shows "\<exists>m r'. handle_fetch_error env cfg started url depth (Challenged c) r = (Inl (OtherError ''OverflowError'' m), r')"
proof -
  have "float_of_nat n = Inl (OtherError ''OverflowError'' ''int too large to convert to float'')"
    using assms(4) by (simp add: float_of_nat_def)
  then show ?thesis using assms
    by (auto simp: handle_fetch_error_def requeue_after_challenge_def bindA_def pureA_def on_state_def
        apply_backoff_def gets_def modifyA_def ret_def raise_def challenge_wait_def)
qed

definition huge_challenge :: challenge where
  "huge_challenge = \<lparr>ch_kind = RATE_LIMIT_KIND, ch_response = None,
     ch_retry_after = parse_retry_after (Some (replicate 400 CHR ''9'')), ch_redirect_chain = [], ch_response_ms = None\<rparr>"

lemma huge_challenge_delay: "case ch_retry_after huge_challenge of None \<Rightarrow> False | Some n \<Rightarrow> 2 ^ 1024 \<le> n"
  by code_simp

lemma small_host: "host_of ''http://ex.com/b'' = Inr ''ex.com''"
  by code_simp

lemma huge_retry_after_aborts_witness:
  "\<exists>m r'. handle_fetch_error small_env small_config 0 ''http://ex.com/b'' 0 (Challenged huge_challenge)
     (start_run (new_crawler ()) [] []) = (Inl (OtherError ''OverflowError'' m), r')"
proof -
  obtain n where n: "ch_retry_after huge_challenge = Some n" "2 ^ 1024 \<le> n"
    using huge_challenge_delay by (auto split: option.splits)
  show ?thesis
    by (rule huge_retry_after_aborts [OF small_host _ n]) (simp add: start_run_def)
qed

end
