(* ===== verification/Domain.thy ===== *)
theory Domain
  imports Models Py_Ip
begin

text \<open>
  The rows of \<open>app/domain/models.py\<close> that the workflow works on, the enumerations of
  \<open>app/domain/constants.py\<close>, and the append-only event writer of \<open>app/domain/audit.py\<close>. A model class
  is a record of its columns, a foreign key the primary key it points to, a table the list of its rows
  in insertion order, the database the record of the tables. Primary keys are UUID texts, a datetime is
  its instant. An operation under \<open>transaction.atomic\<close> is a function from a database to an exception or
  a database with a result: a raised exception leaves no database behind, which is the rollback.
  The columns \<open>created_at\<close> and \<open>updated_at\<close>, which no modelled code reads, are left out.
\<close>

type_synonym uid = string
type_synonym moment = int

subsection \<open>Enumerations\<close>

datatype user_role = Agency_admin | Analyst | Client_reviewer

datatype run_state = Draft | Collecting | Auditing | Gate_1_review | Planning | Generating
  | Gate_2_review | Final_qa | Packaged | Approved | Revision_requested | Failed | Cancelled

datatype stage_status = Stage_pending | Stage_running | Stage_succeeded | Stage_failed | Stage_skipped
  | Stage_cancelled

datatype level = Level_info | Level_low | Level_medium | Level_high | Level_critical

datatype approval_decision = Decision_pending | Decision_approved | Decision_revision_requested
  | Decision_rejected

datatype approval_gate = Gate_1 | Gate_2 | High_risk | Gate_package

datatype review_status = Review_draft | Review_in_review | Review_approved | Review_revision_requested
  | Review_rejected

datatype risk_level = Risk_class_low | Risk_class_medium | Risk_class_high | Risk_class_dangerous

datatype qa_status = Qa_pass | Qa_fail | Qa_warn | Qa_skip

text \<open>The stored value of a member, and the member a text denotes.\<close>

fun state_value :: "run_state \<Rightarrow> string" where
  "state_value Draft = ''draft''"
| "state_value Collecting = ''collecting''"
| "state_value Auditing = ''auditing''"
| "state_value Gate_1_review = ''gate_1_review''"
| "state_value Planning = ''planning''"
| "state_value Generating = ''generating''"
| "state_value Gate_2_review = ''gate_2_review''"
| "state_value Final_qa = ''final_qa''"
| "state_value Packaged = ''packaged''"
| "state_value Approved = ''approved''"
| "state_value Revision_requested = ''revision_requested''"
| "state_value Failed = ''failed''"
| "state_value Cancelled = ''cancelled''"

fun decision_value :: "approval_decision \<Rightarrow> string" where
  "decision_value Decision_pending = ''pending''"
| "decision_value Decision_approved = ''approved''"
| "decision_value Decision_revision_requested = ''revision_requested''"
| "decision_value Decision_rejected = ''rejected''"

fun gate_value :: "approval_gate \<Rightarrow> string" where
  "gate_value Gate_1 = ''gate_1''"
| "gate_value Gate_2 = ''gate_2''"
| "gate_value High_risk = ''high_risk''"
| "gate_value Gate_package = ''package''"

fun stage_value :: "stage_status \<Rightarrow> string" where
  "stage_value Stage_pending = ''pending''"
| "stage_value Stage_running = ''running''"
| "stage_value Stage_succeeded = ''succeeded''"
| "stage_value Stage_failed = ''failed''"
| "stage_value Stage_skipped = ''skipped''"
| "stage_value Stage_cancelled = ''cancelled''"

definition run_states :: "run_state list" where
  "run_states = [Draft, Collecting, Auditing, Gate_1_review, Planning, Generating, Gate_2_review,
     Final_qa, Packaged, Approved, Revision_requested, Failed, Cancelled]"

definition state_of :: "string \<Rightarrow> run_state option" where
  "state_of v = find (\<lambda>s. state_value s = v) run_states"

definition decision_of :: "string \<Rightarrow> approval_decision option" where
  "decision_of v = find (\<lambda>d. decision_value d = v)
     [Decision_pending, Decision_approved, Decision_revision_requested, Decision_rejected]"

lemma state_of_value [simp]: "state_of (state_value s) = Some s"
  by (cases s) (simp_all add: state_of_def run_states_def)

lemma state_value_inj: "state_value s = state_value t \<longleftrightarrow> s = t"
  by (metis option.inject state_of_value)

lemma decision_of_value [simp]: "decision_of (decision_value d) = Some d"
  by (cases d) (simp_all add: decision_of_def)

lemma decision_value_inj: "decision_value c = decision_value d \<longleftrightarrow> c = d"
  by (metis option.inject decision_of_value)

lemma find_Some_sat: "find p xs = Some x \<Longrightarrow> p x"
  by (induction xs) (auto split: if_splits)

lemma state_of_Some_iff [simp]: "state_of v = Some s \<longleftrightarrow> v = state_value s"
proof
  assume "state_of v = Some s"
  from find_Some_sat [OF this [unfolded state_of_def]] show "v = state_value s" by (rule sym)
qed (simp only: state_of_value)

lemma decision_of_Some_iff [simp]: "decision_of v = Some d \<longleftrightarrow> v = decision_value d"
proof
  assume "decision_of v = Some d"
  from find_Some_sat [OF this [unfolded decision_of_def]] show "v = decision_value d" by (rule sym)
qed (simp only: decision_of_value)

subsection \<open>Rows\<close>

record user =
  user_id :: uid
  is_authenticated :: bool
  is_superuser :: bool
  role :: user_role

record project =
  project_id :: uid
  project_client :: uid
  project_name :: string
  project_slug :: string
  primary_domain :: string
  approved_domains :: "string list"
  project_locale :: string
  country_code :: string
  business_type :: string
  default_profile :: string
  project_status :: string
  conversion_goals :: json
  brand_facts :: json
  prohibited_claims :: json
  cms_platform :: string

record membership =
  mb_user :: uid
  mb_client :: uid
  mb_project :: "uid option"
  mb_access_role :: user_role
  mb_is_active :: bool

record audit_run =
  run_id :: uid
  run_project :: uid
  run_profile_text :: string
  run_state :: run_state
  run_created_by :: "uid option"
  idempotency_key :: string
  run_version :: nat
  run_rule_version :: string
  source_cutoff_at :: "moment option"
  run_evidence_coverage :: rat
  run_confidence :: rat
  run_health_score :: "rat option"
  run_error_code :: string
  run_error_summary :: string
  cancelled_at :: "moment option"
  completed_at :: "moment option"

record run_stage =
  stage_id :: uid
  stage_run :: uid
  stage_name :: string
  stage_state :: stage_status
  stage_sequence :: nat
  stage_attempts :: nat
  stage_checkpoint :: "(string \<times> json) list"
  started_at :: "moment option"
  heartbeat_at :: "moment option"
  finished_at :: "moment option"
  stage_error_code :: string
  stage_error_summary :: string

record artifact =
  artifact_id :: uid
  artifact_run :: uid
  artifact_type :: string
  artifact_created_by :: "uid option"
  artifact_title :: string
  artifact_format :: string
  artifact_storage_key :: string
  artifact_sha256 :: string
  size_bytes :: nat
  media_type_text :: string
  artifact_risk :: risk_level
  approval_required :: bool
  artifact_review :: review_status
  approved_at :: "moment option"
  artifact_metadata :: json

record approval =
  approval_id :: uid
  approval_run :: uid
  approval_artifact :: "uid option"
  approval_gate :: approval_gate
  target_type :: string
  target_id :: "uid option"
  decision :: approval_decision
  requested_by :: "uid option"
  reviewed_by :: "uid option"
  requested_at :: moment
  decided_at :: "moment option"
  approval_comment :: string

record qa_result =
  qa_run :: uid
  qa_artifact :: "uid option"
  check_code :: string
  check_version :: string
  qa_severity :: level
  qa_status :: qa_status
  qa_message :: string
  qa_details :: json

record audit_event =
  event_actor :: "uid option"
  event_client :: "uid option"
  event_project :: "uid option"
  event_run :: "uid option"
  event_type :: string
  object_type :: string
  object_id :: string
  request_id :: string
  ip_address_text :: "string option"
  payload :: "(string \<times> json) list"

record db =
  projects :: "project list"
  memberships :: "membership list"
  runs :: "audit_run list"
  stages :: "run_stage list"
  artifacts :: "artifact list"
  approvals :: "approval list"
  qa_results :: "qa_result list"
  events :: "audit_event list"

text \<open>
  \<open>Membership.clean\<close> and \<open>Project.clean\<close> as the conditions under which they raise nothing; the database
  itself does not enforce them. \<open>run_score_ok\<close> is the check constraint of \<open>AuditRun\<close>.
\<close>

definition membership_clean :: "project list \<Rightarrow> membership \<Rightarrow> bool" where
  "membership_clean ps m \<longleftrightarrow> (case mb_project m of None \<Rightarrow> True
     | Some k \<Rightarrow> list_all (\<lambda>p. project_id p = k \<longrightarrow> project_client p = mb_client m) ps)"

definition clean_domain :: "string \<Rightarrow> string" where
  "clean_domain v = rstrip_of (\<lambda>c. c = CHR ''.'') (casefold (strip v))"

definition project_clean :: "project \<Rightarrow> bool" where
  "project_clean p \<longleftrightarrow>
     (let primary = clean_domain (primary_domain p)
      in primary = [] \<or> primary \<in> set (map clean_domain (approved_domains p)))"

definition run_score_ok :: "audit_run \<Rightarrow> bool" where
  "run_score_ok r \<longleftrightarrow> run_health_score r = None \<or> 70 \<le> run_evidence_coverage r"

subsection \<open>Errors and queries\<close>

text \<open>
  The exceptions of \<open>workflow.py\<close>, with the built-in \<open>PermissionError\<close> and \<open>ValueError\<close> (\<open>Bad_value\<close>)
  it raises, and four exceptions of Django: \<open>DoesNotExist\<close> of \<open>get()\<close>, \<open>IntegrityError\<close> of a violated
  constraint, \<open>DataError\<close> of a value too long for its column, and \<open>TransactionManagementError\<close>, with which Django answers a query inside an atomic
  block that has already failed. \<open>Library_error\<close> carries an exception of a library call or of \<open>audit_engine\<close>.
\<close>

datatype wf_error =
    InvalidTransition string
  | TransitionConflict string
  | ApprovalRequired string
  | QualityGateFailed string
  | PermissionError string
  | Bad_value string
  | DoesNotExist string
  | IntegrityError
  | DataError string
  | TransactionManagementError
  | Library_error exn

definition get_row :: "string \<Rightarrow> ('r \<Rightarrow> bool) \<Rightarrow> 'r list \<Rightarrow> wf_error + 'r" where
  "get_row what p rows = (case find p rows of None \<Rightarrow> Inl (DoesNotExist what) | Some r \<Rightarrow> Inr r)"

definition save_row :: "('r \<Rightarrow> uid) \<Rightarrow> 'r \<Rightarrow> 'r list \<Rightarrow> 'r list" where
  "save_row key r rows = map (\<lambda>x. if key x = key r then r else x) rows"

definition get_run :: "db \<Rightarrow> uid \<Rightarrow> wf_error + audit_run" where
  "get_run d pk = get_row ''AuditRun'' (\<lambda>r. run_id r = pk) (runs d)"

definition save_run :: "audit_run \<Rightarrow> db \<Rightarrow> db" where
  "save_run r d = d\<lparr>runs := save_row run_id r (runs d)\<rparr>"

definition find_project :: "db \<Rightarrow> uid \<Rightarrow> project option" where
  "find_project d pk = find (\<lambda>p. project_id p = pk) (projects d)"

text \<open>\<open>run.project\<close>: the row the foreign key points to, which the database keeps from dangling.\<close>

definition project_of :: "db \<Rightarrow> audit_run \<Rightarrow> wf_error + project" where
  "project_of d r = get_row ''Project'' (\<lambda>p. project_id p = run_project r) (projects d)"

lemma find_None_all: "find p xs = None \<longleftrightarrow> (\<forall>x \<in> set xs. \<not> p x)"
  by (auto simp: find_None_iff)

lemma find_Some_mem: "find p xs = Some x \<Longrightarrow> x \<in> set xs"
  by (induction xs) (auto split: if_splits)

lemma find_the:
  assumes "x \<in> set xs" and "p x" and "\<And>y. y \<in> set xs \<Longrightarrow> p y \<Longrightarrow> y = x"
  shows "find p xs = Some x"
proof (cases "find p xs")
  case None
  with assms(1,2) show ?thesis by (simp add: find_None_all)
next
  case (Some y)
  with assms(3) [OF find_Some_mem [OF Some] find_Some_sat [OF Some]] show ?thesis by simp
qed

lemma get_row_Inr_iff: "get_row w p rows = Inr r \<longleftrightarrow> find p rows = Some r"
  by (simp add: get_row_def split: option.split)

lemma get_rowD: "get_row w p rows = Inr r \<Longrightarrow> r \<in> set rows \<and> p r"
  by (auto simp: get_row_Inr_iff dest: find_Some_mem find_Some_sat)

lemma get_runD: "get_run d pk = Inr r \<Longrightarrow> r \<in> set (runs d) \<and> run_id r = pk"
  unfolding get_run_def by (rule get_rowD)

lemma project_ofD: "project_of d r = Inr p \<Longrightarrow> p \<in> set (projects d) \<and> project_id p = run_project r"
  unfolding project_of_def by (rule get_rowD)

lemma set_save_row:
  "x \<in> set (save_row key r rows) \<Longrightarrow> (x = r \<and> (\<exists>y \<in> set rows. key y = key r)) \<or> (x \<in> set rows \<and> key x \<noteq> key r)"
  by (auto simp: save_row_def split: if_splits)

lemma keys_save_row [simp]: "map key (save_row key r rows) = map key rows"
  by (simp add: save_row_def)

lemma find_save_row:
  "find (\<lambda>x. key x = k) (save_row key r rows) =
     (if key r = k \<and> find (\<lambda>x. key x = k) rows \<noteq> None then Some r else find (\<lambda>x. key x = k) rows)"
  by (induction rows) (auto simp: save_row_def)

lemma get_run_save_run:
  "get_run d pk = Inr r \<Longrightarrow> run_id q = pk \<Longrightarrow> get_run (save_run q d) pk = Inr q"
  by (simp add: get_run_def get_row_Inr_iff save_run_def find_save_row)

lemma get_run_save_run_other:
  "run_id q \<noteq> pk \<Longrightarrow> get_run (save_run q d) pk = get_run d pk"
  by (simp add: get_run_def get_row_def save_run_def find_save_row)

lemma save_run_fields [simp]:
  "projects (save_run r d) = projects d" "memberships (save_run r d) = memberships d"
  "stages (save_run r d) = stages d" "artifacts (save_run r d) = artifacts d"
  "approvals (save_run r d) = approvals d" "qa_results (save_run r d) = qa_results d"
  "events (save_run r d) = events d" "runs (save_run r d) = save_row run_id r (runs d)"
  by (simp_all add: save_run_def)

subsection \<open>The event trail\<close>

record http_request =
  remote_addr :: string
  http_request_id :: string

datatype subject = Run_object audit_run | Project_object project | Client_object uid

definition safe_ip :: "http_request option \<Rightarrow> string option" where
  "safe_ip r = (case r of None \<Rightarrow> None | Some q \<Rightarrow> map_option ip_text (ip_address (remote_addr q)))"

fun object_label :: "subject \<Rightarrow> string" where
  "object_label (Run_object r) = ''domain.auditrun''"
| "object_label (Project_object p) = ''domain.project''"
| "object_label (Client_object c) = ''domain.client''"

fun object_pk :: "subject \<Rightarrow> uid" where
  "object_pk (Run_object r) = run_id r"
| "object_pk (Project_object p) = project_id p"
| "object_pk (Client_object c) = c"

definition event_row :: "db \<Rightarrow> string \<Rightarrow> user option \<Rightarrow> http_request option \<Rightarrow> subject option \<Rightarrow>
    uid option \<Rightarrow> project option \<Rightarrow> audit_run option \<Rightarrow> (string \<times> json) list \<Rightarrow> audit_event" where
  "event_row d ty actor req obj client project run data =
     (let run = (case obj of Some (Run_object r) \<Rightarrow> Some (opt_or r run) | _ \<Rightarrow> run);
          project = (case run of Some r \<Rightarrow> (case project of None \<Rightarrow> find_project d (run_project r)
                                                     | Some p \<Rightarrow> Some p)
                               | None \<Rightarrow> project);
          project = (case obj of Some (Project_object p) \<Rightarrow> Some (opt_or p project) | _ \<Rightarrow> project);
          client = (case project of Some p \<Rightarrow> Some (opt_or (project_client p) client) | None \<Rightarrow> client);
          client = (case obj of Some (Client_object c) \<Rightarrow> Some (opt_or c client) | _ \<Rightarrow> client)
      in \<lparr>event_actor = (case actor of Some u \<Rightarrow> if is_authenticated u then Some (user_id u) else None
                                    | None \<Rightarrow> None),
          event_client = client, event_project = map_option project_id project,
          event_run = map_option run_id run, event_type = take 120 ty,
          object_type = take 120 (case obj of None \<Rightarrow> [] | Some b \<Rightarrow> object_label b),
          object_id = take 80 (case obj of None \<Rightarrow> [] | Some b \<Rightarrow> object_pk b),
          request_id = take 100 (case req of None \<Rightarrow> [] | Some q \<Rightarrow> http_request_id q),
          ip_address_text = safe_ip req, payload = data\<rparr>)"

definition record_event :: "string \<Rightarrow> user option \<Rightarrow> http_request option \<Rightarrow> subject option \<Rightarrow>
    uid option \<Rightarrow> project option \<Rightarrow> audit_run option \<Rightarrow> (string \<times> json) list \<Rightarrow> db \<Rightarrow> db" where
  "record_event ty actor req obj client project run data d =
     d\<lparr>events := events d @ [event_row d ty actor req obj client project run data]\<rparr>"

text \<open>The call most services make: an event about one run.\<close>

definition run_event :: "string \<Rightarrow> user option \<Rightarrow> http_request option \<Rightarrow> audit_run \<Rightarrow>
    (string \<times> json) list \<Rightarrow> db \<Rightarrow> db" where
  "run_event ty actor req r data d = record_event ty actor req (Some (Run_object r)) None None None data d"

lemma record_event_fields [simp]:
  "projects (record_event ty a q b c p r x d) = projects d"
  "memberships (record_event ty a q b c p r x d) = memberships d"
  "runs (record_event ty a q b c p r x d) = runs d"
  "stages (record_event ty a q b c p r x d) = stages d"
  "artifacts (record_event ty a q b c p r x d) = artifacts d"
  "approvals (record_event ty a q b c p r x d) = approvals d"
  "qa_results (record_event ty a q b c p r x d) = qa_results d"
  "events (record_event ty a q b c p r x d) = events d @ [event_row d ty a q b c p r x]"
  by (simp_all add: record_event_def)

lemma run_event_fields [simp]:
  "projects (run_event ty a q r x d) = projects d"
  "memberships (run_event ty a q r x d) = memberships d"
  "runs (run_event ty a q r x d) = runs d"
  "stages (run_event ty a q r x d) = stages d"
  "artifacts (run_event ty a q r x d) = artifacts d"
  "approvals (run_event ty a q r x d) = approvals d"
  "qa_results (run_event ty a q r x d) = qa_results d"
  "\<exists>e. events (run_event ty a q r x d) = events d @ [e] \<and> event_run e = Some (run_id r)"
  by (simp_all add: run_event_def event_row_def Let_def opt_or_def split: option.split)

end
