(* ===== verification/Permissions.thy ===== *)
theory Permissions
  imports Domain
begin

text \<open>
  \<open>app/domain/permissions.py\<close>: which projects a user sees, manages, reviews, and which gates and
  artifacts the user may approve or download. A query over the membership table is a test of its rows,
  \<open>exists()\<close> is \<open>list_ex\<close>; a queryset is the list of the rows it yields.
\<close>

subsection \<open>Authorization rules\<close>

definition is_agency_admin :: "user \<Rightarrow> bool" where
  "is_agency_admin u \<longleftrightarrow> is_superuser u \<or> role u = Agency_admin"

text \<open>The rows of \<open>Membership.objects.filter(user, client=project.client, is_active=True)\<close> that concern a project.\<close>

definition member_of :: "user \<Rightarrow> project \<Rightarrow> membership \<Rightarrow> bool" where
  "member_of u p m \<longleftrightarrow> mb_user m = user_id u \<and> mb_client m = project_client p \<and> mb_is_active m \<and>
     (mb_project m = Some (project_id p) \<or> mb_project m = None)"

definition lists_project :: "user \<Rightarrow> project \<Rightarrow> membership \<Rightarrow> bool" where
  "lists_project u p m \<longleftrightarrow>
     (mb_project m = Some (project_id p) \<and> mb_user m = user_id u \<and> mb_is_active m) \<or>
     (mb_client m = project_client p \<and> mb_user m = user_id u \<and> mb_project m = None \<and> mb_is_active m)"

definition accessible_projects :: "db \<Rightarrow> user \<Rightarrow> project list" where
  "accessible_projects d u =
     (if \<not> is_authenticated u then []
      else if is_superuser u \<or> role u = Agency_admin then projects d
      else filter (\<lambda>p. list_ex (lists_project u p) (memberships d)) (projects d))"

definition can_access_project :: "db \<Rightarrow> user \<Rightarrow> project \<Rightarrow> bool" where
  "can_access_project d u p =
     (if \<not> is_authenticated u then False
      else if is_superuser u \<or> role u = Agency_admin then True
      else list_ex (member_of u p) (memberships d))"

definition can_manage_project :: "db \<Rightarrow> user \<Rightarrow> project \<Rightarrow> bool" where
  "can_manage_project d u p =
     (if \<not> is_authenticated u then False
      else if is_superuser u \<or> role u = Agency_admin then True
      else if role u \<noteq> Analyst then False
      else list_ex (\<lambda>m. member_of u p m \<and> mb_access_role m = Analyst) (memberships d))"

definition can_review_project :: "db \<Rightarrow> user \<Rightarrow> project \<Rightarrow> bool" where
  "can_review_project d u p \<longleftrightarrow>
     can_access_project d u p \<and> role u \<in> {Agency_admin, Analyst, Client_reviewer}"

definition can_approve_gate :: "db \<Rightarrow> user \<Rightarrow> project \<Rightarrow> approval_gate \<Rightarrow> bool" where
  "can_approve_gate d u p gate =
     (if \<not> can_review_project d u p then False
      else if gate = High_risk then is_superuser u \<or> role u = Agency_admin
      else role u \<in> {Agency_admin, Client_reviewer} \<or> is_superuser u)"

definition can_download_artifact :: "db \<Rightarrow> user \<Rightarrow> project \<Rightarrow> artifact \<Rightarrow> bool" where
  "can_download_artifact d u p a =
     (if \<not> can_access_project d u p then False
      else if role u = Client_reviewer then artifact_review a = Review_approved
      else True)"

text \<open>
  The object a REST view is asked about: a project, or an object whose attributes \<open>project\<close> and
  \<open>run.project\<close> are given where it has them.
\<close>

datatype view_object = Is_project project | Related (project_attr: "project option") (run_attr: "project option")

fun object_project :: "view_object \<Rightarrow> project option" where
  "object_project (Is_project p) = Some p"
| "object_project (Related (Some p) r) = Some p"
| "object_project (Related None r) = r"

definition has_project_access :: "db \<Rightarrow> user \<Rightarrow> view_object \<Rightarrow> bool" where
  "has_project_access d u obj =
     (case object_project obj of None \<Rightarrow> False | Some p \<Rightarrow> can_access_project d u p)"

definition has_manage_access :: "db \<Rightarrow> user \<Rightarrow> view_object \<Rightarrow> bool" where
  "has_manage_access d u obj =
     (case object_project obj of None \<Rightarrow> False | Some p \<Rightarrow> can_manage_project d u p)"

subsection \<open>Facts the services share\<close>

lemma admin_accesses: "is_authenticated u \<Longrightarrow> is_agency_admin u \<Longrightarrow> can_access_project d u p"
  by (simp add: can_access_project_def is_agency_admin_def)

lemma admin_manages: "is_authenticated u \<Longrightarrow> is_agency_admin u \<Longrightarrow> can_manage_project d u p"
  by (auto simp: can_manage_project_def is_agency_admin_def)

lemma review_iff_access: "can_review_project d u p \<longleftrightarrow> can_access_project d u p"
  by (cases "role u") (simp_all add: can_review_project_def)

lemma manage_access: "can_manage_project d u p \<Longrightarrow> can_access_project d u p"
  by (auto simp: can_manage_project_def can_access_project_def list_ex_iff split: if_splits)

lemma manage_role:
  "can_manage_project d u p \<Longrightarrow> is_agency_admin u \<or> role u = Analyst"
  by (auto simp: can_manage_project_def is_agency_admin_def split: if_splits)

lemma approve_role:
  "can_approve_gate d u p g \<Longrightarrow> is_agency_admin u \<or> (role u = Client_reviewer \<and> g \<noteq> High_risk)"
  by (auto simp: can_approve_gate_def is_agency_admin_def split: if_splits)

lemma approve_access: "can_approve_gate d u p g \<Longrightarrow> can_access_project d u p"
  by (simp add: can_approve_gate_def review_iff_access split: if_splits)

lemma permissions_depend_on_memberships:
  assumes "memberships d = memberships e"
  shows "can_access_project d u p = can_access_project e u p"
    "can_manage_project d u p = can_manage_project e u p"
    "can_review_project d u p = can_review_project e u p"
    "can_approve_gate d u p g = can_approve_gate e u p g"
  using assms
  by (simp_all add: can_access_project_def can_manage_project_def can_review_project_def can_approve_gate_def)

lemma member_lists: "member_of u p m \<Longrightarrow> lists_project u p m"
  by (auto simp: member_of_def lists_project_def)

lemma lists_member:
  "lists_project u p m \<Longrightarrow> membership_clean ps m \<Longrightarrow> p \<in> set ps \<Longrightarrow> member_of u p m"
  by (auto simp: member_of_def lists_project_def membership_clean_def list_all_iff)

text \<open>The test under which \<open>accessible_projects\<close> keeps a project, and how it relates to the access check.\<close>

definition lists_for :: "db \<Rightarrow> user \<Rightarrow> project \<Rightarrow> bool" where
  "lists_for d u p \<longleftrightarrow> is_authenticated u \<and>
     (is_superuser u \<or> role u = Agency_admin \<or> list_ex (lists_project u p) (memberships d))"

lemma accessible_filter: "accessible_projects d u = filter (lists_for d u) (projects d)"
  unfolding accessible_projects_def lists_for_def by (auto simp: fun_eq_iff intro: filter_cong)

lemma accessible_projects_iff: "p \<in> set (accessible_projects d u) \<longleftrightarrow> p \<in> set (projects d) \<and> lists_for d u p"
  by (simp add: accessible_filter)

lemma accessible_by_access: "can_access_project d u p \<Longrightarrow> lists_for d u p"
  using member_lists by (auto simp: lists_for_def can_access_project_def list_ex_iff split: if_splits)

lemma access_by_accessible:
  "lists_for d u p \<Longrightarrow> \<forall>m \<in> set (memberships d). membership_clean (projects d) m \<Longrightarrow> p \<in> set (projects d) \<Longrightarrow>
   can_access_project d u p"
  unfolding lists_for_def can_access_project_def list_ex_iff by (auto dest: lists_member intro: bexI)

subsection \<open>Properties\<close>

text \<open>
  C33: The project list and the access check agree. Every project a user may access is listed by
  \<open>accessible_projects\<close>, in table order and without repetition; when every membership satisfies
  \<open>Membership.clean\<close> the list is exactly the projects \<open>can_access_project\<close> grants.
\<close>

theorem accessible_projects_exact:
  assumes "distinct (projects d)"
  shows "distinct (accessible_projects d u) \<and>
    (\<forall>p \<in> set (projects d). can_access_project d u p \<longrightarrow> p \<in> set (accessible_projects d u)) \<and>
    ((\<forall>m \<in> set (memberships d). membership_clean (projects d) m) \<longrightarrow>
       accessible_projects d u = filter (can_access_project d u) (projects d))"
proof (intro conjI impI ballI)
  show "distinct (accessible_projects d u)"
    using assms by (simp add: accessible_projects_def)
  show "p \<in> set (accessible_projects d u)" if "p \<in> set (projects d)" "can_access_project d u p" for p
    using that by (simp add: accessible_by_access accessible_projects_iff)
  show "accessible_projects d u = filter (can_access_project d u) (projects d)"
    if "\<forall>m \<in> set (memberships d). membership_clean (projects d) m"
    unfolding accessible_filter by (rule filter_cong) (use that access_by_accessible accessible_by_access in blast)+
qed

definition demo_project :: "uid \<Rightarrow> uid \<Rightarrow> project" where
  "demo_project k c = \<lparr>project_id = k, project_client = c, project_name = ''Demo'', project_slug = ''demo'', primary_domain = ''a.com'',
     approved_domains = [''a.com''], project_locale = ''en-AU'', country_code = ''AU'',
     business_type = ''service'', default_profile = ''standard'', project_status = ''active'', conversion_goals = JList [],
     brand_facts = JObj [], prohibited_claims = JList [], cms_platform = []\<rparr>"

definition demo_db :: "membership list \<Rightarrow> db" where
  "demo_db ms = \<lparr>projects = [demo_project ''p1'' ''c1'', demo_project ''p2'' ''c2''], memberships = ms,
     runs = [], stages = [], artifacts = [], approvals = [], qa_results = [], events = []\<rparr>"

definition demo_user :: "user_role \<Rightarrow> user" where
  "demo_user r = \<lparr>user_id = ''u1'', is_authenticated = True, is_superuser = False, role = r\<rparr>"

definition demo_membership :: "uid \<Rightarrow> uid option \<Rightarrow> membership" where
  "demo_membership c p = \<lparr>mb_user = ''u1'', mb_client = c, mb_project = p, mb_access_role = Analyst, mb_is_active = True\<rparr>"

lemmas demo_defs = demo_project_def demo_db_def demo_user_def demo_membership_def

theorem accessible_projects_exact_witness:
  "accessible_projects (demo_db [demo_membership ''c1'' None]) (demo_user Analyst) = [demo_project ''p1'' ''c1'']"
proof -
  have "accessible_projects (demo_db [demo_membership ''c1'' None]) (demo_user Analyst) =
      filter (can_access_project (demo_db [demo_membership ''c1'' None]) (demo_user Analyst))
        (projects (demo_db [demo_membership ''c1'' None]))"
    using accessible_projects_exact [of "demo_db [demo_membership ''c1'' None]" "demo_user Analyst"]
    by (simp add: demo_defs membership_clean_def)
  then show ?thesis by (simp add: demo_defs can_access_project_def member_of_def)
qed

text \<open>
  C35: Tenants are isolated. A user who is neither superuser nor agency administrator and has no active
  membership of the project or of its whole client can neither access, manage nor review the project,
  approve a gate of its runs or download one of its artifacts, whatever role the user has.
\<close>

theorem tenant_isolation:
  assumes "\<not> is_superuser u" and "role u \<noteq> Agency_admin"
    and "\<forall>m \<in> set (memberships d). mb_user m = user_id u \<longrightarrow> mb_is_active m \<longrightarrow>
           mb_client m \<noteq> project_client p \<or> (mb_project m \<noteq> None \<and> mb_project m \<noteq> Some (project_id p))"
  shows "\<not> can_access_project d u p \<and> \<not> can_manage_project d u p \<and> \<not> can_review_project d u p \<and>
    \<not> can_approve_gate d u p g \<and> \<not> can_download_artifact d u p a \<and>
    \<not> has_project_access d u (Is_project p) \<and> \<not> has_manage_access d u (Related None (Some p))"
proof -
  have no: "\<not> can_access_project d u p"
    using assms by (auto simp: can_access_project_def list_ex_iff member_of_def)
  then show ?thesis
    by (auto simp: has_project_access_def has_manage_access_def can_download_artifact_def
        review_iff_access dest: manage_access approve_access)
qed

theorem tenant_isolation_witness:
  "\<not> can_access_project (demo_db [demo_membership ''c1'' None]) (demo_user Client_reviewer) (demo_project ''p2'' ''c2'')"
  using tenant_isolation [of "demo_user Client_reviewer" "demo_db [demo_membership ''c1'' None]" "demo_project ''p2'' ''c2''"]
  by (simp add: demo_defs)

text \<open>
  Duties are separated. Whoever may approve a gate without being superuser or agency administrator is a
  client reviewer, approves no high-risk gate and can neither manage the project nor download an artifact
  that is not approved; whoever manages without these powers is an analyst and approves no gate at all.
\<close>

theorem separation_of_duties:
  assumes "\<not> is_superuser u" and "role u \<noteq> Agency_admin"
  shows "(can_approve_gate d u p g \<longrightarrow>
      role u = Client_reviewer \<and> g \<noteq> High_risk \<and> \<not> can_manage_project d u q \<and>
      (can_download_artifact d u q a \<longrightarrow> artifact_review a = Review_approved)) \<and>
    (can_manage_project d u p \<longrightarrow> role u = Analyst \<and> \<not> can_approve_gate d u q g)"
proof -
  have plain: "\<not> is_agency_admin u" using assms by (simp add: is_agency_admin_def)
  have approve: "can_approve_gate d u r h \<Longrightarrow> role u = Client_reviewer \<and> h \<noteq> High_risk" for r h
    using approve_role [of d u r h] plain by simp
  have manage: "can_manage_project d u r \<Longrightarrow> role u = Analyst" for r
    using manage_role [of d u r] plain by simp
  show ?thesis
    using approve [of p g] approve [of q g] manage [of p] manage [of q]
    by (auto simp: can_download_artifact_def split: if_splits)
qed

theorem separation_of_duties_witness:
  "role (demo_user Analyst) = Analyst \<and>
   \<not> can_approve_gate (demo_db [demo_membership ''c1'' None]) (demo_user Analyst) (demo_project ''p1'' ''c1'') Gate_1"
  using separation_of_duties [of "demo_user Analyst" "demo_db [demo_membership ''c1'' None]" "demo_project ''p1'' ''c1''"
      Gate_1 "demo_project ''p1'' ''c1''"]
  by (simp add: demo_defs can_manage_project_def member_of_def)

end
