(* ===== verification/Workflow.thy ===== *)
theory Workflow
  imports Permissions
begin

text \<open>
  \<open>app/domain/workflow.py\<close>: the state machine of an audit run with its approval gates, idempotent creation
  of runs and decisions on approvals. \<open>expected_version\<close> is the optimistic lock of the API, the argument
  \<open>now\<close> the clock at which an operation runs.
\<close>

subsection \<open>Transitions and gates\<close>

fun ALLOWED_TRANSITIONS :: "run_state \<Rightarrow> run_state list" where
  "ALLOWED_TRANSITIONS Draft = [Collecting, Cancelled]"
| "ALLOWED_TRANSITIONS Collecting = [Auditing, Failed, Cancelled]"
| "ALLOWED_TRANSITIONS Auditing = [Gate_1_review, Failed, Cancelled]"
| "ALLOWED_TRANSITIONS Gate_1_review = [Planning, Revision_requested, Cancelled]"
| "ALLOWED_TRANSITIONS Planning = [Generating, Failed, Cancelled]"
| "ALLOWED_TRANSITIONS Generating = [Gate_2_review, Failed, Cancelled]"
| "ALLOWED_TRANSITIONS Gate_2_review = [Final_qa, Revision_requested, Cancelled]"
| "ALLOWED_TRANSITIONS Final_qa = [Packaged, Revision_requested, Failed, Cancelled]"
| "ALLOWED_TRANSITIONS Packaged = [Approved, Revision_requested]"
| "ALLOWED_TRANSITIONS Revision_requested = [Planning, Generating, Final_qa, Cancelled]"
| "ALLOWED_TRANSITIONS Failed = [Collecting, Auditing, Planning, Generating, Final_qa, Cancelled]"
| "ALLOWED_TRANSITIONS Approved = []"
| "ALLOWED_TRANSITIONS Cancelled = []"

record profile_limits =
  crawl_pages :: nat
  pagespeed_samples :: nat
  content_assets :: nat

definition PROFILE_LIMITS :: "(string \<times> profile_limits) list" where
  "PROFILE_LIMITS =
     [(''quick'', \<lparr>crawl_pages = 250, pagespeed_samples = 10, content_assets = 0\<rparr>),
      (''standard'', \<lparr>crawl_pages = 2500, pagespeed_samples = 50, content_assets = 10\<rparr>),
      (''enterprise'', \<lparr>crawl_pages = 25000, pagespeed_samples = 200, content_assets = 20\<rparr>)]"

definition has_approval :: "db \<Rightarrow> audit_run \<Rightarrow> approval_gate \<Rightarrow> bool" where
  "has_approval d r gate \<longleftrightarrow>
     list_ex (\<lambda>a. approval_run a = run_id r \<and> approval_gate a = gate \<and> decision a = Decision_approved) (approvals d)"

definition blocking_qa :: "db \<Rightarrow> audit_run \<Rightarrow> bool" where
  "blocking_qa d r \<longleftrightarrow>
     list_ex (\<lambda>q. qa_run q = run_id r \<and> qa_status q = Qa_fail \<and> qa_severity q \<in> {Level_critical, Level_high})
       (qa_results d)"

definition unapproved_risky :: "db \<Rightarrow> audit_run \<Rightarrow> bool" where
  "unapproved_risky d r \<longleftrightarrow>
     list_ex (\<lambda>a. artifact_run a = run_id r \<and> approval_required a \<and> artifact_review a \<noteq> Review_approved)
       (artifacts d)"

definition guard_transition :: "db \<Rightarrow> audit_run \<Rightarrow> run_state \<Rightarrow> wf_error + unit" where
  "guard_transition d r t = raise_first
     [(run_state r = Gate_1_review \<and> t = Planning \<and> \<not> has_approval d r Gate_1,
       ApprovalRequired ''Gate 1 approval is required before planning''),
      (run_state r = Gate_2_review \<and> t = Final_qa \<and> \<not> has_approval d r Gate_2,
       ApprovalRequired ''Gate 2 approval is required before final QA''),
      (run_state r = Final_qa \<and> t = Packaged \<and> blocking_qa d r,
       QualityGateFailed ''Critical or high QA failures must be resolved before packaging''),
      (run_state r = Final_qa \<and> t = Packaged \<and> unapproved_risky d r,
       ApprovalRequired ''All high-risk artifacts must be approved before packaging''),
      (run_state r = Packaged \<and> t = Approved \<and> \<not> has_approval d r Gate_package,
       ApprovalRequired ''Final package approval is required'')]"

subsection \<open>Creating a run\<close>

definition same_key :: "project \<Rightarrow> string \<Rightarrow> audit_run \<Rightarrow> bool" where
  "same_key p key r \<longleftrightarrow> run_project r = project_id p \<and> idempotency_key r = key"

definition new_run :: "uid \<Rightarrow> project \<Rightarrow> string \<Rightarrow> string \<Rightarrow> string \<Rightarrow> user \<Rightarrow> audit_run" where
  "new_run pk p profile key rule_version actor =
     \<lparr>run_id = pk, run_project = project_id p, run_profile_text = profile, run_state = Draft,
      run_created_by = Some (user_id actor), idempotency_key = key, run_version = 1,
      run_rule_version = rule_version, source_cutoff_at = None, run_evidence_coverage = 0,
      run_confidence = 0, run_health_score = None, run_error_code = [], run_error_summary = [],
      cancelled_at = None, completed_at = None\<rparr>"

text \<open>
  \<open>race\<close> is what other transactions commit between the look-up of the key and the insertion, \<open>aborted\<close>
  says whether the database layer refuses further queries in an atomic block after an \<open>IntegrityError\<close>
  (Django does), \<open>pk\<close> is the new primary key. The default ordering of runs is newest first.
\<close>

definition insert_run :: "bool \<Rightarrow> uid \<Rightarrow> db \<Rightarrow> project \<Rightarrow> string \<Rightarrow> string \<Rightarrow> string \<Rightarrow> user \<Rightarrow> http_request option \<Rightarrow>
    wf_error + db \<times> audit_run \<times> bool" where
  "insert_run aborted pk d p profile key rule_version actor req =
     (if list_ex (\<lambda>r. run_id r = pk \<or> same_key p key r) (runs d)
      then (if aborted then Inl TransactionManagementError
            else bindE (get_row ''AuditRun'' (same_key p key) (runs d)) (\<lambda>r. Inr (d, r, False)))
      else let r = new_run pk p profile key rule_version actor in
           Inr (run_event ''run.created'' (Some actor) req r [(''profile'', JStr profile)]
                  (d\<lparr>runs := runs d @ [r]\<rparr>), r, True))"

definition create_run_idempotent :: "(db \<Rightarrow> db) \<Rightarrow> bool \<Rightarrow> uid \<Rightarrow> db \<Rightarrow> project \<Rightarrow> string \<Rightarrow> string \<Rightarrow>
    string \<Rightarrow> user \<Rightarrow> http_request option \<Rightarrow> wf_error + db \<times> audit_run \<times> bool" where
  "create_run_idempotent race aborted pk d p profile idem_key rule_version actor req =
     (let key = strip idem_key in
      bindE (raise_first
        [(\<not> can_manage_project d actor p, PermissionError ''Project management permission is required''),
         (key = [] \<or> 128 < length key, Bad_value ''A valid idempotency key is required'')]) (\<lambda>_.
      case find (same_key p key) (rev (runs d)) of
        Some r \<Rightarrow> Inr (d, r, False)
      | None \<Rightarrow> insert_run aborted pk (race d) p profile key rule_version actor req))"

subsection \<open>Moving a run\<close>

definition transition_target :: "audit_run \<Rightarrow> string \<Rightarrow> wf_error + run_state" where
  "transition_target r to_state =
     (case state_of to_state of
        Some t \<Rightarrow> if t \<in> set (ALLOWED_TRANSITIONS (run_state r)) then Inr t
                  else Inl (InvalidTransition (''Cannot transition from '' @ state_value (run_state r) @ '' to '' @ to_state))
      | None \<Rightarrow> Inl (InvalidTransition (''Cannot transition from '' @ state_value (run_state r) @ '' to '' @ to_state)))"

definition authorize_transition :: "db \<Rightarrow> user \<Rightarrow> project \<Rightarrow> run_state \<Rightarrow> string \<Rightarrow> wf_error + unit" where
  "authorize_transition d actor p t reason =
     (if t = Revision_requested then raise_first
        [(\<not> can_review_project d actor p, PermissionError ''Review permission is required''),
         (strip reason = [], Bad_value ''A revision reason is required'')]
      else if t = Approved then raise_first
        [(\<not> can_approve_gate d actor p Gate_package, PermissionError ''Package approval permission is required'')]
      else raise_first
        [(\<not> can_manage_project d actor p, PermissionError ''Project management permission is required'')])"

definition moved_run :: "moment \<Rightarrow> run_state \<Rightarrow> audit_run \<Rightarrow> audit_run" where
  "moved_run now t r = r\<lparr>run_state := t, run_version := run_version r + 1,
     cancelled_at := (if t = Cancelled then Some now else cancelled_at r),
     completed_at := (if t = Approved then Some now else completed_at r)\<rparr>"

definition transition_run :: "moment \<Rightarrow> db \<Rightarrow> uid \<Rightarrow> string \<Rightarrow> user \<Rightarrow> nat \<Rightarrow> http_request option \<Rightarrow> string \<Rightarrow>
    wf_error + db \<times> audit_run" where
  "transition_run now d pk to_state actor expected_version req reason =
     bindE (get_run d pk) (\<lambda>locked.
     bindE (raise_first [(run_version locked \<noteq> expected_version,
       TransitionConflict ''The run changed; refresh before trying again'')]) (\<lambda>_.
     bindE (transition_target locked to_state) (\<lambda>t.
     bindE (project_of d locked) (\<lambda>p.
     bindE (authorize_transition d actor p t reason) (\<lambda>_.
     bindE (guard_transition d locked t) (\<lambda>_.
     let moved = moved_run now t locked in
     Inr (run_event ''run.transitioned'' (Some actor) req moved
            [(''from'', JStr (state_value (run_state locked))), (''to'', JStr to_state),
             (''reason'', JStr (take 1000 reason))] (save_run moved d), moved)))))))"

subsection \<open>Deciding an approval\<close>

definition final_decision :: "string \<Rightarrow> wf_error + approval_decision" where
  "final_decision v =
     (case decision_of v of
        Some dec \<Rightarrow> if dec \<in> {Decision_approved, Decision_revision_requested, Decision_rejected} then Inr dec
                    else Inl (Bad_value ''A final approval decision is required'')
      | None \<Rightarrow> Inl (Bad_value ''A final approval decision is required''))"

definition decided :: "moment \<Rightarrow> user \<Rightarrow> approval_decision \<Rightarrow> string \<Rightarrow> approval \<Rightarrow> approval" where
  "decided now actor dec comment a = a\<lparr>decision := dec, reviewed_by := Some (user_id actor),
     decided_at := Some now, approval_comment := strip comment\<rparr>"

definition review_artifact :: "moment \<Rightarrow> approval_decision \<Rightarrow> approval \<Rightarrow> artifact \<Rightarrow> artifact" where
  "review_artifact now dec a x =
     (if approval_artifact a = Some (artifact_id x)
      then x\<lparr>artifact_review := (if dec = Decision_approved then Review_approved else Review_revision_requested),
             approved_at := (if dec = Decision_approved then Some now else None)\<rparr>
      else x)"

definition decide_approval :: "moment \<Rightarrow> db \<Rightarrow> uid \<Rightarrow> string \<Rightarrow> user \<Rightarrow> nat \<Rightarrow> string \<Rightarrow> http_request option \<Rightarrow>
    wf_error + db \<times> approval" where
  "decide_approval now d pk dec_text actor expected_run_version comment req =
     bindE (get_row ''Approval'' (\<lambda>a. approval_id a = pk) (approvals d)) (\<lambda>locked.
     bindE (get_run d (approval_run locked)) (\<lambda>r.
     bindE (raise_first
       [(run_version r \<noteq> expected_run_version, TransitionConflict ''The run changed; refresh before reviewing''),
        (decision locked \<noteq> Decision_pending, TransitionConflict ''This approval has already been decided'')]) (\<lambda>_.
     bindE (final_decision dec_text) (\<lambda>dec.
     bindE (project_of d r) (\<lambda>p.
     bindE (raise_first
       [(\<not> can_approve_gate d actor p (approval_gate locked), PermissionError ''Approval permission is required''),
        (dec \<noteq> Decision_approved \<and> strip comment = [],
         Bad_value ''A comment is required when approval is not granted'')]) (\<lambda>_.
     let saved = decided now actor dec comment locked;
         bumped = r\<lparr>run_version := run_version r + 1\<rparr>;
         d1 = d\<lparr>approvals := save_row approval_id saved (approvals d),
                artifacts := map (review_artifact now dec locked) (artifacts d)\<rparr>
     in Inr (run_event ''approval.decided'' (Some actor) req bumped
               [(''approval_id'', JStr (approval_id locked)), (''gate'', JStr (gate_value (approval_gate locked))),
                (''decision'', JStr dec_text)] (save_run bumped d1), saved)))))))"

subsection \<open>What the operations do\<close>

definition permitted :: "db \<Rightarrow> user \<Rightarrow> project \<Rightarrow> run_state \<Rightarrow> string \<Rightarrow> bool" where
  "permitted d actor p t reason \<longleftrightarrow>
     (if t = Revision_requested then can_review_project d actor p \<and> strip reason \<noteq> []
      else if t = Approved then can_approve_gate d actor p Gate_package
      else can_manage_project d actor p)"

definition gates_open :: "db \<Rightarrow> audit_run \<Rightarrow> run_state \<Rightarrow> bool" where
  "gates_open d r t \<longleftrightarrow>
     (run_state r = Gate_1_review \<and> t = Planning \<longrightarrow> has_approval d r Gate_1) \<and>
     (run_state r = Gate_2_review \<and> t = Final_qa \<longrightarrow> has_approval d r Gate_2) \<and>
     (run_state r = Final_qa \<and> t = Packaged \<longrightarrow> \<not> blocking_qa d r \<and> \<not> unapproved_risky d r) \<and>
     (run_state r = Packaged \<and> t = Approved \<longrightarrow> has_approval d r Gate_package)"

lemma authorize_ok_iff: "authorize_transition d actor p t reason = Inr () \<longleftrightarrow> permitted d actor p t reason"
  by (simp add: authorize_transition_def permitted_def)

lemma guard_ok_iff: "guard_transition d r t = Inr () \<longleftrightarrow> gates_open d r t"
  by (auto simp: guard_transition_def gates_open_def)

lemma transition_target_Inr_iff:
  "transition_target r ts = Inr t \<longleftrightarrow> ts = state_value t \<and> t \<in> set (ALLOWED_TRANSITIONS (run_state r))"
  by (cases "state_of ts") (auto simp: transition_target_def state_value_inj)

definition transition_event :: "audit_run \<Rightarrow> string \<Rightarrow> string \<Rightarrow> (string \<times> json) list" where
  "transition_event locked ts reason = [(''from'', JStr (state_value (run_state locked))), (''to'', JStr ts),
     (''reason'', JStr (take 1000 reason))]"

lemma transition_run_Inr_iff:
  "transition_run now d pk ts actor v req reason = Inr (d', r') \<longleftrightarrow>
     (\<exists>locked t p. get_run d pk = Inr locked \<and> run_version locked = v \<and> ts = state_value t \<and>
        t \<in> set (ALLOWED_TRANSITIONS (run_state locked)) \<and> project_of d locked = Inr p \<and>
        permitted d actor p t reason \<and> gates_open d locked t \<and> r' = moved_run now t locked \<and>
        d' = run_event ''run.transitioned'' (Some actor) req r' (transition_event locked ts reason) (save_run r' d))"
  unfolding transition_run_def
  by (auto simp: bindE_Inr_iff authorize_ok_iff guard_ok_iff transition_target_Inr_iff transition_event_def Let_def)

lemma transition_runI:
  assumes "get_run d pk = Inr r" "run_version r = v" "t \<in> set (ALLOWED_TRANSITIONS (run_state r))" "project_of d r = Inr p"
    "permitted d actor p t reason" "gates_open d r t"
  obtains d' where "transition_run now d pk (state_value t) actor v req reason = Inr (d', moved_run now t r)"
  using assms transition_run_Inr_iff by blast

lemma transition_runE:
  assumes "transition_run now d pk ts actor v req reason = Inr (d', r')"
  obtains locked t p where "get_run d pk = Inr locked" "run_version locked = v" "ts = state_value t"
    "t \<in> set (ALLOWED_TRANSITIONS (run_state locked))" "project_of d locked = Inr p"
    "permitted d actor p t reason" "gates_open d locked t" "r' = moved_run now t locked"
    "runs d' = save_row run_id r' (runs d)"
    "memberships d' = memberships d" "projects d' = projects d" "approvals d' = approvals d"
    "artifacts d' = artifacts d" "qa_results d' = qa_results d" "stages d' = stages d"
    "\<exists>e. events d' = events d @ [e] \<and> event_run e = Some (run_id locked)"
proof -
  obtain locked t p where
    ok: "get_run d pk = Inr locked" "run_version locked = v" "ts = state_value t"
      "t \<in> set (ALLOWED_TRANSITIONS (run_state locked))" "project_of d locked = Inr p"
      "permitted d actor p t reason" "gates_open d locked t"
    and r': "r' = moved_run now t locked"
    and d': "d' = run_event ''run.transitioned'' (Some actor) req r' (transition_event locked ts reason) (save_run r' d)"
    using assms unfolding transition_run_Inr_iff by blast
  have "run_id r' = run_id locked" by (simp add: r' moved_run_def)
  then have "\<exists>e. events d' = events d @ [e] \<and> event_run e = Some (run_id locked)"
    using run_event_fields(8) [of _ _ _ r' _ "save_run r' d"] by (simp add: d')
  then show ?thesis by (intro that [OF ok r']) (simp_all add: d')
qed

lemma final_decision_Inr_iff:
  "final_decision v = Inr dec \<longleftrightarrow> v = decision_value dec \<and> dec \<noteq> Decision_pending"
proof -
  have "c \<in> {Decision_approved, Decision_revision_requested, Decision_rejected} \<longleftrightarrow> c \<noteq> Decision_pending" for c
    by (cases c) simp_all
  note final = this
  show ?thesis
  proof (cases "decision_of v")
    case None
    then have "v \<noteq> decision_value dec" using decision_of_value [of dec] by force
    with None show ?thesis by (simp add: final_decision_def)
  next
    case (Some c)
    then have v: "v = decision_value c" by (simp only: decision_of_Some_iff)
    have "final_decision v = (if c \<noteq> Decision_pending then Inr c else Inl (Bad_value ''A final approval decision is required''))"
      by (simp only: final_decision_def Some option.case final)
    then show ?thesis unfolding v decision_value_inj by (auto split: if_splits)
  qed
qed

lemma decide_approvalE:
  assumes "decide_approval now d pk v actor ver comment req = Inr (d', a')"
  obtains a r dec p where "get_row ''Approval'' (\<lambda>a. approval_id a = pk) (approvals d) = Inr a"
    "get_run d (approval_run a) = Inr r" "run_version r = ver" "decision a = Decision_pending"
    "v = decision_value dec" "dec \<noteq> Decision_pending" "project_of d r = Inr p"
    "can_approve_gate d actor p (approval_gate a)"
    "dec \<noteq> Decision_approved \<Longrightarrow> strip comment \<noteq> []" "a' = decided now actor dec comment a"
    "runs d' = save_row run_id (r\<lparr>run_version := run_version r + 1\<rparr>) (runs d)"
    "approvals d' = save_row approval_id a' (approvals d)"
    "artifacts d' = map (review_artifact now dec a) (artifacts d)"
    "memberships d' = memberships d" "projects d' = projects d" "qa_results d' = qa_results d" "stages d' = stages d"
    "\<exists>e. events d' = events d @ [e] \<and> event_run e = Some (run_id r)"
proof -
  obtain a r dec p where
    row: "get_row ''Approval'' (\<lambda>a. approval_id a = pk) (approvals d) = Inr a" "get_run d (approval_run a) = Inr r"
    and ok: "run_version r = ver" "decision a = Decision_pending" "final_decision v = Inr dec" "project_of d r = Inr p"
      "can_approve_gate d actor p (approval_gate a)" "dec \<noteq> Decision_approved \<longrightarrow> strip comment \<noteq> []"
    and out: "a' = decided now actor dec comment a"
      "d' = run_event ''approval.decided'' (Some actor) req (r\<lparr>run_version := run_version r + 1\<rparr>)
         [(''approval_id'', JStr (approval_id a)), (''gate'', JStr (gate_value (approval_gate a))), (''decision'', JStr v)]
         (save_run (r\<lparr>run_version := run_version r + 1\<rparr>)
            (d\<lparr>approvals := save_row approval_id a' (approvals d), artifacts := map (review_artifact now dec a) (artifacts d)\<rparr>))"
    using assms unfolding decide_approval_def by (auto simp: bindE_Inr_iff Let_def split: if_splits)
  have v: "v = decision_value dec" "dec \<noteq> Decision_pending" using ok(3) by (simp_all add: final_decision_Inr_iff)
  have "\<exists>e. events d' = events d @ [e] \<and> event_run e = Some (run_id r)"
    using run_event_fields(8) [of _ _ _ "r\<lparr>run_version := run_version r + 1\<rparr>"
        _ "save_run (r\<lparr>run_version := run_version r + 1\<rparr>)
            (d\<lparr>approvals := save_row approval_id a' (approvals d), artifacts := map (review_artifact now dec a) (artifacts d)\<rparr>)"]
    by (simp add: out(2))
  then show ?thesis
    by (intro that [OF row ok(1,2) v ok(4,5) _ out(1)]) (use ok(6) in \<open>simp_all add: out(2)\<close>)
qed

lemma admin_permitted:
  "is_authenticated u \<Longrightarrow> is_agency_admin u \<Longrightarrow> strip reason \<noteq> [] \<or> t \<noteq> Revision_requested \<Longrightarrow> t \<noteq> Approved \<Longrightarrow>
   permitted d u p t reason"
  by (auto simp: permitted_def admin_manages review_iff_access admin_accesses)

subsection \<open>Properties of a transition\<close>

text \<open>
  C27: A transition request succeeds exactly when the run exists with the version the caller saw, the target
  is one of the states \<open>ALLOWED_TRANSITIONS\<close> lists for its state, the actor has the permission this target
  needs (review and a reason for a revision, package approval for \<open>approved\<close>, management otherwise) and every
  gate on the way is open; otherwise it raises and the database is unchanged.
\<close>

theorem transition_run_exact:
  "(\<exists>d' r'. transition_run now d pk ts actor v req reason = Inr (d', r')) \<longleftrightarrow>
     (\<exists>r t p. get_run d pk = Inr r \<and> run_version r = v \<and> ts = state_value t \<and>
        t \<in> set (ALLOWED_TRANSITIONS (run_state r)) \<and> project_of d r = Inr p \<and>
        permitted d actor p t reason \<and> gates_open d r t)"
  unfolding transition_run_Inr_iff by blast

definition demo_run :: "uid \<Rightarrow> run_state \<Rightarrow> audit_run" where
  "demo_run k s = (new_run k (demo_project ''p1'' ''c1'') ''quick'' (''key-'' @ k) ''v1'' (demo_user Analyst))\<lparr>run_state := s\<rparr>"

definition demo_approval :: "approval_gate \<Rightarrow> approval_decision \<Rightarrow> approval" where
  "demo_approval g c = \<lparr>approval_id = ''a1'', approval_run = ''r1'', approval_artifact = None, approval_gate = g,
     target_type = [], target_id = None, decision = c, requested_by = None, reviewed_by = None, requested_at = 0, decided_at = None, approval_comment = []\<rparr>"

definition demo_state :: "run_state \<Rightarrow> approval list \<Rightarrow> db" where
  "demo_state s as = (demo_db [demo_membership ''c1'' None])\<lparr>runs := [demo_run ''r1'' s], approvals := as\<rparr>"

definition demo_admin :: user where
  "demo_admin = \<lparr>user_id = ''u0'', is_authenticated = True, is_superuser = False, role = Agency_admin\<rparr>"

lemma demo_lookups:
  "get_run (demo_state s as) ''r1'' = Inr (demo_run ''r1'' s)"
  "project_of (demo_state s as) (demo_run ''r1'' s) = Inr (demo_project ''p1'' ''c1'')"
  "run_version (demo_run ''r1'' s) = 1" "run_state (demo_run ''r1'' s) = s"
  "is_authenticated demo_admin" "is_agency_admin demo_admin"
  by (simp_all add: demo_state_def demo_run_def demo_defs new_run_def get_run_def get_row_def project_of_def
      demo_admin_def is_agency_admin_def)

lemma demo_admin_step:
  assumes "t \<in> set (ALLOWED_TRANSITIONS s)" and "t \<noteq> Approved" and "t \<noteq> Revision_requested"
    and "gates_open (demo_state s as) (demo_run ''r1'' s) t"
  obtains d' where "transition_run now (demo_state s as) ''r1'' (state_value t) demo_admin 1 None [] =
    Inr (d', moved_run now t (demo_run ''r1'' s))"
proof -
  have "permitted (demo_state s as) demo_admin (demo_project ''p1'' ''c1'') t []"
    by (rule admin_permitted [OF demo_lookups(5,6)]) (use assms(2,3) in simp_all)
  moreover have "t \<in> set (ALLOWED_TRANSITIONS (run_state (demo_run ''r1'' s)))" using assms(1) by (simp only: demo_lookups(4))
  ultimately show ?thesis
    using transition_runI [OF demo_lookups(1,3) _ demo_lookups(2)] assms(4) that by blast
qed



lemma get_run_after_transition:
  assumes "transition_run now d pk ts actor v req reason = Inr (d', r')"
  shows "get_run d' pk = Inr r'" "run_version r' = v + 1"
proof -
  obtain r t where r: "get_run d pk = Inr r" "run_version r = v" "r' = moved_run now t r" "runs d' = save_row run_id r' (runs d)"
    by (rule transition_runE [OF assms])
  have "get_run d' pk = get_run (save_run r' d) pk" by (simp add: get_run_def r(4))
  with get_run_save_run [OF r(1), of r'] get_runD [OF r(1)] show "get_run d' pk = Inr r'"
    by (simp add: r(3) moved_run_def)
  show "run_version r' = v + 1" by (simp add: r(2,3) moved_run_def)
qed

lemma get_run_after_decision:
  assumes "decide_approval now d apk dec actor v comment req = Inr (d', a')"
  shows "\<exists>r. get_run d' (approval_run a') = Inr r \<and> run_version r = v + 1"
    and "get_row ''Approval'' (\<lambda>a. approval_id a = apk) (approvals d') = Inr a'" and "decision a' \<noteq> Decision_pending"
proof -
  obtain a r c where a: "get_row ''Approval'' (\<lambda>a. approval_id a = apk) (approvals d) = Inr a"
      "get_run d (approval_run a) = Inr r" "run_version r = v" "c \<noteq> Decision_pending" "a' = decided now actor c comment a"
      "runs d' = save_row run_id (r\<lparr>run_version := run_version r + 1\<rparr>) (runs d)"
      "approvals d' = save_row approval_id a' (approvals d)"
    by (rule decide_approvalE [OF assms])
  let ?r = "r\<lparr>run_version := run_version r + 1\<rparr>"
  have "get_run d' (approval_run a) = get_run (save_run ?r d) (approval_run a)" by (simp add: get_run_def a(6))
  with get_run_save_run [OF a(2), of ?r] get_runD [OF a(2)]
  show "\<exists>r. get_run d' (approval_run a') = Inr r \<and> run_version r = v + 1" by (simp add: a(3,5) decided_def)
  have "approval_id a' = apk" using get_rowD [OF a(1)] by (simp add: a(5) decided_def)
  with a(1) show "get_row ''Approval'' (\<lambda>a. approval_id a = apk) (approvals d') = Inr a'"
    by (simp add: a(7) get_row_Inr_iff find_save_row)
  show "decision a' \<noteq> Decision_pending" by (simp add: a(4,5) decided_def)
qed

lemma transition_conflict:
  "get_run d pk = Inr r \<Longrightarrow> run_version r \<noteq> v \<Longrightarrow>
   transition_run now d pk ts actor v req reason = Inl (TransitionConflict ''The run changed; refresh before trying again'')"
  by (simp add: transition_run_def)

lemma decision_conflict:
  "get_row ''Approval'' (\<lambda>a. approval_id a = apk) (approvals d) = Inr a \<Longrightarrow> get_run d (approval_run a) = Inr r \<Longrightarrow>
   run_version r \<noteq> v \<or> decision a \<noteq> Decision_pending \<Longrightarrow>
   \<exists>m. decide_approval now d apk dec actor v comment req = Inl (TransitionConflict m)"
  by (auto simp: decide_approval_def)



text \<open>
  C38: A decision is final. A decided approval is never decided again, whoever asks with whatever version; and
  the decision reaches the artifact it is about: the artifact is approved exactly when the decision is.
\<close>

theorem approval_decided_once:
  assumes "decide_approval now d apk dec actor v comment req = Inr (d', a')"
  shows "(\<exists>m. decide_approval now2 d' apk dec2 actor2 v2 comment2 req2 = Inl (TransitionConflict m)) \<and>
    (\<forall>x \<in> set (artifacts d'). approval_artifact a' = Some (artifact_id x) \<longrightarrow>
       (artifact_review x = Review_approved \<longleftrightarrow> decision a' = Decision_approved) \<and>
       (approved_at x \<noteq> None \<longleftrightarrow> decision a' = Decision_approved))"
proof
  obtain r where "get_run d' (approval_run a') = Inr r" using get_run_after_decision(1) [OF assms] by blast
  then show "\<exists>m. decide_approval now2 d' apk dec2 actor2 v2 comment2 req2 = Inl (TransitionConflict m)"
    by (rule decision_conflict [OF get_run_after_decision(2) [OF assms]]) (simp add: get_run_after_decision(3) [OF assms])
next
  obtain a c where "a' = decided now actor c comment a" "artifacts d' = map (review_artifact now c a) (artifacts d)"
    by (rule decide_approvalE [OF assms])
  then show "\<forall>x \<in> set (artifacts d'). approval_artifact a' = Some (artifact_id x) \<longrightarrow>
       (artifact_review x = Review_approved \<longleftrightarrow> decision a' = Decision_approved) \<and>
       (approved_at x \<noteq> None \<longleftrightarrow> decision a' = Decision_approved)"
    by (auto simp: decided_def review_artifact_def)
qed

theorem approval_decided_once_witness:
  "\<exists>d' m. (\<exists>a' :: approval. decide_approval 7 (demo_state Packaged [demo_approval Gate_package Decision_pending]) ''a1'' ''approved''
      demo_admin 1 [] None = Inr (d', a')) \<and>
     decide_approval 8 d' ''a1'' ''rejected'' demo_admin 2 ''no'' None = Inl (TransitionConflict m)"
proof -
  let ?d = "demo_state Packaged [demo_approval Gate_package Decision_pending]"
  have approved: "final_decision ''approved'' = Inr Decision_approved" by (simp add: final_decision_Inr_iff)
  obtain d' a' where step: "decide_approval 7 ?d ''a1'' ''approved'' demo_admin 1 [] None = Inr (d', a')"
    by (simp add: decide_approval_def approved demo_state_def demo_run_def demo_approval_def demo_admin_def demo_defs new_run_def
        get_run_def get_row_def project_of_def can_approve_gate_def can_review_project_def can_access_project_def Let_def)
  with approval_decided_once [OF step, of 8 "''rejected''" demo_admin 2 "''no''" None] show ?thesis by blast
qed

subsection \<open>Every run can be brought to an end\<close>

definition terminal :: "run_state \<Rightarrow> bool" where
  "terminal s \<longleftrightarrow> ALLOWED_TRANSITIONS s = []"

lemma terminal_iff: "terminal s \<longleftrightarrow> s = Approved \<or> s = Cancelled"
  by (cases s) (simp_all add: terminal_def)

text \<open>A request an administrator makes with the version just read.\<close>

definition admin_move :: "moment \<Rightarrow> user \<Rightarrow> string \<Rightarrow> uid \<Rightarrow> run_state \<Rightarrow> db \<Rightarrow> wf_error + db" where
  "admin_move now actor reason pk t d =
     bindE (get_run d pk) (\<lambda>r. mapR fst (transition_run now d pk (state_value t) actor (run_version r) None reason))"

lemma admin_move_step:
  assumes "get_run d pk = Inr r" and "project_of d r = Inr p" and "is_authenticated u" "is_agency_admin u"
    and "strip reason \<noteq> []" and "t \<in> set (ALLOWED_TRANSITIONS (run_state r))" and "t = Cancelled \<or> t = Revision_requested"
  obtains d' where "admin_move now u reason pk t d = Inr d'" "get_run d' pk = Inr (moved_run now t r)"
    "project_of d' (moved_run now t r) = Inr p"
proof -
  have "permitted d u p t reason" using assms admin_permitted by auto
  moreover have "gates_open d r t" using assms(7) by (auto simp: gates_open_def)
  then obtain d' where step: "transition_run now d pk (state_value t) u (run_version r) None reason = Inr (d', moved_run now t r)"
    using transition_runI [OF assms(1) refl assms(6,2)] \<open>permitted d u p t reason\<close> by blast
  then have d': "projects d' = projects d" by (rule transition_runE)
  from step show ?thesis using assms(1,2) get_run_after_transition(1) d'
    by (intro that [of d']) (auto simp: admin_move_def project_of_def moved_run_def)
qed

text \<open>
  C39: Every run can be brought to an end. An authenticated agency administrator can cancel any run that is not
  in a terminal state with at most two transition requests, each made with the version just read (from
  \<open>packaged\<close> a revision has to be requested first).
\<close>

theorem admin_can_cancel:
  assumes "get_run d pk = Inr r" and "project_of d r = Inr p" and "\<not> terminal (run_state r)"
    and "is_authenticated u" and "is_agency_admin u" and "strip reason \<noteq> []"
  shows "\<exists>path d' r'. length path \<le> 2 \<and> foldE (\<lambda>d t. admin_move now u reason pk t d) d path = Inr d' \<and>
    get_run d' pk = Inr r' \<and> run_state r' = Cancelled \<and> cancelled_at r' = Some now"
proof (cases "Cancelled \<in> set (ALLOWED_TRANSITIONS (run_state r))")
  case True
  obtain d' where "admin_move now u reason pk Cancelled d = Inr d'" "get_run d' pk = Inr (moved_run now Cancelled r)"
    by (rule admin_move_step [OF assms(1,2,4-6) True, of now]) auto
  then show ?thesis by (intro exI [of _ "[Cancelled]"]) (simp add: moved_run_def)
next
  case False
  with assms(3) have packaged: "run_state r = Packaged" by (cases "run_state r") (simp_all add: terminal_def)
  then have "Revision_requested \<in> set (ALLOWED_TRANSITIONS (run_state r))" by simp
  then obtain d1 where d1: "admin_move now u reason pk Revision_requested d = Inr d1"
      "get_run d1 pk = Inr (moved_run now Revision_requested r)" "project_of d1 (moved_run now Revision_requested r) = Inr p"
    by (rule admin_move_step [OF assms(1,2,4-6), of _ now]) auto
  have "Cancelled \<in> set (ALLOWED_TRANSITIONS (run_state (moved_run now Revision_requested r)))" by (simp add: moved_run_def)
  then obtain d2 where "admin_move now u reason pk Cancelled d1 = Inr d2"
      "get_run d2 pk = Inr (moved_run now Cancelled (moved_run now Revision_requested r))"
    by (rule admin_move_step [OF d1(2,3) assms(4-6), of _ now]) auto
  with d1(1) show ?thesis
    by (intro exI [of _ "[Revision_requested, Cancelled]"]) (simp add: moved_run_def)
qed

theorem admin_can_cancel_witness:
  "\<exists>path d' r'. length path \<le> 2 \<and>
     foldE (\<lambda>d t. admin_move 7 demo_admin ''stop'' ''r1'' t d) (demo_state Packaged []) path = Inr d' \<and>
     get_run d' ''r1'' = Inr r' \<and> run_state r' = Cancelled"
proof -
  have "strip ''stop'' \<noteq> []" by (simp add: strip_def lstrip_of_def rstrip_of_def ws_char_def)
  with admin_can_cancel [OF demo_lookups(1) [of Packaged "[]"] demo_lookups(2), of demo_admin "''stop''" 7] show ?thesis
    by (auto simp: demo_lookups terminal_iff)
qed

subsection \<open>Creating runs\<close>

definition keys_unique :: "db \<Rightarrow> bool" where
  "keys_unique d \<longleftrightarrow> distinct (map (\<lambda>r. (run_project r, idempotency_key r)) (runs d))"

lemma keys_uniqueD:
  "keys_unique d \<Longrightarrow> r \<in> set (runs d) \<Longrightarrow> q \<in> set (runs d) \<Longrightarrow> same_key p k r \<Longrightarrow> same_key p k q \<Longrightarrow> r = q"
  unfolding keys_unique_def distinct_map same_key_def
  by (elim conjE, rule inj_onD [where f = "\<lambda>r. (run_project r, idempotency_key r)"]) auto

lemma find_unique:
  "keys_unique d \<Longrightarrow> r \<in> set (runs d) \<Longrightarrow> same_key p k r \<Longrightarrow> find (same_key p k) (rev (runs d)) = Some r"
  by (rule find_the) (auto intro: keys_uniqueD)

lemma create_run_Inr_iff:
  "create_run_idempotent race aborted pk d p profile key rv actor req = Inr out \<longleftrightarrow>
     can_manage_project d actor p \<and> strip key \<noteq> [] \<and> length (strip key) \<le> 128 \<and>
     (case find (same_key p (strip key)) (rev (runs d)) of
        Some r \<Rightarrow> out = (d, r, False)
      | None \<Rightarrow> insert_run aborted pk (race d) p profile (strip key) rv actor req = Inr out)"
  by (auto simp: create_run_idempotent_def Let_def split: option.split)

lemma insert_run_new:
  "\<not> list_ex (\<lambda>q. run_id q = pk \<or> same_key p key q) (runs d) \<Longrightarrow>
   insert_run aborted pk d p profile key rv actor req = Inr (d', r, c) \<Longrightarrow>
   c \<and> r = new_run pk p profile key rv actor \<and> runs d' = runs d @ [r] \<and> same_key p key r"
  by (auto simp: insert_run_def Let_def same_key_def new_run_def)

lemma insert_run_clash:
  "list_ex (\<lambda>q. run_id q = pk \<or> same_key p key q) (runs d) \<Longrightarrow>
   insert_run aborted pk d p profile key rv actor req = Inr (d', r, c) \<Longrightarrow>
   \<not> c \<and> d' = d \<and> r \<in> set (runs d) \<and> same_key p key r"
  by (auto simp: insert_run_def bindE_Inr_iff split: if_splits dest: get_rowD)

lemma insert_runD:
  assumes "insert_run aborted pk d p profile key rv actor req = Inr (d', r, c)"
  shows "r \<in> set (runs d') \<and> same_key p key r \<and> (keys_unique d \<longrightarrow> keys_unique d')"
proof (cases "list_ex (\<lambda>q. run_id q = pk \<or> same_key p key q) (runs d)")
  case True
  from insert_run_clash [OF this assms] show ?thesis by simp
next
  case False
  from insert_run_new [OF this assms] False show ?thesis
    by (auto simp: keys_unique_def list_ex_iff same_key_def)
qed

lemma create_runD:
  assumes "create_run_idempotent race aborted pk d p profile key rv actor req = Inr (d', r, c)"
  shows "r \<in> set (runs d') \<and> same_key p (strip key) r \<and> strip key \<noteq> [] \<and> length (strip key) \<le> 128 \<and>
    (keys_unique d \<longrightarrow> keys_unique (race d) \<longrightarrow> keys_unique d')"
proof (cases "find (same_key p (strip key)) (rev (runs d))")
  case None
  with assms show ?thesis by (auto simp: create_run_Inr_iff dest: insert_runD)
next
  case (Some q)
  with assms have "q = r" "d' = d" by (simp_all add: create_run_Inr_iff)
  with Some find_Some_sat [OF Some] find_Some_mem [OF Some] assms show ?thesis by (simp add: create_run_Inr_iff)
qed

text \<open>
  Creating a run is idempotent. A run returned carries the stripped key, which has 1 to 128 characters; and
  as long as project and key identify a run, as the unique constraint demands, asking again with the same key,
  whatever profile and rule version it names and whatever happens concurrently, returns that very run and
  writes nothing, and project and key keep identifying a run.
\<close>

theorem create_run_once:
  assumes "create_run_idempotent race aborted pk d p profile key rv actor req = Inr (d', r, created)"
    and "keys_unique d" and "keys_unique (race d)" and "can_manage_project d' actor2 p"
  shows "keys_unique d' \<and> r \<in> set (runs d') \<and> idempotency_key r = strip key \<and> strip key \<noteq> [] \<and> length (strip key) \<le> 128 \<and>
    create_run_idempotent race2 aborted2 pk2 d' p profile2 key rv2 actor2 req2 = Inr (d', r, False)"
proof -
  have r: "r \<in> set (runs d')" "same_key p (strip key) r" "strip key \<noteq> []" "length (strip key) \<le> 128" "keys_unique d'"
    using create_runD [OF assms(1)] assms(2,3) by simp_all
  with assms(4) show ?thesis by (simp add: create_run_Inr_iff find_unique) (simp add: same_key_def)
qed

text \<open>
  C32: The race the code means to survive is lost. When another transaction inserts a run with the same project
  and key after the look-up, the code catches the \<open>IntegrityError\<close> and looks the run up again inside the same
  atomic block; as Django refuses every query of a block that has failed, the caller gets
  \<open>TransactionManagementError\<close> instead of the other transaction's run, which a database layer that allowed
  the query would return.
\<close>

theorem create_run_race_fails:
  assumes "can_manage_project d actor p" and "strip key \<noteq> []" and "length (strip key) \<le> 128"
    and "\<forall>q \<in> set (runs d). \<not> same_key p (strip key) q"
    and "keys_unique (race d)" and "r \<in> set (runs (race d))" and "same_key p (strip key) r"
  shows "create_run_idempotent race True pk d p profile key rv actor req = Inl TransactionManagementError \<and>
    create_run_idempotent race False pk d p profile key rv actor req = Inr (race d, r, False)"
proof -
  have none: "find (same_key p (strip key)) (rev (runs d)) = None" using assms(4) by (simp add: find_None_all)
  have clash: "list_ex (\<lambda>q. run_id q = pk \<or> same_key p (strip key) q) (runs (race d))"
    using assms(6,7) by (auto simp: list_ex_iff)
  have "get_row ''AuditRun'' (same_key p (strip key)) (runs (race d)) = Inr r"
    unfolding get_row_Inr_iff by (rule find_the [where p = "same_key p (strip key)", OF assms(6,7)]) (rule keys_uniqueD [OF assms(5) _ assms(6) _ assms(7)])
  with assms(1-3) none clash show ?thesis by (simp add: create_run_idempotent_def insert_run_def)
qed

theorem create_run_race_fails_witness:
  "create_run_idempotent (\<lambda>d. d\<lparr>runs := [demo_run ''r1'' Draft]\<rparr>) True ''r2'' (demo_db []) (demo_project ''p1'' ''c1'')
     ''quick'' ''key-r1'' ''v1'' demo_admin None = Inl TransactionManagementError"
  by (rule create_run_race_fails [where r = "demo_run ''r1'' Draft", THEN conjunct1])
    (simp_all add: demo_admin_def can_manage_project_def demo_defs demo_run_def new_run_def same_key_def keys_unique_def
      strip_def lstrip_of_def rstrip_of_def ws_char_def)

theorem create_run_once_witness:
  "\<exists>d' r. create_run_idempotent id True ''r1'' (demo_db []) (demo_project ''p1'' ''c1'') ''quick'' '' k '' ''v1'' demo_admin None
       = Inr (d', r, True) \<and>
     create_run_idempotent id True ''r2'' d' (demo_project ''p1'' ''c1'') ''quick'' '' k '' ''v1'' demo_admin None = Inr (d', r, False)"
proof -
  obtain d' r where step: "create_run_idempotent id True ''r1'' (demo_db []) (demo_project ''p1'' ''c1'') ''quick'' '' k '' ''v1''
      demo_admin None = Inr (d', r, True)"
    by (simp add: create_run_idempotent_def insert_run_def demo_admin_def can_manage_project_def demo_defs same_key_def
      strip_def lstrip_of_def rstrip_of_def ws_char_def Let_def)
  have "can_manage_project d' demo_admin (demo_project ''p1'' ''c1'')" by (simp add: demo_admin_def can_manage_project_def)
  with create_run_once [OF step, of demo_admin id True "''r2''" "''quick''" "''v1''" None] step show ?thesis
    by (auto simp: keys_unique_def demo_defs)
qed

end
