(* ===== verification/Py_Json.thy ===== *)
theory Py_Json
  imports Models
begin

text \<open>
  What the services use of \<open>json.dumps\<close> and \<open>datetime.isoformat\<close>. \<open>dumps\<close> is the compact encoding
  (\<open>separators=(",", ":")\<close>, \<open>ensure_ascii\<close>, \<open>allow_nan=False\<close>) and fails on a non-finite number or a value
  that is not JSON; \<open>float.__repr__\<close> is the argument \<open>repr\<close>. An instant is the number of microseconds since
  1970-01-01 UTC, \<open>isoformat\<close> its text with the offset \<open>+00:00\<close>.
\<close>

definition json_escape :: "char \<Rightarrow> string" where
  "json_escape c =
     (let n = of_char c :: nat
      in if n = 0x22 \<or> n = 0x5C then [CHR 0x5C, c]
         else case map_of [(10, CHR ''n''), (13, CHR ''r''), (9, CHR ''t''), (8, CHR ''b''), (12, CHR ''f'')] n of
           Some e \<Rightarrow> [CHR 0x5C, e]
         | None \<Rightarrow> if n < 32 \<or> 126 < n
                   then CHR 0x5C # ''u00'' @ [to_lower (hex_digit (n div 16)), to_lower (hex_digit (n mod 16))]
                   else [c])"

definition json_string :: "string \<Rightarrow> string" where
  "json_string s = [CHR 0x22] @ concat (map json_escape s) @ [CHR 0x22]"

fun dumps :: "(rat \<Rightarrow> string) \<Rightarrow> json \<Rightarrow> exn + string" and
  dumps_items :: "(rat \<Rightarrow> string) \<Rightarrow> json list \<Rightarrow> exn + string list" and
  dumps_pairs :: "(rat \<Rightarrow> string) \<Rightarrow> (string \<times> json) list \<Rightarrow> exn + string list" where
  "dumps repr JNull = Inr ''null''"
| "dumps repr (JBool b) = Inr (if b then ''true'' else ''false'')"
| "dumps repr (JInt i) = Inr (str_of_int i)"
| "dumps repr (JNum q) = Inr (repr q)"
| "dumps repr JNonFinite = Inl (ValueError ''Out of range float values are not JSON compliant'')"
| "dumps repr (JStr s) = Inr (json_string s)"
| "dumps repr (JList xs) = mapR (\<lambda>ys. ''['' @ join '','' ys @ '']'') (dumps_items repr xs)"
| "dumps repr (JObj kvs) = mapR (\<lambda>ys. ''{'' @ join '','' ys @ ''}'') (dumps_pairs repr kvs)"
| "dumps repr JOther = Inl (OtherError ''TypeError'' ''Object is not JSON serializable'')"
| "dumps_items repr [] = Inr []"
| "dumps_items repr (x # xs) = bindE (dumps repr x) (\<lambda>y. mapR ((#) y) (dumps_items repr xs))"
| "dumps_pairs repr [] = Inr []"
| "dumps_pairs repr ((k, x) # kvs) =
     bindE (dumps repr x) (\<lambda>y. mapR ((#) (json_string k @ '':'' @ y)) (dumps_pairs repr kvs))"

text \<open>The truth value of a JSON value in Python.\<close>

fun json_falsy :: "json \<Rightarrow> bool" where
  "json_falsy JNull = True"
| "json_falsy (JBool b) = (\<not> b)"
| "json_falsy (JInt i) = (i = 0)"
| "json_falsy (JNum q) = (q = 0)"
| "json_falsy (JStr s) = (s = [])"
| "json_falsy (JList xs) = (xs = [])"
| "json_falsy (JObj kvs) = (kvs = [])"
| "json_falsy j = False"

text \<open>The proleptic Gregorian date of a day number counted from 1970-01-01, as year, month and day.\<close>

definition civil_date :: "int \<Rightarrow> int \<times> int \<times> int" where
  "civil_date days =
     (let z = days + 719468; era = z div 146097; doe = z mod 146097;
          yoe = (doe - doe div 1460 + doe div 36524 - doe div 146096) div 365;
          doy = doe - (365 * yoe + yoe div 4 - yoe div 100); mp = (5 * doy + 2) div 153;
          m = (if mp < 10 then mp + 3 else mp - 9)
      in (yoe + era * 400 + (if m \<le> 2 then 1 else 0), m, doy - (153 * mp + 2) div 5 + 1))"

definition padded :: "nat \<Rightarrow> int \<Rightarrow> string" where
  "padded n i = pad_zeros n (str_of_int i)"

definition isoformat :: "int \<Rightarrow> string" where
  "isoformat t =
     (let secs = t div 1000000; micros = t mod 1000000; (y, m, d) = civil_date (secs div 86400); s = secs mod 86400
      in padded 4 y @ ''-'' @ padded 2 m @ ''-'' @ padded 2 d @ ''T'' @ padded 2 (s div 3600) @ '':'' @
         padded 2 (s div 60 mod 60) @ '':'' @ padded 2 (s mod 60) @
         (if micros = 0 then [] else ''.'' @ padded 6 micros) @ ''+00:00'')"

lemma isoformat_examples:
  "isoformat 0 = ''1970-01-01T00:00:00+00:00''"
  "isoformat 1767225599000001 = ''2025-12-31T23:59:59.000001+00:00''"
  by code_simp+

lemma dumps_iff_finite:
  "(\<exists>e. dumps repr j = Inr e) \<longleftrightarrow> json_finite j"
  "(\<exists>es. dumps_items repr xs = Inr es) \<longleftrightarrow> list_all json_finite xs"
  "(\<exists>es. dumps_pairs repr kvs = Inr es) \<longleftrightarrow> list_all (\<lambda>kv. json_finite (snd kv)) kvs"
  by (induction repr j and repr xs and repr kvs rule: dumps_dumps_items_dumps_pairs.induct)
    (auto simp: mapR_Inr_iff bindE_Inr_iff)

end
