(* ===== verification/Worker.thy ===== *)
theory Worker
  imports Workflow Py_Json Effects
begin

text \<open>
  \<open>app/domain/tasks.py\<close>: the worker stages of a run. \<open>checkpoint_run_stage\<close> starts or heartbeats a stage,
  \<open>complete_run_stage\<close> ends it, \<open>mark_stale_run_stages\<close> fails stages whose worker stopped heartbeating. The
  first two are single transactions; the third runs one transaction per stage, between which other workers
  commit (the argument \<open>race\<close>), and keeps what it has committed when a later one raises.
\<close>

subsection \<open>Arguments of the tasks\<close>

definition TASK_STAGE_SEQUENCE :: "(string \<times> nat) list" where
  "TASK_STAGE_SEQUENCE = [(''collecting'', 10), (''auditing'', 20), (''planning'', 30), (''generating'', 40),
     (''final_qa'', 50), (''packaging'', 60)]"

definition TERMINAL_RUN_STATES :: "run_state list" where
  "TERMINAL_RUN_STATES = [Approved, Cancelled]"

definition validated_checkpoint :: "(rat \<Rightarrow> string) \<Rightarrow> json \<Rightarrow> wf_error + (string \<times> json) list" where
  "validated_checkpoint repr value =
     (case (if json_falsy value then JObj [] else value) of
        JObj kvs \<Rightarrow> (case dumps repr (JObj kvs) of
            Inl e \<Rightarrow> Inl (Library_error e)
          | Inr encoded \<Rightarrow> if 64 * 1024 < length encoded then Inl (Bad_value ''checkpoint exceeds 64 KiB'') else Inr kvs)
      | _ \<Rightarrow> Inl (Bad_value ''checkpoint must be an object''))"

definition valid_stage_name :: "string \<Rightarrow> wf_error + string" where
  "valid_stage_name value =
     (let cleaned = casefold (strip value)
      in if map_of TASK_STAGE_SEQUENCE cleaned = None then Inl (Bad_value ''Unknown worker stage'') else Inr cleaned)"

subsection \<open>Stage rows\<close>

definition new_stage :: "uid \<Rightarrow> uid \<Rightarrow> string \<Rightarrow> nat \<Rightarrow> run_stage" where
  "new_stage pk r name seq = \<lparr>stage_id = pk, stage_run = r, stage_name = name, stage_state = Stage_pending,
     stage_sequence = seq, stage_attempts = 0, stage_checkpoint = [], started_at = None, heartbeat_at = None,
     finished_at = None, stage_error_code = [], stage_error_summary = []\<rparr>"

definition is_stage :: "uid \<Rightarrow> string \<Rightarrow> run_stage \<Rightarrow> bool" where
  "is_stage r name s \<longleftrightarrow> stage_run s = r \<and> stage_name s = name"

definition get_or_create_stage :: "uid \<Rightarrow> uid \<Rightarrow> string \<Rightarrow> nat \<Rightarrow> db \<Rightarrow> db \<times> run_stage" where
  "get_or_create_stage pk r name seq d =
     (case find (is_stage r name) (stages d) of
        Some s \<Rightarrow> (d, s)
      | None \<Rightarrow> (d\<lparr>stages := stages d @ [new_stage pk r name seq]\<rparr>, new_stage pk r name seq))"

definition save_stage :: "run_stage \<Rightarrow> db \<Rightarrow> db" where
  "save_stage s d = d\<lparr>stages := save_row stage_id s (stages d)\<rparr>"

definition previous_token :: "run_stage \<Rightarrow> json option" where
  "previous_token s = map_of (stage_checkpoint s) ''idempotency_token''"

record stage_report =
  report_run :: uid
  report_stage :: string
  report_status :: stage_status
  report_attempts :: "nat option"
  report_idempotent :: bool

subsection \<open>Starting, heartbeating and completing a stage\<close>

definition starts_attempt :: "string \<Rightarrow> run_stage \<Rightarrow> bool" where
  "starts_attempt token s \<longleftrightarrow> stage_state s \<noteq> Stage_running \<or> previous_token s \<noteq> Some (JStr token)"

definition resumed_stage :: "moment \<Rightarrow> string \<Rightarrow> string \<Rightarrow> (string \<times> json) list \<Rightarrow> run_stage \<Rightarrow> run_stage" where
  "resumed_stage now token task_id data s = s\<lparr>
     stage_attempts := (if starts_attempt token s then stage_attempts s + 1 else stage_attempts s),
     started_at := (if starts_attempt token s then Some now else started_at s),
     stage_state := Stage_running, heartbeat_at := Some now, finished_at := None,
     stage_error_code := [], stage_error_summary := [],
     stage_checkpoint := [(''idempotency_token'', JStr token), (''task_id'', JStr task_id),
       (''saved_at'', JStr (isoformat now)), (''data'', JObj data)]\<rparr>"

definition cancelled_stage :: "moment \<Rightarrow> run_stage \<Rightarrow> run_stage" where
  "cancelled_stage now s = s\<lparr>stage_state := Stage_cancelled, finished_at := Some now, heartbeat_at := Some now\<rparr>"

definition checkpoint_stage :: "moment \<Rightarrow> string \<Rightarrow> audit_run \<Rightarrow> string \<Rightarrow> string \<Rightarrow> (string \<times> json) list \<Rightarrow>
    run_stage \<Rightarrow> db \<Rightarrow> wf_error + db \<times> stage_report" where
  "checkpoint_stage now task_id r name token data s d =
     (let report = (\<lambda>s same. \<lparr>report_run = run_id r, report_stage = name, report_status = stage_state s,
                      report_attempts = Some (stage_attempts s), report_idempotent = same\<rparr>)
      in if stage_state s = Stage_succeeded
         then (if previous_token s \<noteq> Some (JStr token)
               then Inl (Bad_value ''A completed stage cannot be replaced by a different task'')
               else Inr (d, report s True))
         else if run_state r \<in> set TERMINAL_RUN_STATES \<or> cancelled_at r \<noteq> None
         then Inr (save_stage (cancelled_stage now s) d, report (cancelled_stage now s) True)
         else let s' = resumed_stage now token task_id data s in
              Inr (run_event ''worker.stage_checkpointed'' None None r
                     [(''stage'', JStr name), (''attempts'', JInt (int (stage_attempts s')))] (save_stage s' d),
                   report s' (\<not> starts_attempt token s)))"

definition checkpoint_run_stage :: "(rat \<Rightarrow> string) \<Rightarrow> moment \<Rightarrow> uid \<Rightarrow> string \<Rightarrow> uid \<Rightarrow> string \<Rightarrow> json \<Rightarrow> string \<Rightarrow> db \<Rightarrow>
    wf_error + db \<times> stage_report" where
  "checkpoint_run_stage repr now pk task_id rid stage_text checkpoint idempotency_token d =
     bindE (valid_stage_name stage_text) (\<lambda>name.
     let token = strip idempotency_token in
     bindE (raise_first [(token = [] \<or> 128 < length token, Bad_value ''A bounded idempotency token is required'')]) (\<lambda>_.
     bindE (validated_checkpoint repr checkpoint) (\<lambda>data.
     bindE (get_run d rid) (\<lambda>r.
     let (d', s) = get_or_create_stage pk (run_id r) name (the (map_of TASK_STAGE_SEQUENCE name)) d in
     checkpoint_stage now task_id r name token data s d'))))"

definition completed_stage :: "moment \<Rightarrow> (string \<times> json) list \<Rightarrow> run_stage \<Rightarrow> run_stage" where
  "completed_stage now data s = s\<lparr>stage_state := Stage_succeeded, heartbeat_at := Some now, finished_at := Some now,
     stage_checkpoint := AList.update ''data''
       (if data \<noteq> [] then JObj data else opt_or (JObj []) (map_of (stage_checkpoint s) ''data''))
       (AList.update ''saved_at'' (JStr (isoformat now)) (stage_checkpoint s))\<rparr>"

definition complete_run_stage :: "(rat \<Rightarrow> string) \<Rightarrow> moment \<Rightarrow> uid \<Rightarrow> string \<Rightarrow> string \<Rightarrow> json \<Rightarrow> db \<Rightarrow>
    wf_error + db \<times> stage_report" where
  "complete_run_stage repr now rid stage_text idempotency_token checkpoint d =
     bindE (valid_stage_name stage_text) (\<lambda>name.
     bindE (validated_checkpoint repr checkpoint) (\<lambda>data.
     bindE (get_run d rid) (\<lambda>r.
     bindE (get_row ''RunStage'' (is_stage (run_id r) name) (stages d)) (\<lambda>s.
     let report = (\<lambda>s same. \<lparr>report_run = run_id r, report_stage = name, report_status = stage_state s,
                      report_attempts = None, report_idempotent = same\<rparr>) in
     if previous_token s \<noteq> Some (JStr idempotency_token)
     then Inl (Bad_value ''Stage completion token does not match the active attempt'')
     else if stage_state s = Stage_succeeded then Inr (d, report s True)
     else if stage_state s \<noteq> Stage_running then Inl (Bad_value ''Only a running stage can be completed'')
     else let s' = completed_stage now data s in
          Inr (run_event ''worker.stage_completed'' None None r
                 [(''stage'', JStr name), (''attempts'', JInt (int (stage_attempts s')))] (save_stage s' d),
               report s' False)))))"

subsection \<open>Stale stages\<close>

definition is_stale :: "moment \<Rightarrow> run_stage \<Rightarrow> bool" where
  "is_stale cutoff s \<longleftrightarrow> stage_state s = Stage_running \<and> (case heartbeat_at s of None \<Rightarrow> False | Some h \<Rightarrow> h < cutoff)"

definition expired_stage :: "moment \<Rightarrow> run_stage \<Rightarrow> run_stage" where
  "expired_stage now s = s\<lparr>stage_state := Stage_failed, finished_at := Some now,
     stage_error_code := ''worker_heartbeat_expired'',
     stage_error_summary := ''The worker stopped heartbeating; resume from the stored checkpoint.''\<rparr>"

definition failed_run :: "run_stage \<Rightarrow> audit_run \<Rightarrow> audit_run" where
  "failed_run s r = r\<lparr>run_state := Failed, run_error_code := stage_error_code s,
     run_error_summary := stage_error_summary s, run_version := run_version r + 1\<rparr>"

definition fail_run :: "run_stage \<Rightarrow> audit_run \<Rightarrow> db \<Rightarrow> db" where
  "fail_run s r d = (if run_state r \<in> set TERMINAL_RUN_STATES then d else save_run (failed_run s r) d)"

definition expire_stage :: "moment \<Rightarrow> moment \<Rightarrow> uid \<Rightarrow> db \<Rightarrow> wf_error + db \<times> bool" where
  "expire_stage now cutoff pk d =
     bindE (get_row ''RunStage'' (\<lambda>s. stage_id s = pk) (stages d)) (\<lambda>s.
     if stage_state s \<noteq> Stage_running \<or> heartbeat_at s = None then Inr (d, False)
     else if cutoff \<le> the (heartbeat_at s) then Inr (d, False)
     else let s' = expired_stage now s; d1 = save_stage s' d in
          bindE (get_run d1 (stage_run s)) (\<lambda>r.
          Inr (run_event ''worker.stage_stale'' None None r
                 [(''stage'', JStr (stage_name s')), (''heartbeat_at'', JStr (isoformat (the (heartbeat_at s'))))]
                 (fail_run s' r d1), True)))"

text \<open>A transaction as an action: it commits when it returns and leaves the database as it was when it raises.\<close>

definition atomic :: "(db \<Rightarrow> wf_error + db \<times> 'a) \<Rightarrow> (db, wf_error, 'a) action" where
  "atomic f d = (case f d of Inl e \<Rightarrow> (Inl e, d) | Inr (d', a) \<Rightarrow> (Inr a, d'))"

fun expire_stages :: "(uid \<Rightarrow> db \<Rightarrow> db) \<Rightarrow> (uid \<Rightarrow> moment) \<Rightarrow> moment \<Rightarrow> uid list \<Rightarrow> nat \<Rightarrow> (db, wf_error, nat) action" where
  "expire_stages race now cutoff [] failed = ret failed"
| "expire_stages race now cutoff (pk # pks) failed =
     bindA (modifyA (race pk)) (\<lambda>_. bindA (atomic (expire_stage (now pk) cutoff pk)) (\<lambda>b.
     expire_stages race now cutoff pks (if b then failed + 1 else failed)))"

definition stale_cutoff :: "moment \<Rightarrow> int \<Rightarrow> moment" where
  "stale_cutoff now timeout_seconds = now - 1000000 * max 60 timeout_seconds"

definition mark_stale_run_stages :: "(uid \<Rightarrow> db \<Rightarrow> db) \<Rightarrow> (uid \<Rightarrow> moment) \<Rightarrow> moment \<Rightarrow> int \<Rightarrow>
    (db, wf_error, nat \<times> nat) action" where
  "mark_stale_run_stages race now start timeout_seconds =
     (let cutoff = stale_cutoff start timeout_seconds in
      bindA (gets (\<lambda>d. map stage_id (filter (is_stale cutoff) (stages d)))) (\<lambda>ids.
      bindA (expire_stages race now cutoff ids 0) (\<lambda>failed. ret (length ids, failed))))"

subsection \<open>The stage protocol\<close>

lemma find_saved:
  "find p xs = Some s \<Longrightarrow> key s' = key s \<Longrightarrow> p s' \<Longrightarrow> find p (save_row key s' xs) = Some s'"
  by (induction xs) (auto simp: save_row_def split: if_splits)

lemma find_appended: "find p xs = None \<Longrightarrow> p x \<Longrightarrow> find p (xs @ [x]) = Some x"
  by (induction xs) (auto split: if_splits)

lemma save_stage_fields [simp]:
  "stages (save_stage s d) = save_row stage_id s (stages d)" "runs (save_stage s d) = runs d"
  "memberships (save_stage s d) = memberships d" "approvals (save_stage s d) = approvals d"
  "artifacts (save_stage s d) = artifacts d" "qa_results (save_stage s d) = qa_results d"
  "projects (save_stage s d) = projects d" "events (save_stage s d) = events d"
  by (simp_all add: save_stage_def)

lemma get_run_cong: "runs d = runs e \<Longrightarrow> get_run d k = get_run e k"
  by (simp add: get_run_def)

lemma get_or_create_stageD:
  assumes "get_or_create_stage pk r name seq d = (d', s)"
  shows "is_stage r name s \<and> find (is_stage r name) (stages d') = Some s \<and> runs d' = runs d \<and>
    (d' = d \<and> s \<in> set (stages d) \<or> s = new_stage pk r name seq \<and> stages d' = stages d @ [s])"
proof (cases "find (is_stage r name) (stages d)")
  case None
  then have "find (is_stage r name) (stages d @ [new_stage pk r name seq]) = Some (new_stage pk r name seq)"
    by (rule find_appended) (simp add: is_stage_def new_stage_def)
  with None assms show ?thesis by (auto simp: get_or_create_stage_def is_stage_def new_stage_def)
next
  case (Some q)
  with assms find_Some_sat [OF Some] find_Some_mem [OF Some] show ?thesis
    by (simp add: get_or_create_stage_def)
qed

lemma checkpoint_run_stageE:
  assumes "checkpoint_run_stage repr now pk task rid name0 data0 token0 d = Inr (d', rep)"
  obtains name data r d1 s where "valid_stage_name name0 = Inr name" "strip token0 \<noteq> []" "length (strip token0) \<le> 128"
    "validated_checkpoint repr data0 = Inr data" "get_run d rid = Inr r"
    "get_or_create_stage pk rid name (the (map_of TASK_STAGE_SEQUENCE name)) d = (d1, s)"
    "checkpoint_stage now task r name (strip token0) data s d1 = Inr (d', rep)"
proof -
  obtain name data r where *: "valid_stage_name name0 = Inr name" "strip token0 \<noteq> []" "length (strip token0) \<le> 128"
    "validated_checkpoint repr data0 = Inr data" "get_run d rid = Inr r"
    "(let (d', s) = get_or_create_stage pk (run_id r) name (the (map_of TASK_STAGE_SEQUENCE name)) d in
     checkpoint_stage now task r name (strip token0) data s d') = Inr (d', rep)"
    using assms by (auto simp: checkpoint_run_stage_def bindE_Inr_iff Let_def split: if_splits)
  obtain d1 s where "get_or_create_stage pk rid name (the (map_of TASK_STAGE_SEQUENCE name)) d = (d1, s)" by fastforce
  with * get_runD [OF *(5)] show ?thesis by (intro that) auto
qed

text \<open>The three ways a checkpoint returns: nothing to do, the run is over, the attempt goes on.\<close>

lemma checkpoint_stage_cases:
  assumes "checkpoint_stage now task r name token data s d = Inr (d', rep)"
  obtains (finished) "stage_state s = Stage_succeeded" "previous_token s = Some (JStr token)" "d' = d"
      "report_status rep = Stage_succeeded"
  | (over) "stage_state s \<noteq> Stage_succeeded" "d' = save_stage (cancelled_stage now s) d" "report_status rep = Stage_cancelled"
      "run_state r \<in> set TERMINAL_RUN_STATES \<or> cancelled_at r \<noteq> None"
  | (active) "stage_state s \<noteq> Stage_succeeded" "run_state r \<notin> set TERMINAL_RUN_STATES" "cancelled_at r = None"
      "stages d' = save_row stage_id (resumed_stage now token task data s) (stages d)" "runs d' = runs d"
      "report_status rep = Stage_running" "report_attempts rep = Some (stage_attempts (resumed_stage now token task data s))"
      "report_idempotent rep = (\<not> starts_attempt token s)"
  using assms by (auto simp: checkpoint_stage_def Let_def cancelled_stage_def resumed_stage_def split: if_splits)

lemma resumed_stage_simps [simp]:
  "stage_id (resumed_stage now token task data s) = stage_id s"
  "is_stage r name (resumed_stage now token task data s) = is_stage r name s"
  "stage_state (resumed_stage now token task data s) = Stage_running"
  "previous_token (resumed_stage now token task data s) = Some (JStr token)"
  "\<not> starts_attempt token (resumed_stage now token task data s)"
  by (simp_all add: resumed_stage_def is_stage_def previous_token_def starts_attempt_def)

lemma completed_stage_simps [simp]:
  "stage_id (completed_stage now data s) = stage_id s"
  "is_stage r name (completed_stage now data s) = is_stage r name s"
  "stage_state (completed_stage now data s) = Stage_succeeded"
  "previous_token (completed_stage now data s) = previous_token s"
  by (simp_all add: completed_stage_def is_stage_def previous_token_def update_conv')

lemma complete_running:
  assumes "valid_stage_name name0 = Inr name" "validated_checkpoint repr data0 = Inr data" "get_run d rid = Inr r"
    "find (is_stage rid name) (stages d) = Some s" "previous_token s = Some (JStr token)" "stage_state s = Stage_running"
  obtains d2 rep2 where "complete_run_stage repr now rid name0 token data0 d = Inr (d2, rep2)"
    "report_status rep2 = Stage_succeeded" "\<not> report_idempotent rep2" "runs d2 = runs d"
    "stages d2 = save_row stage_id (completed_stage now data s) (stages d)"
proof -
  have "run_id r = rid" using get_runD [OF assms(3)] by simp
  with assms have "complete_run_stage repr now rid name0 token data0 d =
      Inr (run_event ''worker.stage_completed'' None None r
            [(''stage'', JStr name), (''attempts'', JInt (int (stage_attempts (completed_stage now data s))))]
            (save_stage (completed_stage now data s) d),
          \<lparr>report_run = rid, report_stage = name, report_status = Stage_succeeded, report_attempts = None,
            report_idempotent = False\<rparr>)"
    by (simp add: complete_run_stage_def get_row_def Let_def)
  then show ?thesis by (rule that) simp_all
qed

lemma complete_succeeded:
  assumes "valid_stage_name name0 = Inr name" "validated_checkpoint repr data0 = Inr data" "get_run d rid = Inr r"
    "find (is_stage rid name) (stages d) = Some s" "previous_token s = Some (JStr token)" "stage_state s = Stage_succeeded"
  shows "\<exists>rep. complete_run_stage repr now rid name0 token data0 d = Inr (d, rep) \<and> report_idempotent rep"
proof -
  have "run_id r = rid" using get_runD [OF assms(3)] by simp
  with assms show ?thesis by (simp add: complete_run_stage_def get_row_def)
qed

text \<open>
  C35: The stage protocol. A checkpoint that reports \<open>running\<close> has started or continued an attempt that belongs to
  its token: delivering the task again with the same token, at any time and with any valid checkpoint, keeps the
  attempt and reports it as idempotent; completing with that token succeeds; and completing again changes
  nothing. A completion with another token raises.
\<close>

theorem stage_protocol:
  assumes start: "checkpoint_run_stage repr now pk task rid name0 data0 token0 d = Inr (d1, rep)"
    and running: "report_status rep = Stage_running" and data: "validated_checkpoint repr data1 = Inr kvs"
  shows "(\<exists>d2 rep2. checkpoint_run_stage repr now2 pk2 task2 rid name0 data1 token0 d1 = Inr (d2, rep2) \<and>
      report_status rep2 = Stage_running \<and> report_idempotent rep2 \<and> report_attempts rep2 = report_attempts rep) \<and>
    (\<exists>d2 rep2. complete_run_stage repr now2 rid name0 (strip token0) data1 d1 = Inr (d2, rep2) \<and>
      report_status rep2 = Stage_succeeded \<and> \<not> report_idempotent rep2 \<and>
      (\<exists>rep3. complete_run_stage repr now3 rid name0 (strip token0) data1 d2 = Inr (d2, rep3) \<and> report_idempotent rep3)) \<and>
    (\<forall>token. token \<noteq> strip token0 \<longrightarrow> complete_run_stage repr now2 rid name0 token data1 d1 =
      Inl (Bad_value ''Stage completion token does not match the active attempt''))"
proof -
  let ?t = "strip token0"
  obtain name data r d0 s where args: "valid_stage_name name0 = Inr name" "?t \<noteq> []" "length ?t \<le> 128" "get_run d rid = Inr r"
      "get_or_create_stage pk rid name (the (map_of TASK_STAGE_SEQUENCE name)) d = (d0, s)"
      "checkpoint_stage now task r name ?t data s d0 = Inr (d1, rep)"
    by (rule checkpoint_run_stageE [OF start])
  note created = get_or_create_stageD [OF args(5)]
  define s1 where "s1 = resumed_stage now ?t task data s"
  from args(6) running have active: "run_state r \<notin> set TERMINAL_RUN_STATES" "cancelled_at r = None"
      "stages d1 = save_row stage_id s1 (stages d0)" "runs d1 = runs d0" "report_attempts rep = Some (stage_attempts s1)"
    by (auto elim: checkpoint_stage_cases simp: s1_def)
  have run1: "get_run d1 rid = Inr r" using args(4) created active(4) by (simp add: get_run_cong [of d1 d])
  have found: "find (is_stage rid name) (stages d1) = Some s1"
    using created unfolding active(3) by (intro find_saved [where s = s]) (simp_all add: s1_def)
  have id: "run_id r = rid" using get_runD [OF args(4)] by simp
  have "\<exists>d2 rep2. checkpoint_run_stage repr now2 pk2 task2 rid name0 data1 token0 d1 = Inr (d2, rep2) \<and>
      report_status rep2 = Stage_running \<and> report_idempotent rep2 \<and> report_attempts rep2 = report_attempts rep"
    using args(1-3) data run1 found active(1,2,5)
    by (simp add: checkpoint_run_stage_def id get_or_create_stage_def checkpoint_stage_def s1_def)
      (simp add: resumed_stage_def starts_attempt_def previous_token_def)
  moreover have "\<exists>d2 rep2. complete_run_stage repr now2 rid name0 ?t data1 d1 = Inr (d2, rep2) \<and>
      report_status rep2 = Stage_succeeded \<and> \<not> report_idempotent rep2 \<and>
      (\<exists>rep3. complete_run_stage repr now3 rid name0 ?t data1 d2 = Inr (d2, rep3) \<and> report_idempotent rep3)"
  proof -
    obtain d2 rep2 where fin: "complete_run_stage repr now2 rid name0 ?t data1 d1 = Inr (d2, rep2)"
        "report_status rep2 = Stage_succeeded" "\<not> report_idempotent rep2" "runs d2 = runs d1"
      and stages2: "stages d2 = save_row stage_id (completed_stage now2 kvs s1) (stages d1)"
      by (rule complete_running [OF args(1) data run1 found, of ?t now2]) (simp_all add: s1_def)
    have "find (is_stage rid name) (stages d2) = Some (completed_stage now2 kvs s1)"
      unfolding stages2 by (rule find_saved [OF found]) (simp_all add: s1_def created)
    moreover have "get_run d2 rid = Inr r" using run1 fin(4) by (simp add: get_run_cong [of d2 d1])
    ultimately show ?thesis using complete_succeeded [OF args(1) data, of d2 rid r _ ?t now3] fin by (auto simp: s1_def)
  qed
  moreover have "\<forall>token. token \<noteq> ?t \<longrightarrow> complete_run_stage repr now2 rid name0 token data1 d1 =
      Inl (Bad_value ''Stage completion token does not match the active attempt'')"
    using args(1) data run1 found by (simp add: complete_run_stage_def id get_row_def s1_def)
  ultimately show ?thesis by blast
qed

definition demo_stage :: "uid \<Rightarrow> string \<Rightarrow> stage_status \<Rightarrow> moment option \<Rightarrow> run_stage" where
  "demo_stage k name st beat = (new_stage k ''r1'' name 10)\<lparr>stage_state := st, heartbeat_at := beat\<rparr>"

definition demo_work :: "run_state \<Rightarrow> run_stage list \<Rightarrow> db" where
  "demo_work st ss = (demo_state st [])\<lparr>stages := ss\<rparr>"

theorem stage_protocol_witness:
  "\<exists>d1 d2 rep rep2. checkpoint_run_stage (\<lambda>q. []) 5 ''s1'' ''t'' ''r1'' ''Auditing'' JNull '' tok '' (demo_work Auditing []) = Inr (d1, rep) \<and>
     complete_run_stage (\<lambda>q. []) 7 ''r1'' ''Auditing'' ''tok'' JNull d1 = Inr (d2, rep2) \<and> report_status rep2 = Stage_succeeded \<and>
     complete_run_stage (\<lambda>q. []) 7 ''r1'' ''Auditing'' '' tok '' JNull d1 =
       Inl (Bad_value ''Stage completion token does not match the active attempt'')"
proof -
  have valid: "validated_checkpoint (\<lambda>q. []) JNull = Inr []" by (simp add: validated_checkpoint_def)
  have name: "valid_stage_name ''Auditing'' = Inr ''auditing''" by code_simp
  have token: "strip '' tok '' = ''tok''" by code_simp
  obtain d1 rep where start: "checkpoint_run_stage (\<lambda>q. []) 5 ''s1'' ''t'' ''r1'' ''Auditing'' JNull '' tok '' (demo_work Auditing []) = Inr (d1, rep)"
    and running: "report_status rep = Stage_running"
    by (simp add: checkpoint_run_stage_def valid name token demo_work_def demo_state_def get_run_def get_row_def demo_run_def
        demo_defs get_or_create_stage_def checkpoint_stage_def new_stage_def new_run_def TERMINAL_RUN_STATES_def Let_def)
  from stage_protocol [OF start running valid, of 7 "''s1''" "''t''" 7] start show ?thesis unfolding token by auto
qed

lemma save_other: "x \<in> set rows \<Longrightarrow> key x \<noteq> key r \<Longrightarrow> x \<in> set (save_row key r rows)"
  by (auto simp: save_row_def image_iff intro: bexI [of _ x])

lemma save_keeps:
  assumes "distinct (map key rows)" and "x \<in> set rows" and "q \<in> set rows" and "x \<noteq> q" and "key q' = key q"
  shows "x \<in> set (save_row key q' rows)"
  using assms by (intro save_other) (auto simp: distinct_map dest: inj_onD)

lemma checkpoint_keeps_succeeded:
  assumes "checkpoint_run_stage repr now pk task rid name0 data0 token0 d = Inr (d', rep)"
    and "x \<in> set (stages d)" "stage_state x = Stage_succeeded" "distinct (map stage_id (stages d))" "pk \<notin> stage_id ` set (stages d)"
  shows "x \<in> set (stages d')"
proof (rule checkpoint_run_stageE [OF assms(1)])
  fix name data r d0 s
  assume "get_or_create_stage pk rid name (the (map_of TASK_STAGE_SEQUENCE name)) d = (d0, s)"
    and cp: "checkpoint_stage now task r name (strip token0) data s d0 = Inr (d', rep)"
  note created = get_or_create_stageD [OF this(1)]
  then have d0: "x \<in> set (stages d0)" "distinct (map stage_id (stages d0))" "s \<in> set (stages d0)"
    using assms(2,4,5) by (auto simp: new_stage_def)
  have other: "stage_state s \<noteq> Stage_succeeded \<Longrightarrow> x \<noteq> s" using assms(3) by auto
  from cp show ?thesis
    by (cases rule: checkpoint_stage_cases)
      (use d0 other in \<open>auto intro!: save_keeps [OF d0(2,1,3)] simp: cancelled_stage_def\<close>)
qed

lemma complete_keeps_succeeded:
  assumes "complete_run_stage repr now rid name0 token data0 d = Inr (d', rep)"
    and "x \<in> set (stages d)" "stage_state x = Stage_succeeded" "distinct (map stage_id (stages d))"
  shows "x \<in> set (stages d')"
proof -
  from assms(1) obtain name data r s where s: "get_row ''RunStage'' (is_stage (run_id r) name) (stages d) = Inr s"
    and out: "(if previous_token s \<noteq> Some (JStr token)
      then Inl (Bad_value ''Stage completion token does not match the active attempt'')
      else if stage_state s = Stage_succeeded
      then Inr (d, \<lparr>report_run = run_id r, report_stage = name, report_status = stage_state s, report_attempts = None, report_idempotent = True\<rparr>)
      else if stage_state s \<noteq> Stage_running then Inl (Bad_value ''Only a running stage can be completed'')
      else Inr (run_event ''worker.stage_completed'' None None r
            [(''stage'', JStr name), (''attempts'', JInt (int (stage_attempts (completed_stage now data s))))]
            (save_stage (completed_stage now data s) d),
          \<lparr>report_run = run_id r, report_stage = name, report_status = stage_state (completed_stage now data s),
            report_attempts = None, report_idempotent = False\<rparr>)) = Inr (d', rep)"
    unfolding complete_run_stage_def bindE_Inr_iff Let_def by blast
  show ?thesis
  proof (cases "stage_state s = Stage_succeeded")
    case True
    with out assms(2) show ?thesis by (simp split: if_splits)
  next
    case False
    then have "x \<in> set (save_row stage_id (completed_stage now data s) (stages d))"
      by (intro save_keeps [OF assms(4,2), of s]) (use get_rowD [OF s] assms(3) in auto)
    moreover have "stages d' = save_row stage_id (completed_stage now data s) (stages d)"
      using out False by (auto split: if_splits)
    ultimately show ?thesis by simp
  qed
qed

lemma expire_stageE:
  assumes "expire_stage now cutoff pk d = Inr (d', b)"
  obtains s where "get_row ''RunStage'' (\<lambda>s. stage_id s = pk) (stages d) = Inr s" "b = is_stale cutoff s" "\<not> b \<Longrightarrow> d' = d"
    "b \<Longrightarrow> stages d' = save_row stage_id (expired_stage now s) (stages d)"
    "b \<Longrightarrow> \<exists>r. get_run d (stage_run s) = Inr r \<and>
       runs d' = (if run_state r \<in> set TERMINAL_RUN_STATES then runs d
                  else save_row run_id (failed_run (expired_stage now s) r) (runs d))"
    "memberships d' = memberships d" "approvals d' = approvals d" "artifacts d' = artifacts d" "qa_results d' = qa_results d"
    "projects d' = projects d"
proof -
  from assms obtain s where s: "get_row ''RunStage'' (\<lambda>s. stage_id s = pk) (stages d) = Inr s"
    by (auto simp: expire_stage_def bindE_Inr_iff)
  have cong: "get_run (save_stage x d) k = get_run d k" for x k by (simp add: get_run_def)
  show ?thesis
  proof (cases "is_stale cutoff s")
    case True
    then have stale: "\<not> (stage_state s \<noteq> Stage_running \<or> heartbeat_at s = None)" "\<not> cutoff \<le> the (heartbeat_at s)"
      by (auto simp: is_stale_def split: option.splits)
    from assms s obtain r where r: "get_run d (stage_run s) = Inr r" and b: "b"
      and d': "d' = run_event ''worker.stage_stale'' None None r
        [(''stage'', JStr (stage_name (expired_stage now s))), (''heartbeat_at'', JStr (isoformat (the (heartbeat_at (expired_stage now s)))))]
        (fail_run (expired_stage now s) r (save_stage (expired_stage now s) d))"
      unfolding expire_stage_def by (simp only: if_not_P [OF stale(1)] if_not_P [OF stale(2)] bindE_simps Let_def cong bindE_Inr_iff) blast
    show ?thesis
      by (rule that [OF s]) (use True b r in \<open>simp_all add: d' fail_run_def\<close>)
  next
    case False
    with assms s have "\<not> b" "d' = d"
      by (auto simp: expire_stage_def is_stale_def bindE_Inr_iff Let_def split: if_splits option.splits)
    with False show ?thesis by (intro that [OF s]) simp_all
  qed
qed

lemma expire_keeps_succeeded:
  assumes "expire_stage now cutoff pk d = Inr (d', b)"
    and "x \<in> set (stages d)" "stage_state x = Stage_succeeded" "distinct (map stage_id (stages d))"
  shows "x \<in> set (stages d')"
proof (rule expire_stageE [OF assms(1)])
  fix s
  assume s: "get_row ''RunStage'' (\<lambda>s. stage_id s = pk) (stages d) = Inr s" and b: "b = is_stale cutoff s" "\<not> b \<Longrightarrow> d' = d"
    "b \<Longrightarrow> stages d' = save_row stage_id (expired_stage now s) (stages d)"
  show ?thesis
  proof (cases b)
    case True
    with b(1) assms(3) have "x \<noteq> s" by (auto simp: is_stale_def)
    then have "x \<in> set (save_row stage_id (expired_stage now s) (stages d))"
      by (intro save_keeps [OF assms(4,2), of s]) (use get_rowD [OF s] in \<open>auto simp: expired_stage_def\<close>)
    with b(3) True show ?thesis by simp
  qed (use assms(2) b(2) in simp)
qed

text \<open>
  A completed stage is final. Whatever worker tasks run later, a stage that has succeeded keeps its row: no
  checkpoint, completion or stale sweep changes it, provided primary keys are unique and the new key is fresh.
\<close>

theorem succeeded_stage_kept:
  assumes "(\<exists>rep. checkpoint_run_stage repr now pk task rid name data token d = Inr (d', rep)) \<or>
      (\<exists>rep. complete_run_stage repr now rid name token data d = Inr (d', rep)) \<or>
      (\<exists>b. expire_stage now cutoff k d = Inr (d', b))"
    and "distinct (map stage_id (stages d))" and "pk \<notin> stage_id ` set (stages d)"
    and "x \<in> set (stages d)" and "stage_state x = Stage_succeeded"
  shows "x \<in> set (stages d')"
  using assms(1)
proof (elim disjE exE)
  fix rep assume "checkpoint_run_stage repr now pk task rid name data token d = Inr (d', rep)"
  from checkpoint_keeps_succeeded [OF this assms(4,5,2,3)] show ?thesis .
next
  fix rep assume "complete_run_stage repr now rid name token data d = Inr (d', rep)"
  from complete_keeps_succeeded [OF this assms(4,5,2)] show ?thesis .
next
  fix b assume "expire_stage now cutoff k d = Inr (d', b)"
  from expire_keeps_succeeded [OF this assms(4,5,2)] show ?thesis .
qed

theorem succeeded_stage_kept_witness:
  "\<exists>d' b. expire_stage 900000000 300000000 ''s2'' (demo_work Auditing
      [demo_stage ''s1'' ''collecting'' Stage_succeeded (Some 0), demo_stage ''s2'' ''auditing'' Stage_running (Some 0)]) = Inr (d', b) \<and> b \<and>
    demo_stage ''s1'' ''collecting'' Stage_succeeded (Some 0) \<in> set (stages d')"
proof -
  let ?d = "demo_work Auditing
      [demo_stage ''s1'' ''collecting'' Stage_succeeded (Some 0), demo_stage ''s2'' ''auditing'' Stage_running (Some 0)]"
  obtain d' where step: "expire_stage 900000000 300000000 ''s2'' ?d = Inr (d', True)"
    by (simp add: expire_stage_def demo_work_def demo_stage_def demo_state_def demo_defs new_stage_def get_row_def get_run_def
        demo_run_def new_run_def Let_def)
  have "\<exists>b. expire_stage 900000000 300000000 ''s2'' ?d = Inr (d', b)" using step by blast
  from succeeded_stage_kept [OF disjI2 [OF disjI2 [OF this]], of "''s9''" "demo_stage ''s1'' ''collecting'' Stage_succeeded (Some 0)"] step
  show ?thesis by (auto simp: demo_work_def demo_stage_def demo_state_def demo_defs new_stage_def)
qed

subsection \<open>The sweep\<close>

definition runs_present :: "db \<Rightarrow> bool" where
  "runs_present d \<longleftrightarrow> (\<forall>s \<in> set (stages d). stage_run s \<in> run_id ` set (runs d))"

definition swept :: "(uid \<Rightarrow> moment) \<Rightarrow> uid set \<Rightarrow> run_stage \<Rightarrow> run_stage" where
  "swept now ks s = (if stage_id s \<in> ks then expired_stage (now (stage_id s)) s else s)"

lemma swept_simps [simp]: "stage_id (swept now ks s) = stage_id s" "stage_run (swept now ks s) = stage_run s"
  by (simp_all add: swept_def expired_stage_def)

lemma find_row: "distinct (map key rows) \<Longrightarrow> s \<in> set rows \<Longrightarrow> find (\<lambda>x. key x = key s) rows = Some s"
  by (rule find_the) (auto simp: distinct_map dest: inj_onD)

lemma get_run_ex: "k \<in> run_id ` set (runs d) \<Longrightarrow> \<exists>r. get_run d k = Inr r"
  by (auto simp: get_run_def get_row_def find_None_all split: option.split)

lemma expire_stage_step:
  assumes "distinct (map stage_id (stages d))" "runs_present d" "s \<in> set (stages d)" "is_stale cutoff s"
  obtains d' where "expire_stage (now (stage_id s)) cutoff (stage_id s) d = Inr (d', True)"
    "stages d' = map (swept now {stage_id s}) (stages d)" "map run_id (runs d') = map run_id (runs d)"
    "\<forall>r \<in> set (runs d). run_state r \<in> set TERMINAL_RUN_STATES \<longrightarrow> distinct (map run_id (runs d)) \<longrightarrow> r \<in> set (runs d')"
proof -
  let ?n = "now (stage_id s)"
  have find: "find (\<lambda>x. stage_id x = stage_id s) (stages d) = Some s" by (rule find_row [OF assms(1,3)])
  have "stage_run s \<in> run_id ` set (runs d)" using assms(2,3) by (simp add: runs_present_def)
  then obtain r where r: "get_run d (stage_run s) = Inr r" using get_run_ex by blast
  have cong: "get_run (save_stage x d) k = get_run d k" for x k by (simp add: get_run_def)
  have "\<exists>d'. expire_stage ?n cutoff (stage_id s) d = Inr (d', True)"
    using find r assms(4) by (auto simp: expire_stage_def get_row_def is_stale_def Let_def cong split: option.splits)
  then obtain d' where step: "expire_stage ?n cutoff (stage_id s) d = Inr (d', True)" by blast
  obtain q where "get_row ''RunStage'' (\<lambda>x. stage_id x = stage_id s) (stages d) = Inr q"
    and out: "stages d' = save_row stage_id (expired_stage ?n q) (stages d)"
      "\<exists>r. get_run d (stage_run q) = Inr r \<and>
       runs d' = (if run_state r \<in> set TERMINAL_RUN_STATES then runs d
                  else save_row run_id (failed_run (expired_stage ?n q) r) (runs d))"
    by (rule expire_stageE [OF step]) auto
  with find have q: "q = s" by (simp add: get_row_def)
  have same: "x = s" if "x \<in> set (stages d)" "stage_id x = stage_id s" for x
    using that assms(1,3) by (auto simp: distinct_map dest: inj_onD)
  have "stages d' = map (swept now {stage_id s}) (stages d)"
    unfolding out(1) q save_row_def by (rule map_cong) (auto simp: swept_def expired_stage_def dest: same)
  moreover have "map run_id (runs d') = map run_id (runs d)" using out(2) by auto
  moreover have "\<forall>x \<in> set (runs d). run_state x \<in> set TERMINAL_RUN_STATES \<longrightarrow> distinct (map run_id (runs d)) \<longrightarrow> x \<in> set (runs d')"
  proof (intro ballI impI)
    fix x assume x: "x \<in> set (runs d)" "run_state x \<in> set TERMINAL_RUN_STATES" "distinct (map run_id (runs d))"
    obtain r where r: "r \<in> set (runs d)" "runs d' = (if run_state r \<in> set TERMINAL_RUN_STATES then runs d
                  else save_row run_id (failed_run (expired_stage ?n q) r) (runs d))"
      using out(2) get_runD by blast
    show "x \<in> set (runs d')"
    proof (cases "run_state r \<in> set TERMINAL_RUN_STATES")
      case False
      then have "x \<in> set (save_row run_id (failed_run (expired_stage ?n q) r) (runs d))"
        by (intro save_keeps [OF x(3,1) r(1)]) (use x(2) in \<open>auto simp: failed_run_def\<close>)
      with False r(2) show ?thesis by simp
    qed (use x r(2) in simp)
  qed
  ultimately show ?thesis by (rule that [OF step])
qed

lemma swept_swept: "k \<notin> ks \<Longrightarrow> swept now ks (swept now {k} s) = swept now (insert k ks) s"
  by (auto simp: swept_def expired_stage_def)

lemma swept_stale: "stage_id s \<noteq> k \<Longrightarrow> is_stale cutoff (swept now {k} s) = is_stale cutoff s"
  by (simp add: swept_def)

lemma expire_stages_exact:
  assumes "distinct (map stage_id (stages d))" "runs_present d" "distinct (map run_id (runs d))"
    and "distinct ids" and "\<forall>k \<in> set ids. \<exists>s \<in> set (stages d). stage_id s = k \<and> is_stale cutoff s"
  shows "\<exists>d'. expire_stages (\<lambda>k d. d) now cutoff ids n d = (Inr (n + length ids), d') \<and>
    stages d' = map (swept now (set ids)) (stages d) \<and>
    (\<forall>r \<in> set (runs d). run_state r \<in> set TERMINAL_RUN_STATES \<longrightarrow> r \<in> set (runs d'))"
  using assms
proof (induction ids arbitrary: d n)
  case Nil
  have "map (swept now {}) (stages d) = stages d" by (simp add: swept_def map_idI)
  then show ?case by (simp add: ret_def)
next
  case (Cons k ids)
  have "k \<in> set (k # ids)" by simp
  with Cons.prems(5) obtain s where s: "s \<in> set (stages d)" "stage_id s = k" "is_stale cutoff s" by blast
  obtain d1 where step: "expire_stage (now k) cutoff k d = Inr (d1, True)"
    and d1: "stages d1 = map (swept now {k}) (stages d)" "map run_id (runs d1) = map run_id (runs d)"
      "\<forall>r \<in> set (runs d). run_state r \<in> set TERMINAL_RUN_STATES \<longrightarrow> r \<in> set (runs d1)"
  proof (rule expire_stage_step [OF Cons.prems(1,2) s(1,3), of now])
    fix d1 assume "expire_stage (now (stage_id s)) cutoff (stage_id s) d = Inr (d1, True)"
      "stages d1 = map (swept now {stage_id s}) (stages d)" "map run_id (runs d1) = map run_id (runs d)"
      "\<forall>r \<in> set (runs d). run_state r \<in> set TERMINAL_RUN_STATES \<longrightarrow> distinct (map run_id (runs d)) \<longrightarrow> r \<in> set (runs d1)"
    with Cons.prems(3) show thesis unfolding s(2) by (intro that) simp_all
  qed
  have ids: "map stage_id (stages d1) = map stage_id (stages d)" by (simp add: d1(1) comp_def)
  have "runs_present d1" using Cons.prems(2) d1(1) arg_cong [OF d1(2), of set] by (simp add: runs_present_def)
  moreover have "\<forall>j \<in> set ids. \<exists>x \<in> set (stages d1). stage_id x = j \<and> is_stale cutoff x"
  proof
    fix j assume "j \<in> set ids"
    then have j: "j \<in> set (k # ids)" "j \<noteq> k" using Cons.prems(4) by auto
    with Cons.prems(5) obtain x where x: "x \<in> set (stages d)" "stage_id x = j" "is_stale cutoff x" by blast
    with j show "\<exists>x \<in> set (stages d1). stage_id x = j \<and> is_stale cutoff x"
      by (intro bexI [of _ "swept now {k} x"]) (simp_all add: d1(1) swept_stale)
  qed
  moreover have "distinct (map stage_id (stages d1))" "distinct (map run_id (runs d1))" "distinct ids"
    using Cons.prems(1,3,4) by (simp_all only: ids d1(2) distinct.simps)
  ultimately obtain d2 where d2: "expire_stages (\<lambda>k d. d) now cutoff ids (n + 1) d1 = (Inr (n + 1 + length ids), d2)"
      "stages d2 = map (swept now (set ids)) (stages d1)"
      "\<forall>r \<in> set (runs d1). run_state r \<in> set TERMINAL_RUN_STATES \<longrightarrow> r \<in> set (runs d2)"
    using Cons.IH [of d1 "n + 1"] by blast
  have "stages d2 = map (swept now (set (k # ids))) (stages d)"
    using Cons.prems(4) by (simp add: d2(2) d1(1) swept_swept)
  moreover have "expire_stages (\<lambda>k d. d) now cutoff (k # ids) n d = (Inr (n + length (k # ids)), d2)"
    using step d2(1) by (simp add: atomic_def bindA_def modifyA_def)
  ultimately show ?case using d1(3) d2(3) by blast
qed

text \<open>
  C39: The sweep fails exactly the stages that are stale. Without interference \<open>mark_stale_run_stages\<close> always
  returns, reports as checked and failed the number of running stages whose heartbeat is older than the timeout
  (at least a minute), marks exactly those failed, keeps every other stage and every approved or cancelled run.
\<close>

theorem mark_stale_exact:
  assumes "distinct (map stage_id (stages d))" "distinct (map run_id (runs d))" "runs_present d"
  shows "\<exists>d'. mark_stale_run_stages (\<lambda>k d. d) now start timeout d =
      (Inr (length (filter (is_stale (stale_cutoff start timeout)) (stages d)),
            length (filter (is_stale (stale_cutoff start timeout)) (stages d))), d') \<and>
    stages d' = map (\<lambda>s. if is_stale (stale_cutoff start timeout) s then expired_stage (now (stage_id s)) s else s) (stages d) \<and>
    (\<forall>r \<in> set (runs d). run_state r \<in> set TERMINAL_RUN_STATES \<longrightarrow> r \<in> set (runs d'))"
proof -
  let ?c = "stale_cutoff start timeout"
  let ?ids = "map stage_id (filter (is_stale ?c) (stages d))"
  have "distinct ?ids" using assms(1) by (simp add: distinct_map_filter)
  moreover have "\<forall>k \<in> set ?ids. \<exists>s \<in> set (stages d). stage_id s = k \<and> is_stale ?c s" by auto
  ultimately obtain d' where out: "expire_stages (\<lambda>k d. d) now ?c ?ids 0 d = (Inr (length ?ids), d')"
      "stages d' = map (swept now (set ?ids)) (stages d)"
      "\<forall>r \<in> set (runs d). run_state r \<in> set TERMINAL_RUN_STATES \<longrightarrow> r \<in> set (runs d')"
    using expire_stages_exact [OF assms(1,3,2), of ?ids ?c now 0] by auto
  have "stages d' = map (\<lambda>s. if is_stale ?c s then expired_stage (now (stage_id s)) s else s) (stages d)"
    unfolding out(2) by (rule map_cong [OF refl]) (use assms(1) in \<open>auto simp: swept_def distinct_map dest: inj_onD\<close>)
  moreover have "mark_stale_run_stages (\<lambda>k d. d) now start timeout d = (Inr (length ?ids, length ?ids), d')"
    unfolding mark_stale_run_stages_def Let_def bindA_simps(5) by (simp only: bindA_def out(1)) (simp add: ret_def)
  ultimately show ?thesis using out(3) by auto
qed

theorem mark_stale_exact_witness:
  "\<exists>d'. mark_stale_run_stages (\<lambda>k d. d) (\<lambda>k. 1000000000) 999000000 300
      (demo_work Auditing [demo_stage ''s1'' ''collecting'' Stage_running (Some 998000000), demo_stage ''s2'' ''auditing'' Stage_running (Some 0)]) =
    (Inr (1, 1), d') \<and> map stage_state (stages d') = [Stage_running, Stage_failed]"
proof -
  let ?d = "demo_work Auditing [demo_stage ''s1'' ''collecting'' Stage_running (Some 998000000), demo_stage ''s2'' ''auditing'' Stage_running (Some 0)]"
  have "distinct (map stage_id (stages ?d))" "distinct (map run_id (runs ?d))" "runs_present ?d"
    by (simp_all add: demo_work_def demo_stage_def demo_state_def demo_defs new_stage_def runs_present_def demo_run_def new_run_def)
  from mark_stale_exact [OF this, of "\<lambda>k. 1000000000" 999000000 300] show ?thesis
    by (auto simp: demo_work_def demo_stage_def new_stage_def is_stale_def stale_cutoff_def expired_stage_def)
qed

end
