(* ===== verification/Resilience.thy ===== *)
theory Resilience
  imports Py_Float Effects
begin

text \<open>
  \<open>integrations/base.py\<close>: retries with exponential back-off behind a circuit breaker. Clock, random source,
  sleeper and the guarded operation are functions over a world. An operation raises an \<open>AdapterFailure\<close>, a
  \<open>TimeoutError\<close>, another \<open>OSError\<close>, another \<open>Exception\<close>, or an exception outside that class, which no
  handler of \<open>call\<close> catches; the sleeper may raise too. Floats are finite binary64 values.
\<close>

subsection \<open>Results\<close>

datatype adapter_status = Status_available | Status_partial | Status_unavailable

datatype failure_kind = Kind_configuration | Kind_authentication | Kind_authorization | Kind_validation
  | Kind_rate_limit | Kind_timeout | Kind_upstream | Kind_circuit_open | Kind_malformed_response | Kind_internal

datatype circuit_state = Closed | Open | Half_open

record adapter_error =
  ae_kind :: failure_kind
  ae_message :: string
  ae_retryable :: bool

record 'a adapter_result =
  ar_status :: adapter_status
  ar_data :: "'a option"
  ar_errors :: "adapter_error list"
  ar_attempts :: nat
  ar_source :: "string option"

definition unavailable :: "failure_kind \<Rightarrow> string \<Rightarrow> bool \<Rightarrow> nat \<Rightarrow> string option \<Rightarrow> 'a adapter_result" where
  "unavailable kind message retryable attempts source =
     \<lparr>ar_status = Status_unavailable, ar_data = None,
      ar_errors = [\<lparr>ae_kind = kind, ae_message = message, ae_retryable = retryable\<rparr>],
      ar_attempts = attempts, ar_source = source\<rparr>"

subsection \<open>Retry policy\<close>

record retry_policy =
  max_attempts :: int
  base_delay_seconds :: rat
  max_delay_seconds :: rat
  jitter_ratio :: rat

definition default_policy :: retry_policy where
  "default_policy = \<lparr>max_attempts = 3, base_delay_seconds = fl (1 / 4), max_delay_seconds = 4, jitter_ratio = fl (1 / 10)\<rparr>"

definition check_retry_policy :: "retry_policy \<Rightarrow> exn + unit" where
  "check_retry_policy p = raise_first
     [(max_attempts p < 1, ValueError ''max_attempts must be at least one''),
      (base_delay_seconds p < 0 \<or> max_delay_seconds p < 0, ValueError ''retry delays cannot be negative''),
      (\<not> (0 \<le> jitter_ratio p \<and> jitter_ratio p \<le> 1), ValueError ''jitter_ratio must be between zero and one'')]"

text \<open>
  The product of a float and \<open>2 ** k\<close> raises \<open>OverflowError\<close> when the integer has no float; a product beyond
  the floats is infinite, which \<open>min\<close> replaces by the maximal delay as it does the rational number here.
\<close>

definition backoff_delay :: "retry_policy \<Rightarrow> nat \<Rightarrow> rat \<Rightarrow> exn + rat" where
  "backoff_delay p completed_attempt random_value =
     (let k = completed_attempt - 1 in
      if 1024 \<le> k then Inl (OtherError ''OverflowError'' ''int too large to convert to float'')
      else let base = min (max_delay_seconds p) (fmul (base_delay_seconds p) (2 ^ k));
               jitter = fmul (fmul base (jitter_ratio p)) (max 0 (min 1 random_value))
           in Inr (fadd base jitter))"

subsection \<open>Circuit breaker\<close>

record breaker =
  failure_threshold :: int
  reset_timeout_seconds :: rat
  cb_state :: circuit_state
  cb_failures :: int
  cb_opened_at :: "rat option"

definition new_breaker :: "int \<Rightarrow> rat \<Rightarrow> exn + breaker" where
  "new_breaker threshold reset =
     (if threshold < 1 \<or> reset \<le> 0 then Inl (ValueError ''Circuit breaker settings are invalid'')
      else Inr \<lparr>failure_threshold = threshold, reset_timeout_seconds = reset, cb_state = Closed,
                cb_failures = 0, cb_opened_at = None\<rparr>)"

text \<open>
  The methods under their lock, as functions of the time the clock shows; \<open>record_failure\<close> reads the clock
  only when it opens the circuit.
\<close>

definition allow_call :: "rat \<Rightarrow> breaker \<Rightarrow> exn + bool \<times> breaker" where
  "allow_call now b =
     (if cb_state b = Open
      then (case cb_opened_at b of
              None \<Rightarrow> Inl (AssertionError [])
            | Some t \<Rightarrow> if reset_timeout_seconds b \<le> fsub now t then Inr (True, b\<lparr>cb_state := Half_open\<rparr>)
                        else Inr (False, b))
      else Inr (cb_state b \<noteq> Half_open, b))"

definition record_success :: "breaker \<Rightarrow> breaker" where
  "record_success b = b\<lparr>cb_state := Closed, cb_failures := 0, cb_opened_at := None\<rparr>"

definition opens :: "breaker \<Rightarrow> bool" where
  "opens b \<longleftrightarrow> cb_state b = Half_open \<or> failure_threshold b \<le> cb_failures b + 1"

definition record_failure :: "rat \<Rightarrow> breaker \<Rightarrow> breaker" where
  "record_failure now b =
     (let b' = b\<lparr>cb_failures := cb_failures b + 1\<rparr>
      in if opens b then b'\<lparr>cb_state := Open, cb_opened_at := Some now\<rparr> else b')"

subsection \<open>Executor\<close>

datatype op_exn = Adapter_failure failure_kind string bool | Timeout_error | Os_error | Other_exception string
  | Uncaught string

record ('w, 'a) guarded =
  operation :: "'w \<Rightarrow> (op_exn + 'a) \<times> 'w"
  clock_of :: "'w \<Rightarrow> rat \<times> 'w"
  random_of :: "'w \<Rightarrow> rat \<times> 'w"
  sleeper :: "rat \<Rightarrow> 'w \<Rightarrow> (op_exn + unit) \<times> 'w"

record 'w executor =
  ex_breaker :: breaker
  ex_world :: 'w

fun failure_of :: "op_exn \<Rightarrow> adapter_error option" where
  "failure_of (Adapter_failure kind message retryable) =
     Some \<lparr>ae_kind = kind, ae_message = message, ae_retryable = retryable\<rparr>"
| "failure_of Timeout_error = Some \<lparr>ae_kind = Kind_timeout,
     ae_message = ''The upstream source did not respond before the timeout.'', ae_retryable = True\<rparr>"
| "failure_of Os_error = Some \<lparr>ae_kind = Kind_upstream,
     ae_message = ''The upstream source could not be reached.'', ae_retryable = True\<rparr>"
| "failure_of (Other_exception secret) = Some \<lparr>ae_kind = Kind_internal,
     ae_message = ''The source adapter failed safely.'', ae_retryable = False\<rparr>"
| "failure_of (Uncaught name) = None"

datatype call_exn = From_operation op_exn | From_executor exn

type_synonym ('w, 'b) run = "('w executor, call_exn, 'b) action"

definition in_world :: "('w \<Rightarrow> 'b \<times> 'w) \<Rightarrow> ('w, 'b) run" where
  "in_world f s = (case f (ex_world s) of (b, w) \<Rightarrow> (Inr b, s\<lparr>ex_world := w\<rparr>))"

definition set_breaker :: "(breaker \<Rightarrow> breaker) \<Rightarrow> ('w, unit) run" where
  "set_breaker f = modifyA (\<lambda>s. s\<lparr>ex_breaker := f (ex_breaker s)\<rparr>)"

text \<open>Reading the clock only where the method reads it.\<close>

definition permit :: "('w, 'a) guarded \<Rightarrow> ('w, bool) run" where
  "permit g = bindA (gets ex_breaker) (\<lambda>b.
     bindA (if cb_state b = Open \<and> cb_opened_at b \<noteq> None then in_world (clock_of g) else ret 0) (\<lambda>now.
     case allow_call now b of
       Inl e \<Rightarrow> raise (From_executor e)
     | Inr (ok, b') \<Rightarrow> bindA (set_breaker (\<lambda>_. b')) (\<lambda>_. ret ok)))"

definition note_failure :: "('w, 'a) guarded \<Rightarrow> ('w, unit) run" where
  "note_failure g = bindA (gets ex_breaker) (\<lambda>b.
     bindA (if opens b then in_world (clock_of g) else ret 0) (\<lambda>now. set_breaker (record_failure now)))"

definition sleep_before_retry :: "('w, 'a) guarded \<Rightarrow> retry_policy \<Rightarrow> nat \<Rightarrow> ('w, unit) run" where
  "sleep_before_retry g p attempt = bindA (in_world (random_of g)) (\<lambda>r.
     case backoff_delay p attempt r of
       Inl e \<Rightarrow> raise (From_executor e)
     | Inr seconds \<Rightarrow> bindA (in_world (sleeper g seconds)) (\<lambda>out.
         case out of Inl e \<Rightarrow> raise (From_operation e) | Inr u \<Rightarrow> ret ()))"

definition outcome :: "adapter_status \<Rightarrow> 'a option \<Rightarrow> adapter_error list \<Rightarrow> nat \<Rightarrow> string \<Rightarrow> 'a adapter_result" where
  "outcome status data errors attempts source = \<lparr>ar_status = status, ar_data = data, ar_errors = errors,
     ar_attempts = attempts, ar_source = Some source\<rparr>"

text \<open>The loop \<open>for attempt in range(1, max_attempts + 1)\<close>, by the number of attempts left.\<close>

fun retry_loop :: "('w, 'a) guarded \<Rightarrow> retry_policy \<Rightarrow> string \<Rightarrow> nat \<Rightarrow> nat \<Rightarrow> adapter_error list \<Rightarrow>
    ('w, 'a adapter_result) run" where
  "retry_loop g p source 0 attempt errors = raise (From_executor (AssertionError ''Retry loop must return''))"
| "retry_loop g p source (Suc left) attempt errors =
     bindA (in_world (operation g)) (\<lambda>out.
     case out of
       Inr value \<Rightarrow> bindA (set_breaker record_success) (\<lambda>_.
         ret (outcome Status_available (Some value) errors attempt source))
     | Inl e \<Rightarrow> (case failure_of e of
         None \<Rightarrow> raise (From_operation e)
       | Some failure \<Rightarrow>
           if \<not> ae_retryable failure \<or> max_attempts p \<le> int attempt
           then bindA (note_failure g) (\<lambda>_.
             ret (outcome Status_unavailable None (errors @ [failure]) attempt source))
           else bindA (sleep_before_retry g p attempt) (\<lambda>_.
             retry_loop g p source left (attempt + 1) (errors @ [failure]))))"

definition call :: "('w, 'a) guarded \<Rightarrow> retry_policy \<Rightarrow> string \<Rightarrow> ('w, 'a adapter_result) run" where
  "call g p source = bindA (permit g) (\<lambda>ok.
     if \<not> ok
     then ret (unavailable Kind_circuit_open
       ''The upstream source is temporarily paused after repeated failures.'' True 0 (Some source))
     else retry_loop g p source (nat (max_attempts p)) 1 [])"

subsection \<open>The breaker as a state machine\<close>

definition breaker_ok :: "breaker \<Rightarrow> bool" where
  "breaker_ok b \<longleftrightarrow> 1 \<le> failure_threshold b \<and> 0 < reset_timeout_seconds b \<and> 0 \<le> cb_failures b \<and>
     (case cb_state b of Closed \<Rightarrow> cb_failures b < failure_threshold b \<and> cb_opened_at b = None
      | _ \<Rightarrow> cb_opened_at b \<noteq> None)"

datatype breaker_event = Allow rat | Success | Failure rat

fun apply_event :: "breaker_event \<Rightarrow> breaker \<Rightarrow> breaker option" where
  "apply_event (Allow now) b = (case allow_call now b of Inl e \<Rightarrow> None | Inr (ok, b') \<Rightarrow> Some b')"
| "apply_event Success b = Some (record_success b)"
| "apply_event (Failure now) b = Some (record_failure now b)"

inductive reached :: "breaker \<Rightarrow> breaker_event list \<Rightarrow> breaker \<Rightarrow> bool" where
  start: "reached b [] b"
| event: "reached b es b' \<Longrightarrow> apply_event e b' = Some b'' \<Longrightarrow> reached b (es @ [e]) b''"

lemma new_breaker_ok: "new_breaker n r = Inr b \<Longrightarrow> breaker_ok b"
  by (auto simp: new_breaker_def breaker_ok_def split: if_splits)

lemma half_open_ok: "breaker_ok b \<Longrightarrow> cb_state b = Open \<Longrightarrow> breaker_ok (b\<lparr>cb_state := Half_open\<rparr>)"
  by (simp add: breaker_ok_def)

lemma open_since: "breaker_ok b \<Longrightarrow> cb_state b = Open \<Longrightarrow> \<exists>t. cb_opened_at b = Some t"
  by (simp add: breaker_ok_def)

lemma allow_call_cases:
  assumes "breaker_ok b"
  obtains (closed) "cb_state b = Closed" "allow_call now b = Inr (True, b)"
  | (probe) t where "cb_state b = Open" "cb_opened_at b = Some t" "reset_timeout_seconds b \<le> fsub now t"
      "allow_call now b = Inr (True, b\<lparr>cb_state := Half_open\<rparr>)"
  | (waiting) t where "cb_state b = Open" "cb_opened_at b = Some t" "fsub now t < reset_timeout_seconds b"
      "allow_call now b = Inr (False, b)"
  | (probing) "cb_state b = Half_open" "allow_call now b = Inr (False, b)"
proof (cases "cb_state b")
  case Open
  with assms obtain t where "cb_opened_at b = Some t" using open_since by blast
  with Open that(2,3) show thesis by (cases "reset_timeout_seconds b \<le> fsub now t") (simp_all add: allow_call_def)
qed (use that(1,4) in \<open>simp_all add: allow_call_def\<close>)

lemma allow_call_total: "breaker_ok b \<Longrightarrow> \<exists>ok b'. allow_call now b = Inr (ok, b') \<and> breaker_ok b'"
  by (rule allow_call_cases [of b now]) (auto simp: half_open_ok)

lemma record_success_ok: "breaker_ok b \<Longrightarrow> breaker_ok (record_success b)"
  by (auto simp: record_success_def breaker_ok_def)

lemma record_failure_ok: "breaker_ok b \<Longrightarrow> breaker_ok (record_failure now b)"
  by (cases "cb_state b") (auto simp: record_failure_def opens_def breaker_ok_def Let_def)

lemma apply_event_ok: "breaker_ok b \<Longrightarrow> \<exists>b'. apply_event e b = Some b' \<and> breaker_ok b'"
proof (cases e)
  case (Allow now)
  assume "breaker_ok b"
  then obtain ok b' where "allow_call now b = Inr (ok, b')" "breaker_ok b'" using allow_call_total by blast
  then show ?thesis by (simp add: Allow)
qed (simp_all add: record_success_ok record_failure_ok)

lemma reached_ok: "reached b es b' \<Longrightarrow> breaker_ok b \<Longrightarrow> breaker_ok b'"
proof (induction rule: reached.induct)
  case (event b es b' e b'')
  then show ?case using apply_event_ok [of b' e] by auto
qed

lemma record_failure_state:
  "cb_state (record_failure now b) = (if opens b then Open else cb_state b)"
  "cb_failures (record_failure now b) = cb_failures b + 1"
  "opens b \<Longrightarrow> cb_opened_at (record_failure now b) = Some now"
  by (simp_all add: record_failure_def Let_def)

subsection \<open>Calls\<close>

lemma spec_in_world: "(\<And>s. P s \<Longrightarrow> Q (fst (f (ex_world s))) (s\<lparr>ex_world := snd (f (ex_world s))\<rparr>)) \<Longrightarrow> spec P (in_world f) Q E"
  by (simp add: spec_def in_world_def case_prod_beta)

lemma spec_set_breaker: "(\<And>s. P s \<Longrightarrow> Q () (s\<lparr>ex_breaker := f (ex_breaker s)\<rparr>)) \<Longrightarrow> spec P (set_breaker f) Q E"
  by (simp add: set_breaker_def spec_modify)

definition is_overflow :: "call_exn \<Rightarrow> bool" where
  "is_overflow e \<longleftrightarrow> e = From_executor (OtherError ''OverflowError'' ''int too large to convert to float'')"

definition escapes :: "call_exn \<Rightarrow> bool" where
  "escapes e \<longleftrightarrow> is_overflow e \<or> (\<exists>x. e = From_operation x)"

lemma backoff_delay_Inl: "backoff_delay p k r = Inl e \<Longrightarrow> is_overflow (From_executor e)"
  by (auto simp: backoff_delay_def Let_def is_overflow_def split: if_splits)

text \<open>The result of the loop: a success closes the circuit, a final failure is counted.\<close>

definition settled :: "retry_policy \<Rightarrow> breaker \<Rightarrow> 'a adapter_result \<Rightarrow> breaker \<Rightarrow> bool" where
  "settled p b res b' \<longleftrightarrow> 1 \<le> ar_attempts res \<and> int (ar_attempts res) \<le> max_attempts p \<and>
     (case ar_data res of
        Some v \<Rightarrow> ar_status res = Status_available \<and> b' = record_success b \<and>
          length (ar_errors res) + 1 = ar_attempts res \<and> (\<forall>e \<in> set (ar_errors res). ae_retryable e)
      | None \<Rightarrow> ar_status res = Status_unavailable \<and> (\<exists>now. b' = record_failure now b) \<and>
          length (ar_errors res) = ar_attempts res \<and> (\<forall>e \<in> set (butlast (ar_errors res)). ae_retryable e))"

text \<open>
  The interface between the executor and what it guards: a counter that every run of the operation raises by
  one and that clock, random source and sleeper leave alone.
\<close>

locale counted =
  fixes g :: "('w, 'a) guarded" and n :: "'w \<Rightarrow> nat"
  assumes operation_counts: "n (snd (operation g w)) = n w + 1"
    and clock_quiet: "n (snd (clock_of g w)) = n w"
    and random_quiet: "n (snd (random_of g w)) = n w"
    and sleeper_quiet: "n (snd (sleeper g q w)) = n w"
begin

definition stands :: "breaker \<Rightarrow> nat \<Rightarrow> 'w executor \<Rightarrow> bool" where
  "stands b k s \<longleftrightarrow> ex_breaker s = b \<and> n (ex_world s) = k"

lemma operation_spec: "spec (stands b k) (in_world (operation g)) (\<lambda>_. stands b (k + 1)) E"
  by (rule spec_in_world) (simp add: stands_def operation_counts)

lemma clock_spec: "spec (stands b k) (if c then in_world (clock_of g) else ret 0) (\<lambda>_. stands b k) E"
  by (auto intro!: spec_in_world spec_ret simp: stands_def clock_quiet)

lemma note_failure_spec: "spec (stands b k) (note_failure g) (\<lambda>_ s. \<exists>now. stands (record_failure now b) k s) E"
  unfolding note_failure_def
  by (rule spec_gets_bind [where a = b], simp add: stands_def, rule spec_bind [OF clock_spec],
      rule spec_set_breaker) (auto simp: stands_def)

lemma sleep_spec: "spec (stands b k) (sleep_before_retry g p attempt) (\<lambda>_. stands b k) (\<lambda>e s. escapes e \<and> stands b k s)"
  unfolding sleep_before_retry_def
  by (rule spec_bind [where R = "\<lambda>_. stands b k"], rule spec_in_world, simp add: stands_def random_quiet,
      rule spec_sum, rule spec_raise, simp add: escapes_def backoff_delay_Inl,
      rule spec_bind [where R = "\<lambda>_. stands b k"], rule spec_in_world, simp add: stands_def sleeper_quiet,
      rule spec_sum) (auto intro!: spec_raise spec_ret simp: escapes_def)

lemma retry_loop_spec:
  assumes "int (left + attempt) = max_attempts p + 1" "1 \<le> left" "length errors + 1 = attempt" "\<forall>e \<in> set errors. ae_retryable e"
    and "k + 1 = k0 + attempt"
  shows "spec (stands b k) (retry_loop g p source left attempt errors)
    (\<lambda>res s. \<exists>b'. settled p b res b' \<and> stands b' (k0 + ar_attempts res) s) (\<lambda>e s. escapes e \<and> ex_breaker s = b)"
  using assms
proof (induction left arbitrary: attempt errors k)
  case 0
  then show ?case by simp
next
  case (Suc left)
  let ?Q = "\<lambda>res s. \<exists>b'. settled p b res b' \<and> stands b' (k0 + ar_attempts res) s" and ?E = "\<lambda>e s. escapes e \<and> ex_breaker s = b"
  have att: "1 \<le> attempt" "int attempt \<le> max_attempts p" using Suc.prems(1,2,3) by linarith+
  have succeed: "spec (stands b (k + 1)) (bindA (set_breaker record_success) (\<lambda>_.
      ret (outcome Status_available (Some v) errors attempt source))) ?Q ?E" for v
    by (rule spec_bind [where R = "\<lambda>_. stands (record_success b) (k + 1)"], rule spec_set_breaker, simp add: stands_def, rule spec_ret)
      (use att Suc.prems in \<open>auto simp: settled_def outcome_def\<close>)
  have stop: "spec (stands b (k + 1)) (bindA (note_failure g) (\<lambda>_.
      ret (outcome Status_unavailable None (errors @ [f]) attempt source))) ?Q ?E" for f
    by (rule spec_bind [OF note_failure_spec], rule spec_ret)
      (use att Suc.prems in \<open>auto simp: settled_def outcome_def\<close>)
  have retry: "spec (stands b (k + 1)) (bindA (sleep_before_retry g p attempt) (\<lambda>_.
      retry_loop g p source left (attempt + 1) (errors @ [f]))) ?Q ?E"
    if "ae_retryable f" "int attempt < max_attempts p" for f
  proof (rule spec_bind)
    show "spec (stands b (k + 1)) (sleep_before_retry g p attempt) (\<lambda>_. stands b (k + 1)) ?E"
      by (rule spec_weaken [OF sleep_spec]) (auto simp: stands_def)
    show "spec (stands b (k + 1)) (retry_loop g p source left (attempt + 1) (errors @ [f])) ?Q ?E" for a
      by (rule Suc.IH) (use Suc.prems that in auto)
  qed
  show ?case
    unfolding retry_loop.simps
    by (rule spec_bind [OF operation_spec], rule spec_sum, rule spec_option, rule spec_raise,
        simp add: escapes_def stands_def, rule spec_if, rule stop, rule retry, simp, simp, rule succeed)
qed

lemma permit_spec:
  assumes "breaker_ok b"
  shows "spec (stands b k) (permit g)
    (\<lambda>ok s. if ok then cb_state b = Closed \<and> stands b k s \<or> cb_state b = Open \<and> stands (b\<lparr>cb_state := Half_open\<rparr>) k s
       else cb_state b \<noteq> Closed \<and> stands b k s)
    (\<lambda>e s. False)"
  unfolding permit_def
proof (rule spec_gets_bind [where a = b])
  show "spec (stands b k) (bindA (if cb_state b = Open \<and> cb_opened_at b \<noteq> None then in_world (clock_of g) else ret 0) (\<lambda>now.
     case allow_call now b of Inl e \<Rightarrow> raise (From_executor e) | Inr (ok, b') \<Rightarrow> bindA (set_breaker (\<lambda>_. b')) (\<lambda>_. ret ok)))
    (\<lambda>ok s. if ok then cb_state b = Closed \<and> stands b k s \<or> cb_state b = Open \<and> stands (b\<lparr>cb_state := Half_open\<rparr>) k s
       else cb_state b \<noteq> Closed \<and> stands b k s)
    (\<lambda>e s. False)"
  proof (rule spec_bind [OF clock_spec])
    fix now
    show "spec (stands b k) (case allow_call now b of Inl e \<Rightarrow> raise (From_executor e)
        | Inr (ok, b') \<Rightarrow> bindA (set_breaker (\<lambda>_. b')) (\<lambda>_. ret ok))
      (\<lambda>ok s. if ok then cb_state b = Closed \<and> stands b k s \<or> cb_state b = Open \<and> stands (b\<lparr>cb_state := Half_open\<rparr>) k s
       else cb_state b \<noteq> Closed \<and> stands b k s)
      (\<lambda>e s. False)"
      by (rule allow_call_cases [OF assms, of now])
        (simp_all add: set_breaker_def spec_def modifyA_def bindA_def ret_def stands_def)
  qed
qed (simp add: stands_def)

definition refused :: "string \<Rightarrow> 'a adapter_result" where
  "refused source = unavailable Kind_circuit_open
     ''The upstream source is temporarily paused after repeated failures.'' True 0 (Some source)"

lemma call_spec:
  assumes "check_retry_policy p = Inr ()" and "breaker_ok b"
  shows "spec (stands b k) (call g p source)
    (\<lambda>res s. res = refused source \<and> cb_state b \<noteq> Closed \<and> stands b k s \<or>
       (\<exists>b0 b'. (b0 = b \<and> cb_state b = Closed \<or> b0 = b\<lparr>cb_state := Half_open\<rparr> \<and> cb_state b = Open) \<and>
          settled p b0 res b' \<and> stands b' (k + ar_attempts res) s))
    (\<lambda>e s. escapes e \<and> (ex_breaker s = b \<and> cb_state b = Closed \<or> ex_breaker s = b\<lparr>cb_state := Half_open\<rparr> \<and> cb_state b = Open))"
proof -
  have max: "1 \<le> max_attempts p" using assms(1) by (simp add: check_retry_policy_def split: if_splits)
  have loop: "spec (stands b0 k) (retry_loop g p source (nat (max_attempts p)) 1 [])
      (\<lambda>res s. \<exists>b'. settled p b0 res b' \<and> stands b' (k + ar_attempts res) s) (\<lambda>e s. escapes e \<and> ex_breaker s = b0)" for b0
    by (rule retry_loop_spec) (use max in auto)
  let ?Q = "\<lambda>res s. res = refused source \<and> cb_state b \<noteq> Closed \<and> stands b k s \<or>
       (\<exists>b0 b'. (b0 = b \<and> cb_state b = Closed \<or> b0 = b\<lparr>cb_state := Half_open\<rparr> \<and> cb_state b = Open) \<and>
          settled p b0 res b' \<and> stands b' (k + ar_attempts res) s)"
  let ?E = "\<lambda>e s. escapes e \<and>
    (ex_breaker s = b \<and> cb_state b = Closed \<or> ex_breaker s = b\<lparr>cb_state := Half_open\<rparr> \<and> cb_state b = Open)"
  let ?R = "\<lambda>ok s. if ok then cb_state b = Closed \<and> stands b k s \<or> cb_state b = Open \<and> stands (b\<lparr>cb_state := Half_open\<rparr>) k s
       else cb_state b \<noteq> Closed \<and> stands b k s"
  have permit: "spec (stands b k) (permit g) ?R ?E" by (rule spec_weaken [OF permit_spec [OF assms(2)]]) auto
  show ?thesis unfolding call_def refused_def [symmetric]
  proof (rule spec_bind [OF permit])
    fix ok
    show "spec (?R ok) (if \<not> ok then ret (refused source) else retry_loop g p source (nat (max_attempts p)) 1 []) ?Q ?E"
    proof (cases ok)
      case False
      then show ?thesis by (auto intro: spec_ret)
    next
      case True
      show ?thesis
      proof (cases "cb_state b")
        case Closed
        from True show ?thesis by (simp only: not_True_eq_False if_False, intro spec_weaken [OF loop [of b]]) (use Closed in auto)
      next
        case Open
        from True show ?thesis
          by (simp only: not_True_eq_False if_False, intro spec_weaken [OF loop [of "b\<lparr>cb_state := Half_open\<rparr>"]]) (use Open in auto)
      next
        case Half_open
        with True show ?thesis by (auto simp: spec_def)
      qed
    qed
  qed
qed

end

text \<open>A guarded operation with a counter of its runs beside the world, for which the interface holds.\<close>

definition with_counter :: "('w, 'a) guarded \<Rightarrow> ('w \<times> nat, 'a) guarded" where
  "with_counter g = \<lparr>operation = (\<lambda>w. map_prod id (\<lambda>v. (v, snd w + 1)) (operation g (fst w))),
     clock_of = (\<lambda>w. map_prod id (\<lambda>v. (v, snd w)) (clock_of g (fst w))),
     random_of = (\<lambda>w. map_prod id (\<lambda>v. (v, snd w)) (random_of g (fst w))),
     sleeper = (\<lambda>q w. map_prod id (\<lambda>v. (v, snd w)) (sleeper g q (fst w)))\<rparr>"

interpretation counter: counted "with_counter g" snd for g :: "('w, 'a) guarded"
  by unfold_locales (simp_all add: with_counter_def)

subsection \<open>Properties\<close>

text \<open>
  C38: Retrying is bounded and every call is accounted for. A call with a valid policy either is refused while the
  circuit is not closed, without running the operation, or runs it exactly as often as the result says, at most
  \<open>max_attempts\<close> times, retrying only after retryable failures: a success closes the circuit and resets the
  count, a final failure is counted. Only an exception that is no \<open>Exception\<close>, one raised while
  sleeping, or the overflow of the delay escapes; the loop never falls through.
\<close>

theorem call_settles:
  assumes "check_retry_policy p = Inr ()" and "breaker_ok (ex_breaker s)"
    and "call (with_counter g) p source s = (out, s')"
  shows "case out of
      Inr res \<Rightarrow> (res = unavailable Kind_circuit_open ''The upstream source is temporarily paused after repeated failures.''
                       True 0 (Some source) \<and>
                    cb_state (ex_breaker s) \<noteq> Closed \<and> ex_breaker s' = ex_breaker s \<and> snd (ex_world s') = snd (ex_world s)) \<or>
                 (\<exists>b0. (b0 = ex_breaker s \<and> cb_state b0 = Closed \<or> b0 = (ex_breaker s)\<lparr>cb_state := Half_open\<rparr> \<and> cb_state (ex_breaker s) = Open) \<and>
                    settled p b0 res (ex_breaker s') \<and> snd (ex_world s') = snd (ex_world s) + ar_attempts res)
    | Inl e \<Rightarrow> escapes e"
proof -
  note contract = counter.call_spec [OF assms(1,2), where ?k = "snd (ex_world s)" and ?source = source and ?g = g]
  have start: "counter.stands (ex_breaker s) (snd (ex_world s)) s" by (simp add: counter.stands_def)
  show ?thesis
  proof (cases out)
    case (Inl e)
    with spec_InlD [OF contract start] assms(3) show ?thesis by simp
  next
    case (Inr res)
    with spec_InrD [OF contract start, of res s'] assms(3) show ?thesis
      by (auto simp: counter.stands_def counter.refused_def)
  qed
qed

definition flaky :: "(nat, nat) guarded" where
  "flaky = \<lparr>operation = (\<lambda>w. (if w = 0 then Inl (Adapter_failure Kind_rate_limit ''Rate limited.'' True) else Inr 7, w + 1)),
     clock_of = (\<lambda>w. (0, w)), random_of = (\<lambda>w. (0, w)), sleeper = (\<lambda>q w. (Inr (), w))\<rparr>"

definition demo_breaker :: "circuit_state \<Rightarrow> breaker" where
  "demo_breaker st = \<lparr>failure_threshold = 3, reset_timeout_seconds = 60, cb_state = st, cb_failures = (if st = Closed then 0 else 3),
     cb_opened_at = (if st = Closed then None else Some 0)\<rparr>"

lemma demo_breaker_ok: "breaker_ok (demo_breaker st)"
  by (cases st) (simp_all add: breaker_ok_def demo_breaker_def)

lemma default_policy_ok: "check_retry_policy default_policy = Inr ()"
  by code_simp

theorem call_settles_witness:
  "\<exists>res :: nat adapter_result. \<exists>s'. call (with_counter flaky) default_policy ''fixture'' \<lparr>ex_breaker = demo_breaker Closed, ex_world = (0, 0)\<rparr> = (Inr res, s') \<and>
     snd (ex_world s') = ar_attempts res \<and> ar_attempts res = 2"
proof -
  let ?s = "\<lparr>ex_breaker = demo_breaker Closed, ex_world = (0 :: nat, 0 :: nat)\<rparr>"
  let ?out = "call (with_counter flaky) default_policy ''fixture'' ?s"
  have "map_sum (\<lambda>e. ()) ar_attempts (fst ?out) = Inr 2" by code_simp
  then obtain res s' where run: "?out = (Inr res, s')" and two: "ar_attempts res = 2" by (cases ?out; cases "fst ?out") auto
  have "breaker_ok (ex_breaker ?s)" using demo_breaker_ok by simp
  from call_settles [OF default_policy_ok this run] two run show ?thesis
    by (auto simp: demo_breaker_def)
qed



subsection \<open>Counting changes nothing\<close>

definition uncounted :: "('w \<times> nat) executor \<Rightarrow> 'w executor" where
  "uncounted s = \<lparr>ex_breaker = ex_breaker s, ex_world = fst (ex_world s)\<rparr>"

definition simulates :: "('w \<times> nat, 'b) run \<Rightarrow> ('w, 'b) run \<Rightarrow> bool" where
  "simulates m m' \<longleftrightarrow> (\<forall>s. m' (uncounted s) = map_prod id uncounted (m s))"

lemma simulates_bind: "simulates m m' \<Longrightarrow> (\<And>a. simulates (f a) (f' a)) \<Longrightarrow> simulates (bindA m f) (bindA m' f')"
  by (simp add: simulates_def bindA_def split: prod.split sum.split)

lemma simulates_basic:
  "simulates (ret a) (ret a)" "simulates (raise e) (raise e)"
  "simulates (gets ex_breaker) (gets ex_breaker)" "simulates (set_breaker f) (set_breaker f)"
  by (simp_all add: simulates_def ret_def raise_def gets_def set_breaker_def modifyA_def uncounted_def)

lemma simulates_world:
  "simulates (in_world (operation (with_counter g))) (in_world (operation g))"
  "simulates (in_world (clock_of (with_counter g))) (in_world (clock_of g))"
  "simulates (in_world (random_of (with_counter g))) (in_world (random_of g))"
  "simulates (in_world (sleeper (with_counter g) q)) (in_world (sleeper g q))"
  by (simp_all add: simulates_def in_world_def with_counter_def uncounted_def case_prod_beta)

lemmas simulates_intros = simulates_bind simulates_basic simulates_world

lemma simulates_permit: "simulates (permit (with_counter g)) (permit g)"
  unfolding permit_def by (auto intro!: simulates_intros split: sum.split)

lemma simulates_note: "simulates (note_failure (with_counter g)) (note_failure g)"
  unfolding note_failure_def by (auto intro!: simulates_intros)

lemma simulates_sleep: "simulates (sleep_before_retry (with_counter g) p k) (sleep_before_retry g p k)"
  unfolding sleep_before_retry_def by (auto intro!: simulates_intros split: sum.split)

lemma simulates_loop:
  "simulates (retry_loop (with_counter g) p source n k errors) (retry_loop g p source n k errors)"
proof (induction n arbitrary: k errors)
  case (Suc n)
  then show ?case
    by (auto intro!: simulates_intros simulates_note simulates_sleep split: sum.split option.split)
qed (simp add: simulates_basic)

lemma simulates_call: "simulates (call (with_counter g) p source) (call g p source)"
  unfolding call_def by (auto intro!: simulates_intros simulates_permit simulates_loop)

lemma call_counted:
  assumes "call g p source s = (out, s')"
  obtains t where "call (with_counter g) p source \<lparr>ex_breaker = ex_breaker s, ex_world = (ex_world s, 0)\<rparr> = (out, t)" "s' = uncounted t"
proof -
  let ?s = "\<lparr>ex_breaker = ex_breaker s, ex_world = (ex_world s, 0)\<rparr>"
  have "uncounted ?s = s" by (simp add: uncounted_def)
  with simulates_call [of g p source] have "map_prod id uncounted (call (with_counter g) p source ?s) = (out, s')"
    using assms unfolding simulates_def by metis
  then show ?thesis using that by (cases "call (with_counter g) p source ?s") auto
qed

text \<open>
  An abandoned probe blocks the source for good. When the call that probes an open circuit is left by an
  exception, as when a time limit is raised while it sleeps before a retry, the circuit stays half open, and
  from then on every call through this breaker is refused without running its operation, however long one
  waits: nothing but a success or failure report of the lost probe would end that state.
\<close>

theorem abandoned_probe_blocks:
  assumes "check_retry_policy p = Inr ()" and "breaker_ok (ex_breaker s)" and "cb_state (ex_breaker s) = Open"
    and "call g p source s = (Inl e, s')"
  shows "cb_state (ex_breaker s') = Half_open \<and>
    call g2 p2 source2 (s'\<lparr>ex_world := w\<rparr>) =
      (Inr (unavailable Kind_circuit_open ''The upstream source is temporarily paused after repeated failures.'' True 0
         (Some source2)), s'\<lparr>ex_world := w\<rparr>)"
proof -
  let ?s = "\<lparr>ex_breaker = ex_breaker s, ex_world = (ex_world s, 0 :: nat)\<rparr>"
  obtain t where run: "call (with_counter g) p source ?s = (Inl e, t)" and t: "s' = uncounted t"
    by (rule call_counted [OF assms(4)])
  have "ex_breaker t = (ex_breaker s)\<lparr>cb_state := Half_open\<rparr>"
    using spec_InlD [OF counter.call_spec [OF assms(1,2), where ?k = 0 and ?source = source and ?g = g] _ run] assms(3)
    by (simp add: counter.stands_def)
  then have half: "cb_state (ex_breaker s') = Half_open" by (simp add: t uncounted_def)
  then show ?thesis
    by (simp add: call_def permit_def bindA_def gets_def ret_def allow_call_def set_breaker_def modifyA_def)
qed

definition interrupted :: "(rat, nat) guarded" where
  "interrupted = \<lparr>operation = (\<lambda>w. (Inl Timeout_error, w)), clock_of = (\<lambda>w. (w, w)), random_of = (\<lambda>w. (0, w)),
     sleeper = (\<lambda>q w. (Inl (Other_exception ''SoftTimeLimitExceeded''), w))\<rparr>"

theorem abandoned_probe_blocks_witness:
  "\<exists>s' e. call interrupted default_policy ''semrush'' \<lparr>ex_breaker = demo_breaker Open, ex_world = 100\<rparr> = (Inl e, s') \<and>
     fst (call interrupted default_policy ''semrush'' (s'\<lparr>ex_world := 100000\<rparr>)) =
       Inr (unavailable Kind_circuit_open ''The upstream source is temporarily paused after repeated failures.'' True 0
         (Some ''semrush''))"
proof -
  let ?s = "\<lparr>ex_breaker = demo_breaker Open, ex_world = 100 :: rat\<rparr>"
  let ?out = "call interrupted default_policy ''semrush'' ?s"
  have "isl (fst ?out)" by code_simp
  then obtain e s' where run: "?out = (Inl e, s')" by (cases ?out; cases "fst ?out") auto
  have ok: "breaker_ok (ex_breaker ?s)" by (simp add: demo_breaker_ok)
  have "cb_state (ex_breaker ?s) = Open" by (simp add: demo_breaker_def)
  note blocked = abandoned_probe_blocks [OF default_policy_ok ok this run, THEN conjunct2, of interrupted default_policy "''semrush''" 100000]
  show ?thesis
    by (rule exI [of _ s'], rule exI [of _ e], rule conjI, rule run) (simp only: blocked fst_conv)
qed

text \<open>
  The circuit recovers. Once the reset time has passed since an open circuit opened, the next call runs
  the operation whatever happened before, and when the operation succeeds the caller gets its value from the
  first attempt and the circuit is closed with no failures counted.
\<close>

theorem circuit_recovers:
  assumes "check_retry_policy p = Inr ()" and "cb_state (ex_breaker s) = Open" and "cb_opened_at (ex_breaker s) = Some t"
    and "clock_of g (ex_world s) = (now, w)" and "reset_timeout_seconds (ex_breaker s) \<le> fsub now t"
    and "operation g w = (Inr v, w')"
  shows "\<exists>b. call g p source s = (Inr (outcome Status_available (Some v) [] 1 source), \<lparr>ex_breaker = b, ex_world = w'\<rparr>) \<and>
    cb_state b = Closed \<and> cb_failures b = 0"
proof -
  from assms(1) obtain n where n: "nat (max_attempts p) = Suc n"
    by (cases "nat (max_attempts p)") (auto simp: check_retry_policy_def split: if_splits)
  show ?thesis
    using assms(2-6) by (cases s) (simp add: call_def n permit_def bindA_def gets_def ret_def allow_call_def set_breaker_def
        modifyA_def in_world_def record_success_def)
qed

theorem circuit_recovers_witness:
  "\<exists>b. call (flaky\<lparr>clock_of := (\<lambda>w. (61, w))\<rparr>) default_policy ''fixture'' \<lparr>ex_breaker = demo_breaker Open, ex_world = 1\<rparr> =
      (Inr (outcome Status_available (Some 7) [] 1 ''fixture''), \<lparr>ex_breaker = b, ex_world = 2\<rparr>) \<and> cb_state b = Closed"
proof -
  have "60 \<le> fsub 61 0" by code_simp
  with circuit_recovers [OF default_policy_ok, of "\<lparr>ex_breaker = demo_breaker Open, ex_world = 1\<rparr>" 0
      "flaky\<lparr>clock_of := (\<lambda>w. (61, w))\<rparr>" 61 1 7 2 "''fixture''"] show ?thesis
    by (auto simp: demo_breaker_def flaky_def)
qed

subsection \<open>Provider texts do not leak\<close>

fun hide :: "op_exn \<Rightarrow> op_exn" where
  "hide (Other_exception secret) = Other_exception []"
| "hide e = e"

definition hidden :: "('w, 'a) guarded \<Rightarrow> ('w, 'a) guarded" where
  "hidden g = g\<lparr>operation := (\<lambda>w. map_prod (map_sum hide id) id (operation g w))\<rparr>"

lemma hidden_fields:
  "clock_of (hidden g) = clock_of g" "random_of (hidden g) = random_of g" "sleeper (hidden g) = sleeper g"
  by (simp_all add: hidden_def)

lemma hidden_steps:
  "permit (hidden g) = permit g" "note_failure (hidden g) = note_failure g" "sleep_before_retry (hidden g) p k = sleep_before_retry g p k"
  unfolding permit_def note_failure_def sleep_before_retry_def hidden_fields by (rule refl)+

lemma bindA_assoc: "bindA (bindA m f) h = bindA m (\<lambda>a. bindA (f a) h)"
  by (auto simp: fun_eq_iff bindA_def split: prod.split sum.split)

lemma failure_of_hide: "failure_of (hide e) = failure_of e" "failure_of e = None \<Longrightarrow> hide e = e"
  by (cases e; simp)+

lemma retry_loop_hidden: "retry_loop (hidden g) p source n k errors = retry_loop g p source n k errors"
proof (induction n arbitrary: k errors)
  case (Suc n)
  have op: "in_world (operation (hidden g)) = bindA (in_world (operation g)) (\<lambda>out. ret (map_sum hide id out))"
    by (simp add: fun_eq_iff in_world_def hidden_def bindA_def ret_def split: prod.split)
  have handler: "(case map_sum hide id out of
      Inl e \<Rightarrow> (case failure_of e of None \<Rightarrow> raise (From_operation e) | Some f \<Rightarrow> h f)
    | Inr v \<Rightarrow> k v) = (case out of
      Inl e \<Rightarrow> (case failure_of e of None \<Rightarrow> raise (From_operation e) | Some f \<Rightarrow> h f)
    | Inr v \<Rightarrow> k v)" for out :: "op_exn + 'b" and h and k :: "'b \<Rightarrow> ('a, 'b adapter_result) run"
    by (cases out) (auto simp: failure_of_hide split: option.split)
  show ?case
    unfolding retry_loop.simps op bindA_assoc bindA_simps hidden_steps Suc.IH handler by (rule refl)
qed simp

text \<open>
  Provider texts do not leak. The outcome of a call, its result and the state it leaves, does not depend on
  the text of an exception that is not the adapter's own: replacing that text by the empty one changes nothing.
\<close>

theorem exception_text_hidden: "call (hidden g) p source s = call g p source s"
  unfolding call_def hidden_steps retry_loop_hidden by (rule refl)

end
