(* ===== verification/Audit_Rows.thy ===== *)
theory Audit_Rows
  imports Crawl Rules Scoring Domain
begin

text \<open>
  The evidence side of \<open>audit_engine/tasks.py\<close>: what a finished crawl leaves in the database (\<open>collect\<close>) and
  what the rules add to it (\<open>create_findings\<close>). A table is the list of its rows in insertion order; the
  statements run in autocommit mode, so a row written before an exception stays, which is what an action over
  the tables expresses. Columns a call leaves at their default and \<open>created_at\<close>, \<open>updated_at\<close> are left out.
  \<open>fresh t n\<close> is the primary key \<open>uuid4\<close> draws for the n-th row the attempt writes to table \<open>t\<close>. PostgreSQL, the
  database \<open>settings.py\<close> requires, refuses a text longer than its column: \<open>fits\<close>.
\<close>

subsection \<open>Constants\<close>

fun IMPACT :: "severity \<Rightarrow> rat" where
  "IMPACT Sev_critical = 95"
| "IMPACT Sev_high = 80"
| "IMPACT Sev_medium = 60"
| "IMPACT Sev_low = 35"
| "IMPACT Sev_info = 15"

fun PENALTY :: "severity \<Rightarrow> rat" where
  "PENALTY Sev_critical = 18"
| "PENALTY Sev_high = 10"
| "PENALTY Sev_medium = 5"
| "PENALTY Sev_low = 2"
| "PENALTY Sev_info = 0"

fun SEVERITY_RANK :: "severity \<Rightarrow> nat" where
  "SEVERITY_RANK Sev_critical = 0"
| "SEVERITY_RANK Sev_high = 1"
| "SEVERITY_RANK Sev_medium = 2"
| "SEVERITY_RANK Sev_low = 3"
| "SEVERITY_RANK Sev_info = 4"

definition FINDING_EVIDENCE_CAP :: nat where
  "FINDING_EVIDENCE_CAP = 25"

definition QUARANTINE_URL_CAP :: nat where
  "QUARANTINE_URL_CAP = 50"

definition CATEGORY_COVERAGE :: "(string \<times> rat) list" where
  "CATEGORY_COVERAGE = [(''technical'', 1), (''on_page'', 1), (''performance'', 1 / 2), (''analytics'', fl (7 / 10)),
     (''geo_aeo'', fl (8 / 10)), (''keyword_architecture'', 1 / 2), (''ecommerce'', fl (7 / 10)),
     (''local'', fl (6 / 10)), (''cro'', 0), (''authority'', 0)]"

definition business_profile_of :: "string \<Rightarrow> business_profile" where
  "business_profile_of v =
     (if v = ''local'' then Local else if v = ''ecommerce'' then Ecommerce
      else if v = ''hybrid'' then Hybrid else Service_saas)"

definition run_profile_of :: "string \<Rightarrow> run_profile option" where
  "run_profile_of v = map_of [(''quick'', Quick), (''standard'', Standard), (''enterprise'', Enterprise)] v"

definition page_budget_of :: "int \<Rightarrow> audit_run \<Rightarrow> int" where
  "page_budget_of auto_limit r =
     max 1 (min (page_budget (RUN_LIMITS (opt_or Quick (run_profile_of (run_profile_text r))))) auto_limit)"

definition advice :: "string \<Rightarrow> string \<times> string" where
  "advice c = opt_or (''Resolve the evidence-backed issue'',
      ''Apply the smallest safe correction and verify it in a new crawl.'') (map_of [
      (''technical.http_status'', (''Repair the failing URL'',
        ''Restore the URL or propose one relevant approved-domain redirect.'')),
      (''on_page.title'', (''Write a distinct page title'',
        ''Create a concise, intent-aligned title and compare it with other crawled titles.'')),
      (''on_page.meta_description'', (''Add a useful meta description'',
        ''Draft an accurate page-specific search summary.'')),
      (''on_page.h1'', (''Correct the primary heading'',
        ''Use one clear H1 and lower-level headings for supporting sections.'')),
      (''technical.crawl_degraded'', (''Allow the audit crawler through bot protection'',
        ''Allow-list the audit crawler's user agent and source addresses in your WAF, CDN or rate-limit rules, then re-run the audit so the quarantined URLs can be assessed. No change to those pages is implied by this item.'')),
      (''technical.canonical_boundary'', (''Review the unsafe canonical'',
        ''Propose an approved-domain canonical for administrator review.'')),
      (''technical.robots_directive'', (''Confirm indexation intent'',
        ''Compare the directive with the page purpose before changing it.'')),
      (''technical.redirect_chain_length'', (''Flatten the redirect chain'',
        ''Point every internal link and redirect rule directly at the final destination URL so each request resolves in a single hop.'')),
      (''technical.canonical_missing'', (''Add a self-referencing canonical'',
        ''Declare a rel=\"canonical\" link on each page pointing at its own preferred URL to neutralise parameter and duplicate variants.'')),
      (''technical.duplicate_content'', (''Consolidate duplicate pages'',
        ''Select one canonical URL per duplicated body, 301-redirect or canonicalise the copies, and repoint internal links at the surviving URL.'')),
      (''technical.insecure_internal_links'', (''Upgrade internal links to HTTPS'',
        ''Rewrite internal hrefs that still use http:// to their https:// equivalents so no navigation path passes through an insecure hop.'')),
      (''technical.broken_internal_link'', (''Fix broken internal links'',
        ''Update or remove every link that targets a 4xx/5xx URL: restore the destination, or point the link at the closest live equivalent.'')),
      (''technical.url_hygiene'', (''Standardise URL formatting'',
        ''Adopt short, lowercase, hyphen-separated paths for new URLs and plan 301 redirects before renaming any live URL.'')),
      (''technical.deep_page'', (''Reduce click depth'',
        ''Surface deep pages through hub pages, category listings or contextual links so they sit within four clicks of the homepage.'')),
      (''technical.orphan_page'', (''Link to orphaned pages'',
        ''Add at least one crawlable internal link from a relevant indexed page to each orphan, or deliberately retire pages that no longer serve a purpose.'')),
      (''on_page.title_duplicate'', (''Differentiate duplicate titles'',
        ''Rewrite each affected title so it names that page's unique topic and intent; never reuse one title across URLs.'')),
      (''on_page.meta_description_duplicate'', (''Differentiate duplicate meta descriptions'',
        ''Write a page-specific summary for each affected URL that reflects its own content and call to action.'')),
      (''on_page.h1_duplicate'', (''Differentiate duplicate H1 headings'',
        ''Give each affected page a primary heading that states its own topic instead of repeating a shared heading.'')),
      (''on_page.title_short'', (''Expand the short title'',
        ''Extend the title into a descriptive 15-60 character phrase that pairs the page topic with its differentiator.'')),
      (''on_page.thin_content'', (''Strengthen thin content'',
        ''Expand the page until it fully answers its target intent, or consolidate it into a stronger related page with a 301 redirect.'')),
      (''on_page.image_alt_missing'', (''Add missing image alt text'',
        ''Write concise, descriptive alt attributes for every informative image and use empty alt only for purely decorative images.'')),
      (''on_page.h2_missing'', (''Structure long copy with H2 subheadings'',
        ''Break the page into scannable sections with descriptive H2 subheadings that reflect the questions the copy answers.'')),
      (''performance.slow_response'', (''Improve server response time'',
        ''Profile the slow endpoint, enable caching or a CDN, and reduce server work until HTML responds well under 1.2 seconds.'')),
      (''performance.heavy_page'', (''Reduce page weight'',
        ''Compress and lazy-load images, remove unused scripts and defer non-critical assets to bring the document under 1.5 MB.'')),
      (''analytics.tracking_missing'', (''Install site-wide analytics'',
        ''Deploy GA4, ideally via Google Tag Manager, across every template and verify events in DebugView before relying on the data.'')),
      (''analytics.tracking_partial'', (''Complete the analytics rollout'',
        ''Add the existing analytics container to every template that lacks it so measurement covers the whole site consistently.'')),
      (''geo_aeo.structured_data_missing'', (''Roll out structured data'',
        ''Implement JSON-LD appropriate to each template (Organization, WebSite, breadcrumbs, content types) and validate with the Rich Results test.'')),
      (''geo_aeo.organization_schema_missing'', (''Publish Organization schema'',
        ''Add a site-wide Organization or LocalBusiness JSON-LD block with legal name, logo, and sameAs links to verified profiles.'')),
      (''geo_aeo.html_lang_missing'', (''Declare the document language'',
        ''Set the html lang attribute (for example lang=\"en-AU\") in the base template of every page.'')),
      (''keyword_architecture.title_cannibalization'', (''Resolve title cannibalisation'',
        ''Assign each competing page a distinct primary keyword and rewrite its title, or consolidate overlapping pages into one authoritative URL.'')),
      (''keyword_architecture.generic_title'', (''Replace the generic title'',
        ''Write a title that leads with the page's primary topic and ends with the brand, instead of the brand name alone.'')),
      (''ecommerce.product_schema_missing'', (''Add Product structured data'',
        ''Emit Product JSON-LD with name, image, price, availability and review fields on every product template, then validate a sample.'')),
      (''local.localbusiness_schema_missing'', (''Publish LocalBusiness schema'',
        ''Add LocalBusiness JSON-LD with NAP details, geo coordinates and opening hours that match the Google Business Profile exactly.''))] c)"

definition segments_of :: "string \<Rightarrow> string list" where
  "segments_of path = filter (\<lambda>segment. segment \<noteq> []) (split_on CHR ''/'' path)"

definition url_depth :: "string \<Rightarrow> exn + nat" where
  "url_depth url = mapR (\<lambda>u. length (segments_of (u_path u))) (urlsplit url)"

subsection \<open>Rows\<close>

datatype availability_status = Avail_pending | Avail_available | Avail_unavailable | Avail_error

record source_row =
  so_id :: uid
  so_run :: uid
  so_type :: string
  so_availability :: availability_status
  so_unavailable_reason :: string
  so_record_count :: nat
  so_captured_at :: moment
  so_locale :: string
  so_scope :: string
  so_rule_version :: string
  so_confidence :: rat
  so_metadata :: "(string \<times> json) list"

record page_row =
  pa_id :: uid
  pa_run :: uid
  pa_source :: uid
  pa_original_url :: string
  pa_normalized_url :: string
  pa_domain :: string
  pa_approved_domain :: bool
  pa_status_code :: int
  pa_content_type :: string
  pa_canonical_url :: string
  pa_redirect_target :: string
  pa_indexable :: "bool option"
  pa_title :: string
  pa_meta_description :: string
  pa_h1 :: string
  pa_sha256 :: string
  pa_response_ms :: "nat option"
  pa_captured_at :: moment
  pa_locale :: string
  pa_scope :: string
  pa_rule_version :: string
  pa_confidence :: rat
  pa_facts :: json

record evidence_row =
  er_id :: uid
  er_run :: uid
  er_source :: uid
  er_page :: uid
  er_type :: string
  er_title :: string
  er_locator :: string
  er_sha256 :: string
  er_details :: json
  er_availability :: availability_status
  er_unavailable_reason :: string
  er_captured_at :: moment
  er_locale :: string
  er_scope :: string
  er_rule_version :: string
  er_confidence :: rat

record finding_row =
  fr_id :: uid
  fr_run :: uid
  fr_page :: "uid option"
  fr_category :: string
  fr_code :: string
  fr_title :: string
  fr_description :: string
  fr_severity :: severity
  fr_affected_count :: int
  fr_affected_share :: rat
  fr_score_penalty :: rat
  fr_confidence :: rat
  fr_rule_version :: string
  fr_evidence :: "uid list"

record recommendation_row =
  re_id :: uid
  re_finding :: uid
  re_title :: string
  re_rationale :: string
  re_implementation :: string
  re_impact :: int
  re_effort :: int
  re_risk :: risk_level

record action_row =
  act_id :: uid
  act_run :: uid
  act_recommendation :: "uid option"
  act_title :: string
  act_description :: string
  act_week :: nat
  act_owner_label :: string
  act_impact :: rat
  act_evidence_confidence :: rat
  act_reach :: rat
  act_business_criticality :: rat
  act_dependency_urgency :: rat
  act_effort :: rat
  act_priority_score :: int
  act_priority_tier :: string
  act_risk :: risk_level

record audit_tables =
  source_rows :: "source_row list"
  page_rows :: "page_row list"
  evidence_rows :: "evidence_row list"
  finding_rows :: "finding_row list"
  recommendation_rows :: "recommendation_row list"
  action_rows :: "action_row list"

type_synonym 'a audit = "(audit_tables, wf_error, 'a) action"

definition fits :: "(nat \<times> string) list \<Rightarrow> wf_error + unit" where
  "fits columns = raise_first (map (\<lambda>(n, v). (n < length v, DataError ''value too long for type character varying'')) columns)"

definition create_source :: "source_row \<Rightarrow> source_row audit" where
  "create_source r = bindA (pureA (fits [(60, so_type r), (35, so_locale r), (255, so_scope r), (80, so_rule_version r)]))
     (\<lambda>_. bindA (modifyA (\<lambda>t. t\<lparr>source_rows := source_rows t @ [r]\<rparr>)) (\<lambda>_. ret r))"

definition create_page :: "page_row \<Rightarrow> page_row audit" where
  "create_page r = bindA (pureA (fits [(2048, pa_original_url r), (2048, pa_normalized_url r), (253, pa_domain r),
       (120, pa_content_type r), (2048, pa_canonical_url r), (2048, pa_redirect_target r), (64, pa_sha256 r),
       (35, pa_locale r), (255, pa_scope r), (80, pa_rule_version r)])) (\<lambda>_.
     bindA (gets page_rows) (\<lambda>rows.
     if list_ex (\<lambda>q. pa_run q = pa_run r \<and> pa_normalized_url q = pa_normalized_url r) rows then raise IntegrityError
     else bindA (modifyA (\<lambda>t. t\<lparr>page_rows := page_rows t @ [r]\<rparr>)) (\<lambda>_. ret r)))"

definition create_evidence :: "evidence_row \<Rightarrow> evidence_row audit" where
  "create_evidence r = bindA (pureA (fits [(80, er_type r), (255, er_title r), (1024, er_locator r), (64, er_sha256 r),
       (35, er_locale r), (255, er_scope r), (80, er_rule_version r)])) (\<lambda>_.
     bindA (modifyA (\<lambda>t. t\<lparr>evidence_rows := evidence_rows t @ [r]\<rparr>)) (\<lambda>_. ret r))"

subsection \<open>Summaries of a crawl\<close>

definition opt_json :: "('a \<Rightarrow> json) \<Rightarrow> 'a option \<Rightarrow> json" where
  "opt_json f v = (case v of None \<Rightarrow> JNull | Some x \<Rightarrow> f x)"

abbreviation jnat :: "nat \<Rightarrow> json" where
  "jnat n \<equiv> JInt (int n)"

abbreviation jstrs :: "string list \<Rightarrow> json" where
  "jstrs xs \<equiv> JList (map JStr xs)"

definition failure_sample :: "crawl_failure \<Rightarrow> json" where
  "failure_sample f = JObj [(''url'', JStr (cf_url f)), (''code'', JStr (cf_code f)),
     (''message'', JStr (take 300 (cf_message f))), (''challenge'', JBool (cf_challenge f)),
     (''challenge_kind'', opt_json JStr (cf_challenge_kind f)), (''retry_after'', opt_json jnat (cf_retry_after f))]"

definition failure_digest :: "crawl_result \<Rightarrow> (string \<times> nat) list \<times> json list" where
  "failure_digest result =
     (foldl (\<lambda>codes f. AList.map_default (cf_code f) 1 (\<lambda>n. n + 1) codes) [] (cx_result_failures result),
      map failure_sample (take QUARANTINE_URL_CAP (cx_result_failures result)))"

record integrity_payload =
  ip_status :: string
  ip_fetched :: nat
  ip_challenged :: nat
  ip_share :: rat
  ip_rate_limited :: nat
  ip_quarantined :: "string list"
  ip_note :: string

definition crawl_integrity_payload :: "nat \<Rightarrow> nat \<Rightarrow> nat \<Rightarrow> string list \<Rightarrow> integrity_payload" where
  "crawl_integrity_payload fetched challenged throttled quarantined =
     (let total = fetched + challenged;
          share = (if total \<noteq> 0 then pyround (fdiv (of_nat challenged) (of_nat total)) 4 else 0);
          (status, note) =
            (if fl (30 / 100) < share
             then (''blocked'', ''Bot protection answered most requests, so this audit covers only a minority of the site. Allow-list the audit crawler and re-run for full coverage.'')
             else if fl (5 / 100) < share
             then (''degraded'', ''Some URLs returned bot-challenge or rate-limit responses and were quarantined; they produced no findings.'')
             else (''clean'', ''The crawl completed without material bot-protection interference.''))
      in \<lparr>ip_status = status, ip_fetched = fetched, ip_challenged = challenged, ip_share = share,
          ip_rate_limited = throttled, ip_quarantined = take QUARANTINE_URL_CAP quarantined, ip_note = note\<rparr>)"

definition integrity_json :: "integrity_payload \<Rightarrow> json" where
  "integrity_json p = JObj [(''status'', JStr (ip_status p)), (''fetched_pages'', jnat (ip_fetched p)),
     (''challenged_pages'', jnat (ip_challenged p)), (''challenge_share'', JNum (ip_share p)),
     (''rate_limited_pages'', jnat (ip_rate_limited p)), (''quarantined_urls'', jstrs (ip_quarantined p)),
     (''note'', JStr (ip_note p))]"

subsection \<open>Keeping the pages of a crawl\<close>

record collected =
  co_seen :: "string list"
  co_quarantined :: "string list"
  co_evidence :: "evidence_row list"
  co_engine :: "page_snapshot list"

definition item_host :: "crawled_page \<Rightarrow> exn + string" where
  "item_host item = mapR (\<lambda>u. rstrip_of (\<lambda>c. c = CHR ''.'') (casefold (opt_or [] (hostname u)))) (urlsplit (cp_final_url item))"

definition allowed_hosts :: "project \<Rightarrow> string list" where
  "allowed_hosts p = map (\<lambda>v. rstrip_of (\<lambda>c. c = CHR ''.'') (casefold v)) (approved_domains p)"

definition on_approved :: "string list \<Rightarrow> string \<Rightarrow> bool" where
  "on_approved domains host \<longleftrightarrow> list_ex (\<lambda>v. host = v \<or> suffix (CHR ''.'' # v) host) domains"

definition quarantine_reason :: "crawled_page \<Rightarrow> string" where
  "quarantine_reason item = ''The origin returned a '' @ (if falsy (cp_challenge_kind item) then ''bot challenge'' else the (cp_challenge_kind item))
     @ '' response (HTTP '' @ str_of_int (cp_status_code item) @ ''); the page content was never delivered to the crawler.''"

record attempt =
  at_fresh :: "string \<Rightarrow> nat \<Rightarrow> uid"
  at_run :: audit_run
  at_project :: project
  at_captured :: moment

definition quarantine_page :: "attempt \<Rightarrow> uid \<Rightarrow> nat \<Rightarrow> string \<Rightarrow> nat \<Rightarrow> crawled_page \<Rightarrow> page_row" where
  "quarantine_page a source n host depth item =
     \<lparr>pa_id = at_fresh a ''page'' n, pa_run = run_id (at_run a), pa_source = source,
      pa_original_url = cp_requested_url item, pa_normalized_url = cp_final_url item, pa_domain = host,
      pa_approved_domain = True, pa_status_code = cp_status_code item,
      pa_content_type = opt_or [] (cp_content_type item), pa_canonical_url = [], pa_redirect_target = [],
      pa_indexable = None, pa_title = [], pa_meta_description = [], pa_h1 = [], pa_sha256 = cp_body_sha256 item,
      pa_response_ms = cp_response_ms item, pa_captured_at = at_captured a,
      pa_locale = project_locale (at_project a), pa_scope = ''quarantined: bot challenge'',
      pa_rule_version = RULESET_VERSION, pa_confidence = 0,
      pa_facts = JObj [(''challenge'', JBool True), (''challenge_kind'', opt_json JStr (cp_challenge_kind item)),
        (''retry_after'', opt_json jnat (cp_retry_after item)), (''availability'', JStr ''unavailable''),
        (''unavailable_reason'', JStr (quarantine_reason item)), (''url_depth'', jnat depth)]\<rparr>"

definition quarantine_evidence :: "attempt \<Rightarrow> uid \<Rightarrow> nat \<Rightarrow> page_row \<Rightarrow> crawled_page \<Rightarrow> evidence_row" where
  "quarantine_evidence a source n page item =
     \<lparr>er_id = at_fresh a ''evidence'' n, er_run = run_id (at_run a), er_source = source, er_page = pa_id page,
      er_type = ''website_crawl_challenge'', er_title = ''Quarantined challenge response: '' @ cp_final_url item,
      er_locator = cp_final_url item, er_sha256 = cp_body_sha256 item,
      er_details = JObj [(''status_code'', JInt (cp_status_code item)),
        (''challenge_kind'', opt_json JStr (cp_challenge_kind item)), (''retry_after'', opt_json jnat (cp_retry_after item))],
      er_availability = Avail_unavailable, er_unavailable_reason = quarantine_reason item,
      er_captured_at = at_captured a, er_locale = project_locale (at_project a), er_scope = ''single URL'',
      er_rule_version = RULESET_VERSION, er_confidence = 0\<rparr>"

definition crawl_page :: "attempt \<Rightarrow> uid \<Rightarrow> nat \<Rightarrow> string \<Rightarrow> nat \<Rightarrow> crawled_page \<Rightarrow> page_row" where
  "crawl_page a source n host depth item =
     \<lparr>pa_id = at_fresh a ''page'' n, pa_run = run_id (at_run a), pa_source = source,
      pa_original_url = cp_requested_url item, pa_normalized_url = cp_final_url item, pa_domain = host,
      pa_approved_domain = True, pa_status_code = cp_status_code item,
      pa_content_type = opt_or [] (cp_content_type item), pa_canonical_url = opt_or [] (cp_canonical_url item),
      pa_redirect_target = (if 1 < length (cp_redirect_chain item) then last (cp_redirect_chain item) else []),
      pa_indexable = Some (set (cp_robots_directives item) \<inter> {''noindex'', ''none''} = {}),
      pa_title = opt_or [] (cp_title item), pa_meta_description = opt_or [] (cp_meta_description item),
      pa_h1 = join '' | '' (cp_h1 item), pa_sha256 = cp_body_sha256 item, pa_response_ms = cp_response_ms item,
      pa_captured_at = at_captured a, pa_locale = project_locale (at_project a), pa_scope = ''approved-domain crawl'',
      pa_rule_version = RULESET_VERSION, pa_confidence = 1,
      pa_facts = JObj [(''h1_values'', jstrs (cp_h1 item)), (''robots_directives'', jstrs (cp_robots_directives item)),
        (''links'', jstrs (cp_links item)), (''external_links'', jstrs (cp_external_links item)),
        (''word_count'', jnat (opt_or 0 (cp_word_count item))), (''body_bytes'', jnat (cp_body_bytes item)),
        (''response_ms'', opt_json jnat (cp_response_ms item)), (''images_total'', jnat (cp_images_total item)),
        (''images_missing_alt'', jnat (cp_images_missing_alt item)), (''schema_types'', jstrs (cp_schema_types item)),
        (''h2_values'', jstrs (cp_h2 item)), (''og_title'', JBool (cp_og_title item)),
        (''og_description'', JBool (cp_og_description item)), (''lang'', opt_json JStr (cp_lang item)),
        (''viewport'', JBool (cp_viewport item)), (''hreflang_count'', jnat (cp_hreflang_count item)),
        (''analytics_tags'', jstrs (cp_analytics_tags item)), (''url_depth'', jnat depth)]\<rparr>"

definition crawl_evidence :: "attempt \<Rightarrow> uid \<Rightarrow> nat \<Rightarrow> page_row \<Rightarrow> crawled_page \<Rightarrow> evidence_row" where
  "crawl_evidence a source n page item =
     \<lparr>er_id = at_fresh a ''evidence'' n, er_run = run_id (at_run a), er_source = source, er_page = pa_id page,
      er_type = ''website_crawl_page'', er_title = ''Crawl observation: '' @ cp_final_url item,
      er_locator = cp_final_url item, er_sha256 = cp_body_sha256 item,
      er_details = JObj [(''status_code'', JInt (cp_status_code item)), (''title'', opt_json JStr (cp_title item))],
      er_availability = Avail_available, er_unavailable_reason = [],
      er_captured_at = at_captured a, er_locale = project_locale (at_project a), er_scope = ''single URL'',
      er_rule_version = RULESET_VERSION, er_confidence = 1\<rparr>"

definition engine_page :: "attempt \<Rightarrow> page_row \<Rightarrow> evidence_row \<Rightarrow> nat \<Rightarrow> crawled_page \<Rightarrow> page_snapshot" where
  "engine_page a page ev depth item =
     \<lparr>pg_id = pa_id page, pg_project_id = run_project (at_run a), pg_original_url = cp_requested_url item,
      pg_normalized_url = cp_final_url item, pg_status_code = Some (cp_status_code item),
      pg_captured_at = Aware (at_captured a), pg_evidence_id = er_id ev, pg_title = cp_title item,
      pg_meta_description = cp_meta_description item, pg_h1 = cp_h1 item, pg_canonical_url = cp_canonical_url item,
      pg_robots_directives = cp_robots_directives item, pg_content_type = cp_content_type item,
      pg_body_sha256 = Some (cp_body_sha256 item), pg_links = cp_links item,
      pg_word_count = map_option int (cp_word_count item), pg_body_bytes = int (cp_body_bytes item),
      pg_response_ms = map_option int (cp_response_ms item), pg_images_total = int (cp_images_total item),
      pg_images_missing_alt = int (cp_images_missing_alt item), pg_schema_types = cp_schema_types item,
      pg_h2 = cp_h2 item, pg_external_links = cp_external_links item, pg_og_title = cp_og_title item,
      pg_og_description = cp_og_description item, pg_lang = cp_lang item, pg_viewport = cp_viewport item,
      pg_hreflang_count = int (cp_hreflang_count item), pg_analytics_tags = cp_analytics_tags item,
      pg_url_depth = int depth, pg_redirect_chain = cp_redirect_chain item\<rparr>"

definition lib :: "exn + 'a \<Rightarrow> wf_error + 'a" where
  "lib r = (case r of Inl e \<Rightarrow> Inl (Library_error e) | Inr x \<Rightarrow> Inr x)"

text \<open>The two loops of \<open>_collect\<close>. The position of a page among the pages written is the size of \<open>seen\<close>.\<close>

definition quarantine_item :: "attempt \<Rightarrow> uid \<Rightarrow> collected \<Rightarrow> crawled_page \<Rightarrow> collected audit" where
  "quarantine_item a source c item =
     bindA (pureA (lib (item_host item))) (\<lambda>host.
     if cp_final_url item \<in> set (co_seen c) \<or> \<not> on_approved (allowed_hosts (at_project a)) host then ret c
     else bindA (pureA (lib (url_depth (cp_final_url item)))) (\<lambda>depth.
       let n = length (co_seen c) in
       bindA (create_page (quarantine_page a source n host depth item)) (\<lambda>page.
       bindA (create_evidence (quarantine_evidence a source n page item)) (\<lambda>_.
       ret (c\<lparr>co_seen := cp_final_url item # co_seen c,
              co_quarantined := co_quarantined c @ [cp_final_url item]\<rparr>)))))"

definition keep_item :: "attempt \<Rightarrow> uid \<Rightarrow> collected \<Rightarrow> crawled_page \<Rightarrow> collected audit" where
  "keep_item a source c item =
     bindA (pureA (lib (item_host item))) (\<lambda>host.
     if cp_final_url item \<in> set (co_seen c) \<or> \<not> on_approved (allowed_hosts (at_project a)) host then ret c
     else bindA (pureA (lib (url_depth (cp_final_url item)))) (\<lambda>depth.
       let n = length (co_seen c) in
       bindA (create_page (crawl_page a source n host depth item)) (\<lambda>page.
       bindA (create_evidence (crawl_evidence a source n page item)) (\<lambda>ev.
       let engine = engine_page a page ev depth item in
       bindA (pureA (lib (check_page_snapshot engine))) (\<lambda>_.
       ret (c\<lparr>co_seen := cp_final_url item # co_seen c,
              co_evidence := co_evidence c @ [ev], co_engine := co_engine c @ [engine]\<rparr>))))))"

definition fetched_items :: "crawl_result \<Rightarrow> crawled_page list" where
  "fetched_items result = filter (\<lambda>i. \<not> cp_challenge i) (cx_result_pages result)"

definition challenged_items :: "crawl_result \<Rightarrow> crawled_page list" where
  "challenged_items result = filter cp_challenge (cx_result_pages result)"

definition crawl_source :: "attempt \<Rightarrow> crawl_result \<Rightarrow> source_row" where
  "crawl_source a result =
     (let fetched = fetched_items result; (codes, samples) = failure_digest result
      in \<lparr>so_id = at_fresh a ''source'' 0, so_run = run_id (at_run a), so_type = ''crawl'',
          so_availability = (if fetched \<noteq> [] then Avail_available else Avail_unavailable),
          so_unavailable_reason = (if fetched \<noteq> [] then [] else ''No approved-domain page was collected.''),
          so_record_count = length fetched, so_captured_at = at_captured a, so_locale = project_locale (at_project a),
          so_scope = str_of_nat (length fetched) @ '' fetched; '' @ str_of_nat (cx_discovered_count result) @
            '' discovered; '' @ cx_stopped_reason result,
          so_rule_version = RULESET_VERSION, so_confidence = (if fetched \<noteq> [] then 1 else 0),
          so_metadata = [(''failure_count'', jnat (length (cx_result_failures result))),
            (''stopped_reason'', JStr (cx_stopped_reason result)), (''discovered_count'', jnat (cx_discovered_count result)),
            (''failure_codes'', JObj (map (\<lambda>(c, n). (c, jnat n)) codes)), (''failures'', JList samples),
            (''challenged_count'', jnat (length (challenged_items result))),
            (''rate_limited_count'', jnat (cx_rate_limited_count result))]\<rparr>)"

definition save_source :: "source_row \<Rightarrow> unit audit" where
  "save_source r = modifyA (\<lambda>t. t\<lparr>source_rows := save_row so_id r (source_rows t)\<rparr>)"

definition collect :: "attempt \<Rightarrow> crawl_result \<Rightarrow> (page_snapshot list \<times> evidence_row list \<times> integrity_payload) audit" where
  "collect a result =
     bindA (create_source (crawl_source a result)) (\<lambda>source.
     bindA (foldA (quarantine_item a (so_id source)) \<lparr>co_seen = [], co_quarantined = [], co_evidence = [], co_engine = []\<rparr>
              (challenged_items result)) (\<lambda>c1.
     bindA (foldA (keep_item a (so_id source)) c1 (fetched_items result)) (\<lambda>c.
     let integrity = crawl_integrity_payload (length (co_engine c)) (length (co_quarantined c))
           (cx_rate_limited_count result) (co_quarantined c) in
     bindA (save_source (source\<lparr>so_metadata :=
         AList.update ''crawl_integrity'' (integrity_json integrity) (so_metadata source)\<rparr>)) (\<lambda>_.
     ret (co_engine c, co_evidence c, integrity)))))"

subsection \<open>Findings, recommendations and actions\<close>

definition create_finding :: "finding_row \<Rightarrow> finding_row audit" where
  "create_finding r = bindA (pureA (fits [(60, fr_category r), (120, fr_code r), (255, fr_title r), (80, fr_rule_version r)]))
     (\<lambda>_. bindA (modifyA (\<lambda>t. t\<lparr>finding_rows := finding_rows t @ [r]\<rparr>)) (\<lambda>_. ret r))"

definition create_recommendation :: "recommendation_row \<Rightarrow> recommendation_row audit" where
  "create_recommendation r = bindA (pureA (fits [(255, re_title r)]))
     (\<lambda>_. bindA (modifyA (\<lambda>t. t\<lparr>recommendation_rows := recommendation_rows t @ [r]\<rparr>)) (\<lambda>_. ret r))"

definition create_action :: "action_row \<Rightarrow> action_row audit" where
  "create_action r = bindA (pureA (fits [(500, act_title r), (120, act_owner_label r)]))
     (\<lambda>_. bindA (modifyA (\<lambda>t. t\<lparr>action_rows := action_rows t @ [r]\<rparr>)) (\<lambda>_. ret r))"

fun risk_level_of :: "risk_class \<Rightarrow> risk_level" where
  "risk_level_of Risk_low = Risk_class_low"
| "risk_level_of Risk_moderate = Risk_class_medium"
| "risk_level_of Risk_high = Risk_class_high"
| "risk_level_of Risk_dangerous = Risk_class_dangerous"

definition rules_context :: "attempt \<Rightarrow> page_snapshot list \<Rightarrow> integrity_payload \<Rightarrow> audit_context" where
  "rules_context a pages integrity =
     \<lparr>cx_project_id = run_project (at_run a), cx_pages = pages,
      cx_allowed_domains = approved_domains (at_project a),
      cx_business_profile = business_profile_of (business_type (at_project a)),
      cx_challenged_urls = ip_quarantined integrity,
      cx_crawl_integrity = Some \<lparr>ci_fetched_pages = int (ip_fetched integrity),
        ci_challenged_pages = int (ip_challenged integrity), ci_rate_limited_pages = int (ip_rate_limited integrity),
        ci_quarantined_urls = ip_quarantined integrity, ci_note = ip_note integrity\<rparr>\<rparr>"

text \<open>The finding of one rule, from the group of its engine findings.\<close>

definition lead_of :: "finding list \<Rightarrow> finding" where
  "lead_of gs = min_by (\<lambda>f. SEVERITY_RANK (fd_severity f)) (hd gs) (tl gs)"

definition group_urls :: "finding list \<Rightarrow> string list" where
  "group_urls gs = fromkeys (concat (map fd_affected_urls gs))"

definition group_share :: "finding list \<Rightarrow> rat" where
  "group_share gs = min 1 (fsum (map fd_affected_share gs))"

definition group_confidence :: "finding list \<Rightarrow> rat" where
  "group_confidence gs = fd_confidence (min_by fd_confidence (hd gs) (tl gs))"

definition group_evidence :: "finding list \<Rightarrow> string list" where
  "group_evidence gs = take FINDING_EVIDENCE_CAP (fromkeys (concat (map fd_evidence_ids gs)))"

definition affected_count_of :: "nat \<Rightarrow> finding list \<Rightarrow> int" where
  "affected_count_of total_pages gs =
     max (max 1 (int (length (group_urls gs)))) (rhe (fmul (group_share gs) (of_nat total_pages)))"

definition group_description :: "nat \<Rightarrow> finding list \<Rightarrow> string" where
  "group_description total_pages gs = fd_description (lead_of gs) @
     (if 1 < length gs then '' Observed on '' @ str_of_int (affected_count_of total_pages gs) @ '' crawled pages.'' else [])"

definition priority_of :: "rat \<Rightarrow> rat \<Rightarrow> rat \<Rightarrow> int" where
  "priority_of impact confidence share =
     min 100 (rhe (fadd (fadd (fadd (fmul impact (fl (42 / 100))) (fmul confidence 23)) (fmul share 15)) 12))"

definition tier_of :: "int \<Rightarrow> string" where
  "tier_of score = (if 75 \<le> score then ''P1'' else if 55 \<le> score then ''P2'' else if 35 \<le> score then ''P3'' else ''P4'')"

definition schedule :: "severity \<Rightarrow> nat \<times> nat \<Rightarrow> nat \<times> (nat \<times> nat)" where
  "schedule sev indices = (case indices of (medium_index, low_index) \<Rightarrow>
     if sev = Sev_critical \<or> sev = Sev_high then (1, indices)
     else if sev = Sev_medium then (2 + medium_index mod 3, (medium_index + 1, low_index))
     else (5 + low_index mod 4, (medium_index, low_index + 1)))"

definition finding_of :: "attempt \<Rightarrow> (string \<rightharpoonup> uid) \<Rightarrow> uid list \<Rightarrow> nat \<Rightarrow> nat \<Rightarrow> string \<Rightarrow> finding list \<Rightarrow> finding_row" where
  "finding_of a page_map evidence_ids total_pages n rule_id gs =
     \<lparr>fr_id = at_fresh a ''finding'' n, fr_run = run_id (at_run a),
      fr_page = (case group_urls gs of [] \<Rightarrow> None | u # _ \<Rightarrow> page_map u),
      fr_category = fd_category (lead_of gs), fr_code = rule_id, fr_title = fd_title (lead_of gs),
      fr_description = group_description total_pages gs, fr_severity = fd_severity (lead_of gs),
      fr_affected_count = affected_count_of total_pages gs,
      fr_affected_share = decimal_of 4 (group_share gs), fr_score_penalty = PENALTY (fd_severity (lead_of gs)),
      fr_confidence = decimal_of 4 (group_confidence gs), fr_rule_version = fd_rule_version (lead_of gs),
      fr_evidence = []\<rparr>"

definition recommendation_of :: "attempt \<Rightarrow> nat \<Rightarrow> finding_row \<Rightarrow> risk_class \<Rightarrow> recommendation_row" where
  "recommendation_of a n f risk =
     (let (title, implementation) = advice (fr_code f); impact = IMPACT (fr_severity f)
      in \<lparr>re_id = at_fresh a ''recommendation'' n, re_finding = fr_id f, re_title = title,
          re_rationale = fr_description f, re_implementation = implementation,
          re_impact = max 1 (min 5 (rhe (fdiv impact 20))), re_effort = (if 60 \<le> impact then 2 else 1),
          re_risk = risk_level_of risk\<rparr>)"

definition action_of :: "attempt \<Rightarrow> nat \<Rightarrow> severity \<Rightarrow> nat \<Rightarrow> finding list \<Rightarrow> recommendation_row \<Rightarrow> action_row" where
  "action_of a n sev week gs r =
     (let impact = IMPACT sev; confidence = group_confidence gs; share = group_share gs;
          score = priority_of impact confidence share
      in \<lparr>act_id = at_fresh a ''action'' n, act_run = run_id (at_run a), act_recommendation = Some (re_id r),
          act_title = re_title r, act_description = re_implementation r, act_week = week,
          act_owner_label = ''SEO / web team'', act_impact = impact,
          act_evidence_confidence = decimal_of 2 (fmul confidence 100), act_reach = decimal_of 2 (fmul share 100),
          act_business_criticality = impact, act_dependency_urgency = (if 80 \<le> impact then 70 else 40),
          act_effort = (if 60 \<le> impact then 40 else 20), act_priority_score = score, act_priority_tier = tier_of score,
          act_risk = re_risk r\<rparr>)"

definition link_evidence :: "finding_row \<Rightarrow> uid list \<Rightarrow> unit audit" where
  "link_evidence f es = modifyA (\<lambda>t. t\<lparr>finding_rows := save_row fr_id (f\<lparr>fr_evidence := es\<rparr>) (finding_rows t)\<rparr>)"

definition report_group :: "attempt \<Rightarrow> (string \<rightharpoonup> uid) \<Rightarrow> uid list \<Rightarrow> nat \<Rightarrow> nat \<times> (nat \<times> nat) \<Rightarrow> string \<times> finding list \<Rightarrow>
    (nat \<times> (nat \<times> nat)) audit" where
  "report_group a page_map evidence_ids total_pages st entry =
     (case st of (n, indices) \<Rightarrow> case entry of (rule_id, gs) \<Rightarrow>
       bindA (create_finding (finding_of a page_map evidence_ids total_pages n rule_id gs)) (\<lambda>f.
       bindA (link_evidence f (filter (\<lambda>e. e \<in> set evidence_ids) (group_evidence gs))) (\<lambda>_.
       bindA (create_recommendation (recommendation_of a n f (fd_risk (lead_of gs)))) (\<lambda>r.
       let (week, indices') = schedule (fr_severity f) indices in
       bindA (create_action (action_of a n (fr_severity f) week gs r)) (\<lambda>_.
       ret (n + 1, indices'))))))"

definition page_index :: "uid \<Rightarrow> page_row list \<Rightarrow> string \<rightharpoonup> uid" where
  "page_index rid rows = map_of (rev (map (\<lambda>p. (pa_normalized_url p, pa_id p)) (filter (\<lambda>p. pa_run p = rid) rows)))"

definition sorted_groups :: "finding list \<Rightarrow> (string \<times> finding list) list" where
  "sorted_groups fs = (let groups = group_by fd_rule_id fs in map (\<lambda>k. (k, the (map_of groups k))) (sort (map fst groups)))"

definition create_findings :: "attempt \<Rightarrow> page_snapshot list \<Rightarrow> evidence_row list \<Rightarrow> integrity_payload \<Rightarrow> finding list audit" where
  "create_findings a pages evidence integrity =
     bindA (pureA (lib (run_rules (at_fresh a ''engine'') (rules_context a pages integrity) DEFAULT_RULES))) (\<lambda>engine.
     bindA (gets page_rows) (\<lambda>rows.
     bindA (foldA (report_group a (page_index (run_id (at_run a)) rows) (map er_id evidence) (max 1 (length pages)))
              (0, (0, 0)) (sorted_groups engine)) (\<lambda>_.
     ret engine)))"

end
