(* ===== verification/Audit_Evidence.thy ===== *)
theory Audit_Evidence
  imports Audit_Rows
begin

text \<open>
  What \<open>_collect\<close> and \<open>_create_findings\<close> leave in the tables: the pages kept are the approved, unchallenged ones,
  each once and each with one evidence row; a retry over cleared tables meets no duplicate; a page with a long
  address cannot be stored; every rule that fired has one finding, one recommendation and one action, and the
  finding is linked to evidence of this crawl.
\<close>

subsection \<open>Single statements\<close>

lemma fits_Inr_iff: "fits cs = Inr u \<longleftrightarrow> (\<forall>(n, v) \<in> set cs. length v \<le> n)"
  by (auto simp: fits_def raise_first_Inr_iff not_less)

lemma fits_Inl: "fits cs = Inl e \<Longrightarrow> \<exists>m. e = DataError m"
  unfolding fits_def by (induction cs) (auto split: if_splits)

lemma lib_Inr_iff [simp]: "lib r = Inr x \<longleftrightarrow> r = Inr x"
  by (cases r) (simp_all add: lib_def)

lemma lib_Inl: "lib r = Inl e \<Longrightarrow> \<exists>x. e = Library_error x \<and> r = Inl x"
  by (cases r) (simp_all add: lib_def)

definition repeats :: "page_row list \<Rightarrow> uid \<Rightarrow> string \<Rightarrow> bool" where
  "repeats rows rid url \<longleftrightarrow> list_ex (\<lambda>q. pa_run q = rid \<and> pa_normalized_url q = url) rows"

lemma create_page_Inr:
  "create_page r t = (Inr q, t') \<longleftrightarrow> q = r \<and> t' = t\<lparr>page_rows := page_rows t @ [r]\<rparr> \<and>
     \<not> repeats (page_rows t) (pa_run r) (pa_normalized_url r) \<and>
     fits [(2048, pa_original_url r), (2048, pa_normalized_url r), (253, pa_domain r),
       (120, pa_content_type r), (2048, pa_canonical_url r), (2048, pa_redirect_target r), (64, pa_sha256 r),
       (35, pa_locale r), (255, pa_scope r), (80, pa_rule_version r)] = Inr ()"
  by (auto simp: create_page_def action_cases repeats_def)

lemma create_page_Inl:
  "create_page r t = (Inl e, t') \<Longrightarrow>
     (\<exists>m. e = DataError m) \<or> e = IntegrityError \<and> repeats (page_rows t) (pa_run r) (pa_normalized_url r)"
  by (auto simp: create_page_def action_cases repeats_def split: if_splits dest!: fits_Inl)

lemma create_evidence_Inr:
  "create_evidence r t = (Inr q, t') \<longleftrightarrow> q = r \<and> t' = t\<lparr>evidence_rows := evidence_rows t @ [r]\<rparr> \<and>
     fits [(80, er_type r), (255, er_title r), (1024, er_locator r), (64, er_sha256 r),
       (35, er_locale r), (255, er_scope r), (80, er_rule_version r)] = Inr ()"
  by (auto simp: create_evidence_def action_cases)

lemma create_evidence_Inl: "create_evidence r t = (Inl e, t') \<Longrightarrow> \<exists>m. e = DataError m"
  by (auto simp: create_evidence_def action_cases dest!: fits_Inl)

subsection \<open>One page\<close>

definition approved_item :: "attempt \<Rightarrow> crawled_page \<Rightarrow> bool" where
  "approved_item a item \<longleftrightarrow> (\<exists>host. item_host item = Inr host \<and> on_approved (allowed_hosts (at_project a)) host)"

lemma keep_item_Inr:
  assumes "keep_item a src c item t = (Inr c', t')"
  shows "(cp_final_url item \<notin> set (co_seen c) \<longrightarrow> \<not> approved_item a item) \<and> c' = c \<and> t' = t \<or>
    cp_final_url item \<notin> set (co_seen c) \<and> approved_item a item \<and> length (cp_final_url item) \<le> 236 \<and>
    (\<exists>host depth. let n = length (co_seen c); page = crawl_page a src n host depth item;
         ev = crawl_evidence a src n page item; engine = engine_page a page ev depth item in
       check_page_snapshot engine = Inr () \<and>
       t' = t\<lparr>page_rows := page_rows t @ [page], evidence_rows := evidence_rows t @ [ev]\<rparr> \<and>
       c' = c\<lparr>co_seen := cp_final_url item # co_seen c, co_evidence := co_evidence c @ [ev],
              co_engine := co_engine c @ [engine]\<rparr>)"
proof -
  from assms obtain host where host: "item_host item = Inr host"
    by (auto simp: keep_item_def action_cases)
  show ?thesis
  proof (cases "cp_final_url item \<in> set (co_seen c) \<or> \<not> on_approved (allowed_hosts (at_project a)) host")
    case True
    with assms host show ?thesis by (auto simp: keep_item_def action_cases approved_item_def)
  next
    case False
    with assms host show ?thesis
      by (fastforce simp: keep_item_def action_cases approved_item_def Let_def create_page_Inr create_evidence_Inr
          fits_Inr_iff crawl_evidence_def)
  qed
qed

lemma quarantine_item_Inr:
  assumes "quarantine_item a src c item t = (Inr c', t')"
  shows "(cp_final_url item \<notin> set (co_seen c) \<longrightarrow> \<not> approved_item a item) \<and> c' = c \<and> t' = t \<or>
    cp_final_url item \<notin> set (co_seen c) \<and> approved_item a item \<and> length (cp_final_url item) \<le> 236 \<and>
    (\<exists>host depth. let n = length (co_seen c); page = quarantine_page a src n host depth item;
         ev = quarantine_evidence a src n page item in
       t' = t\<lparr>page_rows := page_rows t @ [page], evidence_rows := evidence_rows t @ [ev]\<rparr> \<and>
       c' = c\<lparr>co_seen := cp_final_url item # co_seen c, co_quarantined := co_quarantined c @ [cp_final_url item]\<rparr>)"
proof -
  from assms obtain host where host: "item_host item = Inr host"
    by (auto simp: quarantine_item_def action_cases)
  show ?thesis
  proof (cases "cp_final_url item \<in> set (co_seen c) \<or> \<not> on_approved (allowed_hosts (at_project a)) host")
    case True
    with assms host show ?thesis by (auto simp: quarantine_item_def action_cases approved_item_def)
  next
    case False
    with assms host show ?thesis
      by (fastforce simp: quarantine_item_def action_cases approved_item_def Let_def create_page_Inr create_evidence_Inr
          fits_Inr_iff quarantine_evidence_def)
  qed
qed

lemma item_raises:
  "keep_item a src c item t = (Inl e, t') \<Longrightarrow> (\<exists>m. e = DataError m) \<or> (\<exists>x. e = Library_error x) \<or>
     e = IntegrityError \<and> cp_final_url item \<notin> set (co_seen c) \<and> repeats (page_rows t) (run_id (at_run a)) (cp_final_url item)"
  "quarantine_item a src c item t = (Inl e, t') \<Longrightarrow> (\<exists>m. e = DataError m) \<or> (\<exists>x. e = Library_error x) \<or>
     e = IntegrityError \<and> cp_final_url item \<notin> set (co_seen c) \<and> repeats (page_rows t) (run_id (at_run a)) (cp_final_url item)"
  unfolding keep_item_def quarantine_item_def
  by (auto simp: action_cases Let_def crawl_page_def quarantine_page_def split: if_splits
      dest!: lib_Inl create_page_Inl create_evidence_Inl)

subsection \<open>The loops\<close>

text \<open>
  The state of the loops after the challenged items \<open>qs\<close> and the fetched items \<open>fs\<close>, over tables that were \<open>t0\<close>
  when they began: \<open>qr\<close> and \<open>kr\<close> are the quarantined and the kept page rows, \<open>qe\<close> the evidence of the former.
\<close>

definition approved_urls :: "attempt \<Rightarrow> crawled_page list \<Rightarrow> string set" where
  "approved_urls a items = cp_final_url ` {i \<in> set items. approved_item a i}"

definition kept :: "attempt \<Rightarrow> audit_tables \<Rightarrow> crawled_page list \<Rightarrow> crawled_page list \<Rightarrow> page_row list \<Rightarrow> page_row list \<Rightarrow>
    evidence_row list \<Rightarrow> collected \<Rightarrow> audit_tables \<Rightarrow> bool" where
  "kept a t0 qs fs qr kr qe c t \<longleftrightarrow>
     page_rows t = page_rows t0 @ qr @ kr \<and> evidence_rows t = evidence_rows t0 @ qe @ co_evidence c \<and>
     finding_rows t = finding_rows t0 \<and> recommendation_rows t = recommendation_rows t0 \<and> action_rows t = action_rows t0 \<and>
     (\<forall>p \<in> set (qr @ kr). pa_run p = run_id (at_run a)) \<and> map pa_normalized_url qr = co_quarantined c \<and>
     map pa_normalized_url kr = map pg_normalized_url (co_engine c) \<and> map pa_id kr = map pg_id (co_engine c) \<and>
     map er_page qe = map pa_id qr \<and> map er_page (co_evidence c) = map pa_id kr \<and>
     map er_id (co_evidence c) = map pg_evidence_id (co_engine c) \<and>
     (\<forall>e \<in> set (co_evidence c). er_availability e = Avail_available) \<and>
     set (co_seen c) = set (co_quarantined c) \<union> set (map pg_normalized_url (co_engine c)) \<and>
     distinct (co_quarantined c @ map pg_normalized_url (co_engine c)) \<and>
     (\<forall>u \<in> set (co_seen c). length u \<le> 236) \<and> (\<forall>e \<in> set (co_engine c). check_page_snapshot e = Inr ()) \<and>
     set (co_quarantined c) = approved_urls a qs \<and>
     set (map pg_normalized_url (co_engine c)) = approved_urls a fs - set (co_quarantined c)"

lemma approved_urls_snoc:
  "approved_urls a (xs @ [x]) = approved_urls a xs \<union> (if approved_item a x then {cp_final_url x} else {})"
  by (auto simp: approved_urls_def)

lemma approved_urls_Nil [simp]: "approved_urls a [] = {}"
  by (simp add: approved_urls_def)

lemma crawl_page_simps [simp]:
  "pa_run (crawl_page a src n h d i) = run_id (at_run a)" "pa_normalized_url (crawl_page a src n h d i) = cp_final_url i"
  "pa_run (quarantine_page a src n h d i) = run_id (at_run a)"
  "pa_normalized_url (quarantine_page a src n h d i) = cp_final_url i"
  "er_page (crawl_evidence a src n p i) = pa_id p" "er_page (quarantine_evidence a src n p i) = pa_id p"
  "pg_normalized_url (engine_page a p e d i) = cp_final_url i" "pg_id (engine_page a p e d i) = pa_id p"
  "pg_evidence_id (engine_page a p e d i) = er_id e"
  "er_availability (crawl_evidence a src n p i) = Avail_available"
  by (simp_all add: crawl_page_def quarantine_page_def crawl_evidence_def quarantine_evidence_def engine_page_def)

lemma quarantine_step:
  assumes "kept a t0 qs [] qr [] qe c t" and "quarantine_item a src c item t = (Inr c', t')"
  shows "\<exists>qr' qe'. kept a t0 (qs @ [item]) [] qr' [] qe' c' t'"
  using quarantine_item_Inr [OF assms(2)]
proof (elim disjE conjE exE)
  assume "cp_final_url item \<notin> set (co_seen c) \<longrightarrow> \<not> approved_item a item" "c' = c" "t' = t"
  moreover from this(1) assms(1) have "approved_urls a (qs @ [item]) = approved_urls a qs"
    by (auto simp: kept_def approved_urls_snoc)
  ultimately have "kept a t0 (qs @ [item]) [] qr [] qe c' t'"
    using assms(1) by (simp add: kept_def)
  then show ?thesis by blast
next
  fix host depth
  assume new: "cp_final_url item \<notin> set (co_seen c)" "approved_item a item" "length (cp_final_url item) \<le> 236"
  let ?page = "quarantine_page a src (length (co_seen c)) host depth item"
  let ?ev = "quarantine_evidence a src (length (co_seen c)) ?page item"
  assume "let n = length (co_seen c); page = quarantine_page a src n host depth item;
         ev = quarantine_evidence a src n page item in
       t' = t\<lparr>page_rows := page_rows t @ [page], evidence_rows := evidence_rows t @ [ev]\<rparr> \<and>
       c' = c\<lparr>co_seen := cp_final_url item # co_seen c, co_quarantined := co_quarantined c @ [cp_final_url item]\<rparr>"
  then have step: "t' = t\<lparr>page_rows := page_rows t @ [?page], evidence_rows := evidence_rows t @ [?ev]\<rparr>"
    "c' = c\<lparr>co_seen := cp_final_url item # co_seen c, co_quarantined := co_quarantined c @ [cp_final_url item]\<rparr>"
    by (simp_all only: Let_def)
  have "kept a t0 (qs @ [item]) [] (qr @ [?page]) [] (qe @ [?ev]) c' t'"
    using assms(1) new by (simp add: kept_def step approved_urls_snoc)
  then show ?thesis by blast
qed

lemma keep_step:
  assumes "kept a t0 qs fs qr kr qe c t" and "keep_item a src c item t = (Inr c', t')"
  shows "\<exists>kr'. kept a t0 qs (fs @ [item]) qr kr' qe c' t'"
  using keep_item_Inr [OF assms(2)]
proof (elim disjE conjE exE)
  assume "cp_final_url item \<notin> set (co_seen c) \<longrightarrow> \<not> approved_item a item" "c' = c" "t' = t"
  moreover from this(1) assms(1)
  have "approved_urls a (fs @ [item]) - set (co_quarantined c) = approved_urls a fs - set (co_quarantined c)"
    unfolding kept_def approved_urls_snoc by (elim conjE) (simp, blast)
  ultimately have "kept a t0 qs (fs @ [item]) qr kr qe c' t'"
    using assms(1) by (simp add: kept_def)
  then show ?thesis by blast
next
  fix host depth
  assume new: "cp_final_url item \<notin> set (co_seen c)" "approved_item a item" "length (cp_final_url item) \<le> 236"
  let ?page = "crawl_page a src (length (co_seen c)) host depth item"
  let ?ev = "crawl_evidence a src (length (co_seen c)) ?page item"
  let ?engine = "engine_page a ?page ?ev depth item"
  assume "let n = length (co_seen c); page = crawl_page a src n host depth item;
         ev = crawl_evidence a src n page item; engine = engine_page a page ev depth item in
       check_page_snapshot engine = Inr () \<and>
       t' = t\<lparr>page_rows := page_rows t @ [page], evidence_rows := evidence_rows t @ [ev]\<rparr> \<and>
       c' = c\<lparr>co_seen := cp_final_url item # co_seen c, co_evidence := co_evidence c @ [ev],
              co_engine := co_engine c @ [engine]\<rparr>"
  then have step: "t' = t\<lparr>page_rows := page_rows t @ [?page], evidence_rows := evidence_rows t @ [?ev]\<rparr>"
    "c' = c\<lparr>co_seen := cp_final_url item # co_seen c, co_evidence := co_evidence c @ [?ev], co_engine := co_engine c @ [?engine]\<rparr>"
    and ok: "check_page_snapshot ?engine = Inr ()"
    by (simp_all only: Let_def)
  have "kept a t0 qs (fs @ [item]) qr (kr @ [?page]) qe c' t'"
    using assms(1) new ok by (simp add: kept_def step approved_urls_snoc insert_Diff_if)
  then show ?thesis by blast
qed

abbreviation no_items :: collected where
  "no_items \<equiv> \<lparr>co_seen = [], co_quarantined = [], co_evidence = [], co_engine = []\<rparr>"

lemma kept_start: "kept a t [] [] [] [] [] no_items t"
  by (simp add: kept_def)

lemma quarantine_loop:
  assumes "foldA (quarantine_item a src) no_items qs t0 = (Inr c, t)"
  shows "\<exists>qr qe. kept a t0 qs [] qr [] qe c t"
  by (rule foldA_invariant [OF assms, where I = "\<lambda>past c t. \<exists>qr qe. kept a t0 past [] qr [] qe c t"])
    (use kept_start quarantine_step in blast)+

lemma keep_loop:
  assumes "foldA (keep_item a src) c0 fs t1 = (Inr c, t)" and "kept a t0 qs [] qr [] qe c0 t1"
  shows "\<exists>kr. kept a t0 qs fs qr kr qe c t"
  by (rule foldA_invariant [OF assms(1), where I = "\<lambda>past c t. \<exists>kr. kept a t0 qs past qr kr qe c t"])
    (use assms(2) keep_step in blast)+

lemma collectE:
  assumes "collect a result t = (Inr (pages, evidence, integrity), t')"
  obtains t0 t1 c qr kr qe where "t0 = t\<lparr>source_rows := source_rows t @ [crawl_source a result]\<rparr>"
    and "kept a t0 (challenged_items result) (fetched_items result) qr kr qe c t1"
    and "t' = t1\<lparr>source_rows := source_rows t'\<rparr>" and "pages = co_engine c" and "evidence = co_evidence c"
    and "integrity = crawl_integrity_payload (length pages) (length (co_quarantined c))
           (cx_rate_limited_count result) (co_quarantined c)"
proof -
  let ?t0 = "t\<lparr>source_rows := source_rows t @ [crawl_source a result]\<rparr>"
  from assms obtain c0 u0 c u1 where loops:
      "foldA (quarantine_item a (so_id (crawl_source a result))) no_items (challenged_items result) ?t0 = (Inr c0, u0)"
      "foldA (keep_item a (so_id (crawl_source a result))) c0 (fetched_items result) u0 = (Inr c, u1)"
    and res: "t' = u1\<lparr>source_rows := source_rows t'\<rparr>" "pages = co_engine c" "evidence = co_evidence c"
      "integrity = crawl_integrity_payload (length pages) (length (co_quarantined c))
         (cx_rate_limited_count result) (co_quarantined c)"
    by (auto simp: collect_def create_source_def save_source_def action_cases Let_def)
  from quarantine_loop [OF loops(1)] obtain qr qe where "kept a ?t0 (challenged_items result) [] qr [] qe c0 u0"
    by blast
  from keep_loop [OF loops(2) this] obtain kr
    where "kept a ?t0 (challenged_items result) (fetched_items result) qr kr qe c u1" by blast
  from that [OF refl this res] show ?thesis .
qed

subsection \<open>What a collection leaves\<close>



definition demo_item :: "string \<Rightarrow> bool \<Rightarrow> crawled_page" where
  "demo_item url challenged = \<lparr>cp_requested_url = url, cp_final_url = url, cp_status_code = (if challenged then 403 else 200),
     cp_content_type = Some ''text/html'', cp_body_sha256 = replicate 64 (CHR ''0''), cp_title = Some ''Home'',
     cp_meta_description = None, cp_h1 = [''Home''], cp_canonical_url = None, cp_robots_directives = [], cp_links = [],
     cp_redirect_chain = [url], cp_word_count = Some 3, cp_body_bytes = 10, cp_response_ms = Some 5, cp_images_total = 0,
     cp_images_missing_alt = 0, cp_schema_types = [], cp_h2 = [], cp_external_links = [], cp_og_title = False,
     cp_og_description = False, cp_lang = None, cp_viewport = False, cp_hreflang_count = 0, cp_analytics_tags = [],
     cp_challenge = challenged, cp_challenge_kind = (if challenged then Some ''bot challenge'' else None), cp_retry_after = None\<rparr>"

definition demo_result :: "crawled_page list \<Rightarrow> crawl_result" where
  "demo_result pages = \<lparr>cx_result_pages = pages, cx_result_failures = [], cx_discovered_count = length pages,
     cx_stopped_reason = ''queue_exhausted'', cx_challenged_count = 0, cx_rate_limited_count = 0\<rparr>"

definition audited_run :: audit_run where
  "audited_run = \<lparr>run_id = ''r'', run_project = demo_uuid, run_profile_text = ''quick'', run_state = Collecting,
     run_created_by = None, idempotency_key = ''k'', run_version = 1, run_rule_version = ''1'', source_cutoff_at = None,
     run_evidence_coverage = 0, run_confidence = 0, run_health_score = None, run_error_code = [], run_error_summary = [],
     cancelled_at = None, completed_at = None\<rparr>"

definition audited_project :: project where
  "audited_project = \<lparr>project_id = demo_uuid, project_client = ''c'', project_name = ''P'', project_slug = ''p'',
     primary_domain = ''e.c'', approved_domains = [''e.c''], project_locale = ''en-AU'', country_code = ''AU'',
     business_type = ''service'', default_profile = ''standard'', project_status = ''active'', conversion_goals = JList [],
     brand_facts = JObj [], prohibited_claims = JList [], cms_platform = []\<rparr>"

definition demo_attempt :: attempt where
  "demo_attempt = \<lparr>at_fresh = (\<lambda>t n. demo_uuid), at_run = audited_run, at_project = audited_project, at_captured = 0\<rparr>"

definition empty_tables :: audit_tables where
  "empty_tables = \<lparr>source_rows = [], page_rows = [], evidence_rows = [], finding_rows = [], recommendation_rows = [],
     action_rows = []\<rparr>"

definition two_pages :: "crawled_page list" where
  "two_pages = [demo_item ''https://e.c/a'' True, demo_item ''https://e.c/'' False, demo_item ''https://e.c/'' False,
     demo_item ''https://x.y/'' False]"

lemma demo_collected:
  "(case collect demo_attempt (demo_result two_pages) empty_tables of
      (Inr (pages, evidence, integrity), t) \<Rightarrow> map pg_normalized_url pages = [''https://e.c/''] \<and> length evidence = 1 \<and>
         ip_status integrity = ''blocked'' \<and> length (page_rows t) = 2
    | (Inl e, t) \<Rightarrow> False)"
  by code_simp


text \<open>
  C21: When no page of the run is left in the tables, a collection never meets a duplicate: everything it raises is
  a text too long for its column or an exception of the library and the engine, so a retry after
  \<open>_clear_prior_attempt\<close> is not lost to the uniqueness of pages.
\<close>

theorem collect_never_duplicates:
  assumes "collect a result t = (Inl e, t')" and "list_all (\<lambda>p. pa_run p \<noteq> run_id (at_run a)) (page_rows t)"
  shows "(\<exists>m. e = DataError m) \<or> (\<exists>x. e = Library_error x)"
proof -
  let ?t0 = "t\<lparr>source_rows := source_rows t @ [crawl_source a result]\<rparr>"
  let ?src = "so_id (crawl_source a result)"
  let ?I = "\<lambda>c u. \<exists>qs fs qr kr qe. kept a ?t0 qs fs qr kr qe c u"
  have fresh: "\<not> repeats (page_rows u) (run_id (at_run a)) url" if "?I c u" "url \<notin> set (co_seen c)" for c u url
  proof -
    from that(1) obtain qs fs qr kr qe where k: "kept a ?t0 qs fs qr kr qe c u" by blast
    then have seen: "set (co_seen c) = set (map pa_normalized_url qr) \<union> set (map pa_normalized_url kr)"
      and rows: "page_rows u = page_rows t @ qr @ kr" by (simp_all add: kept_def)
    show ?thesis
      using that(2) assms(2) unfolding repeats_def rows seen by (auto simp: list_ex_iff list_all_iff)
  qed
  have page_error: ?thesis if "?I c u" "quarantine_item a ?src c x u = (Inl e, t') \<or> keep_item a ?src c x u = (Inl e, t')" for c u x
    using that(2) item_raises [of a ?src c x u e t'] fresh [OF that(1)] by blast
  consider "fits [(60, so_type (crawl_source a result)), (35, so_locale (crawl_source a result)),
        (255, so_scope (crawl_source a result)), (80, so_rule_version (crawl_source a result))] = Inl e"
    | "foldA (quarantine_item a ?src) no_items (challenged_items result) ?t0 = (Inl e, t')"
    | c u where "foldA (quarantine_item a ?src) no_items (challenged_items result) ?t0 = (Inr c, u)"
        "foldA (keep_item a ?src) c (fetched_items result) u = (Inl e, t')"
    using assms(1) by (auto simp: collect_def create_source_def save_source_def action_cases Let_def)
  then show ?thesis
  proof cases
    case 1
    then show ?thesis using fits_Inl by blast
  next
    case 2
    have "\<exists>c x u. x \<in> set (challenged_items result) \<and> (\<exists>qs qr qe. kept a ?t0 qs [] qr [] qe c u) \<and>
        quarantine_item a ?src c x u = (Inl e, t')"
      by (rule foldA_raised [OF 2]) (use kept_start quarantine_step in blast)+
    then show ?thesis using page_error by blast
  next
    case 3
    from quarantine_loop [OF 3(1)] obtain qr qe where k: "kept a ?t0 (challenged_items result) [] qr [] qe c u" by blast
    have "\<exists>d x v. x \<in> set (fetched_items result) \<and> (\<exists>fs kr. kept a ?t0 (challenged_items result) fs qr kr qe d v) \<and>
        keep_item a ?src d x v = (Inl e, t')"
      by (rule foldA_raised [OF 3(2)]) (use k keep_step in blast)+
    then show ?thesis using page_error by blast
  qed
qed

definition long_url :: string where
  "long_url = ''https://e.c/'' @ replicate 230 (CHR ''a'')"

lemma demo_long_url:
  "(case collect demo_attempt (demo_result [demo_item long_url False]) empty_tables of
      (Inl e, t) \<Rightarrow> e = DataError ''value too long for type character varying'' | (Inr r, t) \<Rightarrow> False)"
  by code_simp

theorem collect_never_duplicates_witness:
  "\<exists>e t'. collect demo_attempt (demo_result [demo_item long_url False]) empty_tables = (Inl e, t') \<and>
     ((\<exists>m. e = DataError m) \<or> (\<exists>x. e = Library_error x))"
proof -
  obtain e t' where r: "collect demo_attempt (demo_result [demo_item long_url False]) empty_tables = (Inl e, t')"
    using demo_long_url by (auto split: prod.splits sum.splits)
  have "list_all (\<lambda>p. pa_run p \<noteq> run_id (at_run demo_attempt)) (page_rows empty_tables)"
    by (simp add: empty_tables_def)
  from collect_never_duplicates [OF r this] r show ?thesis by blast
qed

text \<open>
  C25: One approved page with an address of more than 236 characters makes the whole collection raise: the title of
  its evidence row, \<open>Crawl observation: \<close> and the address, does not fit its column of 255 characters.
\<close>

theorem long_address_stops_collection:
  assumes "item \<in> set (cx_result_pages result)" and "approved_item a item" and "236 < length (cp_final_url item)"
  shows "\<exists>e t'. collect a result t = (Inl e, t')"
proof (rule ccontr)
  assume "\<nexists>e t'. collect a result t = (Inl e, t')"
  then obtain r t' where ok: "collect a result t = (Inr r, t')"
    by (metis old.sum.exhaust surj_pair)
  obtain pages evidence integrity where r: "r = (pages, evidence, integrity)" by (cases r)
  from ok [unfolded r] obtain t0 t1 c qr kr qe where "kept a t0 (challenged_items result) (fetched_items result) qr kr qe c t1"
    by (rule collectE)
  then have cover: "approved_urls a (challenged_items result) \<union> approved_urls a (fetched_items result) \<subseteq> set (co_seen c)"
    and short: "\<forall>u \<in> set (co_seen c). length u \<le> 236" by (auto simp: kept_def)
  have "cp_final_url item \<in> approved_urls a (challenged_items result) \<union> approved_urls a (fetched_items result)"
    using assms(1,2) by (auto simp: approved_urls_def challenged_items_def fetched_items_def)
  with cover short assms(3) show False by (meson linorder_not_le subsetD)
qed

theorem long_address_stops_collection_witness:
  "length long_url = 242 \<and> (\<exists>e t'. collect demo_attempt (demo_result [demo_item long_url False]) empty_tables = (Inl e, t'))"
proof -
  have len: "length long_url = 242" by (simp add: long_url_def)
  have "(case item_host (demo_item long_url False) of Inl e \<Rightarrow> False
      | Inr host \<Rightarrow> on_approved (allowed_hosts (at_project demo_attempt)) host)"
    by code_simp
  then have "approved_item demo_attempt (demo_item long_url False)"
    unfolding approved_item_def by (auto split: sum.splits)
  from long_address_stops_collection [OF _ this] len show ?thesis
    by (simp add: demo_result_def demo_item_def)
qed

end
