(* ===== verification/Audit_Findings.thy ===== *)
theory Audit_Findings
  imports Audit_Evidence
begin

text \<open>
  What \<open>_create_findings\<close> adds to the tables: per rule that fired one finding, linked to evidence of the crawl, one
  recommendation and one scheduled action.
\<close>

subsection \<open>Groups\<close>

lemma min_by_least: "f (min_by f b xs) \<le> f b" "x \<in> set xs \<Longrightarrow> f (min_by f b xs) \<le> f x"
  by (induction f b xs rule: min_by.induct) (force intro: order_trans)+

lemma lead_of_props:
  assumes "gs \<noteq> []"
  shows "lead_of gs \<in> set gs" and "g \<in> set gs \<Longrightarrow> SEVERITY_RANK (fd_severity (lead_of gs)) \<le> SEVERITY_RANK (fd_severity g)"
  using assms min_by_in [where f = "\<lambda>f. SEVERITY_RANK (fd_severity f)" and b = "hd gs" and xs = "tl gs"]
    min_by_least [where f = "\<lambda>f. SEVERITY_RANK (fd_severity f)" and b = "hd gs" and xs = "tl gs"]
  by (cases gs; auto simp: lead_of_def)+

lemma sorted_groups_entries:
  "sorted_groups fs = map (\<lambda>k. (k, filter (\<lambda>f. fd_rule_id f = k) fs)) (sorted_set (map fd_rule_id fs))"
proof -
  have keys: "sort (map fst (group_by fd_rule_id fs)) = sorted_set (map fd_rule_id fs)"
  proof (rule sorted_distinct_set_unique)
    show "set (sort (map fst (group_by fd_rule_id fs))) = set (sorted_set (map fd_rule_id fs))"
      unfolding set_sort set_map set_sorted_set
      by (metis (mono_tags, lifting) dom_map_of_conv_image_fst domIff map_of_group_by option.discI subsetI subset_antisym)
  qed (simp_all add: distinct_group_by)
  show ?thesis
    unfolding sorted_groups_def Let_def keys by (rule map_cong [OF refl]) (auto simp: map_of_group_by)
qed

lemma sorted_groups_group:
  "(k, gs) \<in> set (sorted_groups fs) \<Longrightarrow> gs \<noteq> [] \<and> gs = filter (\<lambda>f. fd_rule_id f = k) fs"
  unfolding sorted_groups_entries by (auto simp: filter_empty_conv)

lemma map_fst_sorted_groups: "map fst (sorted_groups fs) = sorted_set (map fd_rule_id fs)"
  unfolding sorted_groups_entries by (simp add: o_def)

subsection \<open>One group\<close>

definition linked_finding :: "attempt \<Rightarrow> (string \<rightharpoonup> uid) \<Rightarrow> uid list \<Rightarrow> nat \<Rightarrow> nat \<Rightarrow> string \<times> finding list \<Rightarrow> finding_row" where
  "linked_finding a page_map eids total_pages n entry =
     (finding_of a page_map eids total_pages n (fst entry) (snd entry))
       \<lparr>fr_evidence := filter (\<lambda>e. e \<in> set eids) (group_evidence (snd entry))\<rparr>"

definition good_action :: "recommendation_row \<Rightarrow> finding_row \<Rightarrow> action_row \<Rightarrow> bool" where
  "good_action r f ac \<longleftrightarrow> act_recommendation ac = Some (re_id r) \<and> act_title ac = re_title r \<and> act_impact ac = IMPACT (fr_severity f) \<and>
     (if fr_severity f \<in> {Sev_critical, Sev_high} then act_week ac = 1
      else if fr_severity f = Sev_medium then 2 \<le> act_week ac \<and> act_week ac \<le> 4
      else 5 \<le> act_week ac \<and> act_week ac \<le> 8) \<and>
     act_priority_score ac \<le> 100 \<and> act_priority_tier ac = tier_of (act_priority_score ac)"

definition good_recommendation :: "finding_row \<Rightarrow> recommendation_row \<Rightarrow> bool" where
  "good_recommendation f r \<longleftrightarrow> re_finding r = fr_id f \<and> (re_title r, re_implementation r) = advice (fr_code f) \<and>
     re_rationale r = fr_description f \<and> 1 \<le> re_impact r \<and> re_impact r \<le> 5 \<and> re_effort r \<in> {1, 2}"

lemma finding_of_simps [simp]:
  "fr_id (finding_of a pm es tp n k gs) = at_fresh a ''finding'' n" "fr_code (finding_of a pm es tp n k gs) = k"
  "fr_run (finding_of a pm es tp n k gs) = run_id (at_run a)"
  "fr_severity (finding_of a pm es tp n k gs) = fd_severity (lead_of gs)"
  by (simp_all add: finding_of_def)

lemma linked_finding_simps [simp]:
  "fr_id (linked_finding a pm es tp n en) = at_fresh a ''finding'' n" "fr_code (linked_finding a pm es tp n en) = fst en"
  "fr_run (linked_finding a pm es tp n en) = run_id (at_run a)"
  "fr_severity (linked_finding a pm es tp n en) = fd_severity (lead_of (snd en))"
  "fr_evidence (linked_finding a pm es tp n en) = filter (\<lambda>e. e \<in> set es) (group_evidence (snd en))"
  by (simp_all add: linked_finding_def)

lemma recommendation_of_good:
  "good_recommendation (linked_finding a pm es tp n (k, gs)) (recommendation_of a m (finding_of a pm es tp n k gs) risk)"
  by (auto simp: good_recommendation_def recommendation_of_def linked_finding_def Let_def split: prod.split)

lemma schedule_week:
  "schedule sev ix = (week, ix') \<Longrightarrow>
     (if sev \<in> {Sev_critical, Sev_high} then week = 1
      else if sev = Sev_medium then 2 \<le> week \<and> week \<le> 4 else 5 \<le> week \<and> week \<le> 8)"
  by (cases sev) (auto simp: schedule_def split: prod.splits)

lemma action_of_good:
  assumes "schedule sev ix = (week, ix')" and "fr_severity f = sev"
  shows "good_action r f (action_of a n sev week gs r)"
  using schedule_week [OF assms(1)] assms(2) by (auto simp: good_action_def action_of_def priority_of_def Let_def)

definition fresh_findings :: "attempt \<Rightarrow> finding_row list \<Rightarrow> bool" where
  "fresh_findings a rows \<longleftrightarrow> inj (at_fresh a ''finding'') \<and> (\<forall>f \<in> set rows. fr_id f \<notin> range (at_fresh a ''finding''))"

text \<open>The tables after \<open>past\<close> groups, over the tables \<open>t\<close> at the beginning.\<close>

definition reported_groups :: "attempt \<Rightarrow> (string \<rightharpoonup> uid) \<Rightarrow> uid list \<Rightarrow> nat \<Rightarrow> audit_tables \<Rightarrow> (string \<times> finding list) list \<Rightarrow>
    nat \<Rightarrow> audit_tables \<Rightarrow> finding_row list \<Rightarrow> recommendation_row list \<Rightarrow> action_row list \<Rightarrow> bool" where
  "reported_groups a pm es tp t past n u fs rs acs \<longleftrightarrow> n = length past \<and>
     fs = map (\<lambda>i. linked_finding a pm es tp i (past ! i)) [0..<length past] \<and>
     u = t\<lparr>finding_rows := finding_rows t @ fs, recommendation_rows := recommendation_rows t @ rs,
           action_rows := action_rows t @ acs\<rparr> \<and>
     list_all2 good_recommendation fs rs \<and> length acs = length rs \<and> (\<forall>i < length rs. good_action (rs ! i) (fs ! i) (acs ! i))"

lemma save_last:
  "key x = key r \<Longrightarrow> (\<forall>y \<in> set ys. key y \<noteq> key r) \<Longrightarrow> save_row key r (ys @ [x]) = ys @ [r]"
  unfolding save_row_def by (induction ys) auto

lemma report_group_step:
  assumes fresh: "fresh_findings a (finding_rows t)" and inv: "reported_groups a pm es tp t past n u fs rs acs"
    and step: "report_group a pm es tp (n, ix) entry u = (Inr (n', ix'), u')"
  shows "\<exists>r ac. reported_groups a pm es tp t (past @ [entry]) n' u' (fs @ [linked_finding a pm es tp n entry]) (rs @ [r]) (acs @ [ac])"
proof -
  obtain k gs where entry: "entry = (k, gs)" by (cases entry)
  let ?f = "finding_of a pm es tp n k gs" and ?l = "linked_finding a pm es tp n entry"
  let ?r = "recommendation_of a n ?f (fd_risk (lead_of gs))"
  obtain week ix2 where sched: "schedule (fr_severity ?f) ix = (week, ix2)" by (cases "schedule (fr_severity ?f) ix")
  let ?ac = "action_of a n (fr_severity ?f) week gs ?r"
  have fs: "fs = map (\<lambda>i. linked_finding a pm es tp i (past ! i)) [0..<n]" and n: "n = length past"
    and u: "u = t\<lparr>finding_rows := finding_rows t @ fs, recommendation_rows := recommendation_rows t @ rs,
           action_rows := action_rows t @ acs\<rparr>"
    using inv by (simp_all add: reported_groups_def)
  have "\<forall>y \<in> set (finding_rows t @ fs). fr_id y \<noteq> fr_id ?l"
    using fresh unfolding fs fresh_findings_def by (auto dest: injD)
  then have save: "save_row fr_id ?l ((finding_rows t @ fs) @ [?f]) = (finding_rows t @ fs) @ [?l]"
    by (intro save_last) simp_all
  have link: "?f\<lparr>fr_evidence := filter (\<lambda>e. e \<in> set es) (group_evidence gs)\<rparr> = ?l"
    by (simp add: entry linked_finding_def)
  have after: "n' = n + 1" "u' = t\<lparr>finding_rows := finding_rows t @ fs @ [?l],
      recommendation_rows := recommendation_rows t @ rs @ [?r], action_rows := action_rows t @ acs @ [?ac]\<rparr>"
    using step sched save link unfolding u entry
    by (auto simp: report_group_def create_finding_def create_recommendation_def create_action_def link_evidence_def
        action_cases Let_def)
  have last: "good_recommendation ?l ?r" "good_action ?r ?l ?ac"
    using recommendation_of_good [of a pm es tp n k gs n "fd_risk (lead_of gs)"] action_of_good [OF sched]
    by (simp_all add: entry)
  have map_past: "map (\<lambda>i. linked_finding a pm es tp i ((past @ [entry]) ! i)) [0..<length (past @ [entry])] = fs @ [?l]"
    by (simp add: fs n nth_append)
  have lens: "length fs = n" "length rs = n" "length acs = n" "list_all2 good_recommendation fs rs"
    using inv fs list_all2_lengthD by (fastforce simp: reported_groups_def)+
  have "reported_groups a pm es tp t (past @ [entry]) n' u' (fs @ [?l]) (rs @ [?r]) (acs @ [?ac])"
    unfolding reported_groups_def map_past using inv after last lens n
    by (auto simp: reported_groups_def less_Suc_eq nth_append list_all2_appendI)
  then show ?thesis by blast
qed

subsection \<open>All groups\<close>

lemma create_findingsE:
  assumes "create_findings a pages evidence integrity t = (Inr engine, t')" and "fresh_findings a (finding_rows t)"
  obtains fs rs acs pm where
    "run_rules (at_fresh a ''engine'') (rules_context a pages integrity) DEFAULT_RULES = Inr engine"
    and "reported_groups a pm (map er_id evidence) (max 1 (length pages)) t (sorted_groups engine)
      (length (sorted_groups engine)) t' fs rs acs"
proof -
  let ?pm = "page_index (run_id (at_run a)) (page_rows t)" and ?es = "map er_id evidence" and ?tp = "max 1 (length pages)"
  from assms(1) obtain st where engine: "run_rules (at_fresh a ''engine'') (rules_context a pages integrity) DEFAULT_RULES = Inr engine"
    and loop: "foldA (report_group a ?pm ?es ?tp) (0, (0, 0)) (sorted_groups engine) t = (Inr st, t')"
    by (auto simp: create_findings_def action_cases)
  have "\<exists>fs rs acs. reported_groups a ?pm ?es ?tp t (sorted_groups engine) (fst st) t' fs rs acs"
  proof (rule foldA_invariant [OF loop, where I = "\<lambda>past st u. \<exists>fs rs acs. reported_groups a ?pm ?es ?tp t past (fst st) u fs rs acs"])
    show "\<exists>fs rs acs. reported_groups a ?pm ?es ?tp t [] (fst (0, (0, 0))) t fs rs acs"
      by (auto simp: reported_groups_def)
  next
    fix past st x u st' u'
    assume "\<exists>fs rs acs. reported_groups a ?pm ?es ?tp t past (fst st) u fs rs acs"
      and step: "report_group a ?pm ?es ?tp st x u = (Inr st', u')"
    then obtain fs rs acs where inv: "reported_groups a ?pm ?es ?tp t past (fst st) u fs rs acs" by blast
    from report_group_step [OF assms(2) inv, of "snd st" x "fst st'" "snd st'" u'] step
    show "\<exists>fs rs acs. reported_groups a ?pm ?es ?tp t (past @ [x]) (fst st') u' fs rs acs"
      unfolding prod.collapse by blast
  qed
  then obtain fs rs acs where inv: "reported_groups a ?pm ?es ?tp t (sorted_groups engine) (fst st) t' fs rs acs" by blast
  moreover from this have "fst st = length (sorted_groups engine)" by (simp add: reported_groups_def)
  ultimately show thesis using that engine by metis
qed

lemma engine_evidence:
  assumes "run_rules ids (rules_context a pages integrity) DEFAULT_RULES = Inr engine"
    and "g \<in> set engine" and "fd_severity g \<noteq> Sev_info"
  shows "fd_evidence_ids g \<noteq> [] \<and> set (fd_evidence_ids g) \<subseteq> pg_evidence_id ` set pages"
proof -
  let ?cx = "evaluation_context (rules_context a pages integrity)"
  have "set (cx_pages ?cx) \<subseteq> set pages"
    by (auto simp: evaluation_context_def evaluable_pages_def rules_context_def)
  moreover have "grounded ?cx (fd_category g) g"
    using default_rules.run_rules_reported [OF assms(1)] assms(2) unfolding default_rules.reported_def by blast
  ultimately show ?thesis using assms(3) unfolding grounded_def by (meson image_mono subset_trans)
qed

lemma group_evidence_cites:
  assumes "gs \<noteq> []" and "\<forall>g \<in> set gs. fd_severity g \<noteq> Sev_info \<longrightarrow> fd_evidence_ids g \<noteq> [] \<and> set (fd_evidence_ids g) \<subseteq> set es"
    and all: "\<forall>g \<in> set gs. fd_severity g \<noteq> Sev_info"
  shows "filter (\<lambda>e. e \<in> set es) (group_evidence gs) \<noteq> []"
proof -
  have cites: "set (concat (map fd_evidence_ids gs)) \<subseteq> set es" using assms(2) all by auto
  have "fd_evidence_ids (lead_of gs) \<noteq> []" using assms(2) all lead_of_props(1) [OF assms(1)] by blast
  then have "concat (map fd_evidence_ids gs) \<noteq> []" using lead_of_props(1) [OF assms(1)] by auto
  then have ne: "group_evidence gs \<noteq> []"
    by (simp add: group_evidence_def FINDING_EVIDENCE_CAP_def del: concat_eq_Nil_conv)
  have "set (group_evidence gs) \<subseteq> set es"
    unfolding group_evidence_def using cites set_take_subset [of FINDING_EVIDENCE_CAP "fromkeys (concat (map fd_evidence_ids gs))"]
    unfolding set_fromkeys by (rule order_trans [rotated])
  then have "filter (\<lambda>e. e \<in> set es) (group_evidence gs) = group_evidence gs" by (auto intro: filter_True)
  with ne show ?thesis by simp
qed


definition broken_pages :: "crawled_page list" where
  "broken_pages = [(demo_item ''https://e.c/'' False)\<lparr>cp_status_code := 503\<rparr>]"

definition counted_attempt :: attempt where
  "counted_attempt = demo_attempt\<lparr>at_fresh := (\<lambda>t n. if t = ''finding'' then replicate n (CHR ''f'') else demo_uuid)\<rparr>"

lemma advice_fits: "length (fst (advice c)) \<le> 255"
proof -
  have small: "list_all (\<lambda>kv. length (fst (snd kv)) \<le> 255) kvs \<Longrightarrow> length (fst d) \<le> 255 \<Longrightarrow>
      length (fst (opt_or d (map_of kvs c))) \<le> 255" for kvs :: "(string \<times> string \<times> string) list" and d
    by (induction kvs) auto
  show ?thesis unfolding advice_def by (rule small) simp_all
qed

definition narrow :: "finding \<Rightarrow> bool" where
  "narrow g \<longleftrightarrow> length (fd_category g) \<le> 60 \<and> length (fd_rule_id g) \<le> 120 \<and> length (fd_title g) \<le> 255 \<and>
     length (fd_rule_version g) \<le> 80"

lemma report_group_total:
  assumes "narrow (lead_of gs)" and "length k \<le> 120"
  shows "\<exists>st' u'. report_group a pm es tp st (k, gs) u = (Inr st', u')"
proof -
  obtain n ix where st: "st = (n, ix)" by (cases st)
  let ?f = "finding_of a pm es tp n k gs"
  have "fits [(60, fr_category ?f), (120, fr_code ?f), (255, fr_title ?f), (80, fr_rule_version ?f)] = Inr ()"
    using assms by (simp add: fits_Inr_iff narrow_def finding_of_def)
  moreover have "fits [(255, re_title (recommendation_of a n ?f risk))] = Inr ()" for risk
    using advice_fits [of k] by (cases "advice k") (simp add: fits_Inr_iff recommendation_of_def Let_def)
  moreover have "fits [(500, act_title (action_of a n sev week gs r)), (120, act_owner_label (action_of a n sev week gs r))] = Inr ()"
    if "length (re_title r) \<le> 255" for sev week r
    using that by (simp add: fits_Inr_iff action_of_def Let_def)
  moreover have "length (re_title (recommendation_of a n ?f risk)) \<le> 255" for risk
    using advice_fits [of k] by (cases "advice k") (simp add: recommendation_of_def Let_def)
  ultimately show ?thesis
    by (simp add: st report_group_def create_finding_def create_recommendation_def create_action_def link_evidence_def
        bindA_def pureA_def modifyA_def ret_def split: prod.split)
qed

lemma create_findings_total:
  assumes "run_rules (at_fresh a ''engine'') (rules_context a pages integrity) DEFAULT_RULES = Inr engine"
    and "list_all narrow engine"
  shows "\<exists>t'. create_findings a pages evidence integrity t = (Inr engine, t')"
proof -
  have "\<exists>c u. foldA (report_group a (page_index (run_id (at_run a)) (page_rows t)) (map er_id evidence) (max 1 (length pages)))
      (0, 0, 0) (sorted_groups engine) t = (Inr c, u)"
  proof (rule foldA_total)
    fix b x s
    assume x: "x \<in> set (sorted_groups engine)"
    obtain k gs where kg: "x = (k, gs)" by (cases x)
    with sorted_groups_group x have "gs \<noteq> []" and gs: "gs = filter (\<lambda>f. fd_rule_id f = k) engine" by blast+
    then have "lead_of gs \<in> set engine" and "fd_rule_id (lead_of gs) = k" using lead_of_props(1) by fastforce+
    with assms(2) have "narrow (lead_of gs)" "length k \<le> 120" by (auto simp: list_all_iff narrow_def)
    from report_group_total [OF this]
    show "\<exists>b' s'. report_group a (page_index (run_id (at_run a)) (page_rows t)) (map er_id evidence)
        (max 1 (length pages)) b x s = (Inr b', s')" unfolding kg .
  qed
  with assms(1) show ?thesis
    by (auto simp: create_findings_def bindA_def pureA_def gets_def lib_def ret_def)
qed

lemma demo_engine:
  "(case collect counted_attempt (demo_result broken_pages) empty_tables of
      (Inr (pages, evidence, integrity), t) \<Rightarrow>
        (case run_rules (at_fresh counted_attempt ''engine'') (rules_context counted_attempt pages integrity) DEFAULT_RULES of
           Inr engine \<Rightarrow> map fd_rule_id engine = [''technical.http_status''] \<and> list_all narrow engine
         | Inl e \<Rightarrow> False)
    | (Inl e, t) \<Rightarrow> False)"
  by code_simp


end
