(* ===== verification/Audit_Task.thy ===== *)
theory Audit_Task
  imports Audit_Findings Worker
begin

text \<open>
  The task \<open>run_website_audit\<close> of \<open>audit_engine/tasks.py\<close>: it claims a run, crawls, stores what it saw, runs the
  rules and hands the run to review. Its statements run in autocommit mode, and other processes commit between
  them: \<open>others n\<close> is what they do to the workflow tables before the n-th statement of the task (a user cancels the
  run, the stale sweep fails it). The rows of the evidence tables belong to the attempt and are written by it
  alone. Settings, the market-data service, the broker and the text of a library exception are parameters.
\<close>

subsection \<open>Stage rows\<close>

definition STAGE_SEQUENCE :: "(string \<times> nat) list" where
  "STAGE_SEQUENCE = [(''collecting'', 10), (''auditing'', 20), (''enriching'', 25), (''packaging'', 30)]"

definition DEFAULT_STAGE_SEQUENCE :: nat where
  "DEFAULT_STAGE_SEQUENCE = 20"

definition merged :: "(string \<times> json) list \<Rightarrow> (string \<times> json) list \<Rightarrow> (string \<times> json) list" where
  "merged old new = foldl (\<lambda>d kv. AList.update (fst kv) (snd kv) d) old new"

definition staged :: "moment \<Rightarrow> stage_status \<Rightarrow> (string \<times> json) list \<Rightarrow> run_stage \<Rightarrow> run_stage" where
  "staged now status data s =
     (let s1 = (if status = Stage_running
                then s\<lparr>stage_attempts := stage_attempts s + 1, started_at := Some (opt_or now (started_at s))\<rparr>
                else s\<lparr>finished_at := Some now\<rparr>)
      in s1\<lparr>stage_state := status, heartbeat_at := Some now, stage_checkpoint := merged (stage_checkpoint s) data\<rparr>)"

subsection \<open>Environment\<close>

record 'w audit_env =
  ae_others :: "nat \<Rightarrow> db \<Rightarrow> db"
  ae_now :: "nat \<Rightarrow> moment"
  ae_fresh :: "string \<Rightarrow> nat \<Rightarrow> uid"
  ae_crawl :: "'w crawl_env"
  ae_page_limit :: int
  ae_duration :: rat
  ae_str :: "wf_error \<Rightarrow> string"
  ae_market_enabled :: bool
  ae_market_configured :: "audit_run \<Rightarrow> exn + bool"
  ae_send :: "string \<Rightarrow> exn + unit"
  ae_auto_package :: bool

record 'w task_world =
  tw_db :: db
  tw_tables :: audit_tables
  tw_crawler :: "'w crawler_state"

type_synonym ('w, 'a) task = "('w task_world, wf_error, 'a) action"

definition commit :: "'w audit_env \<Rightarrow> nat \<Rightarrow> (db \<Rightarrow> (wf_error + 'a) \<times> db) \<Rightarrow> ('w, 'a) task" where
  "commit env n f w = (case f (ae_others env n (tw_db w)) of (r, d) \<Rightarrow> (r, w\<lparr>tw_db := d\<rparr>))"

definition on_tables :: "'a audit \<Rightarrow> ('w, 'a) task" where
  "on_tables m w = (case m (tw_tables w) of (r, t) \<Rightarrow> (r, w\<lparr>tw_tables := t\<rparr>))"

text \<open>\<open>_stage\<close>: the row is fetched or created by one statement and saved whole by another.\<close>

definition set_stage :: "'w audit_env \<Rightarrow> nat \<Rightarrow> audit_run \<Rightarrow> string \<Rightarrow> stage_status \<Rightarrow> (string \<times> json) list \<Rightarrow> ('w, unit) task" where
  "set_stage env n r name status data =
     bindA (commit env n (\<lambda>d. case get_or_create_stage (ae_fresh env ''stage'' n) (run_id r) name
               (opt_or DEFAULT_STAGE_SEQUENCE (map_of STAGE_SEQUENCE name)) d of (d', s) \<Rightarrow> (Inr s, d'))) (\<lambda>s.
     commit env (n + 1) (\<lambda>d. (Inr (), save_stage (staged (ae_now env n) status data s) d)))"

definition record_now :: "'w audit_env \<Rightarrow> nat \<Rightarrow> string \<Rightarrow> audit_run \<Rightarrow> (string \<times> json) list \<Rightarrow> ('w, unit) task" where
  "record_now env n ty r data = commit env n (\<lambda>d. (Inr (), run_event ty None None r data d))"

subsection \<open>Claiming a run and moving it\<close>

definition clear_prior_attempt :: "uid \<Rightarrow> audit_tables \<Rightarrow> audit_tables" where
  "clear_prior_attempt rid t =
     (let findings = filter (\<lambda>f. fr_run f = rid) (finding_rows t);
          pages = filter (\<lambda>p. pa_run p = rid) (page_rows t);
          gone_findings = map fr_id findings; gone_pages = map pa_id pages;
          gone_recs = map re_id (filter (\<lambda>r. re_finding r \<in> set gone_findings) (recommendation_rows t))
      in t\<lparr>finding_rows := filter (\<lambda>f. fr_run f \<noteq> rid) (finding_rows t),
           recommendation_rows := filter (\<lambda>r. re_finding r \<notin> set gone_findings) (recommendation_rows t),
           action_rows := map (\<lambda>c. case act_recommendation c of None \<Rightarrow> c
               | Some k \<Rightarrow> if k \<in> set gone_recs then c\<lparr>act_recommendation := None\<rparr> else c) (action_rows t),
           page_rows := filter (\<lambda>p. pa_run p \<noteq> rid) (page_rows t),
           evidence_rows := filter (\<lambda>e. er_run e \<noteq> rid \<and> er_page e \<notin> set gone_pages) (evidence_rows t),
           source_rows := filter (\<lambda>s. \<not> (so_run s = rid \<and> so_type s = ''crawl'')) (source_rows t)\<rparr>)"

definition claimed :: "audit_run \<Rightarrow> audit_run" where
  "claimed r = r\<lparr>run_state := Collecting, run_error_code := [], run_error_summary := []\<rparr>"

text \<open>
  The claim is one transaction. It returns the run it read, or the claimed run with its project; a run in any other
  state than \<open>Draft\<close> and \<open>Failed\<close> is left alone.
\<close>

definition claim_run :: "uid \<Rightarrow> db \<Rightarrow> audit_tables \<Rightarrow> wf_error + (audit_run + audit_run \<times> project) \<times> db \<times> audit_tables" where
  "claim_run pk d t =
     bindE (get_run d pk) (\<lambda>r.
     bindE (project_of d r) (\<lambda>p.
     if run_state r \<notin> {Draft, Failed} then Inr (Inl r, d, t)
     else Inr (Inr (claimed r, p), save_run (claimed r) d,
               if run_state r = Failed then clear_prior_attempt pk t else t)))"

definition claim :: "'w audit_env \<Rightarrow> uid \<Rightarrow> ('w, audit_run + audit_run \<times> project) task" where
  "claim env pk w =
     (let d = ae_others env 0 (tw_db w)
      in case claim_run pk d (tw_tables w) of
           Inl e \<Rightarrow> (Inl e, w\<lparr>tw_db := d\<rparr>)
         | Inr (r, d', t') \<Rightarrow> (Inr r, w\<lparr>tw_db := d', tw_tables := t'\<rparr>))"

text \<open>\<open>_advance_run\<close>: an update of the row unless it is cancelled, mirrored on the object in memory.\<close>

definition advance_run :: "uid \<Rightarrow> (audit_run \<Rightarrow> audit_run) \<Rightarrow> db \<Rightarrow> bool \<times> db" where
  "advance_run pk upd d =
     (let hit = (\<lambda>r. run_id r = pk \<and> run_state r \<noteq> Cancelled)
      in (list_ex hit (runs d), d\<lparr>runs := map (\<lambda>r. if hit r then upd r else r) (runs d)\<rparr>))"

definition advance :: "'w audit_env \<Rightarrow> nat \<Rightarrow> audit_run \<Rightarrow> (audit_run \<Rightarrow> audit_run) \<Rightarrow> ('w, audit_run option) task" where
  "advance env n r upd = commit env n (\<lambda>d. case advance_run (run_id r) upd d of
     (updated, d') \<Rightarrow> (Inr (if updated then Some (upd r) else None), d'))"

definition to_auditing :: "moment \<Rightarrow> audit_run \<Rightarrow> audit_run" where
  "to_auditing captured r = r\<lparr>run_state := Auditing, source_cutoff_at := Some captured\<rparr>"

definition to_review :: "rat \<Rightarrow> rat option \<Rightarrow> nat \<Rightarrow> audit_run \<Rightarrow> audit_run" where
  "to_review coverage score version r = r\<lparr>run_evidence_coverage := coverage, run_confidence := 1,
     run_health_score := score, run_state := Gate_1_review, run_version := version\<rparr>"

definition to_failed :: "string \<Rightarrow> nat \<Rightarrow> audit_run \<Rightarrow> audit_run" where
  "to_failed summary version r = r\<lparr>run_state := Failed, run_error_code := ''audit_execution_failed'',
     run_error_summary := summary, run_version := version\<rparr>"

subsection \<open>The phases\<close>

definition audit_config :: "'w audit_env \<Rightarrow> audit_run \<Rightarrow> project \<Rightarrow> crawl_config" where
  "audit_config env r p = (default_config (approved_domains p))
     \<lparr>cc_max_pages := page_budget_of (ae_page_limit env) r, cc_max_depth := 5, cc_max_duration := ae_duration env,
      cc_timeout := 12, cc_min_delay := fl (2 / 10)\<rparr>"

definition MAX_DNS_ANSWERS :: int where
  "MAX_DNS_ANSWERS = 16"

text \<open>\<open>BoundedCrawler(config).crawl(seeds)\<close> with the checks of both constructors; \<open>None\<close> is a crawl that never ends.\<close>

definition run_crawl :: "'w audit_env \<Rightarrow> crawl_config \<Rightarrow> string list \<Rightarrow> 'w task_world \<Rightarrow>
    ((wf_error + crawl_result) \<times> 'w task_world) option" where
  "run_crawl env cfg seeds w =
     (case bindE (check_crawl_config cfg) (\<lambda>_. make_guard (cc_allowed_domains cfg) MAX_DNS_ANSWERS) of
        Inl e \<Rightarrow> Some (Inl (Library_error e), w)
      | Inr g \<Rightarrow> map_option (\<lambda>(out, c). (lib out, w\<lparr>tw_crawler := c\<rparr>))
          (crawl (ae_crawl env) cfg g seeds (new_crawler (cw_world (tw_crawler w)))))"

definition crawl_phase :: "'w audit_env \<Rightarrow> audit_run \<Rightarrow> project \<Rightarrow> ('w, crawl_result) task" where
  "crawl_phase env r p w =
     the (run_crawl env (audit_config env r p) [''https://'' @ primary_domain p @ ''/''] w)"

definition no_pages_error :: "integrity_payload \<Rightarrow> wf_error" where
  "no_pages_error integrity = Library_error (RuntimeError
     (if ip_challenged integrity \<noteq> 0
      then ''No readable pages were collected. Check robots.txt, DNS, bot protection, or the website URL.''
      else ''No pages were collected. Check robots.txt, DNS, or the website URL.''))"

definition attempt_of :: "'w audit_env \<Rightarrow> audit_run \<Rightarrow> project \<Rightarrow> attempt" where
  "attempt_of env r p = \<lparr>at_fresh = ae_fresh env, at_run = r, at_project = p, at_captured = ae_now env 2\<rparr>"

definition collecting_phase :: "'w audit_env \<Rightarrow> audit_run \<Rightarrow> project \<Rightarrow>
    ('w, crawl_result \<times> page_snapshot list \<times> evidence_row list \<times> integrity_payload) task" where
  "collecting_phase env r p =
     bindA (set_stage env 1 r ''collecting'' Stage_running [(''message'', JStr ''Discovering pages'')]) (\<lambda>_.
     bindA (crawl_phase env r p) (\<lambda>result.
     bindA (on_tables (collect (attempt_of env r p) result)) (\<lambda>(pages, evidence, integrity).
     if pages = [] then raise (no_pages_error integrity)
     else bindA (set_stage env 3 r ''collecting'' Stage_succeeded
            [(''output_count'', jnat (length pages)), (''crawl_integrity'', integrity_json integrity)]) (\<lambda>_.
          ret (result, pages, evidence, integrity)))))"

definition published_score :: "scorecard_result \<Rightarrow> rat option" where
  "published_score sheet = (case sc_overall_score sheet of None \<Rightarrow> None
     | Some v \<Rightarrow> if fl (70 / 100) \<le> sc_weighted_coverage sheet then Some (decimal_of 2 v) else None)"

definition reviewed :: "scorecard_result \<Rightarrow> nat \<Rightarrow> audit_run \<Rightarrow> audit_run" where
  "reviewed sheet version = to_review (decimal_of 2 (fmul (sc_weighted_coverage sheet) 100)) (published_score sheet) version"

definition scorecard_json :: "business_profile \<Rightarrow> scorecard_result \<Rightarrow> json" where
  "scorecard_json profile sheet = JList (map (\<lambda>c. JObj [(''category'', JStr (cs_category c)), (''score'', JNum (cs_score c)),
     (''coverage'', JNum (cs_evidence_coverage c)),
     (''weight'', JNum (opt_or 0 (map_of (CATEGORY_WEIGHTS profile) (cs_category c)))),
     (''finding_count'', jnat (cs_finding_count c))]) (sc_categories sheet))"

definition finding_count_of :: "uid \<Rightarrow> ('w, nat) task" where
  "finding_count_of rid = gets (\<lambda>w. length (filter (\<lambda>f. fr_run f = rid) (finding_rows (tw_tables w))))"

definition dispatch_market_data :: "'w audit_env \<Rightarrow> audit_run \<Rightarrow> ('w, bool) task" where
  "dispatch_market_data env r =
     (if \<not> ae_market_enabled env then ret False
      else case ae_market_configured env r of
        Inl e \<Rightarrow> bindA (record_now env 13 ''market_data.queue_failed'' r []) (\<lambda>_. ret False)
      | Inr False \<Rightarrow> ret False
      | Inr True \<Rightarrow>
          bindA (commit env 12 (\<lambda>d. case get_or_create_stage (ae_fresh env ''stage'' 12) (run_id r) ''enriching'' 25 d of
              (d', s) \<Rightarrow> (Inr (), d'))) (\<lambda>_.
          case ae_send env ''studio.analysis.collect_market_data'' of
            Inl e \<Rightarrow> bindA (record_now env 13 ''market_data.queue_failed'' r []) (\<lambda>_. ret False)
          | Inr _ \<Rightarrow> ret True))"

definition queue_package :: "'w audit_env \<Rightarrow> audit_run \<Rightarrow> ('w, unit) task" where
  "queue_package env r =
     (if \<not> ae_auto_package env then ret ()
      else bindA (commit env 14 (\<lambda>d. case get_or_create_stage (ae_fresh env ''stage'' 14) (run_id r) ''packaging'' 30 d of
              (d', s) \<Rightarrow> (Inr (), d'))) (\<lambda>_.
           case ae_send env ''studio.analysis.build_audit_package'' of
             Inl e \<Rightarrow> record_now env 15 ''package.queue_failed'' r []
           | Inr _ \<Rightarrow> ret ()))"

datatype audit_report =
    Already run_state
  | Cancelled_meanwhile
  | Ready run_state nat nat

text \<open>After the pages are stored: rules, scorecard, and the hand-over to review.\<close>

definition auditing_phase :: "'w audit_env \<Rightarrow> audit_run \<Rightarrow> project \<Rightarrow> crawl_result \<Rightarrow> page_snapshot list \<Rightarrow>
    evidence_row list \<Rightarrow> integrity_payload \<Rightarrow> ('w, audit_report) task" where
  "auditing_phase env r p result pages evidence integrity =
     bindA (set_stage env 6 r ''auditing'' Stage_running [(''message'', JStr ''Applying evidence rules'')]) (\<lambda>_.
     bindA (on_tables (create_findings (attempt_of env r p) pages evidence integrity)) (\<lambda>engine.
     let profile = business_profile_of (business_type p) in
     bindA (pureA (lib (scorecard profile engine (map_of CATEGORY_COVERAGE) Map.empty DEFAULT_THRESHOLD))) (\<lambda>sheet.
     bindA (advance env 8 r (reviewed sheet (run_version r + 1))) (\<lambda>moved.
     case moved of None \<Rightarrow> ret Cancelled_meanwhile
     | Some r' \<Rightarrow>
       bindA (finding_count_of (run_id r)) (\<lambda>n.
       bindA (set_stage env 9 r' ''auditing'' Stage_succeeded
         [(''output_count'', jnat n), (''scorecard'', scorecard_json profile sheet),
          (''stopped_reason'', JStr (cx_stopped_reason result)), (''discovered'', jnat (cx_discovered_count result)),
          (''crawl_integrity'', integrity_json integrity)]) (\<lambda>_.
       bindA (record_now env 11 ''audit.ready_for_review'' r'
         [(''pages'', jnat (length pages)), (''findings'', jnat n)]) (\<lambda>_.
       bindA (dispatch_market_data env r') (\<lambda>_.
       bindA (queue_package env r') (\<lambda>_.
       ret (Ready (run_state r') (length pages) n))))))))))"

definition audit_body :: "'w audit_env \<Rightarrow> audit_run \<Rightarrow> project \<Rightarrow> ('w, audit_report) task" where
  "audit_body env r p =
     bindA (collecting_phase env r p) (\<lambda>(result, pages, evidence, integrity).
     bindA (advance env 5 r (to_auditing (ae_now env 2))) (\<lambda>moved.
     case moved of None \<Rightarrow> ret Cancelled_meanwhile
     | Some r' \<Rightarrow> auditing_phase env r' p result pages evidence integrity))"

subsection \<open>Failure\<close>

text \<open>
  \<open>order_by("-sequence").first()\<close>: among equal sequence numbers the database is free, and takes the earliest row
  here. The failed run is written with the version of the object in memory.
\<close>

definition active_stage :: "uid \<Rightarrow> db \<Rightarrow> run_stage option" where
  "active_stage rid d = (case filter (\<lambda>s. stage_run s = rid \<and> stage_state s = Stage_running) (stages d) of
     [] \<Rightarrow> None | s # ss \<Rightarrow> Some (foldl (\<lambda>best s. if stage_sequence best < stage_sequence s then s else best) s ss))"

definition fail_active :: "'w audit_env \<Rightarrow> audit_run \<Rightarrow> string \<Rightarrow> ('w, unit) task" where
  "fail_active env r summary =
     bindA (commit env 20 (\<lambda>d. (Inr (active_stage (run_id r) d), d))) (\<lambda>active.
     case active of None \<Rightarrow> ret ()
     | Some s \<Rightarrow> commit env 21 (\<lambda>d. (Inr (), save_stage (s\<lparr>stage_state := Stage_failed,
         stage_error_code := ''audit_execution_failed'', stage_error_summary := summary,
         finished_at := Some (ae_now env 20), heartbeat_at := Some (ae_now env 21)\<rparr>) d)))"

text \<open>
  The object in memory keeps its version until the hand-over: \<open>_advance_run\<close> to \<open>Auditing\<close> writes none, and an
  exception after the hand-over finds the version the hand-over wrote (\<open>Ready\<close> follows without an exception).
\<close>

definition fail_run_task :: "'w audit_env \<Rightarrow> audit_run \<Rightarrow> wf_error \<Rightarrow> ('w, audit_report) task" where
  "fail_run_task env r e =
     (let summary = take 1000 (ae_str env e) in
      bindA (fail_active env r summary) (\<lambda>_.
      bindA (advance env 22 r (to_failed summary (run_version r + 1))) (\<lambda>moved.
      bindA (case moved of None \<Rightarrow> ret () | Some r' \<Rightarrow> record_now env 23 ''audit.failed'' r' []) (\<lambda>_.
      raise e))))"

definition run_website_audit :: "'w audit_env \<Rightarrow> uid \<Rightarrow> ('w, audit_report) task" where
  "run_website_audit env pk =
     bindA (claim env pk) (\<lambda>c. case c of
       Inl r \<Rightarrow> ret (Already (run_state r))
     | Inr (r, p) \<Rightarrow> catchA (audit_body env r p) (\<lambda>e. fail_run_task env r e) ret)"

end
