(* ===== verification/Lifecycle.thy ===== *)
theory Lifecycle
  imports Audit_Task
begin

text \<open>
  The life of a run under every operation of the program that writes \<open>AuditRun\<close> or \<open>Approval\<close> rows: creation,
  transition and decision by users, the stale sweep, and the claim and the updates of the audit task. \<open>step\<close> is one
  committed statement or transaction; \<open>rest\<close> covers everything that leaves the two tables alone (stages, artifacts,
  quality results, memberships, events). Reachability is \<open>step\<^sup>*\<^sup>*\<close>, which is how concurrent workers and users
  interleave, since each of them commits one step at a time.
\<close>

subsection \<open>The automatic score\<close>

definition coverage_after :: "(string \<rightharpoonup> rat) \<Rightarrow> rat \<Rightarrow> (string \<times> rat) list \<Rightarrow> rat" where
  "coverage_after cov start entries = foldl (\<lambda>c kw. fadd c (fdiv (fmul (opt_or 0 (cov (fst kw))) (snd kw)) 100)) start entries"

lemma coverage_independent:
  "foldE (score_step fs cov ms) st entries = Inr st' \<Longrightarrow> st_coverage st' = coverage_after cov (st_coverage st) entries"
proof (induction entries arbitrary: st)
  case (Cons kw entries)
  from Cons.prems obtain st1 where one: "score_step fs cov ms st kw = Inr st1"
    and rest: "foldE (score_step fs cov ms) st1 entries = Inr st'" by (auto simp: bindE_Inr_iff)
  have "st_coverage st1 = fadd (st_coverage st) (fdiv (fmul (opt_or 0 (cov (fst kw))) (snd kw)) 100)"
    using one by (auto simp: score_step_def bindE_Inr_iff Let_def split: prod.splits)
  with Cons.IH [OF rest] show ?case by (simp add: coverage_after_def)
qed (simp add: coverage_after_def)

text \<open>Rounding moves a number up to 128 by at most \<open>2 ^ -46\<close>, so the coverage is near its exact value.\<close>

lemma fl_near:
  assumes "0 \<le> x" and "x \<le> 128"
  shows "\<bar>fl x - x\<bar> \<le> 1 / 2 ^ 46"
proof (cases "x = 0")
  case False
  let ?q = "2 powi (52 - fexp x) :: rat"
  have pos: "0 < x" using assms(1) False by simp
  have "(2::rat) powi ilog2 x \<le> 2 powi 7" using ilog2_bounds(1) [OF pos] assms(2) by simp
  then have "ilog2 x \<le> 7" by (rule powi2_le)
  with pos have "fexp x \<le> 7" by simp
  then have q: "(2::rat) ^ 45 \<le> ?q"
    using power_int_increasing [of 45 "52 - fexp x" "2 :: rat"] by simp
  have "\<bar>of_int (rhe (x * ?q)) - x * ?q\<bar> \<le> 1 / 2" using rhe_bounds [of "x * ?q"] by linarith
  then have "\<bar>of_int (rhe (x * ?q)) - x * ?q\<bar> / ?q \<le> 1 / 2 / ?q" by (rule divide_right_mono) simp
  then have "\<bar>(of_int (rhe (x * ?q)) - x * ?q) / ?q\<bar> \<le> 1 / 2 / ?q" by (simp only: abs_divide) simp
  also have "\<dots> \<le> 1 / 2 / 2 ^ 45" using q by (intro divide_left_mono) simp_all
  also have "(of_int (rhe (x * ?q)) - x * ?q) / ?q = fl x - x"
    using False by (simp add: fl_nonzero diff_divide_distrib)
  finally show ?thesis by simp
qed simp

definition exact_coverage :: "(string \<rightharpoonup> rat) \<Rightarrow> (string \<times> rat) list \<Rightarrow> rat" where
  "exact_coverage cov entries = sum_list (map (\<lambda>kw. opt_or 0 (cov (fst kw)) * snd kw / 100) entries)"

definition coverage_entries :: "(string \<rightharpoonup> rat) \<Rightarrow> (string \<times> rat) list \<Rightarrow> bool" where
  "coverage_entries cov entries \<longleftrightarrow> list_all (\<lambda>kw. 0 \<le> opt_or 0 (cov (fst kw)) \<and> opt_or 0 (cov (fst kw)) \<le> 1 \<and>
     0 \<le> snd kw \<and> snd kw \<le> 25) entries"

lemma coverage_near:
  assumes "coverage_entries cov entries" and "0 \<le> start" and "start + of_nat (length entries) \<le> 100"
  shows "coverage_after cov start entries \<le> start + exact_coverage cov entries + of_nat (length entries) * (3 / 2 ^ 46)"
  using assms
proof (induction entries arbitrary: start)
  case (Cons kw entries)
  let ?c = "opt_or 0 (cov (fst kw))" and ?w = "snd kw" and ?e = "1 / 2 ^ 46 :: rat"
  have cw: "0 \<le> ?c" "?c \<le> 1" "0 \<le> ?w" "?w \<le> 25" and rest: "coverage_entries cov entries"
    using Cons.prems(1) by (simp_all add: coverage_entries_def)
  have prod: "0 \<le> ?c * ?w" "?c * ?w \<le> 25" using cw mult_mono [of ?c 1 ?w 25] by simp_all
  have m: "0 \<le> fmul ?c ?w" "fmul ?c ?w \<le> ?c * ?w + ?e"
    using fl_near [of "?c * ?w"] fl_nonneg [OF prod(1)] prod unfolding fmul_def abs_le_iff by simp_all
  then have small: "fmul ?c ?w / 100 \<le> 1 / 3" using prod(2) by simp
  have d: "0 \<le> fdiv (fmul ?c ?w) 100" "fdiv (fmul ?c ?w) 100 \<le> ?c * ?w / 100 + 2 * ?e"
    using fl_near [of "fmul ?c ?w / 100"] fl_nonneg [of "fmul ?c ?w / 100"] m small unfolding fdiv_def abs_le_iff by simp_all
  let ?t = "fdiv (fmul ?c ?w) 100" and ?s = "fadd start (fdiv (fmul ?c ?w) 100)"
  have t: "?t \<le> 1 / 2" using d(2) prod(2) by simp
  have s100: "start \<le> 100" using Cons.prems(3) by simp
  have s: "0 \<le> ?s" "?s \<le> start + ?t + ?e"
    using fl_near [of "start + ?t"] fl_nonneg [of "start + ?t"] d(1) t Cons.prems(2) s100 unfolding fadd_def abs_le_iff by simp_all
  then have "?s + of_nat (length entries) \<le> 100" using t Cons.prems(3) by simp
  note tail = Cons.IH [OF rest s(1) this]
  have "coverage_after cov start (kw # entries) = coverage_after cov ?s entries"
    "exact_coverage cov (kw # entries) = ?c * ?w / 100 + exact_coverage cov entries"
    "of_nat (length (kw # entries)) * (3 / 2 ^ 46) = (3 / 2 ^ 46 :: rat) + of_nat (length entries) * (3 / 2 ^ 46)"
    by (simp_all add: coverage_after_def exact_coverage_def algebra_simps)
  with tail s(2) d(2) show ?case by linarith
qed (simp add: coverage_after_def exact_coverage_def)

lemma coverage_constants:
  "0 \<le> fl (7 / 10)" "0 \<le> fl (8 / 10)" "0 \<le> fl (6 / 10)"
  "fl (7 / 10) \<le> 7 / 10 + 1 / 2 ^ 46" "fl (8 / 10) \<le> 8 / 10 + 1 / 2 ^ 46" "fl (6 / 10) \<le> 6 / 10 + 1 / 2 ^ 46"
  "7 / 10 - 1 / 2 ^ 46 \<le> DEFAULT_THRESHOLD"
  using fl_near [of "7 / 10"] fl_near [of "8 / 10"] fl_near [of "6 / 10"] fl_nonneg
  unfolding abs_le_iff DEFAULT_THRESHOLD_def by simp_all

lemma automatic_coverage_low: "coverage_after (map_of CATEGORY_COVERAGE) 0 (CATEGORY_WEIGHTS profile) < DEFAULT_THRESHOLD"
proof -
  have ok: "coverage_entries (map_of CATEGORY_COVERAGE) (CATEGORY_WEIGHTS profile)"
    using coverage_constants by (cases profile) (simp_all add: coverage_entries_def CATEGORY_COVERAGE_def)
  have len: "length (CATEGORY_WEIGHTS profile) \<le> 10" by (cases profile) simp_all
  have exact: "exact_coverage (map_of CATEGORY_COVERAGE) (CATEGORY_WEIGHTS profile) \<le> 69 / 100"
    using coverage_constants by (cases profile) (simp_all add: exact_coverage_def CATEGORY_COVERAGE_def)
  have "coverage_after (map_of CATEGORY_COVERAGE) 0 (CATEGORY_WEIGHTS profile)
      \<le> 0 + exact_coverage (map_of CATEGORY_COVERAGE) (CATEGORY_WEIGHTS profile) + of_nat (length (CATEGORY_WEIGHTS profile)) * (3 / 2 ^ 46)"
    by (rule coverage_near [OF ok]) (use len in simp_all)
  also have "\<dots> \<le> 69 / 100 + 10 * (3 / 2 ^ 46)"
    using exact len by (intro add_mono mult_right_mono) simp_all
  also have "\<dots> < 7 / 10 - 1 / 2 ^ 46" by simp
  also have "\<dots> \<le> DEFAULT_THRESHOLD" by (rule coverage_constants)
  finally show ?thesis .
qed

definition automatic_sheet :: "scorecard_result \<Rightarrow> bool" where
  "automatic_sheet sheet \<longleftrightarrow>
     (\<exists>profile findings. scorecard profile findings (map_of CATEGORY_COVERAGE) Map.empty DEFAULT_THRESHOLD = Inr sheet)"

lemma automatic_sheet_withheld: "automatic_sheet sheet \<Longrightarrow> sc_overall_score sheet = None"
proof -
  assume "automatic_sheet sheet"
  then obtain profile fs where s: "scorecard profile fs (map_of CATEGORY_COVERAGE) Map.empty DEFAULT_THRESHOLD = Inr sheet"
    unfolding automatic_sheet_def by blast
  from scorecardD [OF s] obtain st where f: "foldE (score_step fs (map_of CATEGORY_COVERAGE) Map.empty)
      \<lparr>st_categories = [], st_coverage = 0, st_score = 0\<rparr> (CATEGORY_WEIGHTS profile) = Inr st"
    and o: "sc_overall_score sheet = (if DEFAULT_THRESHOLD \<le> st_coverage st then Some (pyround (st_score st) 2) else None)"
    by blast
  from coverage_independent [OF f] automatic_coverage_low [of profile] have "\<not> DEFAULT_THRESHOLD \<le> st_coverage st"
    by simp
  with o show ?thesis by simp
qed

subsection \<open>Steps\<close>

inductive worker_update :: "(audit_run \<Rightarrow> audit_run) \<Rightarrow> bool" where
  auditing: "worker_update (to_auditing captured)"
| review: "automatic_sheet sheet \<Longrightarrow> worker_update (reviewed sheet (Suc v))"
| failed: "worker_update (to_failed summary (Suc v))"

inductive step :: "db \<Rightarrow> db \<Rightarrow> bool" where
  created: "create_run_idempotent id aborted pk d p profile key rv actor req = Inr (d', r, b) \<Longrightarrow> step d d'"
| moved: "transition_run now d pk to_state actor v req reason = Inr (d', r) \<Longrightarrow> step d d'"
| decided: "decide_approval now d pk dec actor v comment req = Inr (d', a) \<Longrightarrow> step d d'"
| swept: "expire_stage now cutoff pk d = Inr (d', b) \<Longrightarrow> step d d'"
| claimed: "claim_run pk d t = Inr (x, d', t') \<Longrightarrow> step d d'"
| advanced: "worker_update upd \<Longrightarrow> step d (snd (advance_run pk upd d))"
| rest: "runs d' = runs d \<Longrightarrow> approvals d' = approvals d \<Longrightarrow> step d d'"

text \<open>What a step may do to a run that exists: the cases the invariants need.\<close>

definition approved_by :: "db \<Rightarrow> audit_run \<Rightarrow> bool" where
  "approved_by d r \<longleftrightarrow> (\<exists>a \<in> set (approvals d). approval_run a = run_id r \<and> approval_gate a = Gate_package \<and> decision a = Decision_approved)"

definition evolves :: "db \<Rightarrow> audit_run \<Rightarrow> audit_run \<Rightarrow> bool" where
  "evolves d r r' \<longleftrightarrow> run_id r' = run_id r \<and> run_project r' = run_project r \<and> idempotency_key r' = idempotency_key r \<and>
     (run_state r = Cancelled \<longrightarrow> run_state r' = Cancelled \<and> cancelled_at r' = cancelled_at r) \<and>
     (run_state r' = Approved \<longrightarrow> run_state r = Approved \<or> approved_by d r) \<and>
     (1 \<le> run_version r \<longrightarrow> 1 \<le> run_version r') \<and> (run_score_ok r \<longrightarrow> run_score_ok r')"

definition decides :: "approval \<Rightarrow> approval \<Rightarrow> bool" where
  "decides a a' \<longleftrightarrow> approval_id a' = approval_id a \<and> approval_run a' = approval_run a \<and> approval_gate a' = approval_gate a \<and>
     (decision a \<noteq> Decision_pending \<longrightarrow> a' = a)"

definition fresh_run :: "audit_run \<Rightarrow> bool" where
  "fresh_run r \<longleftrightarrow> run_state r = Draft \<and> run_version r = 1 \<and> run_health_score r = None"

lemma evolves_refl [simp]: "evolves d r r"
  by (simp add: evolves_def)

lemma decides_refl [simp]: "decides a a"
  by (simp add: decides_def)

lemma has_approval_iff: "has_approval d r Gate_package \<longleftrightarrow> approved_by d r"
  by (auto simp: has_approval_def approved_by_def list_ex_iff)

lemma all2_save:
  assumes "\<And>x. x \<in> set rows \<Longrightarrow> key x = key r' \<Longrightarrow> P x r'" and "\<And>x. P x x"
  shows "list_all2 P rows (save_row key r' rows)"
  unfolding save_row_def list_all2_map2 using assms by (intro list_all2_all_nthI) auto

lemma run_unique:
  "distinct (map run_id (runs d)) \<Longrightarrow> get_run d k = Inr r \<Longrightarrow> x \<in> set (runs d) \<Longrightarrow> run_id x = run_id r \<Longrightarrow> x = r"
  using get_runD [of d k r] by (auto simp: distinct_map dest: inj_onD)

lemma save_run_evolves:
  assumes "distinct (map run_id (runs d))" and "get_run d k = Inr r" and "evolves d r r'"
  shows "list_all2 (evolves d) (runs d) (save_row run_id r' (runs d))"
proof (rule all2_save)
  fix x assume "x \<in> set (runs d)" "run_id x = run_id r'"
  with run_unique [OF assms(1,2)] assms(3) show "evolves d x r'" by (auto simp: evolves_def)
qed simp

lemma published_score_withheld: "automatic_sheet sheet \<Longrightarrow> published_score sheet = None"
  by (simp add: published_score_def automatic_sheet_withheld)

lemma moved_run_evolves:
  assumes "t \<in> set (ALLOWED_TRANSITIONS (run_state r))" and "gates_open d r t"
  shows "evolves d r (moved_run now t r)"
proof -
  have "run_state r \<noteq> Cancelled" using assms(1) by auto
  moreover have "t = Approved \<Longrightarrow> run_state r = Packaged" using assms(1) by (cases "run_state r") auto
  ultimately show ?thesis
    using assms(2) by (auto simp: evolves_def moved_run_def gates_open_def has_approval_iff run_score_ok_def)
qed

lemma worker_update_evolves:
  "worker_update upd \<Longrightarrow> run_state r \<noteq> Cancelled \<Longrightarrow> evolves d r (upd r)"
  by (induction rule: worker_update.induct)
    (auto simp: evolves_def to_auditing_def to_failed_def reviewed_def to_review_def run_score_ok_def published_score_withheld)

lemma advance_run_evolves:
  "worker_update upd \<Longrightarrow> list_all2 (evolves d) (runs d) (runs (snd (advance_run pk upd d)))"
  by (simp add: advance_run_def list_all2_map2 list_all2_same worker_update_evolves)

text \<open>Every step maps the runs there are and may append fresh ones; approvals are only decided.\<close>

definition step_effect :: "db \<Rightarrow> db \<Rightarrow> bool" where
  "step_effect d d' \<longleftrightarrow> (\<exists>old new. runs d' = old @ new \<and> list_all2 (evolves d) (runs d) old \<and> list_all fresh_run new \<and>
      distinct (map run_id (runs d')) \<and> (keys_unique d \<longrightarrow> keys_unique d')) \<and> list_all2 decides (approvals d) (approvals d')"

lemma evolves_keys:
  "list_all2 (evolves d) rs rs' \<Longrightarrow> map run_id rs' = map run_id rs \<and>
     map (\<lambda>r. (run_project r, idempotency_key r)) rs' = map (\<lambda>r. (run_project r, idempotency_key r)) rs"
  by (induction rule: list_all2_induct) (auto simp: evolves_def)

lemma step_effectI:
  assumes "list_all2 (evolves d) (runs d) (runs d')" and "distinct (map run_id (runs d))"
    and "list_all2 decides (approvals d) (approvals d')"
  shows "step_effect d d'"
  unfolding step_effect_def keys_unique_def using assms evolves_keys [OF assms(1)]
  by (intro conjI exI [of _ "runs d'"] exI [of _ "[]"]) simp_all

lemma same_runs: "runs d' = runs d \<Longrightarrow> list_all2 (evolves d) (runs d) (runs d')"
  by (simp add: list_all2_same)

lemma same_approvals: "approvals d' = approvals d \<Longrightarrow> list_all2 decides (approvals d) (approvals d')"
  by (simp add: list_all2_same)

lemma decided_row:
  assumes "get_row ''Approval'' (\<lambda>a. approval_id a = pk) (approvals d) = Inr a" and "decision a = Decision_pending"
    and "distinct (map approval_id (approvals d))" and "approvals d' = save_row approval_id (decided now actor dec comment a) (approvals d)"
  shows "list_all2 decides (approvals d) (approvals d')"
  unfolding assms(4)
proof (rule all2_save)
  fix x assume x: "x \<in> set (approvals d)" "approval_id x = approval_id (decided now actor dec comment a)"
  then have "x = a" using assms(3) get_rowD [OF assms(1)] by (auto simp: decided_def distinct_map dest: inj_onD)
  then show "decides x (decided now actor dec comment a)" using assms(2) by (simp add: decides_def decided_def)
qed simp

definition ids_unique :: "db \<Rightarrow> bool" where
  "ids_unique d \<longleftrightarrow> distinct (map run_id (runs d)) \<and> distinct (map approval_id (approvals d))"

lemma quiet_effect: "runs d' = runs d \<Longrightarrow> approvals d' = approvals d \<Longrightarrow> ids_unique d \<Longrightarrow> step_effect d d'"
  by (intro step_effectI same_runs same_approvals) (simp_all add: ids_unique_def)

lemma save_run_effect:
  assumes "ids_unique d" and "get_run d k = Inr r" and "evolves d r r'" and "runs d' = save_row run_id r' (runs d)"
    and "list_all2 decides (approvals d) (approvals d')"
  shows "step_effect d d'"
  using assms save_run_evolves [of d k r r'] by (intro step_effectI) (simp_all add: ids_unique_def)

lemma created_effect:
  assumes "create_run_idempotent id aborted pk d p profile key rv actor req = Inr (d', r, b)" and "ids_unique d"
  shows "step_effect d d'"
proof (cases "d' = d")
  case True
  with assms(2) show ?thesis by (simp add: quiet_effect)
next
  case False
  then have ins: "insert_run aborted pk d p profile (strip key) rv actor req = Inr (d', r, b)"
    using assms(1) by (auto simp: create_run_Inr_iff split: option.splits)
  have no_clash: "\<not> list_ex (\<lambda>q. run_id q = pk \<or> same_key p (strip key) q) (runs d)"
    using insert_run_clash [OF _ ins] False by blast
  from insert_run_new [OF this ins] have r: "r = new_run pk p profile (strip key) rv actor" "runs d' = runs d @ [r]" by simp_all
  have "approvals d' = approvals d" using ins no_clash by (auto simp: insert_run_def Let_def)
  moreover have "distinct (map run_id (runs d'))"
    using assms(2) no_clash r by (auto simp: ids_unique_def list_ex_iff new_run_def)
  moreover have "keys_unique d \<longrightarrow> keys_unique d'" using insert_runD [OF ins] by simp
  moreover have "fresh_run r" by (simp add: r fresh_run_def new_run_def)
  ultimately show ?thesis
    unfolding step_effect_def r(2) by (intro conjI exI [of _ "runs d"] exI [of _ "[r]"]) (simp_all add: list_all2_same r(2))
qed

lemma moved_effect:
  assumes "transition_run now d pk to_state actor v req reason = Inr (d', r)" and "ids_unique d"
  shows "step_effect d d'"
proof -
  from transition_runE [OF assms(1)] obtain locked t where
    m: "get_run d pk = Inr locked" "t \<in> set (ALLOWED_TRANSITIONS (run_state locked))" "gates_open d locked t"
      "r = moved_run now t locked" "runs d' = save_row run_id r (runs d)" "approvals d' = approvals d" by metis
  show ?thesis
    by (rule save_run_effect [OF assms(2) m(1) _ m(5)]) (use moved_run_evolves [OF m(2,3)] m(4,6) in \<open>simp_all add: list_all2_same\<close>)
qed

lemma decided_effect:
  assumes "decide_approval now d pk dec actor v comment req = Inr (d', a)" and "ids_unique d"
  shows "step_effect d d'"
proof -
  from decide_approvalE [OF assms(1)] obtain a0 r dc where
    m: "get_row ''Approval'' (\<lambda>a. approval_id a = pk) (approvals d) = Inr a0" "get_run d (approval_run a0) = Inr r"
      "decision a0 = Decision_pending" "a = decided now actor dc comment a0"
      "runs d' = save_row run_id (r\<lparr>run_version := run_version r + 1\<rparr>) (runs d)" "approvals d' = save_row approval_id a (approvals d)"
    by metis
  have "list_all2 decides (approvals d) (approvals d')"
    by (rule decided_row [OF m(1,3)]) (use assms(2) m(4,6) in \<open>simp_all add: ids_unique_def\<close>)
  then show ?thesis
    by (intro save_run_effect [OF assms(2) m(2) _ m(5)]) (simp_all add: evolves_def run_score_ok_def)
qed

lemma swept_effect:
  assumes "expire_stage now cutoff pk d = Inr (d', b)" and "ids_unique d"
  shows "step_effect d d'"
proof -
  from assms(1) obtain s where s: "\<not> b \<Longrightarrow> d' = d" "b \<Longrightarrow> \<exists>r. get_run d (stage_run s) = Inr r \<and>
       runs d' = (if run_state r \<in> set TERMINAL_RUN_STATES then runs d
                  else save_row run_id (failed_run (expired_stage now s) r) (runs d))" "approvals d' = approvals d"
    by (rule expire_stageE) blast
  show ?thesis
  proof (cases b)
    case True
    with s(2) obtain r where r: "get_run d (stage_run s) = Inr r" and rs: "runs d' = (if run_state r \<in> set TERMINAL_RUN_STATES
        then runs d else save_row run_id (failed_run (expired_stage now s) r) (runs d))" by blast
    show ?thesis
    proof (cases "run_state r \<in> set TERMINAL_RUN_STATES")
      case True
      with rs s(3) assms(2) show ?thesis by (simp add: quiet_effect)
    next
      case False
      then have "evolves d r (failed_run (expired_stage now s) r)"
        by (simp add: TERMINAL_RUN_STATES_def evolves_def failed_run_def run_score_ok_def)
      with False rs s(3) show ?thesis by (intro save_run_effect [OF assms(2) r]) (simp_all add: list_all2_same)
    qed
  qed (use s assms(2) in \<open>simp add: quiet_effect\<close>)
qed

lemma claimed_effect:
  assumes "claim_run pk d t = Inr (x, d', t')" and "ids_unique d"
  shows "step_effect d d'"
proof -
  from assms(1) consider "d' = d" | r where "get_run d pk = Inr r" "run_state r \<in> {Draft, Failed}" "d' = save_run (claimed r) d"
    by (auto simp: claim_run_def bindE_Inr_iff split: if_splits)
  then show ?thesis
  proof cases
    case 1
    with assms(2) show ?thesis by (simp add: quiet_effect)
  next
    case 2
    have "evolves d r (claimed r)" using 2(2) by (auto simp: evolves_def claimed_def run_score_ok_def)
    with 2 show ?thesis by (intro save_run_effect [OF assms(2) 2(1)]) (simp_all add: list_all2_same)
  qed
qed

lemma advanced_effect: "worker_update upd \<Longrightarrow> ids_unique d \<Longrightarrow> step_effect d (snd (advance_run pk upd d))"
  using advance_run_evolves [of upd d pk]
  by (intro step_effectI same_approvals) (simp_all add: advance_run_def Let_def ids_unique_def)

lemma step_has_effect: "step d d' \<Longrightarrow> ids_unique d \<Longrightarrow> step_effect d d'"
  by (induction rule: step.induct)
    (simp_all add: created_effect moved_effect decided_effect swept_effect claimed_effect advanced_effect quiet_effect)

subsection \<open>Invariants of every reachable database\<close>

lemma demo_run_id: "run_id (demo_run k s) = k"
  by (simp add: demo_run_def new_run_def)

lemma demo_runs: "runs (demo_state s as) = [demo_run ''r1'' s]" "approvals (demo_state s as) = as"
  by (simp_all add: demo_state_def)

lemma decides_ids: "list_all2 decides as bs \<Longrightarrow> map approval_id bs = map approval_id as"
  by (induction rule: list_all2_induct) (auto simp: decides_def)

lemma effect_ids: "step_effect d d' \<Longrightarrow> ids_unique d \<Longrightarrow> ids_unique d'"
  by (auto simp: step_effect_def ids_unique_def dest: decides_ids)

lemma steps_induct [consumes 2, case_names start step]:
  assumes "step\<^sup>*\<^sup>* d d'" and "ids_unique d" and "P d"
    and "\<And>x y. step x y \<Longrightarrow> step_effect x y \<Longrightarrow> ids_unique x \<Longrightarrow> P x \<Longrightarrow> P y"
  shows "P d' \<and> ids_unique d'"
  using assms(1)
proof (induction rule: rtranclp_induct)
  case base
  then show ?case using assms(2,3) by simp
next
  case (step y z)
  then have "step_effect y z" by (simp add: step_has_effect)
  with step assms(4) effect_ids show ?case by blast
qed

definition well_formed :: "db \<Rightarrow> bool" where
  "well_formed d \<longleftrightarrow> ids_unique d \<and> keys_unique d \<and> list_all (\<lambda>r. run_score_ok r \<and> 1 \<le> run_version r) (runs d)"

lemma effect_old_new:
  assumes "step_effect d d'" and "r' \<in> set (runs d')"
  shows "fresh_run r' \<or> (\<exists>r \<in> set (runs d). evolves d r r')"
proof -
  from assms(1) obtain old new where rs: "runs d' = old @ new" and l: "list_all2 (evolves d) (runs d) old" "list_all fresh_run new"
    by (auto simp: step_effect_def)
  from assms(2) rs consider "r' \<in> set new" | "r' \<in> set old" by auto
  then show ?thesis
  proof cases
    case 1
    with l(2) show ?thesis by (auto simp: list_all_iff)
  next
    case 2
    with l(1) show ?thesis by (metis in_set_conv_nth list_all2_conv_all_nth)
  qed
qed

lemma effect_follows:
  assumes "step_effect d d'" and "r \<in> set (runs d)"
  shows "\<exists>r' \<in> set (runs d'). evolves d r r'"
proof -
  from assms(1) obtain old new where rs: "runs d' = old @ new" and l: "list_all2 (evolves d) (runs d) old"
    by (auto simp: step_effect_def)
  from l assms(2) obtain r' where "r' \<in> set old" "evolves d r r'" by (metis in_set_conv_nth list_all2_conv_all_nth)
  with rs show ?thesis by auto
qed





text \<open>
  C16: No run is delivered without the final approval. A run that any history brings to \<open>Approved\<close> has a package
  approval that stood in the database at the start, pending or granted, and that is granted now; the operations
  insert no approval, so without such a row no run is ever approved.
\<close>

theorem approved_needs_package_approval:
  assumes "step\<^sup>*\<^sup>* d d'" and "ids_unique d" and "list_all (\<lambda>r. run_state r \<noteq> Approved) (runs d)"
    and "r' \<in> set (runs d')" and "run_state r' = Approved"
  shows "approved_by d' r' \<and> (\<exists>a \<in> set (approvals d). approval_run a = run_id r' \<and> approval_gate a = Gate_package \<and>
    decision a \<in> {Decision_pending, Decision_approved})"
proof -
  let ?P = "\<lambda>x. list_all2 decides (approvals d) (approvals x) \<and> (\<forall>r \<in> set (runs x). run_state r = Approved \<longrightarrow> approved_by x r)"
  have keep: "approved_by y r" if "list_all2 decides (approvals x) (approvals y)" "approved_by x q" "run_id r = run_id q" for x y q r
  proof -
    from that(2) obtain a where a: "a \<in> set (approvals x)" "approval_run a = run_id q" "approval_gate a = Gate_package"
      "decision a = Decision_approved" by (auto simp: approved_by_def)
    with that(1) obtain b where "b \<in> set (approvals y)" "decides a b" by (metis in_set_conv_nth list_all2_conv_all_nth)
    with a that(3) show ?thesis by (auto simp: approved_by_def decides_def)
  qed
  from assms(1,2) have "?P d' \<and> ids_unique d'"
  proof (induction rule: steps_induct)
    case start
    show ?case using assms(3) by (simp add: list_all2_same list_all_iff)
  next
    case (step x y)
    have dec: "list_all2 decides (approvals x) (approvals y)" using step(2) by (simp add: step_effect_def)
    have "approved_by y r" if "r \<in> set (runs y)" "run_state r = Approved" for r
      using effect_old_new [OF step(2) that(1)]
    proof
      assume "fresh_run r" with that(2) show ?thesis by (simp add: fresh_run_def)
    next
      assume "\<exists>q \<in> set (runs x). evolves x q r"
      then obtain q where q: "q \<in> set (runs x)" "evolves x q r" by blast
      with that(2) step(4) have "approved_by x q" by (auto simp: evolves_def)
      with q show ?thesis by (intro keep [OF dec]) (simp_all add: evolves_def)
    qed
    moreover have "list_all2 decides (approvals d) (approvals y)"
      by (rule list_all2_trans [OF _ conjunct1 [OF step(4)] dec]) (auto simp: decides_def)
    ultimately show ?case by simp
  qed
  then have P: "?P d'" by simp
  with assms(4,5) obtain b where b: "b \<in> set (approvals d')" "approval_run b = run_id r'" "approval_gate b = Gate_package"
    "decision b = Decision_approved" and by': "approved_by d' r'" by (auto simp: approved_by_def)
  from P b(1) obtain a where "a \<in> set (approvals d)" "decides a b" by (metis in_set_conv_nth list_all2_conv_all_nth)
  with b by' show ?thesis by (auto simp: decides_def)
qed

lemma demo_admin_role: "role demo_admin = Agency_admin" "is_superuser demo_admin \<longleftrightarrow> False"
  by (simp_all add: demo_admin_def)

lemma approved_needs_package_approval_witness:
  "\<exists>d' r'. step (demo_state Packaged [demo_approval Gate_package Decision_approved]) d' \<and>
     runs d' = [r'] \<and> run_state r' = Approved \<and> approved_by d' r'"
proof -
  let ?d = "demo_state Packaged [demo_approval Gate_package Decision_approved]"
  let ?r = "moved_run 7 Approved (demo_run ''r1'' Packaged)"
  have "permitted ?d demo_admin (demo_project ''p1'' ''c1'') Approved []"
    by (simp add: permitted_def can_approve_gate_def review_iff_access admin_accesses demo_lookups demo_admin_role)
  moreover have "gates_open ?d (demo_run ''r1'' Packaged) Approved"
    by (simp add: gates_open_def has_approval_iff approved_by_def demo_runs demo_run_id demo_approval_def)
  moreover have "Approved \<in> set (ALLOWED_TRANSITIONS (run_state (demo_run ''r1'' Packaged)))" by (simp only: demo_lookups(4)) simp
  ultimately obtain d' where m: "transition_run 7 ?d ''r1'' (state_value Approved) demo_admin 1 None [] = Inr (d', ?r)"
    using transition_runI [OF demo_lookups(1,3) _ demo_lookups(2)] by blast
  then have s: "step ?d d'" by (rule step.moved)
  from m have "runs d' = save_row run_id ?r (runs ?d)" by (rule transition_runE)
  then have rs: "runs d' = [?r]" by (simp add: save_row_def demo_runs moved_run_def)
  have st: "run_state ?r = Approved" by (simp add: moved_run_def)
  have "approved_by d' ?r \<and> list_ex (\<lambda>a. approval_run a = run_id ?r) (approvals ?d)"
    using approved_needs_package_approval [OF r_into_rtranclp, OF s, of ?r] rs st
    by (simp add: ids_unique_def demo_runs demo_lookups list_ex_iff)
  with s rs st show ?thesis by blast
qed

end
