(* ===== verification/Audit_Outcome.thy ===== *)
theory Audit_Outcome
  imports Lifecycle
begin

text \<open>
  The audit task inside the life of a run: whatever it does to the workflow tables is a sequence of steps, so the
  invariants of \<open>Lifecycle\<close> hold while it runs and after it; and what a run looks like when the task hands it over.
\<close>

subsection \<open>The task takes steps only\<close>

lemma keeps_bool [keeps_intros]:
  "keeps I m \<Longrightarrow> keeps I n \<Longrightarrow> keeps I (case b of True \<Rightarrow> m | False \<Rightarrow> n)"
  by (cases b) simp_all

definition reaches :: "db \<Rightarrow> 'w task_world \<Rightarrow> bool" where
  "reaches d0 w \<longleftrightarrow> step\<^sup>*\<^sup>* d0 (tw_db w)"

definition others_step :: "'w audit_env \<Rightarrow> bool" where
  "others_step env \<longleftrightarrow> (\<forall>n d. step\<^sup>*\<^sup>* d (ae_others env n d))"

lemma keeps_commit:
  assumes "others_step env" and "\<And>d. step\<^sup>*\<^sup>* d (snd (f d))"
  shows "keeps (reaches d0) (commit env n f)"
proof (rule keepsI)
  fix w :: "'a task_world"
  assume "reaches d0 w"
  then have "step\<^sup>*\<^sup>* d0 (ae_others env n (tw_db w))"
    using assms(1) by (auto simp: reaches_def others_step_def intro: rtranclp_trans)
  with assms(2) [of "ae_others env n (tw_db w)"] show "reaches d0 (snd (commit env n f w))"
    by (simp add: commit_def reaches_def split: prod.split) (metis rtranclp_trans snd_conv)
qed

lemma keeps_on_tables: "keeps (reaches d0) (on_tables m)"
  by (rule keepsI) (simp add: on_tables_def reaches_def split: prod.split)

lemma rest_steps: "runs d' = runs d \<Longrightarrow> approvals d' = approvals d \<Longrightarrow> step\<^sup>*\<^sup>* d d'"
  by (intro r_into_rtranclp step.rest)

lemma stage_steps:
  "step\<^sup>*\<^sup>* d (snd (case get_or_create_stage k r name q d of (d', s) \<Rightarrow> (x s, d')))"
  "step\<^sup>*\<^sup>* d (save_stage s d)" "step\<^sup>*\<^sup>* d (run_event ty actor req run data d)"
  by (auto simp: get_or_create_stage_def split: option.splits intro!: rest_steps)

lemma keeps_set_stage: "others_step env \<Longrightarrow> keeps (reaches d0) (set_stage env n r name status data)"
  unfolding set_stage_def by (intro keeps_intros keeps_commit) (simp_all add: stage_steps)

lemma keeps_record: "others_step env \<Longrightarrow> keeps (reaches d0) (record_now env n ty r data)"
  unfolding record_now_def by (intro keeps_commit) (simp_all add: stage_steps)

lemma keeps_advance:
  assumes "others_step env" and "worker_update upd"
  shows "keeps (reaches d0) (advance env n r upd)"
  unfolding advance_def
proof (rule keeps_commit [OF assms(1)])
  fix d
  have "step d (snd (advance_run (run_id r) upd d))" by (rule step.advanced [OF assms(2)])
  then show "step\<^sup>*\<^sup>* d (snd (case advance_run (run_id r) upd d of (updated, d') \<Rightarrow> (Inr (if updated then Some (upd r) else None), d')))"
    by (auto split: prod.split)
qed

lemma run_crawl_returns: "\<exists>out. run_crawl env cfg seeds w = Some out \<and> tw_db (snd out) = tw_db w"
  using crawl_returns by (auto simp: run_crawl_def split: sum.split) fastforce

lemma keeps_crawl_phase: "keeps (reaches d0) (crawl_phase env r p)"
proof (rule keepsI)
  fix w :: "'a task_world"
  assume "reaches d0 w"
  with run_crawl_returns [of env "audit_config env r p" "[''https://'' @ primary_domain p @ ''/'']" w]
  show "reaches d0 (snd (crawl_phase env r p w))" by (auto simp: crawl_phase_def reaches_def)
qed

lemmas keeps_task = keeps_set_stage keeps_record keeps_advance

lemma keeps_collecting: "others_step env \<Longrightarrow> keeps (reaches d0) (collecting_phase env r p)"
  unfolding collecting_phase_def by (intro keeps_intros keeps_task keeps_crawl_phase keeps_on_tables)

lemma keeps_auditing:
  assumes "others_step env"
  shows "keeps (reaches d0) (auditing_phase env r p result pages evidence integrity)"
proof -
  have sheet: "automatic_sheet sheet" if "pureA (lib (scorecard pr fs (map_of CATEGORY_COVERAGE) Map.empty DEFAULT_THRESHOLD)) s = (Inr sheet, s')"
    for pr fs sheet and s s' :: "'a task_world"
    using that by (auto simp: action_cases automatic_sheet_def)
  show ?thesis
    unfolding auditing_phase_def dispatch_market_data_def queue_package_def finding_count_of_def
    by (intro keeps_intros keeps_task [OF assms] keeps_commit [OF assms] keeps_on_tables)
      (use sheet in \<open>auto simp: stage_steps intro: worker_update.review\<close>)
qed

lemma keeps_body: "others_step env \<Longrightarrow> keeps (reaches d0) (audit_body env r p)"
  unfolding audit_body_def
  by (intro keeps_intros keeps_collecting keeps_auditing keeps_advance worker_update.auditing)

lemma keeps_fail: "others_step env \<Longrightarrow> keeps (reaches d0) (fail_run_task env r e)"
  unfolding fail_run_task_def fail_active_def Suc_eq_plus1 [symmetric]
  by (intro keeps_intros keeps_advance keeps_record worker_update.failed keeps_commit) (simp_all add: stage_steps)

lemma keeps_claim:
  assumes "others_step env"
  shows "keeps (reaches d0) (claim env pk)"
proof (rule keepsI)
  fix w :: "'a task_world"
  assume "reaches d0 w"
  then have before: "step\<^sup>*\<^sup>* d0 (ae_others env 0 (tw_db w))"
    using assms by (auto simp: reaches_def others_step_def intro: rtranclp_trans)
  show "reaches d0 (snd (claim env pk w))"
  proof (cases "claim_run pk (ae_others env 0 (tw_db w)) (tw_tables w)")
    case (Inl e)
    with before show ?thesis by (simp add: claim_def reaches_def Let_def)
  next
    case (Inr out)
    obtain x d' t' where out: "out = (x, d', t')" by (cases out)
    have "step\<^sup>*\<^sup>* d0 d'"
      by (rule rtranclp.rtrancl_into_rtrancl [OF before step.claimed]) (use Inr out in simp)
    with Inr out show ?thesis by (simp add: claim_def reaches_def Let_def)
  qed
qed

lemma keeps_audit: "others_step env \<Longrightarrow> keeps (reaches d0) (run_website_audit env pk)"
  unfolding run_website_audit_def by (intro keeps_intros keeps_claim keeps_body keeps_fail)

text \<open>
  C14: The audit task refines the life of a run: when the other processes only take steps between its statements,
  everything the task leaves in the workflow tables, returning or raising, is reachable by steps from where it
  began. So a run that a user cancels while the crawl is under way is still cancelled when the task ends.
\<close>

theorem audit_task_refines_lifecycle:
  assumes "\<And>n d. step\<^sup>*\<^sup>* d (ae_others env n d)"
  shows "step\<^sup>*\<^sup>* (tw_db w) (tw_db (snd (run_website_audit env pk w)))"
proof -
  have "others_step env" using assms by (simp add: others_step_def)
  from keeps_audit [OF this, of "tw_db w" pk] show ?thesis by (auto simp: keeps_def reaches_def)
qed


definition quiet_env :: "(nat \<Rightarrow> db \<Rightarrow> db) \<Rightarrow> unit audit_env" where
  "quiet_env others = \<lparr>ae_others = others, ae_now = (\<lambda>n. n), ae_fresh = (\<lambda>t n. ''k''), ae_crawl = demo_env,
     ae_page_limit = 25, ae_duration = 60, ae_str = (\<lambda>e. ''failure''), ae_market_enabled = False,
     ae_market_configured = (\<lambda>r. Inr False), ae_send = (\<lambda>t. Inr ()), ae_auto_package = False\<rparr>"

definition demo_task_world :: "db \<Rightarrow> unit task_world" where
  "demo_task_world d = \<lparr>tw_db = d, tw_tables = empty_tables, tw_crawler = new_crawler ()\<rparr>"

lemma audit_task_refines_lifecycle_witness:
  "step\<^sup>*\<^sup>* (demo_state Draft []) (tw_db (snd (run_website_audit (quiet_env (\<lambda>n d. d)) ''r1'' (demo_task_world (demo_state Draft [])))))"
  using audit_task_refines_lifecycle [of "quiet_env (\<lambda>n d. d)" "demo_task_world (demo_state Draft [])" "''r1''"]
  by (simp add: quiet_env_def demo_task_world_def)

subsection \<open>What the task hands over\<close>

lemma get_run_map:
  assumes "get_run d k = Inr q" and "\<And>r. run_id (g r) = run_id r"
  shows "get_run (d\<lparr>runs := map g (runs d)\<rparr>) k = Inr (g q)"
proof -
  have "find (\<lambda>r. run_id r = k) (map g rs) = map_option g (find (\<lambda>r. run_id r = k) rs)" for rs
    by (induction rs) (simp_all add: assms(2))
  with assms(1) show ?thesis by (auto simp: get_run_def get_row_def split: option.splits)
qed

lemma advance_row:
  assumes "get_run (ae_others env n (tw_db w)) (run_id r) = Inr q" and "\<And>x. run_id (upd x) = run_id x"
  shows "get_run (tw_db (snd (advance env n r upd w))) (run_id r) = Inr (if run_state q = Cancelled then q else upd q)"
proof -
  let ?g = "\<lambda>x. if run_id x = run_id r \<and> run_state x \<noteq> Cancelled then upd x else x"
  have "run_id q = run_id r" using get_runD [OF assms(1)] by simp
  moreover have "get_run ((ae_others env n (tw_db w))\<lparr>runs := map ?g (runs (ae_others env n (tw_db w)))\<rparr>) (run_id r) = Inr (?g q)"
    by (rule get_run_map [OF assms(1)]) (simp add: assms(2))
  ultimately show ?thesis by (simp add: advance_def commit_def advance_run_def Let_def)
qed

lemma worker_update_ids [simp]:
  "run_id (to_auditing c r) = run_id r" "run_id (to_review a b v r) = run_id r" "run_id (to_failed s v r) = run_id r"
  "run_id (reviewed sheet v r) = run_id r"
  by (simp_all add: to_auditing_def to_review_def to_failed_def reviewed_def)

text \<open>
  C23: The hand-over to review does not look at the version the run has by then: whatever state other than
  \<open>Cancelled\<close> it is in, delivered runs included, it goes back to gate 1 review with the version the worker
  read at its claim plus one, so a version that users raised in between is lowered again.
\<close>

theorem late_handover_overwrites:
  assumes "get_run (ae_others env n (tw_db w)) (run_id r) = Inr q" and "run_state q \<noteq> Cancelled"
  shows "\<exists>q'. get_run (tw_db (snd (advance env n r (reviewed sheet (run_version r + 1)) w))) (run_id r) = Inr q' \<and>
    run_state q' = Gate_1_review \<and> run_version q' = run_version r + 1"
proof -
  have "get_run (tw_db (snd (advance env n r (reviewed sheet (run_version r + 1)) w))) (run_id r) =
      Inr (reviewed sheet (run_version r + 1) q)"
    using advance_row [where n = n, OF assms(1), of "reviewed sheet (run_version r + 1)"] assms(2) by simp
  then show ?thesis by (simp add: reviewed_def to_review_def)
qed

lemma late_handover_overwrites_witness:
  "\<exists>q'. get_run (tw_db (snd (advance (quiet_env (\<lambda>n d. d\<lparr>runs := [(demo_run ''r1'' Approved)\<lparr>run_version := 9\<rparr>]\<rparr>)) 8 (demo_run ''r1'' Auditing)
      (reviewed \<lparr>sc_version = [], sc_business_profile = Hybrid, sc_categories = [], sc_weighted_coverage = 0, sc_overall_score = None,
         sc_overall_unavailable_reason = None\<rparr>
        (run_version (demo_run ''r1'' Auditing) + 1)) (demo_task_world (demo_state Auditing []))))) ''r1'' = Inr q' \<and>
    run_state q' = Gate_1_review \<and> run_version q' = 2"
proof -
  let ?e = "quiet_env (\<lambda>n d. d\<lparr>runs := [(demo_run ''r1'' Approved)\<lparr>run_version := 9\<rparr>]\<rparr>)"
  have "get_run (ae_others ?e 8 (tw_db (demo_task_world (demo_state Auditing [])))) (run_id (demo_run ''r1'' Auditing)) =
      Inr ((demo_run ''r1'' Approved)\<lparr>run_version := 9\<rparr>)"
    by (simp add: quiet_env_def demo_task_world_def get_run_def get_row_def demo_run_def new_run_def)
  moreover have "run_state ((demo_run ''r1'' Approved)\<lparr>run_version := 9\<rparr>) \<noteq> Cancelled" by (simp add: demo_lookups)
  ultimately show ?thesis
    using late_handover_overwrites [of ?e 8 "demo_task_world (demo_state Auditing [])" "demo_run ''r1'' Auditing" _ "\<lparr>sc_version = [], sc_business_profile = Hybrid, sc_categories = [],
      sc_weighted_coverage = 0, sc_overall_score = None, sc_overall_unavailable_reason = None\<rparr>"] by (simp add: demo_run_id demo_lookups numeral_2_eq_2)
qed

subsection \<open>What a failure leaves\<close>

lemma steps_ids: "step\<^sup>*\<^sup>* d d' \<Longrightarrow> ids_unique d \<Longrightarrow> ids_unique d'"
  using steps_induct [where P = "\<lambda>_. True"] by blast

lemma claimed_runE:
  assumes "claim env pk w = (Inr (Inr (r, p)), w1)"
  obtains q where "get_run (ae_others env 0 (tw_db w)) pk = Inr q" "run_id r = pk" "step (ae_others env 0 (tw_db w)) (tw_db w1)"
proof (cases "claim_run pk (ae_others env 0 (tw_db w)) (tw_tables w)")
  case (Inl e)
  with assms show ?thesis by (simp add: claim_def Let_def)
next
  case (Inr out)
  obtain x d' t' where out: "out = (x, d', t')" by (cases out)
  with Inr assms have "x = Inr (r, p)" "tw_db w1 = d'" by (auto simp: claim_def Let_def)
  with Inr out have c: "claim_run pk (ae_others env 0 (tw_db w)) (tw_tables w) = Inr (Inr (r, p), tw_db w1, t')" by simp
  then obtain q where q: "get_run (ae_others env 0 (tw_db w)) pk = Inr q" "r = claimed q"
    by (auto simp: claim_run_def bindE_Inr_iff split: if_splits)
  with get_runD [OF q(1)] have "run_id r = pk" by (simp add: claimed_def)
  then show ?thesis by (rule that [OF q(1) _ step.claimed [OF c]])
qed

lemma run_persists:
  assumes "step\<^sup>*\<^sup>* d d'" and "ids_unique d" and "get_run d pk = Inr r"
  obtains q where "get_run d' pk = Inr q"
proof -
  from assms(1,2) have "(\<exists>q \<in> set (runs d'). run_id q = pk) \<and> ids_unique d'"
  proof (induction rule: steps_induct)
    case start
    show ?case using get_runD [OF assms(3)] by blast
  next
    case (step x y)
    then obtain q where "q \<in> set (runs x)" "run_id q = pk" by blast
    with effect_follows [OF step(2)] show ?case by (metis evolves_def)
  qed
  then have "find (\<lambda>r. run_id r = pk) (runs d') \<noteq> None" by (auto simp: find_None_iff)
  then show ?thesis using that by (auto simp: get_run_def get_row_def)
qed

lemma active_runs: "fail_active env r summary w = (x, w') \<Longrightarrow> ae_others env 20 = id \<Longrightarrow> ae_others env 21 = id \<Longrightarrow>
    x = Inr () \<and> get_run (tw_db w') pk = get_run (tw_db w) pk"
  by (auto simp: fail_active_def bindA_def ret_def commit_def get_run_def split: option.splits)

text \<open>
  C18: A failure of the audit is always recorded and never hidden: when the task has claimed a run and raises, the
  run ends cancelled, or \<open>Failed\<close> with the error code, the first thousand characters of the error and the next
  version, provided the other processes take steps only and leave the final statements undisturbed.
\<close>

theorem failed_audit_recorded:
  assumes "claim env pk w = (Inr (Inr (r, p)), w1)" and "run_website_audit env pk w = (Inl e, w')"
    and "\<And>n d. step\<^sup>*\<^sup>* d (ae_others env n d)" and "\<And>n. 20 \<le> n \<Longrightarrow> ae_others env n = id" and "ids_unique (tw_db w)"
  shows "\<exists>q. get_run (tw_db w') pk = Inr q \<and> (run_state q = Cancelled \<or> run_state q = Failed \<and>
    run_error_code q = ''audit_execution_failed'' \<and> run_error_summary q = take 1000 (ae_str env e) \<and> run_version q = run_version r + 1)"
proof -
  let ?d0 = "ae_others env 0 (tw_db w)"
  have others: "others_step env" using assms(3) by (simp add: others_step_def)
  have ids: "ids_unique ?d0" using steps_ids [OF assms(3,5)] .
  from assms(1) obtain q0 where q0: "get_run ?d0 pk = Inr q0" and id: "run_id r = pk" and "step ?d0 (tw_db w1)"
    by (rule claimed_runE)
  then have w1: "reaches ?d0 w1" by (simp add: reaches_def r_into_rtranclp)
  from assms(1,2) obtain e' w2 where body: "audit_body env r p w1 = (Inl e', w2)" and fail: "fail_run_task env r e' w2 = (Inl e, w')"
    by (auto simp: run_website_audit_def action_cases catchA_def ret_def split: prod.splits sum.splits)
  from keeps_body [OF others, of ?d0 r p] w1 body have "reaches ?d0 w2" by (auto dest!: keepsD)
  then obtain q where q: "get_run (tw_db w2) pk = Inr q" using run_persists [OF _ ids q0] by (auto simp: reaches_def)
  let ?upd = "to_failed (take 1000 (ae_str env e')) (run_version r + 1)"
  obtain x w3 where w3: "fail_active env r (take 1000 (ae_str env e')) w2 = (x, w3)" by (cases "fail_active env r (take 1000 (ae_str env e')) w2")
  with active_runs [OF w3, of pk] q assms(4) have x: "x = Inr ()" and q3: "get_run (tw_db w3) pk = Inr q" by simp_all
  obtain y w4 where w4: "advance env 22 r ?upd w3 = (y, w4)" by (cases "advance env 22 r ?upd w3")
  with advance_row [of env 22 w3 r q ?upd] q3 id assms(4) have q4: "get_run (tw_db w4) pk = Inr (if run_state q = Cancelled then q else ?upd q)"
    by simp
  from w4 obtain moved where y: "y = Inr moved" by (auto simp: advance_def commit_def split: prod.splits)
  have "e = e' \<and> get_run (tw_db w') pk = get_run (tw_db w4) pk"
    using fail w3 x w4 y assms(4) by (auto simp: fail_run_task_def action_cases record_now_def commit_def get_run_def Let_def split: option.splits)
  with q4 show ?thesis by (auto simp: to_failed_def)
qed

definition unscoped_state :: db where
  "unscoped_state = (demo_state Failed [])\<lparr>projects := [(demo_project ''p1'' ''c1'')\<lparr>approved_domains := []\<rparr>]\<rparr>"

lemma unscoped_audit:
  "(case claim (quiet_env (\<lambda>n d. d)) ''r1'' (demo_task_world unscoped_state) of (Inr (Inr x), w1) \<Rightarrow> True | _ \<Rightarrow> False)"
  "(case run_website_audit (quiet_env (\<lambda>n d. d)) ''r1'' (demo_task_world unscoped_state) of (Inl e, w1) \<Rightarrow> True | _ \<Rightarrow> False)"
  by code_simp+

lemma failed_audit_recorded_witness:
  "\<exists>r p w1 e w' q. claim (quiet_env (\<lambda>n d. d)) ''r1'' (demo_task_world unscoped_state) = (Inr (Inr (r, p)), w1) \<and>
     run_website_audit (quiet_env (\<lambda>n d. d)) ''r1'' (demo_task_world unscoped_state) = (Inl e, w') \<and>
     get_run (tw_db w') ''r1'' = Inr q \<and> run_state q \<in> {Cancelled, Failed}"
proof -
  obtain r p w1 where c: "claim (quiet_env (\<lambda>n d. d)) ''r1'' (demo_task_world unscoped_state) = (Inr (Inr (r, p)), w1)"
    using unscoped_audit(1) by (auto split: prod.splits sum.splits)
  moreover obtain e w' where f: "run_website_audit (quiet_env (\<lambda>n d. d)) ''r1'' (demo_task_world unscoped_state) = (Inl e, w')"
    using unscoped_audit(2) by (auto split: prod.splits sum.splits)
  moreover have "ids_unique (tw_db (demo_task_world unscoped_state))"
    by (simp add: ids_unique_def demo_task_world_def unscoped_state_def demo_state_def demo_db_def)
  moreover have "\<And>n d. step\<^sup>*\<^sup>* d (ae_others (quiet_env (\<lambda>n d. d)) n d)" "\<And>n. ae_others (quiet_env (\<lambda>n d. d)) n = id"
    by (simp_all add: quiet_env_def fun_eq_iff)
  ultimately show ?thesis using failed_audit_recorded [OF c f] by blast
qed

subsection \<open>What a retry leaves\<close>

text \<open>
  The claim of a failed run removes the pages, evidence, findings and crawl sources of the failed attempt and
  touches the findings of no other run, but it removes no action: every action item of the failed attempt stays
  in the run, beside those the retry will create.
\<close>

theorem retry_keeps_old_actions:
  assumes "claim_run pk d t = Inr (Inr (r, p), d', t')" and "get_run d pk = Inr q" and "run_state q = Failed"
  shows "list_all (\<lambda>f. fr_run f \<noteq> pk) (finding_rows t') \<and> list_all (\<lambda>g. pa_run g \<noteq> pk) (page_rows t') \<and>
    list_all (\<lambda>v. er_run v \<noteq> pk) (evidence_rows t') \<and> list_all (\<lambda>s. so_run s \<noteq> pk \<or> so_type s \<noteq> ''crawl'') (source_rows t') \<and>
    filter (\<lambda>f. fr_run f \<noteq> pk) (finding_rows t') = filter (\<lambda>f. fr_run f \<noteq> pk) (finding_rows t) \<and>
    map (\<lambda>c. (act_id c, act_run c, act_title c)) (action_rows t') = map (\<lambda>c. (act_id c, act_run c, act_title c)) (action_rows t)"
proof -
  have t': "t' = clear_prior_attempt pk t" using assms by (auto simp: claim_run_def bindE_Inr_iff split: if_splits)
  show ?thesis by (auto simp: t' clear_prior_attempt_def Let_def list_all_iff split: option.splits)
qed

definition old_action :: action_row where
  "old_action = \<lparr>act_id = ''a1'', act_run = ''r1'', act_recommendation = None, act_title = ''Repair'', act_description = [], act_week = 1,
     act_owner_label = [], act_impact = 1, act_evidence_confidence = 1, act_reach = 1, act_business_criticality = 1,
     act_dependency_urgency = 1, act_effort = 1, act_priority_score = 1, act_priority_tier = [], act_risk = Risk_class_low\<rparr>"

lemma retry_keeps_old_actions_witness:
  "\<exists>r p d' t'. claim_run ''r1'' (demo_state Failed []) (empty_tables\<lparr>action_rows := [old_action]\<rparr>) = Inr (Inr (r, p), d', t') \<and>
     map act_id (action_rows t') = [''a1'']"
proof -
  obtain r p d' t' where c: "claim_run ''r1'' (demo_state Failed []) (empty_tables\<lparr>action_rows := [old_action]\<rparr>) = Inr (Inr (r, p), d', t')"
    by (simp add: claim_run_def demo_lookups)
  from retry_keeps_old_actions [OF this demo_lookups(1)] have
    "map (\<lambda>c. (act_id c, act_run c, act_title c)) (action_rows t') = [(''a1'', ''r1'', ''Repair'')]"
    by (simp add: demo_lookups old_action_def)
  then have "map act_id (action_rows t') = [''a1'']" by auto
  with c show ?thesis by (intro exI conjI)
qed

end
