(* ===== verification/Py_Csv.thy ===== *)
theory Py_Csv
  imports Py_Text
begin

text \<open>
  The reader of Python's \<open>csv\<close> module: the state machine of \<open>_csv.c\<close> for dialects without escape character in
  non-strict mode with minimal quoting, which are the dialects the program uses (\<open>excel\<close> with a delimiter of its
  own, and what \<open>csv.Sniffer\<close> returns). \<open>csv_rows\<close> gives the rows the reader yields over a list of lines and
  the error that ends it, if one does. Lines are split as the two sources of lines of the program split them:
  \<open>StringIO\<close> at line feeds, files opened with \<open>newline=''\<close> at carriage returns too; both keep the line ends.
\<close>

record dialect =
  delimiter :: char
  quotechar :: char
  doublequote :: bool
  skipinitialspace :: bool

definition excel :: dialect where
  "excel = \<lparr>delimiter = CHR '','', quotechar = CHR 0x22, doublequote = True, skipinitialspace = False\<rparr>"

datatype csv_state = Start_record | Start_field | In_field | In_quoted_field | Quote_in_quoted_field | Eat_crnl

record reader =
  rd_state :: csv_state
  rd_field :: string
  rd_fields :: "string list"

definition FIELD_LIMIT :: nat where
  "FIELD_LIMIT = 131072"

definition newline_char :: "char \<Rightarrow> bool" where
  "newline_char c \<longleftrightarrow> code c = 10 \<or> code c = 13"

text \<open>The field is kept reversed; \<open>save_field\<close> closes it.\<close>

definition add_char :: "char \<Rightarrow> csv_state \<Rightarrow> reader \<Rightarrow> string + reader" where
  "add_char c st r = (if FIELD_LIMIT \<le> length (rd_field r) then Inl ''field larger than field limit (131072)''
     else Inr (r\<lparr>rd_field := c # rd_field r, rd_state := st\<rparr>))"

definition save_field :: "csv_state \<Rightarrow> reader \<Rightarrow> reader" where
  "save_field st r = r\<lparr>rd_fields := rd_fields r @ [rev (rd_field r)], rd_field := [], rd_state := st\<rparr>"

definition goto :: "csv_state \<Rightarrow> reader \<Rightarrow> reader" where
  "goto st r = r\<lparr>rd_state := st\<rparr>"

definition start_field :: "dialect \<Rightarrow> char \<Rightarrow> reader \<Rightarrow> string + reader" where
  "start_field d c r =
     (if newline_char c then Inr (save_field Eat_crnl r)
      else if c = quotechar d then Inr (goto In_quoted_field r)
      else if c = CHR '' '' \<and> skipinitialspace d then Inr (goto Start_field r)
      else if c = delimiter d then Inr (save_field Start_field r)
      else add_char c In_field r)"

fun process_char :: "dialect \<Rightarrow> char \<Rightarrow> csv_state \<Rightarrow> reader \<Rightarrow> string + reader" where
  "process_char d c Start_record r = (if newline_char c then Inr (goto Eat_crnl r) else start_field d c r)"
| "process_char d c Start_field r = start_field d c r"
| "process_char d c In_field r =
     (if newline_char c then Inr (save_field Eat_crnl r)
      else if c = delimiter d then Inr (save_field Start_field r) else add_char c In_field r)"
| "process_char d c In_quoted_field r =
     (if c = quotechar d then Inr (goto (if doublequote d then Quote_in_quoted_field else In_field) r)
      else add_char c In_quoted_field r)"
| "process_char d c Quote_in_quoted_field r =
     (if c = quotechar d then add_char c In_quoted_field r
      else if c = delimiter d then Inr (save_field Start_field r)
      else if newline_char c then Inr (save_field Eat_crnl r) else add_char c In_field r)"
| "process_char d c Eat_crnl r =
     (if newline_char c then Inr r
      else Inl (''new-line character seen in unquoted field - do you need to open the file with newline='' @
        [CHR 0x27, CHR 0x27, CHR ''?'']))"

fun end_of_line :: "csv_state \<Rightarrow> reader \<Rightarrow> reader" where
  "end_of_line Start_record r = r"
| "end_of_line Start_field r = save_field Start_record r"
| "end_of_line In_field r = save_field Start_record r"
| "end_of_line In_quoted_field r = r"
| "end_of_line Quote_in_quoted_field r = save_field Start_record r"
| "end_of_line Eat_crnl r = goto Start_record r"

definition read_line :: "dialect \<Rightarrow> string \<Rightarrow> reader \<Rightarrow> string + reader" where
  "read_line d line r =
     mapR (\<lambda>r. end_of_line (rd_state r) r) (foldE (\<lambda>r c. process_char d c (rd_state r) r) r line)"

definition fresh_reader :: reader where
  "fresh_reader = \<lparr>rd_state = Start_record, rd_field = [], rd_fields = []\<rparr>"

text \<open>
  A record ends with the line that brings the machine back to \<open>Start_record\<close>. When the lines end inside a
  quoted field, the fields read so far are the last row.
\<close>

fun read_rows :: "dialect \<Rightarrow> reader \<Rightarrow> string list \<Rightarrow> string list list \<times> string option" where
  "read_rows d r [] =
     (if rd_field r \<noteq> [] \<or> rd_state r = In_quoted_field then [rd_fields (save_field Start_record r)] else [], None)"
| "read_rows d r (line # lines) = (case read_line d line r of
     Inl e \<Rightarrow> ([], Some e)
   | Inr r' \<Rightarrow> if rd_state r' = Start_record
       then (case read_rows d fresh_reader lines of (rows, e) \<Rightarrow> (rd_fields r' # rows, e))
       else read_rows d r' lines)"

definition csv_rows :: "dialect \<Rightarrow> string list \<Rightarrow> string list list \<times> string option" where
  "csv_rows d lines = read_rows d fresh_reader lines"

subsection \<open>Lines\<close>

fun lines_lf :: "string \<Rightarrow> string list" where
  "lines_lf [] = []"
| "lines_lf (c # s) =
     (if code c = 10 then [c] # lines_lf s
      else (case lines_lf s of [] \<Rightarrow> [[c]] | l # ls \<Rightarrow> (c # l) # ls))"

fun lines_crlf :: "string \<Rightarrow> string list" where
  "lines_crlf [] = []"
| "lines_crlf (c # s) =
     (if code c = 10 \<or> code c = 13 \<and> (s = [] \<or> code (hd s) \<noteq> 10) then [c] # lines_crlf s
      else (case lines_crlf s of [] \<Rightarrow> [[c]] | l # ls \<Rightarrow> (c # l) # ls))"

lemma concat_lines_lf: "concat (lines_lf s) = s"
proof (induction s)
  case (Cons c s)
  then show ?case by (cases "lines_lf s") auto
qed simp

lemma concat_lines_crlf: "concat (lines_crlf s) = s"
proof (induction s)
  case (Cons c s)
  then show ?case by (cases "lines_crlf s") auto
qed simp

subsection \<open>Plain rows are read back\<close>

definition plain_field :: "dialect \<Rightarrow> string \<Rightarrow> bool" where
  "plain_field d f \<longleftrightarrow> f \<noteq> [] \<and> length f \<le> FIELD_LIMIT \<and>
     list_all (\<lambda>c. c \<noteq> delimiter d \<and> c \<noteq> quotechar d \<and> \<not> newline_char c) f \<and> (skipinitialspace d \<longrightarrow> hd f \<noteq> CHR '' '')"

lemma read_field:
  assumes "list_all (\<lambda>c. c \<noteq> delimiter d \<and> \<not> newline_char c) f" and "length (rd_field r) + length f \<le> FIELD_LIMIT"
    and "rd_state r = In_field"
  shows "foldE (\<lambda>r c. process_char d c (rd_state r) r) r f = Inr (r\<lparr>rd_field := rev f @ rd_field r\<rparr>)"
  using assms
proof (induction f arbitrary: r)
  case (Cons c f)
  let ?r = "r\<lparr>rd_field := c # rd_field r, rd_state := In_field\<rparr>"
  have "process_char d c (rd_state r) r = Inr ?r" using Cons.prems by (simp add: add_char_def)
  with Cons.IH [of ?r] Cons.prems show ?case by simp
qed simp

lemma read_plain_field:
  assumes "plain_field d f" and "rd_state r \<in> {Start_record, Start_field}" and "rd_field r = []"
  shows "foldE (\<lambda>r c. process_char d c (rd_state r) r) r f = Inr (r\<lparr>rd_field := rev f, rd_state := In_field\<rparr>)"
proof -
  from assms(1) obtain c cs where f: "f = c # cs" by (cases f) (auto simp: plain_field_def)
  let ?r = "r\<lparr>rd_field := [c], rd_state := In_field\<rparr>"
  have "start_field d c r = Inr ?r"
    using assms(1,3) f by (auto simp: start_field_def plain_field_def add_char_def FIELD_LIMIT_def)
  moreover have "\<not> newline_char c" using assms(1) f by (simp add: plain_field_def)
  ultimately have "process_char d c (rd_state r) r = Inr ?r" using assms(2) by auto
  moreover have "foldE (\<lambda>r c. process_char d c (rd_state r) r) ?r cs = Inr (?r\<lparr>rd_field := rev cs @ [c]\<rparr>)"
    using read_field [of d cs ?r] assms(1) f by (simp add: plain_field_def list_all_iff)
  ultimately show ?thesis by (simp add: f)
qed

lemma read_plain_row:
  assumes "list_all (plain_field d) fs" and "fs \<noteq> []" and "\<not> newline_char (delimiter d)"
    and "rd_state r \<in> {Start_record, Start_field}" and "rd_field r = []"
  shows "read_line d (join [delimiter d] fs @ [CHR 0x0A]) r =
    Inr \<lparr>rd_state = Start_record, rd_field = [], rd_fields = rd_fields r @ fs\<rparr>"
  using assms
proof (induction fs arbitrary: r rule: induct_list012)
  case (2 w)
  then have "foldE (\<lambda>r c. process_char d c (rd_state r) r) r w = Inr (r\<lparr>rd_field := rev w, rd_state := In_field\<rparr>)"
    by (intro read_plain_field) simp_all
  then show ?case by (simp add: read_line_def foldE_append save_field_def newline_char_def goto_def)
next
  case (3 w v ws)
  let ?r = "r\<lparr>rd_field := rev w, rd_state := In_field\<rparr>"
  have "foldE (\<lambda>r c. process_char d c (rd_state r) r) r w = Inr ?r" using "3.prems" by (intro read_plain_field) simp_all
  moreover have "process_char d (delimiter d) (rd_state ?r) ?r = Inr (save_field Start_field ?r)"
    using "3.prems"(3) by simp
  ultimately have "read_line d (join [delimiter d] (w # v # ws) @ [CHR 0x0A]) r =
      read_line d (join [delimiter d] (v # ws) @ [CHR 0x0A]) (save_field Start_field ?r)"
    by (simp add: read_line_def foldE_append)
  also have "\<dots> = Inr \<lparr>rd_state = Start_record, rd_field = [], rd_fields = rd_fields (save_field Start_field ?r) @ v # ws\<rparr>"
    using "3.IH"(2) [of "save_field Start_field ?r"] "3.prems" by (simp add: save_field_def)
  finally show ?case by (simp add: save_field_def)
qed simp

lemma csv_plain_rows:
  assumes "list_all (\<lambda>fs. fs \<noteq> [] \<and> list_all (plain_field d) fs) rows" and "\<not> newline_char (delimiter d)"
  shows "csv_rows d (map (\<lambda>fs. join [delimiter d] fs @ [CHR 0x0A]) rows) = (rows, None)"
  unfolding csv_rows_def using assms(1)
proof (induction rows)
  case (Cons fs rows)
  then have "read_line d (join [delimiter d] fs @ [CHR 0x0A]) fresh_reader =
      Inr \<lparr>rd_state = Start_record, rd_field = [], rd_fields = fs\<rparr>"
    using read_plain_row [of d fs fresh_reader] assms(2) by (simp add: fresh_reader_def)
  with Cons show ?case by simp
qed (simp add: fresh_reader_def)

end
