(* ===== verification/Py_Number.thy ===== *)
theory Py_Number
  imports Py_Float
begin

text \<open>
  Numbers read from text: \<open>float(text)\<close> with its infinities and not-a-number, \<open>int\<close> of a float, the shortest
  decimal \<open>repr\<close> writes for a float, and \<open>Decimal.quantize\<close> in the default context (28 digits, half even).
\<close>

datatype pyfloat = Finite rat | Infinite bool | Not_a_number

text \<open>Underscores may stand between two digits.\<close>

fun underscores_ok :: "bool \<Rightarrow> string \<Rightarrow> bool" where
  "underscores_ok digit_before [] = True"
| "underscores_ok digit_before (c # s) =
     (if c = CHR ''_'' then digit_before \<and> s \<noteq> [] \<and> digit_char (hd s) \<and> underscores_ok False s
      else underscores_ok (digit_char c) s)"

definition take_digits :: "string \<Rightarrow> string \<times> string" where
  "take_digits s = (takeWhile digit_char s, dropWhile digit_char s)"

definition split_sign :: "string \<Rightarrow> bool \<times> string" where
  "split_sign s = (case s of [] \<Rightarrow> (False, [])
     | c # t \<Rightarrow> if c = CHR ''-'' then (True, t) else if c = CHR ''+'' then (False, t) else (False, s))"

definition exponent_of :: "string \<Rightarrow> int option" where
  "exponent_of s = (case s of [] \<Rightarrow> Some 0
     | c # t \<Rightarrow> if to_lower c \<noteq> CHR ''e'' then None
        else (case split_sign t of (neg, ds) \<Rightarrow>
          if is_digits ds then Some (if neg then - int (nat_of_digits ds) else int (nat_of_digits ds)) else None))"

definition decimal_literal :: "string \<Rightarrow> rat option" where
  "decimal_literal s =
     (let (whole, s1) = take_digits s;
          (fraction, s2) = (case s1 of [] \<Rightarrow> ([], []) | c # t \<Rightarrow> if c = CHR ''.'' then take_digits t else ([], s1))
      in if whole = [] \<and> fraction = [] then None
         else map_option (\<lambda>e. of_nat (nat_of_digits (whole @ fraction)) * 10 powi (e - int (length fraction)))
           (exponent_of s2))"

text \<open>Half of the last unit above the largest finite value rounds to an infinity.\<close>

definition round_float :: "rat \<Rightarrow> pyfloat" where
  "round_float q = (if 2 ^ 1024 - 2 ^ 970 \<le> \<bar>q\<bar> then Infinite (q < 0) else Finite (fl q))"

definition py_float :: "string \<Rightarrow> pyfloat option" where
  "py_float text =
     (let s = strip text; t = filter (\<lambda>c. c \<noteq> CHR ''_'') s; (neg, body) = split_sign t; low = casefold body
      in if \<not> underscores_ok False s then None
         else if low = ''inf'' \<or> low = ''infinity'' then Some (Infinite neg)
         else if low = ''nan'' then Some Not_a_number
         else map_option (\<lambda>q. round_float (if neg then - q else q)) (decimal_literal body))"

text \<open>\<open>int(x)\<close>: truncation, \<open>ValueError\<close> for not-a-number and \<open>OverflowError\<close> for an infinity.\<close>

definition truncate :: "rat \<Rightarrow> int" where
  "truncate q = (if q < 0 then - \<lfloor>- q\<rfloor> else \<lfloor>q\<rfloor>)"

fun int_of_float :: "pyfloat \<Rightarrow> exn + int" where
  "int_of_float (Finite q) = Inr (truncate q)"
| "int_of_float (Infinite neg) = Inl (OtherError ''OverflowError'' ''cannot convert float infinity to integer'')"
| "int_of_float Not_a_number = Inl (ValueError ''cannot convert float NaN to integer'')"

text \<open>
  \<open>repr\<close>: of the decimals with the fewest significant digits that read back as the float, the nearest one, with
  an even last digit in a tie. \<open>10 powi k \<le> \<bar>x\<bar> < 10 powi (k + 1)\<close> for \<open>k = ilog10 \<bar>x\<bar>\<close>; 17 digits always do.
\<close>

definition ilog10 :: "rat \<Rightarrow> int" where
  "ilog10 x = (case quotient_of x of (n, d) \<Rightarrow>
     let k = int (length (str_of_nat (nat n))) - int (length (str_of_nat (nat d)))
     in if 10 powi k \<le> x then k else k - 1)"

fun find_first :: "('a \<Rightarrow> 'b option) \<Rightarrow> 'a list \<Rightarrow> 'b option" where
  "find_first f [] = None"
| "find_first f (x # xs) = (case f x of None \<Rightarrow> find_first f xs | Some y \<Rightarrow> Some y)"

definition repr_digits :: "rat \<Rightarrow> nat \<Rightarrow> rat option" where
  "repr_digits x n =
     (let u = 10 powi (ilog10 x - int n + 1); lo = \<lfloor>x / u\<rfloor>; hi = lo + 1; y = of_int lo * u; z = of_int hi * u
      in if fl y = x \<and> fl z = x
         then Some (if x - y < z - x then y else if z - x < x - y then z else if even lo then y else z)
         else if fl y = x then Some y else if fl z = x then Some z else None)"

definition frepr :: "rat \<Rightarrow> rat" where
  "frepr x = (if x = 0 then 0
     else let a = \<bar>x\<bar>; d = opt_or a (find_first (repr_digits a) [1..<18])
          in if x < 0 then - d else d)"

text \<open>\<open>None\<close> is \<open>InvalidOperation\<close>: the coefficient would need more than 28 digits.\<close>

definition quantize :: "nat \<Rightarrow> rat \<Rightarrow> rat option" where
  "quantize places q = (let c = rhe (q * 10 ^ places) in if 10 ^ 28 \<le> \<bar>c\<bar> then None else Some (of_int c / 10 ^ places))"

end
