(* ===== verification/Semrush_Reports.thy ===== *)
theory Semrush_Reports
  imports Py_Csv Py_Number Py_Json Urls Responses Robots_Txt Resilience
begin

text \<open>
  \<open>integrations/semrush_reports.py\<close>: requests with their price in API units, the classification of a response
  body, and the mapping of report rows. Text is ASCII, so the byte-order mark \<open>_clean\<close> removes does not occur.
  SHA-256, \<open>bytes.decode\<close> and the two date parsers of \<open>datetime\<close> are parameters.
\<close>

abbreviation usage_error :: "string \<Rightarrow> exn" where
  "usage_error m \<equiv> OtherError ''SemrushUsageError'' m"

subsection \<open>Reports and their price\<close>

definition API_ENDPOINT :: string where
  "API_ENDPOINT = ''https://api.semrush.com/''"

definition API_HOST :: string where
  "API_HOST = ''api.semrush.com''"

definition MAX_DISPLAY_LIMIT :: int where
  "MAX_DISPLAY_LIMIT = 100000"

definition EMPTY_RESULT_CODE :: int where
  "EMPTY_RESULT_CODE = 50"

definition CIRCUIT_BREAKING_CODES :: "int list" where
  "CIRCUIT_BREAKING_CODES = [120, 131, 132, 134]"

record report_spec =
  rs_type :: string
  rs_target_param :: string
  rs_columns :: "string list"
  rs_per_line :: int
  rs_flat :: int
  rs_uses_database :: bool
  rs_uses_target_type :: bool

definition per_line :: "string \<Rightarrow> string \<Rightarrow> string list \<Rightarrow> int \<Rightarrow> string \<times> report_spec" where
  "per_line ty param columns units = (ty, \<lparr>rs_type = ty, rs_target_param = param, rs_columns = columns, rs_per_line = units,
     rs_flat = 0, rs_uses_database = True, rs_uses_target_type = False\<rparr>)"

definition backlink_report :: "string \<Rightarrow> string list \<Rightarrow> int \<Rightarrow> int \<Rightarrow> string \<times> report_spec" where
  "backlink_report ty columns units flat = (ty, \<lparr>rs_type = ty, rs_target_param = ''target'', rs_columns = columns,
     rs_per_line = units, rs_flat = flat, rs_uses_database = False, rs_uses_target_type = True\<rparr>)"

definition REPORTS :: "(string \<times> report_spec) list" where
  "REPORTS =
    [per_line ''domain_ranks'' ''domain'' [''Db'', ''Dn'', ''Rk'', ''Or'', ''Ot'', ''Oc'', ''Ad'', ''At'', ''Ac''] 10,
     per_line ''domain_organic'' ''domain'' [''Ph'', ''Po'', ''Pp'', ''Nq'', ''Cp'', ''Co'', ''Nr'', ''Tr'', ''Tc'', ''Td'', ''Ur''] 10,
     per_line ''domain_organic_organic'' ''domain'' [''Dn'', ''Cr'', ''Np'', ''Or'', ''Ot'', ''Oc'', ''Ad''] 40,
     per_line ''domain_adwords'' ''domain'' [''Ph'', ''Po'', ''Pp'', ''Nq'', ''Cp'', ''Co'', ''Nr'', ''Tr'', ''Tc'', ''Ur''] 20,
     per_line ''url_organic'' ''url'' [''Ph'', ''Po'', ''Nq'', ''Cp'', ''Co'', ''Tr'', ''Tc''] 10,
     per_line ''phrase_this'' ''phrase'' [''Ph'', ''Nq'', ''Cp'', ''Co'', ''Nr'', ''Td''] 10,
     per_line ''phrase_all'' ''phrase'' [''Ph'', ''Nq'', ''Cp'', ''Co'', ''Nr''] 10,
     per_line ''phrase_kdi'' ''phrase'' [''Ph'', ''Kd''] 50,
     backlink_report ''backlinks_overview'' [''ascore'', ''total'', ''domains_num'', ''urls_num'', ''ips_num'', ''follows_num'', ''nofollows_num''] 0 40,
     backlink_report ''backlinks_refdomains'' [''domain_ascore'', ''domain'', ''backlinks_num'', ''country'', ''first_seen'', ''last_seen''] 40 0]"

definition is_flat_rate :: "report_spec \<Rightarrow> bool" where
  "is_flat_rate rs \<longleftrightarrow> 0 < rs_flat rs"

definition estimate_units :: "report_spec \<Rightarrow> int option \<Rightarrow> exn + int" where
  "estimate_units rs limit =
     (if is_flat_rate rs then Inr (rs_flat rs)
      else case limit of None \<Rightarrow> Inl (usage_error (rs_type rs @
          '' is billed per returned line; an explicit display_limit is mandatory (the API default is 10,000 lines).''))
        | Some n \<Rightarrow> Inr (rs_per_line rs * n))"

subsection \<open>Requests\<close>

record semrush_request =
  rq_report :: string
  rq_url :: string
  rq_cache_key :: string
  rq_units :: int
  rq_display_limit :: "int option"
  rq_params :: "(string \<times> string) list"

text \<open>\<open>re.sub(r"([?&])key=[^&]*&?", r"\1", url)\<close>: an occurrence is cut with the ampersand that follows it.\<close>

function (sequential) drop_key :: "string \<Rightarrow> string" where
  "drop_key [] = []"
| "drop_key (c # s) =
     (if c \<in> {CHR ''?'', CHR ''&''} \<and> take 4 s = ''key=''
      then c # drop_key (drop 1 (dropWhile (\<lambda>x. x \<noteq> CHR ''&'') (drop 4 s)))
      else c # drop_key s)"
  by pat_completeness auto
termination
  by (relation "measure length") (auto intro!: le_imp_less_Suc le_trans [OF diff_le_self] le_trans [OF length_dropWhile_le])

definition cache_key_for_url :: "(string \<Rightarrow> string) \<Rightarrow> string \<Rightarrow> string" where
  "cache_key_for_url sha url = sha (rstrip_of (\<lambda>c. c \<in> {CHR ''?'', CHR ''&''}) (drop_key url))"

definition all_chars :: "(char \<Rightarrow> bool) \<Rightarrow> nat \<Rightarrow> nat \<Rightarrow> string \<Rightarrow> bool" where
  "all_chars p lo hi s \<longleftrightarrow> lo \<le> length s \<and> length s \<le> hi \<and> list_all p s"

definition set_param :: "string \<Rightarrow> string \<Rightarrow> (string \<times> string) list \<Rightarrow> (string \<times> string) list" where
  "set_param k v ps = AList.update k v ps"

record request_options =
  ro_database :: "string option"
  ro_display_limit :: "int option"
  ro_display_sort :: "string option"
  ro_display_filter :: "string option"
  ro_export_columns :: "string list option"
  ro_target_type :: string

definition check_limit :: "string \<Rightarrow> report_spec \<Rightarrow> int option \<Rightarrow> exn + unit" where
  "check_limit report_type rs limit =
     (if is_flat_rate rs then Inr ()
      else case limit of
          None \<Rightarrow> Inl (usage_error (report_type @ '' requires an explicit display_limit; the SEMrush default of 10,000 lines would be billed in full.''))
        | Some n \<Rightarrow> if 1 \<le> n \<and> n \<le> MAX_DISPLAY_LIMIT then Inr ()
            else Inl (usage_error (''display_limit must be between 1 and '' @ str_of_int MAX_DISPLAY_LIMIT @ ''.'')))"

definition column_char :: "char \<Rightarrow> bool" where
  "column_char c \<longleftrightarrow> alpha_char c \<or> c = CHR ''_''"

definition request_params :: "report_spec \<Rightarrow> string \<Rightarrow> request_options \<Rightarrow> exn + (string \<times> string) list" where
  "request_params rs target opts =
     (let columns = (if opt_any (\<lambda>cs. cs \<noteq> []) (ro_export_columns opts) then the (ro_export_columns opts) else rs_columns rs);
          db = casefold (strip (opt_or [] (ro_database opts)));
          sort = opt_or [] (ro_display_sort opts); flt = opt_or [] (ro_display_filter opts);
          p0 = [(''type'', rs_type rs), (rs_target_param rs, strip target), (''export_columns'', join '','' columns), (''export_escape'', ''1'')];
          p1 = (if rs_uses_database rs then set_param ''database'' db p0 else p0);
          p2 = (if rs_uses_target_type rs then set_param ''target_type'' (ro_target_type opts) p1 else p1);
          p3 = (case ro_display_limit opts of None \<Rightarrow> p2 | Some n \<Rightarrow> set_param ''display_limit'' (str_of_int n) p2);
          p4 = (if sort \<noteq> [] then set_param ''display_sort'' sort p3 else p3)
      in bindE (raise_first
           [(\<not> list_all (all_chars column_char 1 40) columns, usage_error ''export_columns contains an unsupported column name.''),
            (rs_uses_database rs \<and> \<not> all_chars lower_char 2 8 db, usage_error ''A valid SEMrush database code is required.''),
            (rs_uses_target_type rs \<and> ro_target_type opts \<notin> {''root_domain'', ''domain'', ''url''},
              usage_error ''target_type must be root_domain, domain, or url.''),
            (sort \<noteq> [] \<and> \<not> all_chars (\<lambda>c. lower_char c \<or> c = CHR ''_'') 2 30 sort, usage_error ''display_sort contains an unsupported value.'')])
         (\<lambda>_. Inr (if flt \<noteq> [] then set_param ''display_filter'' flt p4 else p4)))"

definition build_request :: "(string \<Rightarrow> string) \<Rightarrow> string \<Rightarrow> string \<Rightarrow> string \<Rightarrow> request_options \<Rightarrow> exn + semrush_request" where
  "build_request sha report_type api_key target opts =
     (case map_of REPORTS report_type of
        None \<Rightarrow> Inl (usage_error (''Unknown SEMrush report type: '' @ report_type))
      | Some rs \<Rightarrow>
          bindE (raise_first [(strip api_key = [], usage_error ''A SEMrush API key is required to build a request.''),
              (strip target = [], usage_error ''A SEMrush request target is required.'')]) (\<lambda>_.
          bindE (check_limit report_type rs (ro_display_limit opts)) (\<lambda>_.
          bindE (request_params rs target opts) (\<lambda>params.
          bindE (estimate_units rs (ro_display_limit opts)) (\<lambda>units.
          let ordered = sort_key fst params
          in Inr \<lparr>rq_report = rs_type rs, rq_url = API_ENDPOINT @ ''?'' @ urlencode ((''key'', strip api_key) # ordered),
               rq_cache_key = cache_key_for_url sha (API_ENDPOINT @ ''?'' @ urlencode ordered), rq_units = units,
               rq_display_limit = ro_display_limit opts, rq_params = ordered\<rparr>)))))"

subsection \<open>Transport\<close>

text \<open>
  \<open>fetch_text\<close> over the guarded HTTP transport, as the executor sees it. An \<open>OSError\<close> of the transport is already
  a \<open>CrawlError\<close>; every other exception class is an \<open>Exception\<close>.
\<close>

fun op_exn_of :: "exn \<Rightarrow> op_exn" where
  "op_exn_of (OSError m) = Os_error"
| "op_exn_of e = Other_exception ''Exception''"

definition text_of_response :: "(string \<Rightarrow> string option) \<Rightarrow> fetch_response \<Rightarrow> op_exn + string" where
  "text_of_response decode r =
     bindE (raise_first
       [(fr_status r = 401 \<or> fr_status r = 403, Adapter_failure Kind_authentication ''SEMrush credentials were rejected.'' False),
        (fr_status r = 429, Adapter_failure Kind_rate_limit ''SEMrush rate limit was reached.'' True),
        (500 \<le> fr_status r, Adapter_failure Kind_upstream ''SEMrush returned a temporary server error.'' True),
        (300 \<le> fr_status r, Adapter_failure Kind_validation ''SEMrush rejected the request.'' False)])
     (\<lambda>_. case decode (fr_body r) of
        None \<Rightarrow> Inl (Adapter_failure Kind_malformed_response ''SEMrush returned invalid text encoding.'' False)
      | Some text \<Rightarrow> Inr text)"

record 'w semrush_http =
  sh_resolve :: "'w \<Rightarrow> resolver"
  sh_fetch :: "resolved_target \<Rightarrow> (string \<times> string) list \<Rightarrow> rat \<Rightarrow> int \<Rightarrow> 'w \<Rightarrow> (exn + fetch_response) \<times> 'w"
  sh_decode :: "string \<Rightarrow> string option"

definition MAX_RESPONSE_BYTES :: int where
  "MAX_RESPONSE_BYTES = 10000000"

definition fetch_text :: "'w semrush_http \<Rightarrow> ssrf_guard \<Rightarrow> string \<Rightarrow> 'w \<Rightarrow> (op_exn + string) \<times> 'w" where
  "fetch_text h g url w =
     (case validate (sh_resolve h w) g url of
        Inl e \<Rightarrow> (Inl (op_exn_of e), w)
      | Inr target \<Rightarrow> (case sh_fetch h target [(''Accept'', ''text/csv'')] 20 MAX_RESPONSE_BYTES w of
          (Inl e, w') \<Rightarrow> (Inl (op_exn_of e), w')
        | (Inr r, w') \<Rightarrow> (text_of_response (sh_decode h) r, w')))"

subsection \<open>Responses\<close>

record report_response =
  rr_report :: string
  rr_columns :: "string list"
  rr_rows :: "(string \<times> string) list list"
  rr_empty_reason :: "string option"

datatype report_error = Report_error int string | Plain_error exn

definition COLUMN_ALIASES :: "(string \<times> string) list" where
  "COLUMN_ALIASES =
    [(''Database'', ''Db''), (''Domain'', ''Dn''), (''Rank'', ''Rk''), (''Organic Keywords'', ''Or''), (''Organic Traffic'', ''Ot''),
     (''Organic Cost'', ''Oc''), (''Adwords Keywords'', ''Ad''), (''Adwords Traffic'', ''At''), (''Adwords Cost'', ''Ac''),
     (''Keyword'', ''Ph''), (''Position'', ''Po''), (''Previous Position'', ''Pp''), (''Search Volume'', ''Nq''), (''CPC'', ''Cp''),
     (''Competition'', ''Co''), (''Number of Results'', ''Nr''), (''Traffic (%)'', ''Tr''), (''Traffic Cost (%)'', ''Tc''),
     (''Trends'', ''Td''), (''Url'', ''Ur''), (''Competitor Relevance'', ''Cr''), (''Common Keywords'', ''Np'')]"

definition normalize_column :: "string \<Rightarrow> string" where
  "normalize_column name = opt_or (strip name) (map_of COLUMN_ALIASES (strip name))"

text \<open>
  \<open>ERROR_PATTERN\<close>: the word \<open>ERROR\<close>, space, a number, a double colon and the message. A run of digits longer than
  4300 is a \<open>ValueError\<close> of \<open>int\<close>.
\<close>

definition error_line :: "string \<Rightarrow> (string \<times> string) option" where
  "error_line line =
     (let rest = drop 5 line; s1 = dropWhile ws_char rest; (ds, s2) = take_digits s1; s3 = dropWhile ws_char s2
      in if casefold (take 5 line) = ''error'' \<and> rest \<noteq> s1 \<and> ds \<noteq> [] \<and> take 2 s3 = ''::''
         then Some (ds, dropWhile ws_char (drop 2 s3)) else None)"

definition breaks_circuit :: "int \<Rightarrow> bool" where
  "breaks_circuit c \<longleftrightarrow> c \<in> set CIRCUIT_BREAKING_CODES"

text \<open>\<open>csv.DictReader\<close>: empty rows are skipped, missing cells are empty here (\<open>value or ""\<close>), and surplus ones raise.\<close>

definition dict_row :: "string list \<Rightarrow> string list \<Rightarrow> report_error + (string \<times> string) list" where
  "dict_row columns row =
     (if length columns < length row then Inl (Report_error 0 ''SEMrush returned a malformed report row.'')
      else Inr (zip columns (row @ replicate (length columns - length row) [])))"

definition csv_error :: "string \<Rightarrow> report_error" where
  "csv_error m = Plain_error (OtherError ''csv.Error'' m)"

definition parse_table :: "string \<Rightarrow> string \<Rightarrow> report_error + report_response" where
  "parse_table report_type text =
     (case csv_rows (excel\<lparr>delimiter := CHR '';''\<rparr>) (lines_lf text) of (rows, err) \<Rightarrow>
        let names = (if rows = [] then [] else hd rows); columns = map normalize_column names
        in if rows = [] \<and> err \<noteq> None then Inl (csv_error (the err))
           else if columns = [] \<or> \<not> distinct columns then Inl (Report_error 0 ''SEMrush returned malformed report columns.'')
           else bindE (mapE (dict_row columns) (filter (\<lambda>r. r \<noteq> []) (tl rows))) (\<lambda>cells.
             case err of Some m \<Rightarrow> Inl (csv_error m)
             | None \<Rightarrow> Inr \<lparr>rr_report = report_type, rr_columns = columns, rr_rows = cells, rr_empty_reason = None\<rparr>))"

definition empty_response :: "string \<Rightarrow> string \<Rightarrow> report_response" where
  "empty_response report_type reason =
     \<lparr>rr_report = report_type, rr_columns = [], rr_rows = [], rr_empty_reason = Some reason\<rparr>"

definition parse_response :: "string \<Rightarrow> string \<Rightarrow> report_error + report_response" where
  "parse_response report_type body =
     (let text = strip body
      in if text = [] then Inr (empty_response report_type ''SEMrush returned an empty body.'')
         else case error_line (strip (hd (splitlines text))) of
           Some (ds, m) \<Rightarrow>
             if 4300 < length ds then Inl (Plain_error (ValueError ''Exceeds the limit for integer string conversion''))
             else let c = int (nat_of_digits ds); message = (if strip m = [] then ''no message'' else strip m)
                  in if c = EMPTY_RESULT_CODE
                     then Inr (empty_response report_type ''SEMrush holds no data for this target in the selected database.'')
                     else Inl (Report_error c message)
         | None \<Rightarrow> parse_table report_type text)"

subsection \<open>Rows\<close>

text \<open>
  A mapped row is a dictionary of JSON values. \<open>_int\<close> catches \<open>ValueError\<close> only, so an infinity escapes it as
  \<open>OverflowError\<close>.
\<close>

type_synonym cells = "(string \<times> string) list"

definition cell :: "cells \<Rightarrow> string \<Rightarrow> string" where
  "cell row key = strip (opt_or [] (map_of row key))"

definition text_cell :: "cells \<Rightarrow> string \<Rightarrow> exn + json" where
  "text_cell row key = Inr (if cell row key = [] then JNull else JStr (cell row key))"

definition int_cell :: "cells \<Rightarrow> string \<Rightarrow> exn + json" where
  "int_cell row key =
     (case py_float (cell row key) of None \<Rightarrow> Inr JNull
      | Some x \<Rightarrow> tryE is_value_error (int_of_float x) (\<lambda>_. Inr JNull) (\<lambda>n. Inr (JInt n)))"

definition float_cell :: "cells \<Rightarrow> string \<Rightarrow> exn + json" where
  "float_cell row key = Inr (case py_float (cell row key) of Some (Finite q) \<Rightarrow> JNum q | _ \<Rightarrow> JNull)"

record dates =
  from_timestamp :: "int \<Rightarrow> string option"
  from_isoformat :: "string \<Rightarrow> string option"

definition iso_prefix :: "string \<Rightarrow> bool" where
  "iso_prefix v \<longleftrightarrow> 10 \<le> length v \<and> list_all digit_char (take 4 v) \<and> v ! 4 = CHR ''-'' \<and> list_all digit_char (take 2 (drop 5 v)) \<and>
     v ! 7 = CHR ''-'' \<and> list_all digit_char (take 2 (drop 8 v)) \<and> list_all (\<lambda>c. code c \<noteq> 10) (drop 10 v)"

definition date_cell :: "dates \<Rightarrow> cells \<Rightarrow> string \<Rightarrow> exn + json" where
  "date_cell dt row key =
     (let v = cell row key; json = opt_or JNull \<circ> map_option JStr
      in Inr (if v = [] then JNull
         else if is_digits v then (if 4300 < length v then JNull else json (from_timestamp dt (int (nat_of_digits v))))
         else case from_isoformat dt (concat (map (\<lambda>c. if c = CHR ''Z'' then ''+00:00'' else [c]) v)) of
             Some d \<Rightarrow> JStr d
           | None \<Rightarrow> if iso_prefix v then JStr (take 10 v) else JNull))"

type_synonym column = "string \<times> (cells \<Rightarrow> string \<Rightarrow> exn + json) \<times> string"

definition mapped_row :: "column list \<Rightarrow> cells \<Rightarrow> exn + (string \<times> json) list" where
  "mapped_row columns row = mapE (\<lambda>(name, read, key). mapR (\<lambda>v. (name, v)) (read row key)) columns"

definition map_domain_ranks :: "column list" where
  "map_domain_ranks =
    [(''database'', text_cell, ''Db''), (''domain'', text_cell, ''Dn''), (''rank'', int_cell, ''Rk''), (''organic_keywords'', int_cell, ''Or''),
     (''organic_traffic'', int_cell, ''Ot''), (''organic_cost'', float_cell, ''Oc''), (''adwords_keywords'', int_cell, ''Ad''),
     (''adwords_traffic'', int_cell, ''At''), (''adwords_cost'', float_cell, ''Ac'')]"

definition map_domain_organic :: "column list" where
  "map_domain_organic =
    [(''phrase'', text_cell, ''Ph''), (''position'', int_cell, ''Po''), (''previous_position'', int_cell, ''Pp''), (''search_volume'', int_cell, ''Nq''),
     (''cpc'', float_cell, ''Cp''), (''competition'', float_cell, ''Co''), (''results_count'', int_cell, ''Nr''), (''traffic_share'', float_cell, ''Tr''),
     (''traffic_cost_share'', float_cell, ''Tc''), (''trend'', text_cell, ''Td''), (''landing_url'', text_cell, ''Ur'')]"

definition map_domain_organic_organic :: "column list" where
  "map_domain_organic_organic =
    [(''domain'', text_cell, ''Dn''), (''relevance'', float_cell, ''Cr''), (''common_keywords'', int_cell, ''Np''), (''organic_keywords'', int_cell, ''Or''),
     (''organic_traffic'', int_cell, ''Ot''), (''organic_cost'', float_cell, ''Oc''), (''adwords_keywords'', int_cell, ''Ad'')]"

definition map_backlinks_overview :: "column list" where
  "map_backlinks_overview =
    [(''authority_score'', int_cell, ''ascore''), (''backlinks_total'', int_cell, ''total''), (''referring_domains'', int_cell, ''domains_num''),
     (''referring_urls'', int_cell, ''urls_num''), (''referring_ips'', int_cell, ''ips_num''), (''follow_links'', int_cell, ''follows_num''),
     (''nofollow_links'', int_cell, ''nofollows_num'')]"

definition map_backlinks_refdomains :: "dates \<Rightarrow> column list" where
  "map_backlinks_refdomains dt =
    [(''domain'', text_cell, ''domain''), (''authority_score'', int_cell, ''domain_ascore''), (''backlinks'', int_cell, ''backlinks_num''),
     (''country'', text_cell, ''country''), (''first_seen'', date_cell dt, ''first_seen''), (''last_seen'', date_cell dt, ''last_seen'')]"

definition ROW_MAPPERS :: "dates \<Rightarrow> (string \<times> column list) list" where
  "ROW_MAPPERS dt =
    [(''domain_ranks'', map_domain_ranks), (''domain_organic'', map_domain_organic), (''domain_organic_organic'', map_domain_organic_organic),
     (''backlinks_overview'', map_backlinks_overview), (''backlinks_refdomains'', map_backlinks_refdomains dt)]"

definition map_rows :: "dates \<Rightarrow> report_response \<Rightarrow> exn + (string \<times> json) list list" where
  "map_rows dt response = (case map_of (ROW_MAPPERS dt) (rr_report response) of
     None \<Rightarrow> Inr (map (map (\<lambda>(k, v). (k, JStr v))) (rr_rows response))
   | Some columns \<Rightarrow> mapE (mapped_row columns) (rr_rows response))"

end
