(* ===== verification/Semrush_Facts.thy ===== *)
theory Semrush_Facts
  imports Semrush_Reports Url_Facts
begin

text \<open>
  What the market-data collection relies on: every request has a bounded positive price, its address decodes to its
  parameters, nothing but the address depends on the API key, and the only way mapping a row fails.
\<close>

subsection \<open>Requests\<close>

definition priced :: "report_spec \<Rightarrow> bool" where
  "priced rs \<longleftrightarrow> (if is_flat_rate rs then rs_flat rs = 40 else 10 \<le> rs_per_line rs \<and> rs_per_line rs \<le> 50)"

lemma reports_priced: "map_of REPORTS ty = Some rs \<Longrightarrow> priced rs \<and> rs_type rs = ty"
  by (auto simp: REPORTS_def per_line_def backlink_report_def priced_def is_flat_rate_def split: if_splits)

lemma build_requestE:
  assumes "build_request sha ty key target opts = Inr rq"
  obtains rs ps where "map_of REPORTS ty = Some rs" "strip key \<noteq> []" "strip target \<noteq> []" "check_limit ty rs (ro_display_limit opts) = Inr ()"
    "request_params rs target opts = Inr ps" "estimate_units rs (ro_display_limit opts) = Inr (rq_units rq)"
    "rq_params rq = sort_key fst ps" "rq_report rq = ty" "rq_display_limit rq = ro_display_limit opts"
    "rq_url rq = API_ENDPOINT @ ''?'' @ urlencode ((''key'', strip key) # rq_params rq)"
    "rq_cache_key rq = cache_key_for_url sha (API_ENDPOINT @ ''?'' @ urlencode (rq_params rq))"
proof -
  from assms obtain rs where rs: "map_of REPORTS ty = Some rs" by (cases "map_of REPORTS ty") (simp_all add: build_request_def)
  with assms obtain ps units where "strip key \<noteq> []" "strip target \<noteq> []" "check_limit ty rs (ro_display_limit opts) = Inr ()"
    "request_params rs target opts = Inr ps" "estimate_units rs (ro_display_limit opts) = Inr units"
    "rq = \<lparr>rq_report = rs_type rs, rq_url = API_ENDPOINT @ ''?'' @ urlencode ((''key'', strip key) # sort_key fst ps),
       rq_cache_key = cache_key_for_url sha (API_ENDPOINT @ ''?'' @ urlencode (sort_key fst ps)), rq_units = units,
       rq_display_limit = ro_display_limit opts, rq_params = sort_key fst ps\<rparr>"
    by (auto simp: build_request_def bindE_Inr_iff Let_def split: if_splits)
  then show ?thesis using reports_priced [OF rs] by (intro that [OF rs]) simp_all
qed

lemma build_requestI:
  assumes "map_of REPORTS ty = Some rs" "strip key \<noteq> []" "strip target \<noteq> []" "check_limit ty rs (ro_display_limit opts) = Inr ()"
    "request_params rs target opts = Inr ps" "estimate_units rs (ro_display_limit opts) = Inr units"
  shows "build_request sha ty key target opts = Inr \<lparr>rq_report = rs_type rs,
     rq_url = API_ENDPOINT @ ''?'' @ urlencode ((''key'', strip key) # sort_key fst ps),
     rq_cache_key = cache_key_for_url sha (API_ENDPOINT @ ''?'' @ urlencode (sort_key fst ps)), rq_units = units,
     rq_display_limit = ro_display_limit opts, rq_params = sort_key fst ps\<rparr>"
  using assms by (simp add: build_request_def Let_def)

lemma request_units:
  assumes "build_request sha ty key target opts = Inr rq"
  shows "1 \<le> rq_units rq \<and> rq_units rq \<le> 5000000"
proof -
  from assms obtain rs where rs: "map_of REPORTS ty = Some rs" and lim: "check_limit ty rs (ro_display_limit opts) = Inr ()"
    and est: "estimate_units rs (ro_display_limit opts) = Inr (rq_units rq)" by (rule build_requestE)
  note p = reports_priced [OF rs]
  show ?thesis
  proof (cases "is_flat_rate rs")
    case True
    with p est show ?thesis by (simp add: priced_def estimate_units_def)
  next
    case False
    with lim est obtain n where n: "1 \<le> n" "n \<le> 100000" "rq_units rq = rs_per_line rs * n"
      by (auto simp: check_limit_def estimate_units_def MAX_DISPLAY_LIMIT_def split: option.splits if_splits)
    moreover have "1 * 1 \<le> rs_per_line rs * n" using p False n by (intro mult_mono) (auto simp: priced_def)
    moreover have "rs_per_line rs * n \<le> 50 * 100000" using p False n by (intro mult_mono) (auto simp: priced_def)
    ultimately show ?thesis by simp
  qed
qed

lemma distinct_set_param: "distinct (map fst ps) \<Longrightarrow> distinct (map fst (set_param k v ps))"
  by (simp add: set_param_def distinct_update)

lemma map_of_set_param: "map_of (set_param k v ps) k' = (if k' = k then Some v else map_of ps k')"
  by (simp add: set_param_def dict_update_lookup)

lemma reports_params: "map_of REPORTS ty = Some rs \<Longrightarrow> rs_target_param rs \<in> {''domain'', ''url'', ''phrase'', ''target''}"
  by (auto simp: REPORTS_def per_line_def backlink_report_def split: if_splits)

definition shaped :: "report_spec \<Rightarrow> string \<Rightarrow> (string \<times> string) list \<Rightarrow> bool" where
  "shaped rs target ps \<longleftrightarrow> distinct (map fst ps) \<and> map_of ps ''type'' = Some (rs_type rs) \<and>
     map_of ps (rs_target_param rs) = Some (strip target) \<and> map_of ps ''key'' = None"

lemma shaped_set_param: "shaped rs target ps \<Longrightarrow> k \<notin> {''type'', ''key'', rs_target_param rs} \<Longrightarrow> shaped rs target (set_param k v ps)"
  by (auto simp: shaped_def map_of_set_param distinct_set_param)

lemma request_params_shape:
  assumes "map_of REPORTS ty = Some rs" and "request_params rs target opts = Inr ps"
  shows "shaped rs target ps"
proof -
  let ?columns = "if opt_any (\<lambda>cs. cs \<noteq> []) (ro_export_columns opts) then the (ro_export_columns opts) else rs_columns rs"
  have other: "k \<notin> {''type'', ''key'', rs_target_param rs}"
    if "k \<in> {''database'', ''target_type'', ''display_limit'', ''display_sort'', ''display_filter''}" for k
    using reports_params [OF assms(1)] that by auto
  have "shaped rs target [(''type'', rs_type rs), (rs_target_param rs, strip target), (''export_columns'', join '','' ?columns), (''export_escape'', ''1'')]"
    using reports_params [OF assms(1)] by (auto simp: shaped_def)
  with assms(2) show ?thesis
    by (auto simp: request_params_def bindE_Inr_iff Let_def intro!: shaped_set_param [OF _ other] split: option.splits)
qed

lemma map_of_sort_key: "distinct (map fst ps) \<Longrightarrow> map_of (sort_key f ps) = map_of ps"
  by (intro map_of_inject_set [THEN iffD2]) (simp_all add: distinct_map inj_on_def)

text \<open>
  C32: Every request \<open>build_request\<close> lets through has a positive price known before it is sent: the flat price of the
  report, or its price per line times a display limit between 1 and 100000; so no request costs more than five
  million units, and one without a limit is refused unless the report has a flat price.
\<close>

theorem request_priced:
  assumes "build_request sha ty key target opts = Inr rq"
  shows "1 \<le> rq_units rq \<and> rq_units rq \<le> 5000000 \<and> (\<exists>rs. map_of REPORTS ty = Some rs \<and>
    (if is_flat_rate rs then rq_units rq = rs_flat rs
     else \<exists>n. ro_display_limit opts = Some n \<and> 1 \<le> n \<and> n \<le> 100000 \<and> rq_units rq = rs_per_line rs * n))"
proof -
  from assms obtain rs where rs: "map_of REPORTS ty = Some rs" and lim: "check_limit ty rs (ro_display_limit opts) = Inr ()"
    and est: "estimate_units rs (ro_display_limit opts) = Inr (rq_units rq)" by (rule build_requestE)
  then have "if is_flat_rate rs then rq_units rq = rs_flat rs
     else \<exists>n. ro_display_limit opts = Some n \<and> 1 \<le> n \<and> n \<le> 100000 \<and> rq_units rq = rs_per_line rs * n"
    by (auto simp: check_limit_def estimate_units_def MAX_DISPLAY_LIMIT_def split: option.splits if_splits)
  with request_units [OF assms] rs show ?thesis by blast
qed

definition demo_options :: request_options where
  "demo_options = \<lparr>ro_database = Some ''au'', ro_display_limit = Some 50, ro_display_sort = Some ''tr_desc'',
     ro_display_filter = None, ro_export_columns = None, ro_target_type = ''root_domain''\<rparr>"

lemma demo_request: "case build_request (\<lambda>s. s) ''domain_organic'' ''k1'' ''e.c'' demo_options of Inr rq \<Rightarrow> rq_units rq = 500 | Inl e \<Rightarrow> False"
  by code_simp

lemma demo_requestE:
  obtains rq where "build_request (\<lambda>s. s) ''domain_organic'' ''k1'' ''e.c'' demo_options = Inr rq" "rq_units rq = 500"
  using demo_request by (auto split: sum.splits)

lemma request_priced_witness:
  "\<exists>rq. build_request (\<lambda>s. s) ''domain_organic'' ''k1'' ''e.c'' demo_options = Inr rq \<and> 1 \<le> rq_units rq \<and> rq_units rq \<le> 5000000"
  using demo_requestE request_priced by metis

text \<open>
  C23: The API key stands in the address of a request and nowhere else: with another key the request has the same
  cache key, price and parameters, and its address decodes to the key and these parameters, sorted, each once.
\<close>

theorem request_hides_key:
  assumes "build_request sha ty key target opts = Inr rq" and "strip key' \<noteq> []"
  shows "(\<exists>rq'. build_request sha ty key' target opts = Inr rq' \<and> rq_cache_key rq' = rq_cache_key rq \<and>
      rq_units rq' = rq_units rq \<and> rq_params rq' = rq_params rq) \<and>
    (\<exists>q. rq_url rq = API_ENDPOINT @ ''?'' @ q \<and> parse_qsl q = (''key'', strip key) # rq_params rq) \<and>
    sorted (map fst (rq_params rq)) \<and> distinct (map fst (rq_params rq)) \<and> map_of (rq_params rq) ''key'' = None"
proof -
  from assms(1) obtain rs ps where rs: "map_of REPORTS ty = Some rs" and ne: "strip target \<noteq> []"
    and lim: "check_limit ty rs (ro_display_limit opts) = Inr ()" and ps: "request_params rs target opts = Inr ps"
    and est: "estimate_units rs (ro_display_limit opts) = Inr (rq_units rq)" and prm: "rq_params rq = sort_key fst ps"
    and url: "rq_url rq = API_ENDPOINT @ ''?'' @ urlencode ((''key'', strip key) # rq_params rq)"
    and cache: "rq_cache_key rq = cache_key_for_url sha (API_ENDPOINT @ ''?'' @ urlencode (rq_params rq))"
    by (rule build_requestE)
  note shape = request_params_shape [OF rs ps, unfolded shaped_def]
  from build_requestI [OF rs assms(2) ne lim ps est, of sha] cache prm
  have "\<exists>rq'. build_request sha ty key' target opts = Inr rq' \<and> rq_cache_key rq' = rq_cache_key rq \<and>
      rq_units rq' = rq_units rq \<and> rq_params rq' = rq_params rq" by simp
  moreover have "distinct (map fst (rq_params rq))" using shape by (simp add: prm distinct_map)
  moreover have "map_of (rq_params rq) ''key'' = None" using shape by (simp add: prm map_of_sort_key)
  ultimately show ?thesis using url parse_qsl_urlencode by (simp add: prm)
qed

lemma request_hides_key_witness:
  "\<exists>rq rq'. build_request (\<lambda>s. s) ''domain_organic'' ''k1'' ''e.c'' demo_options = Inr rq \<and>
     build_request (\<lambda>s. s) ''domain_organic'' ''k2'' ''e.c'' demo_options = Inr rq' \<and> rq_cache_key rq' = rq_cache_key rq"
proof -
  obtain rq where r: "build_request (\<lambda>s. s) ''domain_organic'' ''k1'' ''e.c'' demo_options = Inr rq" by (rule demo_requestE)
  have "strip ''k2'' \<noteq> []" by code_simp
  from request_hides_key [OF r this] r show ?thesis by blast
qed

subsection \<open>Rows\<close>

definition infinity_error :: exn where
  "infinity_error = OtherError ''OverflowError'' ''cannot convert float infinity to integer''"

lemma int_cell_Inl: "int_cell row key = Inl e \<Longrightarrow> e = infinity_error \<and> (\<exists>neg. py_float (cell row key) = Some (Infinite neg))"
  by (cases "py_float (cell row key)"; cases "the (py_float (cell row key))") (auto simp: int_cell_def infinity_error_def)

definition count_or_total :: "(cells \<Rightarrow> string \<Rightarrow> exn + json) \<Rightarrow> bool" where
  "count_or_total read \<longleftrightarrow> (\<forall>row key e. read row key = Inl e \<longrightarrow> e = infinity_error \<and> (\<exists>neg. py_float (cell row key) = Some (Infinite neg)))"

lemma reads_ok: "count_or_total int_cell" "count_or_total text_cell" "count_or_total float_cell" "count_or_total (date_cell dt)"
  by (auto simp: count_or_total_def text_cell_def float_cell_def date_cell_def Let_def dest: int_cell_Inl)

lemma mappers_ok: "map_of (ROW_MAPPERS dt) ty = Some columns \<Longrightarrow> list_all (\<lambda>(name, read, key). count_or_total read) columns"
  by (auto simp: ROW_MAPPERS_def map_domain_ranks_def map_domain_organic_def map_domain_organic_organic_def map_backlinks_overview_def
      map_backlinks_refdomains_def reads_ok split: if_splits)

lemma mapE_Inl: "mapE f xs = Inl e \<Longrightarrow> \<exists>x \<in> set xs. f x = Inl e"
  by (induction xs) (auto simp: bindE_Inl_iff mapR_Inl_iff)

text \<open>
  C62: Mapping the rows of a report fails in one way only: a count whose text denotes an infinity, such as
  \<open>inf\<close> or \<open>1e999\<close>, raises \<open>OverflowError\<close>, which is not among the errors the collection expects of a report.
\<close>

theorem map_rows_fails_on_infinity:
  assumes "map_rows dt response = Inl e"
  shows "e = OtherError ''OverflowError'' ''cannot convert float infinity to integer'' \<and>
    (\<exists>row \<in> set (rr_rows response). \<exists>key neg. py_float (cell row key) = Some (Infinite neg))"
proof -
  from assms obtain columns where c: "map_of (ROW_MAPPERS dt) (rr_report response) = Some columns"
    and m: "mapE (mapped_row columns) (rr_rows response) = Inl e" by (auto simp: map_rows_def split: option.splits)
  from mapE_Inl [OF m] obtain row where row: "row \<in> set (rr_rows response)" "mapped_row columns row = Inl e" by blast
  from mapE_Inl [OF row(2) [unfolded mapped_row_def]] obtain name read key where "(name, read, key) \<in> set columns" "read row key = Inl e"
    by (auto simp: mapR_Inl_iff)
  with mappers_ok [OF c] row(1) show ?thesis by (fastforce simp: list_all_iff count_or_total_def infinity_error_def)
qed

definition no_dates :: dates where
  "no_dates = \<lparr>from_timestamp = (\<lambda>n. None), from_isoformat = (\<lambda>s. None)\<rparr>"

definition infinite_report :: report_response where
  "infinite_report = \<lparr>rr_report = ''domain_ranks'', rr_columns = [''Dn'', ''Rk''], rr_rows = [[(''Dn'', ''e.c''), (''Rk'', ''inf'')]], rr_empty_reason = None\<rparr>"

lemma infinite_text: "py_float ''inf'' = Some (Infinite False)"
  by (simp add: py_float_def strip_def lstrip_of_def rstrip_of_def ws_char_def split_sign_def casefold_def to_lower_def upper_char_def)

lemma infinite_rank: "\<exists>e. map_rows no_dates infinite_report = Inl e"
  using infinite_text
  by (simp add: map_rows_def infinite_report_def ROW_MAPPERS_def map_domain_ranks_def mapped_row_def text_cell_def int_cell_def cell_def
      strip_def lstrip_of_def rstrip_of_def ws_char_def)

lemma map_rows_fails_on_infinity_witness:
  "map_rows no_dates infinite_report = Inl (OtherError ''OverflowError'' ''cannot convert float infinity to integer'')"
proof -
  obtain e where "map_rows no_dates infinite_report = Inl e" using infinite_rank by blast
  with map_rows_fails_on_infinity [OF this] show ?thesis by blast
qed

end
