(* ===== verification/Market_Data.thy ===== *)
theory Market_Data
  imports Semrush_Reports Audit_Rows
begin

text \<open>
  \<open>MarketDataService\<close> of \<open>integrations/market_data.py\<close>: the budgeted collection of market data for one run. The
  state holds the units charged, the reason that stopped further requests, the result under construction (a caller
  sees it even when the collection fails), the executor with its circuit breaker over the world, and the rows
  written. The cache is part of the world: reading and writing it may fail. Settings are fields of the service.
\<close>

subsection \<open>Plans and results\<close>

definition SOURCE_TYPE :: string where
  "SOURCE_TYPE = ''semrush''"

definition CACHE_NAMESPACE :: string where
  "CACHE_NAMESPACE = ''semrush:v1''"

definition MAX_CACHE_DAYS :: int where
  "MAX_CACHE_DAYS = 30"

definition KEYWORD_PERSIST_CAP :: nat where
  "KEYWORD_PERSIST_CAP = 500"

definition REFDOMAIN_PERSIST_CAP :: nat where
  "REFDOMAIN_PERSIST_CAP = 500"

definition TRANSACTIONAL_TOKENS :: "string list" where
  "TRANSACTIONAL_TOKENS = [''buy'', ''price'', ''prices'', ''pricing'', ''cost'', ''cheap'', ''hire'', ''quote'',
     ''quotes'', ''order'', ''sale'', ''shop'', ''booking'', ''book'', ''delivery'']"

definition COMMERCIAL_TOKENS :: "string list" where
  "COMMERCIAL_TOKENS = [''best'', ''top'', ''review'', ''reviews'', ''compare'', ''comparison'', ''vs'', ''alternatives'']"

definition INFORMATIONAL_TOKENS :: "string list" where
  "INFORMATIONAL_TOKENS = [''how'', ''what'', ''why'', ''when'', ''guide'', ''tutorial'', ''ideas'', ''tips'', ''meaning'']"

record planned_call =
  pc_report :: string
  pc_purpose :: string
  pc_limit :: "int option"
  pc_sort :: "string option"
  pc_gates :: bool

definition planned :: "string \<Rightarrow> string \<Rightarrow> int option \<Rightarrow> string option \<Rightarrow> bool \<Rightarrow> planned_call" where
  "planned report purpose limit order gates =
     \<lparr>pc_report = report, pc_purpose = purpose, pc_limit = limit, pc_sort = order, pc_gates = gates\<rparr>"

definition PLANS :: "(string \<times> planned_call list) list" where
  "PLANS =
    [(''lite'',
      [planned ''domain_ranks'' ''domain authority and organic totals'' (Some 1) None True,
       planned ''domain_organic'' ''ranking keywords'' (Some 50) (Some ''tr_desc'') False,
       planned ''domain_organic_organic'' ''organic competitors'' (Some 3) None False,
       planned ''backlinks_overview'' ''backlink profile totals'' None None False]),
     (''standard'',
      [planned ''domain_ranks'' ''domain authority and organic totals'' (Some 1) None True,
       planned ''domain_organic'' ''ranking keywords'' (Some 100) (Some ''tr_desc'') False,
       planned ''domain_organic_organic'' ''organic competitors'' (Some 5) None False,
       planned ''backlinks_overview'' ''backlink profile totals'' None None False,
       planned ''backlinks_refdomains'' ''top referring domains'' (Some 10) None False]),
     (''deep'',
      [planned ''domain_ranks'' ''domain authority and organic totals'' (Some 1) None True,
       planned ''domain_organic'' ''ranking keywords'' (Some 200) (Some ''tr_desc'') False,
       planned ''domain_organic_organic'' ''organic competitors'' (Some 5) None False,
       planned ''backlinks_overview'' ''backlink profile totals'' None None False,
       planned ''backlinks_refdomains'' ''top referring domains'' (Some 5) None False])]"

record call_record =
  cl_report :: string
  cl_purpose :: string
  cl_status :: string
  cl_units :: int
  cl_rows :: nat
  cl_cached :: bool
  cl_reason :: "string option"

definition new_record :: "planned_call \<Rightarrow> string \<Rightarrow> string option \<Rightarrow> call_record" where
  "new_record p status reason = \<lparr>cl_report = pc_report p, cl_purpose = pc_purpose p, cl_status = status, cl_units = 0,
     cl_rows = 0, cl_cached = False, cl_reason = reason\<rparr>"

record market_result =
  mr_status :: string
  mr_tier :: string
  mr_database :: string
  mr_units_spent :: int
  mr_reason :: "string option"
  mr_fetched_at :: "moment option"
  mr_snapshot :: "uid option"
  mr_calls :: "call_record list"
  mr_keywords :: nat
  mr_competitors :: nat
  mr_refdomains :: nat

subsection \<open>Rows\<close>

record metric_row =
  me_run :: uid
  me_source :: uid
  me_key :: string
  me_numeric :: "rat option"
  me_json :: json
  me_scope :: string

record keyword_row =
  kw_run :: uid
  kw_source :: uid
  kw_phrase :: string
  kw_normalized :: string
  kw_country :: string
  kw_locale :: string
  kw_intent :: string
  kw_volume :: "int option"
  kw_cpc :: "rat option"
  kw_position :: "rat option"
  kw_scope :: string

record backlink_row =
  bk_run :: uid
  bk_source :: uid
  bk_source_url :: string
  bk_target_url :: string
  bk_domain :: string
  bk_authority :: "rat option"
  bk_first_seen :: "string option"
  bk_last_seen :: "string option"
  bk_scope :: string

record market_tables =
  mt_sources :: "source_row list"
  mt_metrics :: "metric_row list"
  mt_keywords :: "keyword_row list"
  mt_backlinks :: "backlink_row list"

subsection \<open>Service and state\<close>

record 'w market_service =
  ms_run :: audit_run
  ms_project :: project
  ms_api_key :: string
  ms_tier :: string
  ms_budget :: int
  ms_database :: string
  ms_enabled :: bool
  ms_cache_days :: int
  ms_fetch :: "string \<Rightarrow> 'w \<Rightarrow> (op_exn + string) \<times> 'w"
  ms_clock :: "'w \<Rightarrow> rat \<times> 'w"
  ms_random :: "'w \<Rightarrow> rat \<times> 'w"
  ms_sleep :: "rat \<Rightarrow> 'w \<Rightarrow> (op_exn + unit) \<times> 'w"
  ms_policy :: retry_policy
  ms_cache_get :: "string \<Rightarrow> 'w \<Rightarrow> (wf_error + string option) \<times> 'w"
  ms_cache_set :: "string \<Rightarrow> string \<Rightarrow> int \<Rightarrow> 'w \<Rightarrow> (wf_error + unit) \<times> 'w"
  ms_sha :: "string \<Rightarrow> string"
  ms_dates :: dates
  ms_now :: "nat \<Rightarrow> moment"
  ms_fresh :: "nat \<Rightarrow> uid"

datatype market_error = Call_raised call_exn | Code_raised wf_error

record 'w market =
  mk_executor :: "'w executor"
  mk_units :: int
  mk_circuit :: "string option"
  mk_result :: market_result
  mk_tables :: market_tables

type_synonym ('w, 'a) market_action = "('w market, market_error, 'a) action"

definition resolve_tier :: "string option \<Rightarrow> string \<Rightarrow> string" where
  "resolve_tier tier setting =
     (let chosen = (if opt_any (\<lambda>t. t \<noteq> []) tier then the tier else setting);
          requested = strip (if chosen = [] then ''lite'' else chosen)
      in if requested \<in> set (map fst PLANS) then requested else ''lite'')"

definition resolve_budget :: "int option \<Rightarrow> int \<Rightarrow> int" where
  "resolve_budget budget setting = max 0 (opt_or setting budget)"

definition resolve_database :: "string option \<Rightarrow> project \<Rightarrow> string \<Rightarrow> string" where
  "resolve_database database p setting =
     (let c1 = casefold (strip (opt_or [] database));
          c2 = (if c1 = [] then casefold (strip (country_code p)) else c1);
          c3 = (if c2 = [] then casefold (strip setting) else c2)
      in if c3 = [] then ''au'' else c3)"

definition cache_days :: "int \<Rightarrow> int" where
  "cache_days setting = max 0 (min MAX_CACHE_DAYS setting)"

definition budget_remaining :: "'w market_service \<Rightarrow> 'w market \<Rightarrow> int" where
  "budget_remaining svc s = max 0 (ms_budget svc - mk_units s)"

definition derive_intent :: "string \<Rightarrow> string" where
  "derive_intent phrase =
     (let tokens = split_ws (map (\<lambda>c. if c = CHR ''-'' then CHR '' '' else c) (casefold phrase))
      in if tokens = [] then []
         else if list_ex (\<lambda>t. t \<in> set TRANSACTIONAL_TOKENS) tokens \<or> contains ''near me'' (casefold phrase) then ''transactional''
         else if list_ex (\<lambda>t. t \<in> set COMMERCIAL_TOKENS) tokens then ''commercial''
         else if list_ex (\<lambda>t. t \<in> set INFORMATIONAL_TOKENS) tokens then ''informational'' else [])"

text \<open>\<open>_decimal\<close> on the values of a mapped row.\<close>

definition json_decimal :: "nat \<Rightarrow> json \<Rightarrow> rat option" where
  "json_decimal places v = (case v of JInt n \<Rightarrow> quantize places (of_int n) | JNum q \<Rightarrow> quantize places (frepr q) | _ \<Rightarrow> None)"

subsection \<open>One call\<close>

definition on_executor :: "('w, 'b) run \<Rightarrow> ('w, 'b) market_action" where
  "on_executor m s = (case m (mk_executor s) of
     (Inl e, x) \<Rightarrow> (Inl (Call_raised e), s\<lparr>mk_executor := x\<rparr>)
   | (Inr b, x) \<Rightarrow> (Inr b, s\<lparr>mk_executor := x\<rparr>))"

definition on_cache :: "('w \<Rightarrow> (wf_error + 'b) \<times> 'w) \<Rightarrow> ('w, 'b) market_action" where
  "on_cache f s = (case f (ex_world (mk_executor s)) of (r, w) \<Rightarrow>
     (case r of Inl e \<Rightarrow> Inl (Code_raised e) | Inr b \<Rightarrow> Inr b, s\<lparr>mk_executor := (mk_executor s)\<lparr>ex_world := w\<rparr>\<rparr>))"

definition code_error :: "exn + 'b \<Rightarrow> ('w, 'b) market_action" where
  "code_error r = pureA (case r of Inl e \<Rightarrow> Inl (Code_raised (Library_error e)) | Inr b \<Rightarrow> Inr b)"

definition guarded_fetch_text :: "'w market_service \<Rightarrow> string \<Rightarrow> ('w, string) guarded" where
  "guarded_fetch_text svc url = \<lparr>operation = ms_fetch svc url, clock_of = ms_clock svc, random_of = ms_random svc, sleeper = ms_sleep svc\<rparr>"

definition options_of :: "'w market_service \<Rightarrow> planned_call \<Rightarrow> request_options" where
  "options_of svc p = \<lparr>ro_database = Some (ms_database svc), ro_display_limit = pc_limit p, ro_display_sort = pc_sort p,
     ro_display_filter = None, ro_export_columns = None, ro_target_type = ''root_domain''\<rparr>"

definition charge :: "int \<Rightarrow> ('w, unit) market_action" where
  "charge units = modifyA (\<lambda>s. s\<lparr>mk_units := mk_units s + units\<rparr>)"

definition over_budget :: "'w market_service \<Rightarrow> planned_call \<Rightarrow> int \<Rightarrow> int \<Rightarrow> call_record" where
  "over_budget svc p units remaining = new_record p ''skipped_over_budget'' (Some (''Skipped: this report costs '' @ str_of_int units @
     '' API units but only '' @ str_of_int remaining @ '' of the '' @ str_of_int (ms_budget svc) @ ''-unit per-run budget remained.''))"

definition failed_record :: "planned_call \<Rightarrow> adapter_error list \<Rightarrow> call_record" where
  "failed_record p errors = new_record p ''failed'' (Some (''SEMrush request failed: '' @
     (case errors of [] \<Rightarrow> ''unknown transport error'' | e # es \<Rightarrow> ae_message e)))"

definition report_error_record :: "planned_call \<Rightarrow> int \<Rightarrow> bool \<Rightarrow> int \<Rightarrow> string \<Rightarrow> call_record" where
  "report_error_record p units cached c message =
     (new_record p (if breaks_circuit c then ''halted'' else ''failed'')
        (Some (''SEMrush returned error '' @ str_of_int c @ '' ('' @ message @ ''); '' @
          (if breaks_circuit c then ''all further SEMrush requests for this run were stopped.'' else ''this report is unavailable.''))))
     \<lparr>cl_units := units, cl_cached := cached\<rparr>"

definition rows_record :: "planned_call \<Rightarrow> int \<Rightarrow> bool \<Rightarrow> nat \<Rightarrow> string option \<Rightarrow> call_record" where
  "rows_record p units cached n empty_reason =
     (new_record p ''ok'' (if n = 0 then Some (if opt_any (\<lambda>r. r \<noteq> []) empty_reason then the empty_reason else ''SEMrush returned no rows.'') else None))
     \<lparr>cl_units := units, cl_cached := cached, cl_rows := n\<rparr>"

type_synonym mapped_rows = "(string \<times> json) list list"

text \<open>The part after a body is there, from the cache or fetched and paid for.\<close>

definition use_body :: "'w market_service \<Rightarrow> planned_call \<Rightarrow> string \<Rightarrow> int \<Rightarrow> bool \<Rightarrow> string \<Rightarrow> ('w, call_record \<times> mapped_rows) market_action" where
  "use_body svc p key units cached body =
     (case parse_response (pc_report p) body of
        Inl (Report_error c message) \<Rightarrow> ret (report_error_record p units cached c message, [])
      | Inl (Plain_error e) \<Rightarrow> code_error (Inl e)
      | Inr response \<Rightarrow>
          bindA (if \<not> cached \<and> cache_days (ms_cache_days svc) \<noteq> 0
                 then on_cache (ms_cache_set svc key body (cache_days (ms_cache_days svc) * 86400)) else ret ()) (\<lambda>_.
          bindA (code_error (map_rows (ms_dates svc) response)) (\<lambda>rows.
          ret (rows_record p units cached (length rows) (rr_empty_reason response), rows))))"

definition run_call :: "'w market_service \<Rightarrow> string \<Rightarrow> planned_call \<Rightarrow> ('w, call_record \<times> mapped_rows) market_action" where
  "run_call svc target p =
     (case build_request (ms_sha svc) (pc_report p) (ms_api_key svc) target (options_of svc p) of
        Inl (OtherError n m) \<Rightarrow> ret (new_record p ''invalid'' (Some m), [])
      | Inl e \<Rightarrow> code_error (Inl e)
      | Inr request \<Rightarrow>
          let key = CACHE_NAMESPACE @ '':'' @ rq_cache_key request in
          bindA (if cache_days (ms_cache_days svc) \<noteq> 0 then on_cache (ms_cache_get svc key) else ret None) (\<lambda>stored.
          case stored of
            Some body \<Rightarrow> use_body svc p key 0 True body
          | None \<Rightarrow>
              bindA (gets (budget_remaining svc)) (\<lambda>remaining.
              if remaining < rq_units request then ret (over_budget svc p (rq_units request) remaining, [])
              else bindA (on_executor (call (guarded_fetch_text svc (rq_url request)) (ms_policy svc) SOURCE_TYPE)) (\<lambda>out.
                if ar_status out \<noteq> Status_available \<or> ar_data out = None then ret (failed_record p (ar_errors out), [])
                else bindA (charge (rq_units request)) (\<lambda>_.
                  use_body svc p key (rq_units request) False (the (ar_data out)))))))"

subsection \<open>Persistence\<close>

definition set_result :: "(market_result \<Rightarrow> market_result) \<Rightarrow> ('w, unit) market_action" where
  "set_result f = modifyA (\<lambda>s. s\<lparr>mk_result := f (mk_result s)\<rparr>)"

definition on_market_tables :: "(market_tables \<Rightarrow> wf_error + market_tables) \<Rightarrow> ('w, unit) market_action" where
  "on_market_tables f s = (case f (mk_tables s) of
     Inl e \<Rightarrow> (Inl (Code_raised e), s) | Inr t \<Rightarrow> (Inr (), s\<lparr>mk_tables := t\<rparr>))"

definition call_json :: "call_record \<Rightarrow> json" where
  "call_json c = JObj [(''report'', JStr (cl_report c)), (''purpose'', JStr (cl_purpose c)), (''status'', JStr (cl_status c)),
     (''units'', JInt (cl_units c)), (''rows'', jnat (cl_rows c)), (''cached'', JBool (cl_cached c)), (''reason'', opt_json JStr (cl_reason c))]"

definition snapshot_row :: "'w market_service \<Rightarrow> nat \<Rightarrow> nat \<Rightarrow> market_result \<Rightarrow> source_row" where
  "snapshot_row svc n record_count r =
     (let available = mr_status r = ''available'' in
      \<lparr>so_id = ms_fresh svc n, so_run = run_id (ms_run svc), so_type = SOURCE_TYPE,
       so_availability = (if available then Avail_available else Avail_unavailable),
       so_unavailable_reason = (if available then [] else if opt_any (\<lambda>t. t \<noteq> []) (mr_reason r) then the (mr_reason r) else ''unknown''),
       so_record_count = record_count, so_captured_at = ms_now svc n, so_locale = project_locale (ms_project svc),
       so_scope = ''SEMrush '' @ ms_database svc @ '' database; '' @ ms_tier svc @ '' plan'', so_rule_version = [],
       so_confidence = (if available then 1 else 0),
       so_metadata = [(''units_spent'', JInt (mr_units_spent r)), (''tier'', JStr (mr_tier r)), (''database'', JStr (mr_database r)),
         (''unit_budget'', JInt (ms_budget svc)), (''calls'', JList (map call_json (mr_calls r)))]\<rparr>)"

text \<open>A statement that fails is logged and \<open>None\<close> returned.\<close>

definition persist_snapshot :: "'w market_service \<Rightarrow> nat \<Rightarrow> nat \<Rightarrow> ('w, source_row option) market_action" where
  "persist_snapshot svc n record_count =
     bindA (gets mk_result) (\<lambda>r.
     let row = snapshot_row svc n record_count r in
     case fits [(60, so_type row), (35, so_locale row), (255, so_scope row), (80, so_rule_version row)] of
       Inl e \<Rightarrow> ret None
     | Inr u \<Rightarrow> bindA (modifyA (\<lambda>s. s\<lparr>mk_tables := (mk_tables s)\<lparr>mt_sources := mt_sources (mk_tables s) @ [row]\<rparr>\<rparr>)) (\<lambda>_.
         bindA (set_result (\<lambda>r. r\<lparr>mr_snapshot := Some (so_id row)\<rparr>)) (\<lambda>_. ret (Some row))))"

text \<open>\<open>numeric(digits, places)\<close> columns hold values below \<open>10 ^ (digits - places)\<close>.\<close>

definition numeric_fits :: "nat \<Rightarrow> rat option \<Rightarrow> bool" where
  "numeric_fits whole v \<longleftrightarrow> (case v of None \<Rightarrow> True | Some q \<Rightarrow> \<bar>q\<bar> < 10 ^ whole)"

definition create_metric :: "'w market_service \<Rightarrow> source_row \<Rightarrow> string \<Rightarrow> rat option \<Rightarrow> json \<Rightarrow> ('w, unit) market_action" where
  "create_metric svc source key numeric value =
     (let row = \<lparr>me_run = run_id (ms_run svc), me_source = so_id source, me_key = key, me_numeric = numeric, me_json = value,
           me_scope = ''SEMrush '' @ ms_database svc @ '' database''\<rparr>
      in on_market_tables (\<lambda>t. if \<not> numeric_fits 14 numeric then Inl (DataError ''numeric field overflow'')
           else mapR (\<lambda>_. t\<lparr>mt_metrics := mt_metrics t @ [row]\<rparr>) (fits [(120, key), (255, me_scope row)])))"

definition field :: "(string \<times> json) list \<Rightarrow> string \<Rightarrow> json" where
  "field row key = opt_or JNull (map_of row key)"

definition text_field :: "(string \<times> json) list \<Rightarrow> string \<Rightarrow> string" where
  "text_field row key = (case field row key of JStr t \<Rightarrow> t | _ \<Rightarrow> [])"

definition SCALARS :: "(string \<times> bool \<times> string) list" where
  "SCALARS =
    [(''semrush.organic_keywords'', True, ''organic_keywords''), (''semrush.organic_traffic'', True, ''organic_traffic''),
     (''semrush.organic_cost'', True, ''organic_cost''), (''semrush.adwords_keywords'', True, ''adwords_keywords''), (''semrush.rank'', True, ''rank''),
     (''semrush.authority_score'', False, ''authority_score''), (''semrush.backlinks_total'', False, ''backlinks_total''),
     (''semrush.referring_domains'', False, ''referring_domains''), (''semrush.referring_ips'', False, ''referring_ips''),
     (''semrush.follow_links'', False, ''follow_links''), (''semrush.nofollow_links'', False, ''nofollow_links'')]"

definition persist_scalar :: "'w market_service \<Rightarrow> source_row \<Rightarrow> (string \<times> json) list \<Rightarrow> (string \<times> json) list \<Rightarrow> unit \<Rightarrow>
    string \<times> bool \<times> string \<Rightarrow> ('w, unit) market_action" where
  "persist_scalar svc source ranks overview u = (\<lambda>(key, of_ranks, column).
     case json_decimal 6 (field (if of_ranks then ranks else overview) column) of
       None \<Rightarrow> ret ()
     | Some q \<Rightarrow> create_metric svc source key (Some q) JNull)"

text \<open>\<open>update_or_create\<close> on the columns of the unique constraint.\<close>

definition upsert :: "('r \<Rightarrow> 'r \<Rightarrow> bool) \<Rightarrow> 'r \<Rightarrow> 'r list \<Rightarrow> 'r list" where
  "upsert same r rows = (if list_ex (same r) rows then map (\<lambda>x. if same r x then r else x) rows else rows @ [r])"

definition same_keyword :: "keyword_row \<Rightarrow> keyword_row \<Rightarrow> bool" where
  "same_keyword a b \<longleftrightarrow> kw_run a = kw_run b \<and> kw_normalized a = kw_normalized b \<and> kw_country a = kw_country b \<and> kw_locale a = kw_locale b"

definition keyword_of :: "'w market_service \<Rightarrow> source_row \<Rightarrow> string \<Rightarrow> string \<Rightarrow> (string \<times> json) list \<Rightarrow> keyword_row" where
  "keyword_of svc source phrase normalized row =
     \<lparr>kw_run = run_id (ms_run svc), kw_source = so_id source, kw_phrase = take 500 phrase, kw_normalized = normalized,
      kw_country = take 2 (map to_upper (strip (country_code (ms_project svc)))), kw_locale = project_locale (ms_project svc),
      kw_intent = derive_intent phrase,
      kw_volume = (case field row ''search_volume'' of JInt n \<Rightarrow> if 0 \<le> n then Some n else None | _ \<Rightarrow> None),
      kw_cpc = json_decimal 4 (field row ''cpc''), kw_position = json_decimal 2 (field row ''position''),
      kw_scope = ''SEMrush '' @ ms_database svc @ '' organic positions''\<rparr>"

definition store_keyword :: "keyword_row \<Rightarrow> ('w, unit) market_action" where
  "store_keyword k = on_market_tables (\<lambda>t.
     if \<not> numeric_fits 8 (kw_cpc k) \<or> \<not> numeric_fits 6 (kw_position k) then Inl (DataError ''numeric field overflow'')
     else if opt_any (\<lambda>n. 2147483647 < n) (kw_volume k) then Inl (DataError ''integer out of range'')
     else mapR (\<lambda>_. t\<lparr>mt_keywords := upsert same_keyword k (mt_keywords t)\<rparr>) (fits [(35, kw_locale k), (255, kw_scope k)]))"

definition persist_keyword :: "'w market_service \<Rightarrow> source_row \<Rightarrow> string list \<Rightarrow> (string \<times> json) list \<Rightarrow> ('w, string list) market_action" where
  "persist_keyword svc source seen row =
     (let phrase = strip (text_field row ''phrase''); normalized = take 500 (squash (casefold phrase))
      in if phrase = [] \<or> normalized = [] \<or> normalized \<in> set seen then ret seen
         else bindA (store_keyword (keyword_of svc source phrase normalized row)) (\<lambda>_. ret (normalized # seen)))"

definition persist_keywords :: "'w market_service \<Rightarrow> source_row \<Rightarrow> mapped_rows \<Rightarrow> ('w, nat) market_action" where
  "persist_keywords svc source rows =
     bindA (foldA (persist_keyword svc source) [] (take KEYWORD_PERSIST_CAP rows)) (\<lambda>seen. ret (length seen))"

definition same_backlink :: "backlink_row \<Rightarrow> backlink_row \<Rightarrow> bool" where
  "same_backlink a b \<longleftrightarrow> bk_run a = bk_run b \<and> bk_source_url a = bk_source_url b \<and> bk_target_url a = bk_target_url b"

definition backlink_of :: "'w market_service \<Rightarrow> source_row \<Rightarrow> string \<Rightarrow> (string \<times> json) list \<Rightarrow> backlink_row" where
  "backlink_of svc source domain row =
     (let day = (\<lambda>key. if text_field row key = [] then None else from_isoformat (ms_dates svc) (text_field row key))
      in \<lparr>bk_run = run_id (ms_run svc), bk_source = so_id source, bk_source_url = ''https://'' @ domain @ ''/'',
          bk_target_url = ''https://'' @ primary_domain (ms_project svc) @ ''/'', bk_domain = domain,
          bk_authority = json_decimal 2 (field row ''authority_score''), bk_first_seen = day ''first_seen'', bk_last_seen = day ''last_seen'',
          bk_scope = take 255 (case field row ''backlinks'' of
              JInt n \<Rightarrow> ''SEMrush referring domain; '' @ str_of_int n @ '' backlinks'' | _ \<Rightarrow> ''SEMrush referring domain'')\<rparr>)"

definition store_backlink :: "backlink_row \<Rightarrow> ('w, unit) market_action" where
  "store_backlink b = on_market_tables (\<lambda>t.
     if \<not> numeric_fits 3 (bk_authority b) then Inl (DataError ''numeric field overflow'')
     else mapR (\<lambda>_. t\<lparr>mt_backlinks := upsert same_backlink b (mt_backlinks t)\<rparr>) (fits [(2048, bk_target_url b)]))"

definition persist_backlink :: "'w market_service \<Rightarrow> source_row \<Rightarrow> string list \<Rightarrow> (string \<times> json) list \<Rightarrow> ('w, string list) market_action" where
  "persist_backlink svc source seen row =
     (let domain = casefold (strip (text_field row ''domain''))
      in if domain = [] \<or> domain \<in> set seen \<or> 253 < length domain then ret seen
         else bindA (store_backlink (backlink_of svc source domain row)) (\<lambda>_. ret (domain # seen)))"

definition persist_backlinks :: "'w market_service \<Rightarrow> source_row \<Rightarrow> mapped_rows \<Rightarrow> ('w, nat) market_action" where
  "persist_backlinks svc source rows =
     bindA (foldA (persist_backlink svc source) [] (take REFDOMAIN_PERSIST_CAP rows)) (\<lambda>seen. ret (length seen))"

definition rows_json :: "mapped_rows \<Rightarrow> json" where
  "rows_json rows = JList (map JObj rows)"

type_synonym payloads = "(string \<times> mapped_rows) list"

definition rows_of :: "payloads \<Rightarrow> string \<Rightarrow> mapped_rows" where
  "rows_of payloads report = opt_or [] (map_of payloads report)"

definition first_row :: "mapped_rows \<Rightarrow> (string \<times> json) list" where
  "first_row rows = (case rows of [] \<Rightarrow> [] | r # rs \<Rightarrow> r)"

definition persist_rows :: "'w market_service \<Rightarrow> source_row \<Rightarrow> payloads \<Rightarrow> ('w, unit) market_action" where
  "persist_rows svc source payloads =
     (let ranks = first_row (rows_of payloads ''domain_ranks''); overview = first_row (rows_of payloads ''backlinks_overview'');
          keywords = rows_of payloads ''domain_organic''; competitors = rows_of payloads ''domain_organic_organic'';
          refdomains = rows_of payloads ''backlinks_refdomains''
      in bindA (foldA (persist_scalar svc source ranks overview) () SCALARS) (\<lambda>_.
         bindA (if keywords = [] then ret () else
           bindA (create_metric svc source ''semrush.keywords'' None (rows_json (take KEYWORD_PERSIST_CAP keywords))) (\<lambda>_.
           bindA (persist_keywords svc source keywords) (\<lambda>n. set_result (\<lambda>r. r\<lparr>mr_keywords := n\<rparr>)))) (\<lambda>_.
         bindA (if competitors = [] then ret () else
           bindA (create_metric svc source ''semrush.competitors'' None (rows_json competitors)) (\<lambda>_.
           set_result (\<lambda>r. r\<lparr>mr_competitors := length competitors\<rparr>))) (\<lambda>_.
         if refdomains = [] then ret () else
           bindA (create_metric svc source ''semrush.referring_domain_list'' None (rows_json (take REFDOMAIN_PERSIST_CAP refdomains))) (\<lambda>_.
           bindA (persist_backlinks svc source refdomains) (\<lambda>n. set_result (\<lambda>r. r\<lparr>mr_refdomains := n\<rparr>)))))))"

subsection \<open>Collection\<close>

definition GATE_REASON :: string where
  "GATE_REASON = ''SEMrush holds no data for this domain, so the remaining reports were not requested and no units were spent on them.''"

definition NO_ROWS_REASON :: string where
  "NO_ROWS_REASON = ''SEMrush returned no rows for this domain, so market, keyword, competitor, and backlink metrics are unavailable.''"

definition CRASH_REASON :: string where
  "CRASH_REASON = ''SEMrush market data could not be collected because the collector failed unexpectedly. No market metrics are reported for this run.''"

definition add_call :: "call_record \<Rightarrow> ('w, unit) market_action" where
  "add_call c = set_result (\<lambda>r. r\<lparr>mr_calls := mr_calls r @ [c]\<rparr>)"

definition plan_step :: "'w market_service \<Rightarrow> string \<Rightarrow> payloads \<times> string option \<Rightarrow> planned_call \<Rightarrow>
    ('w, payloads \<times> string option) market_action" where
  "plan_step svc target acc p =
     (case acc of (payloads, skip) \<Rightarrow>
     bindA (gets mk_circuit) (\<lambda>circuit.
     if circuit \<noteq> None then bindA (add_call (new_record p ''halted'' circuit)) (\<lambda>_. ret acc)
     else if skip \<noteq> None then bindA (add_call (new_record p ''skipped'' skip)) (\<lambda>_. ret acc)
     else bindA (run_call svc target p) (\<lambda>(c, rows).
       bindA (add_call c) (\<lambda>_.
       if cl_status c = ''ok''
       then ret (payloads @ [(pc_report p, rows)], if pc_gates p \<and> rows = [] then Some GATE_REASON else None)
       else if cl_status c = ''halted'' then bindA (modifyA (\<lambda>s. s\<lparr>mk_circuit := cl_reason c\<rparr>)) (\<lambda>_. ret acc)
       else ret acc))))"

definition give_up :: "'w market_service \<Rightarrow> string \<Rightarrow> ('w, unit) market_action" where
  "give_up svc reason = bindA (set_result (\<lambda>r. r\<lparr>mr_reason := Some reason\<rparr>)) (\<lambda>_.
     bindA (persist_snapshot svc 0 0) (\<lambda>_. ret ()))"

definition finish_plan :: "'w market_service \<Rightarrow> payloads \<Rightarrow> string option \<Rightarrow> ('w, unit) market_action" where
  "finish_plan svc payloads skip =
     (let has_data = list_ex (\<lambda>(r, rows). rows \<noteq> []) payloads in
      bindA (modifyA (\<lambda>s. s\<lparr>mk_result := (mk_result s)\<lparr>mr_units_spent := mk_units s\<rparr>\<rparr>)) (\<lambda>_.
      bindA (gets mk_circuit) (\<lambda>circuit.
      bindA (set_result (\<lambda>r. if has_data then r\<lparr>mr_status := ''available'', mr_fetched_at := Some (ms_now svc 0)\<rparr>
          else r\<lparr>mr_status := ''unavailable'', mr_reason := Some (opt_or (opt_or NO_ROWS_REASON skip) circuit)\<rparr>)) (\<lambda>_.
      bindA (persist_snapshot svc 0 (sum_list (map (length \<circ> snd) payloads))) (\<lambda>snapshot.
      case snapshot of Some source \<Rightarrow> if has_data then persist_rows svc source payloads else ret () | None \<Rightarrow> ret ())))))"

definition collect_plan :: "'w market_service \<Rightarrow> ('w, unit) market_action" where
  "collect_plan svc =
     (if \<not> ms_enabled svc then give_up svc ''Market data collection is disabled for this deployment (MARKET_DATA_ENABLED is off).''
      else if ms_api_key svc = [] then give_up svc ''No SEMrush API key is configured, so no keyword, competitor, or backlink metrics were requested.''
      else case canonical_host (primary_domain (ms_project svc)) of
          Inl e \<Rightarrow> if is_value_error e then give_up svc ''The project's primary domain is not a valid host, so SEMrush reports could not be requested.''
            else code_error (Inl e)
        | Inr target \<Rightarrow> bindA (foldA (plan_step svc target) ([], None) (opt_or [] (map_of PLANS (ms_tier svc)))) (\<lambda>(payloads, skip).
            finish_plan svc payloads skip))"

fun escapes_handler :: "market_error \<Rightarrow> bool" where
  "escapes_handler (Call_raised (From_operation (Uncaught name))) = True"
| "escapes_handler e = False"

text \<open>\<open>collect\<close>: every \<open>Exception\<close> ends in an unavailable result; only what is no \<open>Exception\<close> passes through.\<close>

definition crashed :: "'w market_service \<Rightarrow> ('w, unit) market_action" where
  "crashed svc = bindA (set_result (\<lambda>r. r\<lparr>mr_status := ''unavailable'', mr_reason := Some CRASH_REASON\<rparr>)) (\<lambda>_.
     bindA (persist_snapshot svc 1 0) (\<lambda>_. ret ()))"

definition collect_market :: "'w market_service \<Rightarrow> ('w, market_result) market_action" where
  "collect_market svc = catchA (collect_plan svc)
     (\<lambda>e. if escapes_handler e then raise e else bindA (crashed svc) (\<lambda>_. gets mk_result))
     (\<lambda>_. gets mk_result)"

definition new_market :: "'w market_service \<Rightarrow> breaker \<Rightarrow> 'w \<Rightarrow> market_tables \<Rightarrow> 'w market" where
  "new_market svc b w t = \<lparr>mk_executor = \<lparr>ex_breaker = b, ex_world = w\<rparr>, mk_units = 0, mk_circuit = None,
     mk_result = \<lparr>mr_status = ''unavailable'', mr_tier = ms_tier svc, mr_database = ms_database svc, mr_units_spent = 0,
       mr_reason = None, mr_fetched_at = None, mr_snapshot = None, mr_calls = [], mr_keywords = 0, mr_competitors = 0, mr_refdomains = 0\<rparr>,
     mk_tables = t\<rparr>"

end
