(* ===== verification/Market_Budget.thy ===== *)
theory Market_Budget
  imports Market_Data Semrush_Facts
begin

text \<open>
  Properties of the market-data collection: the unit budget, the record of every planned call, what a failure of the
  collector leaves behind, and the uniqueness of the rows it stores.
\<close>

subsection \<open>One call\<close>

definition at_point :: "int \<Rightarrow> market_result \<Rightarrow> string option \<Rightarrow> 'w market \<Rightarrow> bool" where
  "at_point u r c s \<longleftrightarrow> mk_units s = u \<and> mk_result s = r \<and> mk_circuit s = c"

lemma on_executor_spec: "spec (at_point u r c) (on_executor m) (\<lambda>_. at_point u r c) (\<lambda>_. at_point u r c)"
  by (rule specI) (auto simp: on_executor_def at_point_def split: prod.splits sum.splits)

lemma on_cache_spec: "spec (at_point u r c) (on_cache f) (\<lambda>_. at_point u r c) (\<lambda>_. at_point u r c)"
  by (rule specI) (auto simp: on_cache_def at_point_def split: prod.splits sum.splits)

lemma code_error_spec: "spec (at_point u r c) (code_error x) (\<lambda>_. at_point u r c) (\<lambda>_. at_point u r c)"
  unfolding code_error_def by (rule spec_pure) simp_all

lemma code_raise_spec: "spec (at_point u r c) (code_error (Inl e)) Q (\<lambda>_. at_point u r c)"
  unfolding code_error_def by (rule spec_pure) simp_all

lemmas record_defs = new_record_def report_error_record_def rows_record_def over_budget_def failed_record_def

text \<open>The record of one call: its units are exactly what the call charged.\<close>

definition record_of :: "planned_call \<Rightarrow> int \<Rightarrow> call_record \<times> mapped_rows \<Rightarrow> bool" where
  "record_of p units out \<longleftrightarrow> cl_report (fst out) = pc_report p \<and> cl_units (fst out) = units \<and>
     (cl_status (fst out) = ''ok'' \<longrightarrow> cl_rows (fst out) = length (snd out)) \<and>
     (cl_status (fst out) = ''halted'' \<longrightarrow> cl_reason (fst out) \<noteq> None)"

lemma use_body_spec:
  "spec (at_point u r c) (use_body svc p key units cached body) (\<lambda>out s. record_of p units out \<and> at_point u r c s) (\<lambda>_. at_point u r c)"
proof (cases "parse_response (pc_report p) body")
  case (Inl e)
  then show ?thesis
    unfolding use_body_def by (cases e) (auto intro!: spec_ret code_raise_spec simp: record_of_def record_defs)
next
  case (Inr response)
  have "spec (at_point u r c) (if \<not> cached \<and> cache_days (ms_cache_days svc) \<noteq> 0
      then on_cache (ms_cache_set svc key body (cache_days (ms_cache_days svc) * 86400)) else ret ()) (\<lambda>_. at_point u r c) (\<lambda>_. at_point u r c)"
    by (intro spec_if on_cache_spec spec_ret)
  then show ?thesis
    unfolding use_body_def Inr sum.case
    by (rule spec_bind, intro spec_bind [OF code_error_spec] spec_ret) (simp add: record_of_def record_defs)
qed

definition charged :: "int \<Rightarrow> int \<Rightarrow> int \<Rightarrow> bool" where
  "charged budget u v \<longleftrightarrow> v = u \<or> u < v \<and> v \<le> budget"

lemma run_call_spec:
  "spec (at_point u r c) (run_call svc target p)
     (\<lambda>out s. \<exists>units. record_of p units out \<and> charged (ms_budget svc) u (u + units) \<and> at_point (u + units) r c s)
     (\<lambda>e s. \<exists>v. charged (ms_budget svc) u v \<and> at_point v r c s)"
proof (cases "build_request (ms_sha svc) (pc_report p) (ms_api_key svc) target (options_of svc p)")
  case (Inl e)
  have "spec (at_point u r c) (code_error (Inl e)) Q (\<lambda>e s. \<exists>v. charged (ms_budget svc) u v \<and> at_point v r c s)" for Q :: "call_record \<times> mapped_rows \<Rightarrow> _"
    by (intro spec_weaken [OF code_raise_spec]) (auto simp: charged_def)
  moreover have "spec (at_point u r c) (ret (new_record p ''invalid'' (Some m), []))
     (\<lambda>out s. \<exists>units. record_of p units out \<and> charged (ms_budget svc) u (u + units) \<and> at_point (u + units) r c s) E" for m E
    by (rule spec_ret) (auto intro!: exI [of _ 0] simp: record_of_def record_defs charged_def)
  ultimately show ?thesis unfolding run_call_def Inl by (cases e) simp_all
next
  case (Inr request)
  note price = request_units [OF Inr]
  let ?E = "\<lambda>e s. \<exists>v. charged (ms_budget svc) u v \<and> at_point v r c s"
  have same: "charged (ms_budget svc) u u" by (simp add: charged_def)
  have stored: "spec (at_point u r c) (if b then on_cache f else ret None) (\<lambda>_. at_point u r c) ?E" for b and f :: "'a \<Rightarrow> (wf_error + string option) \<times> 'a"
    using same by (intro spec_if spec_weaken [OF on_cache_spec] spec_ret) auto
  have body: "spec (at_point v r c) (use_body svc p key units cached b)
      (\<lambda>out s. \<exists>units. record_of p units out \<and> charged (ms_budget svc) u (u + units) \<and> at_point (u + units) r c s) ?E"
    if "v = u + units" "charged (ms_budget svc) u v" for v units key cached b
    using that by (intro spec_weaken [OF use_body_spec]) auto
  have pay: "spec (at_point u r c) (bindA (charge (rq_units request)) f) Q E"
    if "spec (at_point (u + rq_units request) r c) (f ()) Q E" for Q E and f :: "unit \<Rightarrow> ('a, call_record \<times> mapped_rows) market_action"
    unfolding charge_def by (rule spec_modify_bind [where P' = "at_point (u + rq_units request) r c"]) (simp_all add: at_point_def that)
  have skip: "spec (at_point u r c) (ret (x, [])) (\<lambda>out s. \<exists>units. record_of p units out \<and> charged (ms_budget svc) u (u + units) \<and>
      at_point (u + units) r c s) ?E" if "cl_report x = pc_report p" "cl_units x = 0" "cl_status x \<noteq> ''halted''" "cl_status x \<noteq> ''ok''" for x
    using that same by (intro spec_ret exI [of _ 0]) (simp add: record_of_def)
  show ?thesis
    unfolding run_call_def Inr sum.case Let_def
  proof (rule spec_bind [OF stored], rule spec_option)
    fix stored
    show "spec (at_point u r c) (bindA (gets (budget_remaining svc)) (\<lambda>remaining. if remaining < rq_units request
        then ret (over_budget svc p (rq_units request) remaining, [])
        else bindA (on_executor (call (guarded_fetch_text svc (rq_url request)) (ms_policy svc) SOURCE_TYPE)) (\<lambda>out.
          if ar_status out \<noteq> Status_available \<or> ar_data out = None then ret (failed_record p (ar_errors out), [])
          else bindA (charge (rq_units request)) (\<lambda>_. use_body svc p (CACHE_NAMESPACE @ '':'' @ rq_cache_key request) (rq_units request) False (the (ar_data out))))))
      (\<lambda>out s. \<exists>units. record_of p units out \<and> charged (ms_budget svc) u (u + units) \<and> at_point (u + units) r c s) ?E"
    proof (rule spec_gets_bind [where a = "max 0 (ms_budget svc - u)"])
      show "budget_remaining svc x = max 0 (ms_budget svc - u)" if "at_point u r c x" for x
        using that by (simp add: budget_remaining_def at_point_def)
    next
      have exec: "spec (at_point u r c) (on_executor (call (guarded_fetch_text svc (rq_url request)) (ms_policy svc) SOURCE_TYPE)) (\<lambda>_. at_point u r c) ?E"
        using same by (intro spec_weaken [OF on_executor_spec]) auto
      show "spec (at_point u r c) (if max 0 (ms_budget svc - u) < rq_units request
          then ret (over_budget svc p (rq_units request) (max 0 (ms_budget svc - u)), [])
          else bindA (on_executor (call (guarded_fetch_text svc (rq_url request)) (ms_policy svc) SOURCE_TYPE)) (\<lambda>out.
            if ar_status out \<noteq> Status_available \<or> ar_data out = None then ret (failed_record p (ar_errors out), [])
            else bindA (charge (rq_units request)) (\<lambda>_. use_body svc p (CACHE_NAMESPACE @ '':'' @ rq_cache_key request) (rq_units request) False (the (ar_data out)))))
        (\<lambda>out s. \<exists>units. record_of p units out \<and> charged (ms_budget svc) u (u + units) \<and> at_point (u + units) r c s) ?E"
        using price by (intro spec_if spec_bind [OF exec] pay body skip) (auto simp: record_defs charged_def)
    qed
  qed (use body [of u 0] same in simp)
qed

subsection \<open>The plan\<close>

text \<open>
  What the records of a collection may look like: an automaton over the planned calls and their records. A halted
  report stops everything after it, an empty gating report skips everything after it, and neither costs anything.
\<close>

definition stop_step :: "string option \<Rightarrow> planned_call \<times> call_record \<Rightarrow> string option" where
  "stop_step stop pc = (case stop of Some st \<Rightarrow> Some st
     | None \<Rightarrow> if cl_status (snd pc) = ''halted'' then Some ''halted''
         else if cl_status (snd pc) = ''ok'' \<and> cl_rows (snd pc) = 0 \<and> pc_gates (fst pc) then Some ''skipped'' else None)"

fun orderly :: "string option \<Rightarrow> (planned_call \<times> call_record) list \<Rightarrow> bool" where
  "orderly stop [] = True"
| "orderly stop (pc # pcs) \<longleftrightarrow> (case stop of None \<Rightarrow> True | Some st \<Rightarrow> cl_status (snd pc) = st \<and> cl_units (snd pc) = 0) \<and>
     orderly (stop_step stop pc) pcs"

lemma orderly_append: "orderly stop (xs @ ys) \<longleftrightarrow> orderly stop xs \<and> orderly (foldl stop_step stop xs) ys"
  by (induction xs arbitrary: stop) auto

definition standing :: "string option \<Rightarrow> string option \<Rightarrow> string option" where
  "standing circuit skip = (if circuit \<noteq> None then Some ''halted'' else if skip \<noteq> None then Some ''skipped'' else None)"

definition total_units :: "call_record list \<Rightarrow> int" where
  "total_units cs = sum_list (map cl_units cs)"

definition plan_inv :: "'w market_service \<Rightarrow> planned_call list \<Rightarrow> payloads \<times> string option \<Rightarrow> 'w market \<Rightarrow> bool" where
  "plan_inv svc past acc s \<longleftrightarrow>
     (let cs = mr_calls (mk_result s); pcs = zip past cs in
      map cl_report cs = map pc_report past \<and> total_units cs = mk_units s \<and> 0 \<le> mk_units s \<and> mk_units s \<le> ms_budget svc \<and>
      mr_units_spent (mk_result s) = 0 \<and> orderly None pcs \<and> foldl stop_step None pcs = standing (mk_circuit s) (snd acc))"

lemma add_call_result: "add_call c s = (x, s') \<longleftrightarrow> x = Inr () \<and> s' = s\<lparr>mk_result := (mk_result s)\<lparr>mr_calls := mr_calls (mk_result s) @ [c]\<rparr>\<rparr>"
  by (auto simp: add_call_def set_result_def modify_result)

lemma run_callE:
  assumes "run_call svc target p s = (Inr (c, rows), s')"
  obtains units where "record_of p units (c, rows)" "charged (ms_budget svc) (mk_units s) (mk_units s + units)"
    "mk_units s' = mk_units s + units" "mk_result s' = mk_result s" "mk_circuit s' = mk_circuit s"
  using spec_InrD [OF run_call_spec _ assms, of "mk_units s" "mk_result s" "mk_circuit s"] by (auto simp: at_point_def)

lemma plan_inv_add:
  assumes "plan_inv svc past acc s" and "mk_units s' = mk_units s + cl_units c" and "charged (ms_budget svc) (mk_units s) (mk_units s')"
    and "mk_result s' = (mk_result s)\<lparr>mr_calls := mr_calls (mk_result s) @ [c]\<rparr>" and "cl_report c = pc_report p"
    and "orderly (standing (mk_circuit s) (snd acc)) [(p, c)]"
    and "stop_step (standing (mk_circuit s) (snd acc)) (p, c) = standing (mk_circuit s') (snd acc')"
  shows "plan_inv svc (past @ [p]) acc' s'"
proof -
  have "map cl_report (mr_calls (mk_result s)) = map pc_report past" using assms(1) by (simp add: plan_inv_def Let_def)
  then have "length (mr_calls (mk_result s)) = length past" by (metis length_map)
  with assms show ?thesis by (auto simp: plan_inv_def Let_def total_units_def orderly_append charged_def)
qed

lemma plan_step_inv:
  assumes "plan_inv svc past acc s" and "plan_step svc target acc p s = (Inr acc', s')"
  shows "plan_inv svc (past @ [p]) acc' s'"
proof -
  obtain payloads skip where acc: "acc = (payloads, skip)" by (cases acc)
  have stay: "charged (ms_budget svc) u u" for u by (simp add: charged_def)
  consider (halted) "mk_circuit s \<noteq> None" | (skipped) "mk_circuit s = None" "skip \<noteq> None" | (run) "mk_circuit s = None" "skip = None" by blast
  then show ?thesis
  proof cases
    case halted
    with assms(2) have "acc' = acc" "s' = s\<lparr>mk_result := (mk_result s)\<lparr>mr_calls := mr_calls (mk_result s) @ [new_record p ''halted'' (mk_circuit s)]\<rparr>\<rparr>"
      by (auto simp: plan_step_def acc action_cases add_call_result)
    with halted show ?thesis
      by (intro plan_inv_add [OF assms(1)]) (auto simp: stay new_record_def standing_def stop_step_def)
  next
    case skipped
    with assms(2) have "acc' = acc" "s' = s\<lparr>mk_result := (mk_result s)\<lparr>mr_calls := mr_calls (mk_result s) @ [new_record p ''skipped'' skip]\<rparr>\<rparr>"
      by (auto simp: plan_step_def acc action_cases add_call_result)
    with skipped acc show ?thesis
      by (intro plan_inv_add [OF assms(1)]) (auto simp: stay new_record_def standing_def stop_step_def)
  next
    case run
    let ?then = "\<lambda>c rows. bindA (add_call c) (\<lambda>_. if cl_status c = ''ok''
        then ret (payloads @ [(pc_report p, rows)], if pc_gates p \<and> rows = [] then Some GATE_REASON else None)
        else if cl_status c = ''halted'' then bindA (modifyA (\<lambda>s. s\<lparr>mk_circuit := cl_reason c\<rparr>)) (\<lambda>_. ret acc) else ret acc)"
    have "plan_step svc target acc p s = bindA (run_call svc target p) (\<lambda>(c, rows). ?then c rows) s"
      unfolding acc plan_step_def using run by simp
    with assms(2) obtain out s1 where call0: "run_call svc target p s = (Inr out, s1)"
      and fin: "(case out of (c, rows) \<Rightarrow> ?then c rows) s1 = (Inr acc', s')" by (auto simp: bindA_Inr)
    obtain c rows where out: "out = (c, rows)" by (cases out)
    note call = call0 [unfolded out]
    let ?s2 = "s1\<lparr>mk_result := (mk_result s1)\<lparr>mr_calls := mr_calls (mk_result s1) @ [c]\<rparr>\<rparr>"
    have "add_call c s1 = (Inr (), ?s2)" by (simp add: add_call_result)
    with fin have fin2: "(if cl_status c = ''ok''
        then ret (payloads @ [(pc_report p, rows)], if pc_gates p \<and> rows = [] then Some GATE_REASON else None)
        else if cl_status c = ''halted'' then bindA (modifyA (\<lambda>s. s\<lparr>mk_circuit := cl_reason c\<rparr>)) (\<lambda>_. ret acc) else ret acc) ?s2 = (Inr acc' :: market_error + _, s')"
      by (simp only: out prod.case bindA_def sum.case)
    have rest: "acc' = (if cl_status c = ''ok'' then (payloads @ [(pc_report p, rows)], if pc_gates p \<and> rows = [] then Some GATE_REASON else None) else acc)"
      "s' = (if cl_status c = ''halted'' then ?s2\<lparr>mk_circuit := cl_reason c\<rparr> else ?s2)"
      using fin2 by (cases "cl_status c = ''ok''"; cases "cl_status c = ''halted''"; simp add: ret_result bindA_Inr modify_result)+
    from call obtain units where u: "record_of p units (c, rows)" "charged (ms_budget svc) (mk_units s) (mk_units s + units)"
      "mk_units s1 = mk_units s + units" "mk_result s1 = mk_result s" "mk_circuit s1 = mk_circuit s" by (rule run_callE)
    from u(1) have c: "cl_report c = pc_report p" "cl_units c = units" "cl_status c = ''ok'' \<longrightarrow> cl_rows c = length rows"
      "cl_status c = ''halted'' \<longrightarrow> cl_reason c \<noteq> None" by (simp_all add: record_of_def)
    have s': "mk_units s' = mk_units s1" "mk_result s' = (mk_result s1)\<lparr>mr_calls := mr_calls (mk_result s1) @ [c]\<rparr>"
      "mk_circuit s' = (if cl_status c = ''halted'' then cl_reason c else mk_circuit s1)" by (simp_all add: rest(2))
    have none: "standing (mk_circuit s) (snd acc) = None" using run by (simp add: standing_def acc)
    have step: "stop_step None (p, c) = standing (mk_circuit s') (snd acc')"
    proof (cases "cl_status c = ''ok''")
      case True
      with c(3) run u(5) show ?thesis by (simp add: stop_step_def standing_def s'(3) rest(1))
    next
      case False
      with c(4) run u(5) show ?thesis by (simp add: stop_step_def standing_def s'(3) rest(1) acc)
    qed
    show ?thesis
      by (rule plan_inv_add [OF assms(1)]) (use u c s' none step in simp_all)
  qed
qed

lemma plan_step_raised:
  assumes "plan_inv svc past acc s" and "plan_step svc target acc p s = (Inl e, s')"
  shows "mr_units_spent (mk_result s') = 0 \<and> 0 \<le> mk_units s' \<and> mk_units s' \<le> ms_budget svc \<and> total_units (mr_calls (mk_result s')) \<le> mk_units s'"
proof -
  obtain payloads skip where acc: "acc = (payloads, skip)" by (cases acc)
  from assms(2) have "run_call svc target p s = (Inl e, s')"
    by (auto simp: plan_step_def acc action_cases add_call_result split: if_splits)
  with spec_InlD [OF run_call_spec _ this, of "mk_units s" "mk_result s" "mk_circuit s"] assms(1) show ?thesis
    by (auto simp: at_point_def plan_inv_def Let_def charged_def)
qed

subsection \<open>The end of a collection\<close>

definition settled_at :: "int \<Rightarrow> call_record list \<Rightarrow> int \<Rightarrow> 'w market \<Rightarrow> bool" where
  "settled_at u cs x s \<longleftrightarrow> mk_units s = u \<and> mr_calls (mk_result s) = cs \<and> mr_units_spent (mk_result s) = x"

lemma keeps_on_market_tables: "keeps (settled_at u cs x) (on_market_tables f)"
  by (rule keepsI) (auto simp: on_market_tables_def settled_at_def split: sum.splits)

lemma keeps_set_result: "(\<And>r. mr_calls (f r) = mr_calls r \<and> mr_units_spent (f r) = mr_units_spent r) \<Longrightarrow> keeps (settled_at u cs x) (set_result f)"
  by (rule keepsI) (auto simp: set_result_def modifyA_def settled_at_def)

lemma keeps_snapshot: "keeps (settled_at u cs x) (persist_snapshot svc n k)"
  unfolding persist_snapshot_def by (intro keeps_intros keeps_set_result) (simp_all add: settled_at_def)

lemma keeps_metric: "keeps (settled_at u cs x) (create_metric svc source key numeric value)"
  unfolding create_metric_def by (intro keeps_intros keeps_on_market_tables)

lemma keeps_scalar: "keeps (settled_at u cs x) (persist_scalar svc source ranks overview v scalar)"
  unfolding persist_scalar_def by (intro keeps_intros keeps_metric)

lemma keeps_keywords: "keeps (settled_at u cs x) (persist_keywords svc source rows)"
  unfolding persist_keywords_def persist_keyword_def store_keyword_def by (intro keeps_intros keeps_on_market_tables)

lemma keeps_backlinks: "keeps (settled_at u cs x) (persist_backlinks svc source rows)"
  unfolding persist_backlinks_def persist_backlink_def store_backlink_def by (intro keeps_intros keeps_on_market_tables)

lemma keeps_rows: "keeps (settled_at u cs x) (persist_rows svc source payloads)"
  unfolding persist_rows_def by (intro keeps_intros keeps_scalar keeps_metric keeps_keywords keeps_backlinks keeps_set_result) simp_all

lemma keeps_give_up: "keeps (settled_at u cs x) (give_up svc reason)"
  unfolding give_up_def by (intro keeps_intros keeps_snapshot keeps_set_result) simp_all

lemma keeps_crashed: "keeps (settled_at u cs x) (crashed svc)"
  unfolding crashed_def by (intro keeps_intros keeps_snapshot keeps_set_result) simp_all

lemma finish_plan_settles:
  assumes "finish_plan svc payloads skip s = (out, s')"
  shows "settled_at (mk_units s) (mr_calls (mk_result s)) (mk_units s) s'"
proof -
  let ?s = "s\<lparr>mk_result := (mk_result s)\<lparr>mr_units_spent := mk_units s\<rparr>\<rparr>"
  let ?rest = "bindA (gets mk_circuit) (\<lambda>circuit.
      bindA (set_result (\<lambda>r. if list_ex (\<lambda>(r, rows). rows \<noteq> []) payloads then r\<lparr>mr_status := ''available'', mr_fetched_at := Some (ms_now svc 0)\<rparr>
          else r\<lparr>mr_status := ''unavailable'', mr_reason := Some (opt_or (opt_or NO_ROWS_REASON skip) circuit)\<rparr>)) (\<lambda>_.
      bindA (persist_snapshot svc 0 (sum_list (map (length \<circ> snd) payloads))) (\<lambda>snapshot.
      case snapshot of Some source \<Rightarrow> if list_ex (\<lambda>(r, rows). rows \<noteq> []) payloads then persist_rows svc source payloads else ret () | None \<Rightarrow> ret ())))"
  have run: "finish_plan svc payloads skip s = ?rest ?s" by (simp add: finish_plan_def Let_def)
  have kept: "keeps (settled_at (mk_units s) (mr_calls (mk_result s)) (mk_units s)) ?rest"
    by (intro keeps_intros keeps_snapshot keeps_rows keeps_set_result) simp_all
  have start: "settled_at (mk_units s) (mr_calls (mk_result s)) (mk_units s) ?s" by (simp add: settled_at_def)
  from assms have "?rest ?s = (out, s')" unfolding run .
  then show ?thesis by (rule keepsD [OF kept start])
qed

lemma new_market_inv: "0 \<le> ms_budget svc \<Longrightarrow> plan_inv svc [] ([], None) (new_market svc b w t)"
  by (simp add: plan_inv_def new_market_def total_units_def standing_def)

text \<open>The plan of a collection that gets as far as its calls.\<close>

definition ready :: "'w market_service \<Rightarrow> bool" where
  "ready svc \<longleftrightarrow> ms_enabled svc \<and> ms_api_key svc \<noteq> [] \<and> (case canonical_host (primary_domain (ms_project svc)) of Inr h \<Rightarrow> True | Inl e \<Rightarrow> False)"

definition plan_of :: "'w market_service \<Rightarrow> planned_call list" where
  "plan_of svc = opt_or [] (map_of PLANS (ms_tier svc))"

definition accounted :: "'w market_service \<Rightarrow> 'w market \<Rightarrow> bool" where
  "accounted svc s \<longleftrightarrow> mr_units_spent (mk_result s) = mk_units s \<and> total_units (mr_calls (mk_result s)) = mk_units s \<and>
     0 \<le> mk_units s \<and> mk_units s \<le> ms_budget svc \<and>
     (ready svc \<longrightarrow> map cl_report (mr_calls (mk_result s)) = map pc_report (plan_of svc) \<and> orderly None (zip (plan_of svc) (mr_calls (mk_result s))))"

definition cut_short :: "'w market_service \<Rightarrow> 'w market \<Rightarrow> bool" where
  "cut_short svc s \<longleftrightarrow> 0 \<le> mk_units s \<and> mk_units s \<le> ms_budget svc \<and> 0 \<le> mr_units_spent (mk_result s) \<and>
     mr_units_spent (mk_result s) \<le> mk_units s \<and> total_units (mr_calls (mk_result s)) \<le> mk_units s"

lemma accounted_cut_short: "accounted svc s \<Longrightarrow> cut_short svc s"
  by (simp add: accounted_def cut_short_def)

lemma collect_plan_spec:
  assumes "0 \<le> ms_budget svc" and "collect_plan svc (new_market svc b w t) = (out, s')"
  shows "(case out of Inr u \<Rightarrow> accounted svc s' | Inl e \<Rightarrow> cut_short svc s')"
proof -
  let ?s = "new_market svc b w t"
  have idle: "settled_at 0 [] 0 ?s" by (simp add: settled_at_def new_market_def)
  have gave_up: "accounted svc s'" if "give_up svc reason ?s = (out, s')" "\<not> ready svc" for reason
    using keepsD [OF keeps_give_up idle that(1)] that(2) assms(1) by (simp add: settled_at_def accounted_def total_units_def)
  show ?thesis
  proof (cases "ready svc")
    case False
    then consider (off) "\<not> ms_enabled svc" | (keyless) "ms_enabled svc" "ms_api_key svc = []"
      | (bad) e where "ms_enabled svc" "ms_api_key svc \<noteq> []" "canonical_host (primary_domain (ms_project svc)) = Inl e"
      by (auto simp: ready_def split: sum.splits)
    then show ?thesis
    proof cases
      case off
      with assms(2) have "accounted svc s'" by (intro gave_up [OF _ False]) (simp add: collect_plan_def)
      then show ?thesis by (cases out) (simp_all add: accounted_cut_short)
    next
      case keyless
      with assms(2) have "accounted svc s'" by (intro gave_up [OF _ False]) (simp add: collect_plan_def)
      then show ?thesis by (cases out) (simp_all add: accounted_cut_short)
    next
      case bad
      show ?thesis
      proof (cases "is_value_error e")
        case True
        with bad assms(2) have "accounted svc s'" by (intro gave_up [OF _ False]) (simp add: collect_plan_def)
        then show ?thesis by (cases out) (simp_all add: accounted_cut_short)
      next
        case False
        with bad assms have "s' = ?s" "out = Inl (Code_raised (Library_error e))"
          by (auto simp: collect_plan_def code_error_def pure_result)
        with assms(1) show ?thesis by (simp add: cut_short_def new_market_def total_units_def)
      qed
    qed
  next
    case True
    then obtain target where tg: "canonical_host (primary_domain (ms_project svc)) = Inr target" and en: "ms_enabled svc" "ms_api_key svc \<noteq> []"
      by (auto simp: ready_def split: sum.splits)
    let ?fold = "foldA (plan_step svc target) ([], None) (plan_of svc) ?s"
    have run: "collect_plan svc ?s = bindA (foldA (plan_step svc target) ([], None) (plan_of svc)) (\<lambda>(payloads, skip). finish_plan svc payloads skip) ?s"
      by (simp add: collect_plan_def en tg plan_of_def)
    note start = new_market_inv [OF assms(1), of b w t]
    show ?thesis
    proof (cases "fst ?fold")
      case (Inl e)
      then obtain s1 where f: "?fold = (Inl e, s1)" by (cases ?fold) auto
      then have out: "out = Inl e" "s' = s1" using run assms(2) by (simp_all add: bindA_def)
      from foldA_raised [OF f, of "\<lambda>acc s. \<exists>past. plan_inv svc past acc s"] start plan_step_inv
      obtain acc p u past where "plan_inv svc past acc u" "plan_step svc target acc p u = (Inl e, s1)" by blast
      from plan_step_raised [OF this] out show ?thesis by (simp add: cut_short_def)
    next
      case (Inr acc)
      then obtain s1 where f: "?fold = (Inr acc, s1)" by (cases ?fold) auto
      have inv: "plan_inv svc (plan_of svc) acc s1"
        by (rule foldA_invariant [OF f, of "plan_inv svc"]) (use start plan_step_inv in blast)+
      from f run assms(2) have "finish_plan svc (fst acc) (snd acc) s1 = (out, s')" by (simp add: bindA_def split: prod.splits)
      from finish_plan_settles [OF this] inv have "accounted svc s'"
        by (auto simp: settled_at_def accounted_def plan_inv_def Let_def)
      then show ?thesis by (cases out) (simp_all add: accounted_cut_short)
    qed
  qed
qed

lemma collect_market_cases:
  assumes "collect_market svc s = (out, s')"
  obtains (finished) u where "collect_plan svc s = (Inr u, s')" "out = Inr (mk_result s')"
  | (crash) e s1 where "collect_plan svc s = (Inl e, s1)" "\<not> escapes_handler e" "snd (crashed svc s1) = s'" "out = Inr (mk_result s')"
  | (escape) e where "collect_plan svc s = (Inl e, s')" "escapes_handler e" "out = Inl e"
proof (cases "collect_plan svc s")
  case (Pair x s1)
  show thesis
  proof (cases x)
    case (Inr u)
    with Pair assms show thesis by (intro finished) (auto simp: collect_market_def catchA_def gets_def)
  next
    case (Inl e)
    show thesis
    proof (cases "escapes_handler e")
      case True
      with Pair Inl assms show thesis by (intro escape) (auto simp: collect_market_def catchA_def raise_def)
    next
      case False
      have ok: "fst (crashed svc s1) = Inr ()" by (simp add: crashed_def set_result_def persist_snapshot_def action_defs Let_def split: sum.splits)
      obtain s2 where s2: "crashed svc s1 = (Inr (), s2)" using ok by (cases "crashed svc s1") auto
      with Pair Inl False assms have "out = Inr (mk_result s2)" "s' = s2"
        by (auto simp: collect_market_def catchA_def bindA_def gets_def)
      with Pair Inl False s2 show thesis by (intro crash) auto
    qed
  qed
qed

end
