(* ===== verification/Market_Facts.thy ===== *)
theory Market_Facts
  imports Market_Budget Workflow
begin

text \<open>
  The claims about the market-data collection: its budget, its records, and what a failure leaves behind. The demo
  service answers every request with an empty body; its cache can be broken.
\<close>

definition demo_service :: "int \<Rightarrow> int \<Rightarrow> unit market_service" where
  "demo_service budget days =
     \<lparr>ms_run = demo_run ''r1'' Auditing, ms_project = demo_project ''p1'' ''c1'', ms_api_key = ''k'', ms_tier = ''lite'', ms_budget = budget,
      ms_database = ''au'', ms_enabled = True, ms_cache_days = days, ms_fetch = (\<lambda>url w. (Inr [], w)), ms_clock = (\<lambda>w. (0, w)),
      ms_random = (\<lambda>w. (0, w)), ms_sleep = (\<lambda>q w. (Inr (), w)), ms_policy = default_policy,
      ms_cache_get = (\<lambda>key w. (Inr None, w)), ms_cache_set = (\<lambda>key v n w. (Inl (DataError ''cache''), w)), ms_sha = (\<lambda>s. s),
      ms_dates = no_dates, ms_now = int, ms_fresh = (\<lambda>n. ''s'')\<rparr>"

definition no_rows :: market_tables where
  "no_rows = \<lparr>mt_sources = [], mt_metrics = [], mt_keywords = [], mt_backlinks = []\<rparr>"

definition demo_start :: "int \<Rightarrow> int \<Rightarrow> unit market" where
  "demo_start budget days = new_market (demo_service budget days) (demo_breaker Closed) () no_rows"

lemma demo_statuses:
  "(case collect_plan (demo_service 100 0) (demo_start 100 0) of (out, s) \<Rightarrow> out = Inr () \<and> mk_units s = 10 \<and>
     map cl_status (mr_calls (mk_result s)) = [''ok'', ''skipped'', ''skipped'', ''skipped''])"
  by code_simp

lemma demo_crash:
  "(case collect_plan (demo_service 100 7) (demo_start 100 7) of (out, s) \<Rightarrow> out = Inl (Code_raised (DataError ''cache'')) \<and> mk_units s = 10)"
  by code_simp

subsection \<open>Budget and records\<close>

lemma collect_plan_returned:
  "0 \<le> ms_budget svc \<Longrightarrow> collect_plan svc (new_market svc b w t) = (Inr u, s') \<Longrightarrow> accounted svc s'"
  using collect_plan_spec [of svc b w t "Inr u" s'] by simp

lemma collect_plan_raised:
  "0 \<le> ms_budget svc \<Longrightarrow> collect_plan svc (new_market svc b w t) = (Inl e, s') \<Longrightarrow> cut_short svc s'"
  using collect_plan_spec [of svc b w t "Inl e" s'] by simp

lemma crashed_cut_short: "cut_short svc s \<Longrightarrow> crashed svc s = (x, s') \<Longrightarrow> cut_short svc s'"
proof -
  assume c: "cut_short svc s" and r: "crashed svc s = (x, s')"
  have start: "settled_at (mk_units s) (mr_calls (mk_result s)) (mr_units_spent (mk_result s)) s" by (simp add: settled_at_def)
  from keepsD [OF keeps_crashed start r] c show "cut_short svc s'" by (simp add: cut_short_def settled_at_def)
qed

lemma collect_market_of_plan: "collect_plan svc s = (Inr u, s1) \<Longrightarrow> collect_market svc s = (Inr (mk_result s1), s1)"
  by (simp add: collect_market_def catchA_def gets_def)

text \<open>
  C21: Whatever the services answer, a collection never charges more than its unit budget, and neither its result nor
  the records of its calls claim more units than were charged; when the plan was carried to its end, the result, the
  records and the counter agree exactly.
\<close>

theorem collect_within_budget:
  assumes "0 \<le> ms_budget svc" and "collect_market svc (new_market svc b w t) = (out, s')"
  shows "0 \<le> mk_units s' \<and> mk_units s' \<le> ms_budget svc \<and>
    0 \<le> mr_units_spent (mk_result s') \<and> mr_units_spent (mk_result s') \<le> mk_units s' \<and> total_units (mr_calls (mk_result s')) \<le> mk_units s' \<and>
    (fst (collect_plan svc (new_market svc b w t)) = Inr () \<longrightarrow>
       mr_units_spent (mk_result s') = mk_units s' \<and> total_units (mr_calls (mk_result s')) = mk_units s')"
  using assms(2)
proof (cases rule: collect_market_cases)
  case (finished u)
  with collect_plan_returned [OF assms(1)] show ?thesis by (auto simp: accounted_def)
next
  case (crash e s1)
  have "cut_short svc s1" using crash(1) collect_plan_raised [OF assms(1)] by blast
  then have "cut_short svc s'" using crash(3) crashed_cut_short by (cases "crashed svc s1") auto
  with crash(1) show ?thesis by (simp add: cut_short_def)
next
  case (escape e)
  with collect_plan_raised [OF assms(1)] have "cut_short svc s'" by blast
  with escape(1) show ?thesis by (simp add: cut_short_def)
qed

lemma collect_within_budget_witness:
  "mk_units (snd (collect_market (demo_service 100 7) (demo_start 100 7))) \<le> 100"
proof -
  obtain out s' where r: "collect_market (demo_service 100 7) (demo_start 100 7) = (out, s')" by (cases "collect_market (demo_service 100 7) (demo_start 100 7)")
  with collect_within_budget [of "demo_service 100 7" "demo_breaker Closed" "()" no_rows out s'] show ?thesis
    by (simp add: demo_start_def demo_service_def)
qed

lemma orderly_halts:
  assumes "orderly stop pcs" and "i < j" "j < length pcs" and "cl_status (snd (pcs ! i)) = ''halted''"
  shows "cl_status (snd (pcs ! j)) = ''halted'' \<and> cl_units (snd (pcs ! j)) = 0"
proof -
  have all: "orderly (Some st) xs \<Longrightarrow> k < length xs \<Longrightarrow> cl_status (snd (xs ! k)) = st \<and> cl_units (snd (xs ! k)) = 0" for st k and xs :: "(planned_call \<times> call_record) list"
    by (induction xs arbitrary: k) (auto simp: stop_step_def nth_Cons split: nat.splits)
  have tail: "i < j \<Longrightarrow> j < length xs \<Longrightarrow> orderly st xs \<Longrightarrow> cl_status (snd (xs ! i)) = ''halted'' \<Longrightarrow>
      cl_status (snd (xs ! j)) = ''halted'' \<and> cl_units (snd (xs ! j)) = 0" for st i j and xs :: "(planned_call \<times> call_record) list"
  proof (induction xs arbitrary: st i j)
    case Nil
    then show ?case by simp
  next
    case (Cons x xs)
    obtain k where j: "j = Suc k" using Cons.prems(1) by (cases j) auto
    show ?case
    proof (cases i)
      case 0
      with Cons.prems have "stop_step st x = Some ''halted''" by (auto simp: stop_step_def split: option.splits)
      with Cons.prems(3) have "orderly (Some ''halted'') xs" by simp
      from all [OF this, of k] Cons.prems(2) show ?thesis by (simp add: j)
    next
      case (Suc i')
      with Cons.IH [of i' k "stop_step st x"] Cons.prems show ?thesis by (simp add: j)
    qed
  qed
  from tail [OF assms(2,3,1,4)] show ?thesis .
qed

text \<open>
  C22: A collection that reaches the end of its plan recorded every planned report once and in order, however it went:
  after a report that tripped the circuit every later one is recorded as halted and costs nothing, and when the first
  report has no rows all others are recorded as skipped and cost nothing.
\<close>

theorem collect_follows_plan:
  assumes "0 \<le> ms_budget svc" and "ready svc" and "collect_plan svc (new_market svc b w t) = (Inr u, s')"
  shows "map cl_report (mr_calls (mk_result s')) = map pc_report (plan_of svc) \<and>
    orderly None (zip (plan_of svc) (mr_calls (mk_result s'))) \<and>
    (\<forall>i j. i < j \<and> j < length (mr_calls (mk_result s')) \<and> cl_status (mr_calls (mk_result s') ! i) = ''halted'' \<longrightarrow>
       cl_status (mr_calls (mk_result s') ! j) = ''halted'' \<and> cl_units (mr_calls (mk_result s') ! j) = 0)"
proof -
  let ?cs = "mr_calls (mk_result s')" and ?ps = "plan_of svc"
  from collect_plan_returned [OF assms(1,3)] assms(2) have r: "map cl_report ?cs = map pc_report ?ps" and o: "orderly None (zip ?ps ?cs)"
    by (simp_all add: accounted_def)
  have len: "length ?cs = length ?ps" using r by (metis length_map)
  show ?thesis
  proof (intro conjI r o allI impI)
    fix i j assume "i < j \<and> j < length ?cs \<and> cl_status (?cs ! i) = ''halted''"
    with orderly_halts [OF o, of i j] len show "cl_status (?cs ! j) = ''halted''" "cl_units (?cs ! j) = 0" by simp_all
  qed
qed

lemma demo_ready: "ready (demo_service 100 n)"
  by code_simp

lemma collect_follows_plan_witness:
  "map cl_report (mr_calls (mk_result (snd (collect_plan (demo_service 100 0) (demo_start 100 0))))) = map pc_report (plan_of (demo_service 100 0)) \<and>
   map cl_status (mr_calls (mk_result (snd (collect_plan (demo_service 100 0) (demo_start 100 0))))) = [''ok'', ''skipped'', ''skipped'', ''skipped'']"
proof -
  obtain s' where r: "collect_plan (demo_service 100 0) (demo_start 100 0) = (Inr (), s')"
    and st: "map cl_status (mr_calls (mk_result s')) = [''ok'', ''skipped'', ''skipped'', ''skipped'']"
    using demo_statuses by (auto split: prod.splits)
  have "0 \<le> ms_budget (demo_service 100 0)" by (simp add: demo_service_def)
  from collect_follows_plan [OF this demo_ready r [unfolded demo_start_def]] r st show ?thesis by simp
qed

subsection \<open>Failures\<close>

text \<open>
  C62: \<open>collect\<close> fails open: from any state it returns its result whatever was raised below it, other than what is no
  \<open>Exception\<close>; and after a failure the result says that nothing is available.
\<close>

theorem collect_fails_open:
  assumes "collect_market svc s = (out, s')"
  shows "(case out of Inl e \<Rightarrow> escapes_handler e | Inr r \<Rightarrow> r = mk_result s') \<and>
    (\<forall>e. fst (collect_plan svc s) = Inl e \<and> \<not> escapes_handler e \<longrightarrow>
       out = Inr (mk_result s') \<and> mr_status (mk_result s') = ''unavailable'' \<and> mr_reason (mk_result s') = Some CRASH_REASON)"
  using assms
proof (cases rule: collect_market_cases)
  case (crash e s1)
  have "mr_status (mk_result s') = ''unavailable'' \<and> mr_reason (mk_result s') = Some CRASH_REASON"
    unfolding crash(3) [symmetric]
    by (simp add: crashed_def set_result_def persist_snapshot_def action_defs Let_def split: sum.splits)
  with crash show ?thesis by simp
qed simp_all

lemma collect_fails_open_witness:
  "mr_reason (mk_result (snd (collect_market (demo_service 100 7) (demo_start 100 7)))) = Some CRASH_REASON"
proof -
  obtain out s' where r: "collect_market (demo_service 100 7) (demo_start 100 7) = (out, s')" by (cases "collect_market (demo_service 100 7) (demo_start 100 7)")
  have "fst (collect_plan (demo_service 100 7) (demo_start 100 7)) = Inl (Code_raised (DataError ''cache''))"
    using demo_crash by (auto split: prod.splits)
  with collect_fails_open [OF r] r show ?thesis by simp
qed

text \<open>
  A collection that fails while it works through its plan reports zero units spent, however many it charged before:
  the counter is copied to the result only after the loop.
\<close>

theorem crash_forgets_units:
  assumes "ready svc" and "canonical_host (primary_domain (ms_project svc)) = Inr host"
    and "foldA (plan_step svc host) ([], None) (plan_of svc) (new_market svc b w t) = (Inl e, s1)"
    and "\<not> escapes_handler e" and "0 \<le> ms_budget svc"
  shows "\<exists>s'. collect_market svc (new_market svc b w t) = (Inr (mk_result s'), s') \<and> mk_units s' = mk_units s1 \<and>
    mr_units_spent (mk_result s') = 0"
proof -
  let ?s = "new_market svc b w t"
  have plan: "collect_plan svc ?s = (Inl e, s1)"
    using assms(1-3) by (simp add: collect_plan_def ready_def plan_of_def bindA_def)
  obtain acc p u past where "plan_inv svc past acc u" "plan_step svc host acc p u = (Inl e, s1)"
    using foldA_raised [OF assms(3), of "\<lambda>acc s. \<exists>past. plan_inv svc past acc s"] new_market_inv [OF assms(5), of b w t] plan_step_inv by blast
  from plan_step_raised [OF this] have zero: "mr_units_spent (mk_result s1) = 0" by blast
  obtain out s' where r: "collect_market svc ?s = (out, s')" by (cases "collect_market svc ?s")
  then show ?thesis
  proof (cases rule: collect_market_cases)
    case (crash e' s2)
    with plan have s2: "s2 = s1" by simp
    have start: "settled_at (mk_units s1) (mr_calls (mk_result s1)) 0 s1" using zero by (simp add: settled_at_def)
    obtain x where "crashed svc s1 = (x, s')" using crash(3) s2 by (cases "crashed svc s1") auto
    from keepsD [OF keeps_crashed start this] r crash(4) show ?thesis by (auto simp: settled_at_def)
  qed (use plan assms(4) in simp_all)
qed

lemma demo_loop: "(case foldA (plan_step (demo_service 100 7) ''a.com'') ([], None) (plan_of (demo_service 100 7)) (demo_start 100 7) of
    (out, s) \<Rightarrow> out = Inl (Code_raised (DataError ''cache'')) \<and> mk_units s = 10)"
  by code_simp

lemma crash_forgets_units_witness:
  "\<exists>s'. collect_market (demo_service 100 7) (demo_start 100 7) = (Inr (mk_result s'), s') \<and> mk_units s' = 10 \<and> mr_units_spent (mk_result s') = 0"
proof -
  obtain s1 where l: "foldA (plan_step (demo_service 100 7) ''a.com'') ([], None) (plan_of (demo_service 100 7)) (demo_start 100 7) =
      (Inl (Code_raised (DataError ''cache'')), s1)" and u: "mk_units s1 = 10"
    using demo_loop by (auto split: prod.splits)
  have host: "canonical_host (primary_domain (ms_project (demo_service 100 7))) = Inr ''a.com''" by code_simp
  have "0 \<le> ms_budget (demo_service 100 7)" by (simp add: demo_service_def)
  with crash_forgets_units [OF demo_ready host l [unfolded demo_start_def]] u show ?thesis by (auto simp: demo_start_def)
qed

subsection \<open>Rows\<close>

definition unique_rows :: "('r \<Rightarrow> 'r \<Rightarrow> bool) \<Rightarrow> 'r list \<Rightarrow> bool" where
  "unique_rows same rows \<longleftrightarrow> sorted_wrt (\<lambda>a b. \<not> same a b) rows"

definition key_relation :: "('r \<Rightarrow> 'k) \<Rightarrow> ('r \<Rightarrow> 'r \<Rightarrow> bool) \<Rightarrow> bool" where
  "key_relation key same \<longleftrightarrow> (\<forall>a b. same a b \<longleftrightarrow> key a = key b)"

lemma same_keyword_key: "key_relation (\<lambda>r. (kw_run r, kw_normalized r, kw_country r, kw_locale r)) same_keyword"
  by (simp add: key_relation_def same_keyword_def)

lemma same_backlink_key: "key_relation (\<lambda>r. (bk_run r, bk_source_url r, bk_target_url r)) same_backlink"
  by (simp add: key_relation_def same_backlink_def)

lemma unique_rows_key: "key_relation key same \<Longrightarrow> unique_rows same rows \<longleftrightarrow> distinct (map key rows)"
  by (induction rows) (auto simp: unique_rows_def key_relation_def)

lemma upsert_unique:
  assumes "key_relation key same" and "unique_rows same rows"
  shows "unique_rows same (upsert same r rows)"
proof -
  have same: "same a b \<longleftrightarrow> key a = key b" for a b using assms(1) by (simp add: key_relation_def)
  have kept: "map key (map (\<lambda>x. if same r x then r else x) rows) = map key rows" by (simp add: same)
  have new: "\<not> list_ex (same r) rows \<Longrightarrow> key r \<notin> set (map key rows)" by (auto simp: same list_ex_iff)
  show ?thesis
  proof (cases "list_ex (same r) rows")
    case True
    then show ?thesis using assms(2) unfolding unique_rows_key [OF assms(1)] upsert_def by (simp only: if_True kept)
  next
    case False
    with new assms(2) show ?thesis unfolding unique_rows_key [OF assms(1)] upsert_def by simp
  qed
qed

definition tables_unique :: "'w market \<Rightarrow> bool" where
  "tables_unique s \<longleftrightarrow> unique_rows same_keyword (mt_keywords (mk_tables s)) \<and> unique_rows same_backlink (mt_backlinks (mk_tables s))"

lemma unique_on_executor: "keeps tables_unique (on_executor m)"
  by (rule keepsI) (auto simp: on_executor_def tables_unique_def split: prod.splits sum.splits)

lemma unique_on_cache: "keeps tables_unique (on_cache f)"
  by (rule keepsI) (auto simp: on_cache_def tables_unique_def split: prod.splits sum.splits)

lemma unique_set_result: "keeps tables_unique (set_result f)"
  by (rule keepsI) (simp add: set_result_def modifyA_def tables_unique_def)

lemma unique_snapshot: "keeps tables_unique (persist_snapshot svc n k)"
  unfolding persist_snapshot_def by (intro keeps_intros unique_set_result) (simp add: tables_unique_def)

lemma keeps_tables:
  assumes "\<And>(s :: 'w market) t. tables_unique s \<Longrightarrow> f (mk_tables s) = Inr t \<Longrightarrow> tables_unique (s\<lparr>mk_tables := t\<rparr>)"
  shows "keeps tables_unique (on_market_tables f :: ('w, unit) market_action)"
  using assms by (intro keepsI) (simp add: on_market_tables_def split: sum.split)

lemma unique_metric: "keeps tables_unique (create_metric svc source key numeric value)"
  unfolding create_metric_def Let_def
  by (rule keeps_tables) (auto simp: tables_unique_def mapR_Inr_iff split: if_splits)

lemma unique_scalar: "keeps tables_unique (persist_scalar svc source ranks overview v scalar)"
  unfolding persist_scalar_def by (intro keeps_intros unique_metric)

lemma unique_keyword: "keeps tables_unique (store_keyword k)"
  unfolding store_keyword_def
  by (rule keeps_tables) (auto simp: tables_unique_def mapR_Inr_iff intro: upsert_unique [OF same_keyword_key] split: if_splits)

lemma unique_backlink: "keeps tables_unique (store_backlink k)"
  unfolding store_backlink_def
  by (rule keeps_tables) (auto simp: tables_unique_def mapR_Inr_iff intro: upsert_unique [OF same_backlink_key] split: if_splits)

lemma unique_rows_kept: "keeps tables_unique (persist_rows svc source payloads)"
  unfolding persist_rows_def persist_keywords_def persist_keyword_def persist_backlinks_def persist_backlink_def
  by (intro keeps_intros unique_scalar unique_metric unique_keyword unique_backlink unique_set_result)

lemma unique_code_error: "keeps tables_unique (code_error x)"
  unfolding code_error_def by (intro keeps_intros)

lemma unique_use_body: "keeps tables_unique (use_body svc p key units cached body)"
proof (cases "parse_response (pc_report p) body")
  case (Inl e)
  then show ?thesis unfolding use_body_def Inl sum.case by (cases e) (simp_all add: keeps_pure unique_code_error)
next
  case (Inr response)
  then show ?thesis unfolding use_body_def Inr sum.case by (intro keeps_intros unique_on_cache unique_code_error)
qed

lemma unique_run_call: "keeps tables_unique (run_call svc target p)"
proof (cases "build_request (ms_sha svc) (pc_report p) (ms_api_key svc) target (options_of svc p)")
  case (Inl e)
  then show ?thesis unfolding run_call_def Inl sum.case by (cases e) (simp_all add: keeps_pure unique_code_error)
next
  case (Inr request)
  then show ?thesis unfolding run_call_def Inr sum.case Let_def charge_def
    by (intro keeps_intros unique_on_cache unique_on_executor unique_use_body) (simp add: tables_unique_def)
qed

lemma unique_add_call: "keeps tables_unique (add_call c)"
  unfolding add_call_def by (rule unique_set_result)

lemma unique_plan_step: "keeps tables_unique (plan_step svc target acc p)"
  unfolding plan_step_def by (intro keeps_intros unique_add_call unique_run_call) (simp_all add: tables_unique_def)

lemma unique_finish: "keeps tables_unique (finish_plan svc payloads skip)"
  unfolding finish_plan_def by (intro keeps_intros unique_set_result unique_snapshot unique_rows_kept) (simp_all add: tables_unique_def)

lemma unique_give_up: "keeps tables_unique (give_up svc reason)"
  unfolding give_up_def by (intro keeps_intros unique_set_result unique_snapshot)

lemma unique_collect_plan: "keeps tables_unique (collect_plan svc)"
  unfolding collect_plan_def by (intro keeps_intros unique_plan_step unique_finish unique_give_up unique_code_error)

text \<open>
  However often market data is collected, no two keyword rows share run, normalised phrase, country and locale, and
  no two backlink rows share run, source and target address: what the unique constraints of the tables ask for.
\<close>

theorem market_rows_unique:
  assumes "distinct (map (\<lambda>r. (kw_run r, kw_normalized r, kw_country r, kw_locale r)) (mt_keywords (mk_tables s)))"
    and "distinct (map (\<lambda>r. (bk_run r, bk_source_url r, bk_target_url r)) (mt_backlinks (mk_tables s)))"
    and "collect_market svc s = (out, s')"
  shows "distinct (map (\<lambda>r. (kw_run r, kw_normalized r, kw_country r, kw_locale r)) (mt_keywords (mk_tables s'))) \<and>
    distinct (map (\<lambda>r. (bk_run r, bk_source_url r, bk_target_url r)) (mt_backlinks (mk_tables s')))"
proof -
  have "tables_unique s"
    using assms(1,2) by (simp add: tables_unique_def unique_rows_key [OF same_keyword_key] unique_rows_key [OF same_backlink_key])
  moreover have "keeps tables_unique (collect_market svc)"
    unfolding collect_market_def crashed_def by (intro keeps_intros unique_collect_plan unique_set_result unique_snapshot)
  ultimately have "tables_unique s'" using assms(3) by (metis keepsD)
  then show ?thesis by (simp add: tables_unique_def unique_rows_key [OF same_keyword_key] unique_rows_key [OF same_backlink_key])
qed

lemma market_rows_unique_witness:
  "distinct (map (\<lambda>r. (kw_run r, kw_normalized r, kw_country r, kw_locale r))
     (mt_keywords (mk_tables (snd (collect_market (demo_service 100 0) (demo_start 100 0))))))"
proof -
  obtain out s' where r: "collect_market (demo_service 100 0) (demo_start 100 0) = (out, s')" by (cases "collect_market (demo_service 100 0) (demo_start 100 0)")
  from market_rows_unique [OF _ _ this] r show ?thesis by (simp add: demo_start_def new_market_def no_rows_def)
qed

end
