(* ===== verification/Py_Path.thy ===== *)
theory Py_Path
  imports Py_Text
begin

text \<open>
  \<open>pathlib.PurePosixPath\<close> (Python 3.12) as far as the program uses it: a path is its root, which is empty, one slash
  or exactly two, and its tail, the components without the empty ones and the single dots. A suffix starts at the last
  dot of the name when something stands on both sides of it.
\<close>

type_synonym pure_path = "string \<times> string list"

definition path_root :: "string \<Rightarrow> string" where
  "path_root s = (if prefix ''//'' s \<and> \<not> prefix ''///'' s then ''//'' else if prefix ''/'' s then ''/'' else [])"

definition path_tail :: "string \<Rightarrow> string list" where
  "path_tail s = filter (\<lambda>x. x \<noteq> [] \<and> x \<noteq> ''.'') (split_on CHR ''/'' s)"

definition pure_path :: "string \<Rightarrow> pure_path" where
  "pure_path s = (path_root s, path_tail s)"

definition path_parts :: "pure_path \<Rightarrow> string list" where
  "path_parts p = (if fst p = [] then snd p else fst p # snd p)"

definition as_posix :: "pure_path \<Rightarrow> string" where
  "as_posix p = (if p = ([], []) then ''.'' else fst p @ join ''/'' (snd p))"

definition is_absolute :: "pure_path \<Rightarrow> bool" where
  "is_absolute p \<longleftrightarrow> fst p \<noteq> []"

definition path_name :: "pure_path \<Rightarrow> string" where
  "path_name p = (if snd p = [] then [] else last (snd p))"

definition path_parent :: "pure_path \<Rightarrow> pure_path" where
  "path_parent p = (fst p, butlast (snd p))"

definition suffix_of :: "string \<Rightarrow> string" where
  "suffix_of name = (case rpartition_on CHR ''.'' name of (a, found, b) \<Rightarrow> if found \<and> a \<noteq> [] \<and> b \<noteq> [] then CHR ''.'' # b else [])"

definition stem_of :: "string \<Rightarrow> string" where
  "stem_of name = take (length name - length (suffix_of name)) name"

definition path_suffix :: "pure_path \<Rightarrow> string" where
  "path_suffix p = suffix_of (path_name p)"

definition with_suffix :: "string \<Rightarrow> pure_path \<Rightarrow> pure_path" where
  "with_suffix s p = (fst p, butlast (snd p) @ [stem_of (path_name p) @ s])"

text \<open>A relative path of proper components reads back from its text.\<close>

definition plain_part :: "string \<Rightarrow> bool" where
  "plain_part x \<longleftrightarrow> x \<noteq> [] \<and> x \<noteq> ''.'' \<and> CHR ''/'' \<notin> set x"

lemma split_on_slashes:
  "ps \<noteq> [] \<Longrightarrow> list_all (\<lambda>x. c \<notin> set x) ps \<Longrightarrow> split_on c (join [c] ps) = ps"
proof (induction "[c]" ps rule: join.induct)
  case (2 w)
  then show ?case by (induction w) (auto split: list.splits)
next
  case (3 w v ws)
  then have rest: "split_on c (join [c] (v # ws)) = v # ws" by simp
  have "c \<notin> set w \<Longrightarrow> split_on c (w @ [c] @ t) = w # split_on c t" for t
    by (induction w) (auto split: list.splits)
  with 3 rest show ?case by simp
qed simp

lemma path_root_join: "list_all plain_part ps \<Longrightarrow> path_root (join ''/'' ps) = []"
proof (cases ps)
  case (Cons x xs)
  assume "list_all plain_part ps"
  then obtain c cs where "x = c # cs" "c \<noteq> CHR ''/''" using Cons by (cases x) (auto simp: plain_part_def)
  then show ?thesis using Cons by (cases xs) (simp_all add: path_root_def)
qed (simp add: path_root_def)

lemma pure_path_join:
  assumes "list_all plain_part ps"
  shows "pure_path (join ''/'' ps) = ([], ps)"
proof (cases "ps = []")
  case True
  then show ?thesis by (simp add: pure_path_def path_root_def path_tail_def)
next
  case False
  have "list_all (\<lambda>x. CHR ''/'' \<notin> set x) ps" using assms by (auto simp: list_all_iff plain_part_def)
  from split_on_slashes [OF False this] have "path_tail (join ''/'' ps) = ps"
    using assms by (simp add: path_tail_def filter_id_conv list_all_iff plain_part_def)
  with path_root_join [OF assms] show ?thesis by (simp add: pure_path_def)
qed

lemma as_posix_relative: "ps \<noteq> [] \<Longrightarrow> as_posix ([], ps) = join ''/'' ps"
  by (simp add: as_posix_def)

lemma pure_path_as_posix: "list_all plain_part ps \<Longrightarrow> ps \<noteq> [] \<Longrightarrow> pure_path (as_posix ([], ps)) = ([], ps)"
  by (simp add: as_posix_relative pure_path_join)

lemma path_tail_plain: "list_all plain_part (path_tail s)"
proof -
  have "x \<in> set (split_on c s) \<Longrightarrow> c \<notin> set x" for x c
    by (induction s arbitrary: x) (auto split: list.splits if_splits)
  then show ?thesis by (auto simp: path_tail_def list_all_iff plain_part_def)
qed

lemma rpartition_on_found: "rpartition_on c s = (a, True, b) \<Longrightarrow> s = a @ [c] @ b"
proof -
  assume r: "rpartition_on c s = (a, True, b)"
  then have c: "c \<in> set (rev s)" by (auto simp: rpartition_on_def split: if_splits)
  have "rev s = takeWhile (\<lambda>x. x \<noteq> c) (rev s) @ c # drop 1 (dropWhile (\<lambda>x. x \<noteq> c) (rev s))"
    using c by (induction "rev s" rule: list.induct) (metis (mono_tags, lifting) drop_Suc_Cons drop0 One_nat_def dropWhile_eq_Cons_conv hd_dropWhile list.collapse set_takeWhileD takeWhile_dropWhile_id dropWhile_eq_Nil_conv)+
  then have "s = rev (takeWhile (\<lambda>x. x \<noteq> c) (rev s) @ c # drop 1 (dropWhile (\<lambda>x. x \<noteq> c) (rev s)))" by (metis rev_rev_ident)
  with r c show "s = a @ [c] @ b" by (simp add: rpartition_on_def)
qed

lemma stem_suffix: "stem_of name @ suffix_of name = name"
proof (cases "rpartition_on CHR ''.'' name")
  case (fields a found b)
  show ?thesis
  proof (cases "found \<and> a \<noteq> [] \<and> b \<noteq> []")
    case True
    with fields have "rpartition_on CHR ''.'' name = (a, True, b)" by simp
    from rpartition_on_found [OF this] have "name = a @ [CHR ''.''] @ b" .
    then show ?thesis using True fields by (simp add: suffix_of_def stem_of_def)
  next
    case False
    with fields show ?thesis by (auto simp: suffix_of_def stem_of_def)
  qed
qed

end
