(* ===== verification/Artifact_Store.thy ===== *)
theory Artifact_Store
  imports Py_Path Py_Json Audit_Rows Workflow
begin

text \<open>
  \<open>app/domain/storage.py\<close>: private, append-only, content-addressed artifacts. The object storage (a Django storage
  backend) is the parameter \<open>storage\<close> over a world, SHA-256 the parameter \<open>sha\<close>; a save is one transaction, so an
  exception gives the database back as it was, while the objects written to the storage stay.
\<close>

datatype store_error = Artifact_integrity string | Bad_artifact string | Storage_raised exn | Row_raised wf_error

record 'w storage =
  st_exists :: "string \<Rightarrow> 'w \<Rightarrow> exn + bool"
  st_read :: "string \<Rightarrow> 'w \<Rightarrow> exn + string"
  st_save :: "string \<Rightarrow> string \<Rightarrow> 'w \<Rightarrow> (exn + string) \<times> 'w"

definition SAFE_SUFFIXES :: "string list" where
  "SAFE_SUFFIXES = [''.csv'', ''.docx'', ''.html'', ''.json'', ''.md'', ''.pdf'', ''.pptx'', ''.txt'', ''.xlsx'', ''.zip'']"

definition sha256_text :: "string \<Rightarrow> bool" where
  "sha256_text d \<longleftrightarrow> length d = 64 \<and> list_all (\<lambda>c. digit_char c \<or> c \<in> set ''abcdef'') d"

definition safe_suffix :: "string \<Rightarrow> string" where
  "safe_suffix filename = (let s = casefold (path_suffix (pure_path filename)) in if s \<in> set SAFE_SUFFIXES then s else [])"

definition artifact_object_key :: "project \<Rightarrow> audit_run \<Rightarrow> string \<Rightarrow> string \<Rightarrow> store_error + string" where
  "artifact_object_key p r digest filename =
     (if \<not> sha256_text digest then Inl (Bad_artifact ''A lowercase SHA-256 digest is required'')
      else Inr (as_posix (pure_path (join ''/'' [''clients'', project_client p, ''projects'', run_project r, ''runs'', run_id r,
        ''artifacts'', ''sha256'', take 2 digest, digest @ safe_suffix filename]))))"

text \<open>An \<open>OSError\<close> while the object is read back is caught.\<close>

definition verify_existing_object :: "'w storage \<Rightarrow> (string \<Rightarrow> string) \<Rightarrow> string \<Rightarrow> string \<Rightarrow> 'w \<Rightarrow> store_error + unit" where
  "verify_existing_object st sha key digest w =
     (case st_read st key w of
        Inl (OSError m) \<Rightarrow> Inl (Artifact_integrity ''The existing private object could not be read'')
      | Inl e \<Rightarrow> Inl (Storage_raised e)
      | Inr bytes \<Rightarrow> if sha bytes \<noteq> digest then Inl (Artifact_integrity ''A content-addressed object exists with different bytes'')
          else Inr ())"

definition put_object :: "'w storage \<Rightarrow> (string \<Rightarrow> string) \<Rightarrow> string \<Rightarrow> string \<Rightarrow> string \<Rightarrow> 'w \<Rightarrow> (store_error + unit) \<times> 'w" where
  "put_object st sha key digest bytes w =
     (case st_exists st key w of
        Inl e \<Rightarrow> (Inl (Storage_raised e), w)
      | Inr True \<Rightarrow> (verify_existing_object st sha key digest w, w)
      | Inr False \<Rightarrow> (case st_save st key bytes w of
          (Inl e, w') \<Rightarrow> (Inl (Storage_raised e), w')
        | (Inr key', w') \<Rightarrow>
            (if key' \<noteq> key then Inl (Artifact_integrity ''Storage changed the append-only content-addressed key'')
             else verify_existing_object st sha key digest w', w')))"

record artifact_request =
  aq_run :: audit_run
  aq_project :: project
  aq_bytes :: string
  aq_filename :: string
  aq_title :: string
  aq_type :: string
  aq_media :: string
  aq_created_by :: "uid option"
  aq_risk :: risk_level
  aq_approval :: bool
  aq_expected :: "string option"
  aq_metadata :: json

definition is_artifact :: "uid \<Rightarrow> string \<Rightarrow> artifact \<Rightarrow> bool" where
  "is_artifact r key a \<longleftrightarrow> artifact_run a = r \<and> artifact_storage_key a = key"

definition new_artifact :: "uid \<Rightarrow> artifact_request \<Rightarrow> string \<Rightarrow> string \<Rightarrow> artifact" where
  "new_artifact k q key digest =
     \<lparr>artifact_id = k, artifact_run = run_id (aq_run q), artifact_type = aq_type q, artifact_created_by = aq_created_by q,
      artifact_title = aq_title q,
      artifact_format = (let f = casefold (lstrip_of (\<lambda>c. c = CHR ''.'') (path_suffix (pure_path (aq_filename q)))) in if f = [] then ''binary'' else f),
      artifact_storage_key = key, artifact_sha256 = digest, size_bytes = length (aq_bytes q), media_type_text = aq_media q,
      artifact_risk = aq_risk q, approval_required = aq_approval q, artifact_review = Review_draft, approved_at = None,
      artifact_metadata = (if json_falsy (aq_metadata q) then JObj [] else aq_metadata q)\<rparr>"

definition insert_artifact :: "artifact \<Rightarrow> db \<Rightarrow> store_error + db" where
  "insert_artifact a d =
     (case fits [(80, artifact_type a), (500, artifact_title a), (20, artifact_format a), (1024, artifact_storage_key a), (120, media_type_text a)] of
        Inl e \<Rightarrow> Inl (Row_raised e) | Inr u \<Rightarrow> Inr (d\<lparr>artifacts := artifacts d @ [a]\<rparr>))"

definition register_artifact :: "uid \<Rightarrow> artifact_request \<Rightarrow> string \<Rightarrow> string \<Rightarrow> db \<Rightarrow> store_error + (artifact \<times> bool) \<times> db" where
  "register_artifact k q key digest d =
     (case find (is_artifact (run_id (aq_run q)) key) (artifacts d) of
        Some a \<Rightarrow> Inr ((a, False), d)
      | None \<Rightarrow> let a = new_artifact k q key digest in mapR (\<lambda>d'. ((a, True), d')) (insert_artifact a d))"

definition save_artifact_bytes :: "'w storage \<Rightarrow> (string \<Rightarrow> string) \<Rightarrow> int \<Rightarrow> uid \<Rightarrow> artifact_request \<Rightarrow> db \<times> 'w \<Rightarrow>
    (store_error + artifact \<times> bool) \<times> db \<times> 'w" where
  "save_artifact_bytes st sha maximum k q = (\<lambda>(d, w).
     let bytes = aq_bytes q; digest = sha bytes in
     case bindE (raise_first
            [(bytes = [], Bad_artifact ''Artifact bytes cannot be empty''),
             (int (length bytes) > maximum, Bad_artifact ''Artifact exceeds the configured byte limit''),
             (opt_any (\<lambda>e. e \<noteq> [] \<and> e \<noteq> digest) (aq_expected q), Artifact_integrity ''Artifact bytes do not match expected_sha256'')])
          (\<lambda>_. artifact_object_key (aq_project q) (aq_run q) digest (aq_filename q)) of
       Inl e \<Rightarrow> (Inl e, d, w)
     | Inr key \<Rightarrow> (case put_object st sha key digest bytes w of
         (Inl e, w') \<Rightarrow> (Inl e, d, w')
       | (Inr u, w') \<Rightarrow> (case register_artifact k q key digest d of
           Inl e \<Rightarrow> (Inl e, d, w')
         | Inr ((a, created), d') \<Rightarrow>
             if artifact_sha256 a \<noteq> digest \<or> size_bytes a \<noteq> length bytes
             then (Inl (Artifact_integrity ''Artifact metadata conflicts with immutable stored bytes''), d, w')
             else (Inr (a, created), d', w'))))"

definition unsafe_key :: "string \<Rightarrow> bool" where
  "unsafe_key key \<longleftrightarrow> is_absolute (pure_path key) \<or> ''..'' \<in> set (path_parts (pure_path key))"

definition artifact_bytes_available :: "'w storage \<Rightarrow> artifact \<Rightarrow> 'w \<Rightarrow> bool" where
  "artifact_bytes_available st a w \<longleftrightarrow> artifact_storage_key a \<noteq> [] \<and> \<not> unsafe_key (artifact_storage_key a) \<and>
     (case st_exists st (artifact_storage_key a) w of Inl e \<Rightarrow> False | Inr b \<Rightarrow> b)"

definition open_verified_artifact :: "'w storage \<Rightarrow> (string \<Rightarrow> string) \<Rightarrow> artifact \<Rightarrow> 'w \<Rightarrow> store_error + string" where
  "open_verified_artifact st sha a w =
     (let key = artifact_storage_key a in
      if unsafe_key key \<or> key = [] then Inl (Artifact_integrity ''Unsafe artifact storage key'')
      else case st_exists st key w of
          Inl e \<Rightarrow> Inl (Storage_raised e)
        | Inr False \<Rightarrow> Inl (Artifact_integrity ''Artifact object is unavailable'')
        | Inr True \<Rightarrow> (case st_read st key w of
            Inl e \<Rightarrow> Inl (Storage_raised e)
          | Inr bytes \<Rightarrow> if sha bytes \<noteq> artifact_sha256 a then Inl (Artifact_integrity ''Artifact object failed its SHA-256 integrity check'')
              else Inr bytes))"

subsection \<open>Keys\<close>

definition id_part :: "string \<Rightarrow> bool" where
  "id_part x \<longleftrightarrow> plain_part x \<and> x \<noteq> ''..''"

definition key_parts :: "project \<Rightarrow> audit_run \<Rightarrow> string \<Rightarrow> string \<Rightarrow> string list" where
  "key_parts p r digest filename = [''clients'', project_client p, ''projects'', run_project r, ''runs'', run_id r,
     ''artifacts'', ''sha256'', take 2 digest, digest @ safe_suffix filename]"

lemma safe_suffix_part: "CHR ''/'' \<notin> set (safe_suffix filename)"
proof -
  have "list_all (\<lambda>s. CHR ''/'' \<notin> set s) SAFE_SUFFIXES" by code_simp
  then show ?thesis by (auto simp: safe_suffix_def Let_def list_all_iff)
qed

lemma digest_chars: "sha256_text d \<Longrightarrow> c \<in> set d \<Longrightarrow> c \<noteq> CHR ''/'' \<and> c \<noteq> CHR ''.''"
  by (auto simp: sha256_text_def list_all_iff digit_char_def)

lemma digest_part:
  assumes "sha256_text d"
  shows "id_part (take 2 d)" "id_part (d @ safe_suffix filename)"
proof -
  obtain a b e where d: "d = a # b # e" using assms by (cases d; cases "tl d") (auto simp: sha256_text_def)
  have "a \<noteq> CHR ''.''" "a \<noteq> CHR ''/''" "b \<noteq> CHR ''/''" using digest_chars [OF assms] d by auto
  moreover have "CHR ''/'' \<notin> set d" using digest_chars [OF assms] by blast
  ultimately show "id_part (take 2 d)" "id_part (d @ safe_suffix filename)"
    using safe_suffix_part [of filename] by (auto simp: id_part_def plain_part_def d)
qed

lemma artifact_key_parts:
  assumes "artifact_object_key p r digest filename = Inr key" and "list_all id_part [project_client p, run_project r, run_id r]"
  shows "pure_path key = ([], key_parts p r digest filename) \<and> list_all id_part (key_parts p r digest filename)"
proof -
  have d: "sha256_text digest" and key: "key = as_posix (pure_path (join ''/'' (key_parts p r digest filename)))"
    using assms(1) by (auto simp: artifact_object_key_def key_parts_def split: if_splits)
  have fixed: "list_all id_part [''clients'', ''projects'', ''runs'', ''artifacts'', ''sha256'']" by code_simp
  have parts: "list_all id_part (key_parts p r digest filename)"
    using assms(2) fixed digest_part(1) [OF d] digest_part(2) [OF d] by (simp add: key_parts_def)
  then have plain: "list_all plain_part (key_parts p r digest filename)" by (auto simp: list_all_iff id_part_def)
  have "key_parts p r digest filename \<noteq> []" by (simp add: key_parts_def)
  with plain parts show ?thesis unfolding key pure_path_join [OF plain] by (simp add: pure_path_as_posix)
qed

text \<open>
  C24: An artifact key is a relative path of ten proper components: it names the client, the project and the run of its
  artifact, then the digest; nothing of the file name enters it but one of ten known suffixes.
\<close>

theorem artifact_key_confined:
  assumes "artifact_object_key p r digest filename = Inr key" and "list_all id_part [project_client p, run_project r, run_id r]"
  shows "\<not> unsafe_key key \<and> path_parts (pure_path key) = [''clients'', project_client p, ''projects'', run_project r, ''runs'', run_id r,
      ''artifacts'', ''sha256'', take 2 digest, digest @ safe_suffix filename] \<and> sha256_text digest \<and>
    (safe_suffix filename = [] \<or> safe_suffix filename \<in> set SAFE_SUFFIXES)"
proof -
  note k = artifact_key_parts [OF assms]
  have "''..'' \<notin> set (key_parts p r digest filename)" using k by (auto simp: list_all_iff id_part_def)
  with k have "\<not> unsafe_key key" by (simp add: unsafe_key_def is_absolute_def path_parts_def)
  moreover have "sha256_text digest" using assms(1) by (auto simp: artifact_object_key_def split: if_splits)
  moreover have "safe_suffix filename = [] \<or> safe_suffix filename \<in> set SAFE_SUFFIXES" by (simp add: safe_suffix_def Let_def)
  ultimately show ?thesis using k by (simp add: path_parts_def key_parts_def)
qed

subsection \<open>Saving\<close>

lemma save_artifact_bytesE:
  assumes "save_artifact_bytes st sha maximum k q (d, w) = (Inr (a, created), d', w')"
  obtains key where "artifact_object_key (aq_project q) (aq_run q) (sha (aq_bytes q)) (aq_filename q) = Inr key"
    "put_object st sha key (sha (aq_bytes q)) (aq_bytes q) w = (Inr (), w')"
    "register_artifact k q key (sha (aq_bytes q)) d = Inr ((a, created), d')"
    "artifact_sha256 a = sha (aq_bytes q)" "size_bytes a = length (aq_bytes q)" "aq_bytes q \<noteq> []"
    "int (length (aq_bytes q)) \<le> maximum"
  using assms
  by (auto simp: save_artifact_bytes_def Let_def bindE_Inr_iff raise_first_Inr_iff split: sum.splits prod.splits if_splits)

lemma register_key: "register_artifact k q key digest d = Inr ((a, created), d') \<Longrightarrow> artifact_storage_key a = key \<and> artifact_run a = run_id (aq_run q)"
  by (auto simp: register_artifact_def find_Some_iff is_artifact_def new_artifact_def Let_def mapR_Inr_iff split: option.splits)

lemma put_object_reads:
  assumes "put_object st sha key digest bytes w = (Inr (), w')"
  shows "\<exists>b. st_read st key w' = Inr b \<and> sha b = digest"
  using assms by (auto simp: put_object_def verify_existing_object_def split: sum.splits bool.splits prod.splits exn.splits if_splits)

text \<open>What the code relies on of the storage backend: a saved object exists, and saving touches no other object.\<close>

definition storage_ok :: "'w storage \<Rightarrow> bool" where
  "storage_ok st \<longleftrightarrow> (\<forall>key bytes w w'. st_save st key bytes w = (Inr key, w') \<longrightarrow>
     st_exists st key w' = Inr True \<and> (\<forall>key'. key' \<noteq> key \<longrightarrow> st_read st key' w' = st_read st key' w \<and> st_exists st key' w' = st_exists st key' w))"

lemma put_object_exists:
  assumes "storage_ok st" and "put_object st sha key digest bytes w = (Inr (), w')"
  shows "st_exists st key w' = Inr True"
  using assms by (auto simp: put_object_def storage_ok_def split: sum.splits bool.splits prod.splits if_splits)

text \<open>
  C25: An artifact that was saved can be opened, and the bytes that come back have the digest of the bytes that were
  saved; where SHA-256 tells the two apart, they are the same bytes.
\<close>

theorem saved_artifact_opens:
  assumes "save_artifact_bytes st sha maximum k q (d, w) = (Inr (a, created), d', w')" and "storage_ok st"
    and "list_all id_part [project_client (aq_project q), run_project (aq_run q), run_id (aq_run q)]"
  shows "\<exists>b. open_verified_artifact st sha a w' = Inr b \<and> sha b = sha (aq_bytes q) \<and> artifact_bytes_available st a w' \<and>
    ((\<forall>x. sha x = sha (aq_bytes q) \<longrightarrow> x = aq_bytes q) \<longrightarrow> b = aq_bytes q)"
proof -
  obtain key where key: "artifact_object_key (aq_project q) (aq_run q) (sha (aq_bytes q)) (aq_filename q) = Inr key"
    and put: "put_object st sha key (sha (aq_bytes q)) (aq_bytes q) w = (Inr (), w')"
    and reg: "register_artifact k q key (sha (aq_bytes q)) d = Inr ((a, created), d')"
    and a: "artifact_sha256 a = sha (aq_bytes q)" using assms(1) by (rule save_artifact_bytesE)
  have safe: "\<not> unsafe_key key" "key \<noteq> []"
    using artifact_key_confined [OF key assms(3)] by (auto simp: pure_path_def path_parts_def path_root_def path_tail_def)
  obtain b where b: "st_read st key w' = Inr b" "sha b = sha (aq_bytes q)" using put_object_reads [OF put] by blast
  have e: "st_exists st key w' = Inr True" by (rule put_object_exists [OF assms(2) put])
  have "open_verified_artifact st sha a w' = Inr b" "artifact_bytes_available st a w'"
    using register_key [OF reg] safe b e a by (simp_all add: open_verified_artifact_def artifact_bytes_available_def)
  with b(2) show ?thesis by blast
qed

subsection \<open>A dictionary as storage\<close>

definition dict_storage :: "(string \<times> string) list storage" where
  "dict_storage = \<lparr>st_exists = (\<lambda>key w. Inr (map_of w key \<noteq> None)),
     st_read = (\<lambda>key w. case map_of w key of None \<Rightarrow> Inl (OSError ''No such file or directory'') | Some b \<Rightarrow> Inr b),
     st_save = (\<lambda>key b w. (Inr key, (key, b) # w))\<rparr>"

lemma dict_storage_ok: "storage_ok dict_storage"
  by (auto simp: storage_ok_def dict_storage_def)

definition demo_sha :: "string \<Rightarrow> string" where
  "demo_sha s = replicate 64 (if s = ''x'' then CHR ''a'' else CHR ''b'')"

definition demo_artifact_request :: artifact_request where
  "demo_artifact_request = \<lparr>aq_run = demo_run ''r1'' Auditing, aq_project = demo_project ''p1'' ''c1'', aq_bytes = ''x'', aq_filename = ''a/b.PDF'',
     aq_title = ''T'', aq_type = ''package'', aq_media = ''application/pdf'', aq_created_by = None, aq_risk = Risk_class_low, aq_approval = False,
     aq_expected = None, aq_metadata = JNull\<rparr>"

lemma demo_save: "(case save_artifact_bytes dict_storage demo_sha 10 ''a1'' demo_artifact_request (demo_db [], []) of (out, d, w) \<Rightarrow>
    (case out of Inl e \<Rightarrow> False | Inr (a, created) \<Rightarrow> created \<and> artifact_format a = ''pdf'' \<and> artifacts d = [a] \<and>
       artifact_storage_key a = ''clients/c1/projects/p1/runs/r1/artifacts/sha256/aa/'' @ replicate 64 CHR ''a'' @ ''.pdf''))"
  by code_simp

lemma demo_saveE:
  obtains a d w where "save_artifact_bytes dict_storage demo_sha 10 ''a1'' demo_artifact_request (demo_db [], []) = (Inr (a, True), d, w)"
    "artifacts d = [a]" "artifact_storage_key a = ''clients/c1/projects/p1/runs/r1/artifacts/sha256/aa/'' @ replicate 64 CHR ''a'' @ ''.pdf''"
  using demo_save by (auto split: prod.splits sum.splits)

lemma demo_ids: "list_all id_part [project_client (aq_project demo_artifact_request), run_project (aq_run demo_artifact_request), run_id (aq_run demo_artifact_request)]"
  by code_simp

lemma artifact_key_confined_witness:
  "\<exists>key. artifact_object_key (aq_project demo_artifact_request) (aq_run demo_artifact_request) (demo_sha ''x'') ''a/b.PDF'' = Inr key \<and> \<not> unsafe_key key"
proof -
  have "case artifact_object_key (aq_project demo_artifact_request) (aq_run demo_artifact_request) (demo_sha ''x'') ''a/b.PDF'' of Inl e \<Rightarrow> False | Inr key \<Rightarrow> True"
    by code_simp
  then obtain key where k: "artifact_object_key (aq_project demo_artifact_request) (aq_run demo_artifact_request) (demo_sha ''x'') ''a/b.PDF'' = Inr key"
    by (auto split: sum.splits)
  from artifact_key_confined [OF this demo_ids] k show ?thesis by blast
qed

lemma saved_artifact_opens_witness:
  "\<exists>a d w. save_artifact_bytes dict_storage demo_sha 10 ''a1'' demo_artifact_request (demo_db [], []) = (Inr (a, True), d, w) \<and>
     open_verified_artifact dict_storage demo_sha a w = Inr ''x''"
proof -
  obtain a d w where s: "save_artifact_bytes dict_storage demo_sha 10 ''a1'' demo_artifact_request (demo_db [], []) = (Inr (a, True), d, w)"
    by (rule demo_saveE)
  have bytes: "aq_bytes demo_artifact_request = ''x''" by (simp add: demo_artifact_request_def)
  have "\<forall>x. demo_sha x = demo_sha (aq_bytes demo_artifact_request) \<longrightarrow> x = aq_bytes demo_artifact_request"
    unfolding bytes by (simp add: demo_sha_def)
  with saved_artifact_opens [OF s dict_storage_ok demo_ids] s show ?thesis by (auto simp: bytes)
qed

text \<open>
  C26: The store is append-only: a save leaves every artifact row as it was and adds at most the row of the new
  artifact, which it does exactly when the run has none under this key; the storage is asked to write nothing but an object that
  does not exist, under the key of the new artifact. A save that raises leaves the database as it was.
\<close>

theorem artifact_store_append_only:
  assumes "save_artifact_bytes st sha maximum k q (d, w) = (out, d', w')"
  shows "(case out of Inl e \<Rightarrow> d' = d
      | Inr (a, created) \<Rightarrow> d' = d\<lparr>artifacts := artifacts d @ (if created then [a] else [])\<rparr> \<and> (created \<longleftrightarrow> a \<notin> set (artifacts d)) \<and>
          (created \<longleftrightarrow> find (is_artifact (run_id (aq_run q)) (artifact_storage_key a)) (artifacts d) = None)) \<and>
    (w' = w \<or> (\<exists>key. artifact_object_key (aq_project q) (aq_run q) (sha (aq_bytes q)) (aq_filename q) = Inr key \<and> st_exists st key w = Inr False \<and>
       w' = snd (st_save st key (aq_bytes q) w)))"
proof -
  let ?key = "artifact_object_key (aq_project q) (aq_run q) (sha (aq_bytes q)) (aq_filename q)"
  have written: "w1 = w \<or> st_exists st key w = Inr False \<and> w1 = snd (st_save st key b w)" if "put_object st sha key digest b w = (x, w1)" for key digest b x w1
    using that by (auto simp: put_object_def split: sum.splits bool.splits prod.splits)
  have world: "w' = w \<or> (\<exists>key. ?key = Inr key \<and> st_exists st key w = Inr False \<and> w' = snd (st_save st key (aq_bytes q) w))"
    using assms(1) by (auto simp: save_artifact_bytes_def Let_def bindE_Inr_iff dest!: written split: sum.splits prod.splits if_splits)
  show ?thesis
  proof (cases out)
    case (Inl e)
    then have "d' = d" using assms(1) by (auto simp: save_artifact_bytes_def Let_def split: sum.splits prod.splits if_splits)
    with Inl world show ?thesis by simp
  next
    case (Inr ac)
    obtain a created where ac: "ac = (a, created)" by (cases ac)
    obtain key where reg: "register_artifact k q key (sha (aq_bytes q)) d = Inr ((a, created), d')"
      using assms(1) unfolding Inr ac by (rule save_artifact_bytesE)
    have key: "artifact_storage_key a = key" "artifact_run a = run_id (aq_run q)" using register_key [OF reg] by simp_all
    have "d' = d\<lparr>artifacts := artifacts d @ (if created then [a] else [])\<rparr> \<and>
        (created \<longleftrightarrow> find (is_artifact (run_id (aq_run q)) key) (artifacts d) = None)"
      using reg by (auto simp: register_artifact_def insert_artifact_def Let_def mapR_Inr_iff split: option.splits sum.splits)
    moreover have "a \<in> set (artifacts d) \<longleftrightarrow> find (is_artifact (run_id (aq_run q)) key) (artifacts d) \<noteq> None"
    proof
      assume "a \<in> set (artifacts d)"
      with key show "find (is_artifact (run_id (aq_run q)) key) (artifacts d) \<noteq> None" by (auto simp: find_None_iff is_artifact_def)
    next
      assume "find (is_artifact (run_id (aq_run q)) key) (artifacts d) \<noteq> None"
      then obtain a' where a': "find (is_artifact (run_id (aq_run q)) key) (artifacts d) = Some a'" by blast
      with reg have "a' = a" by (simp add: register_artifact_def)
      with a' show "a \<in> set (artifacts d)" by (auto simp: find_Some_iff)
    qed
    ultimately show ?thesis using world by (simp add: Inr ac key)
  qed
qed

lemma artifact_store_append_only_witness:
  "\<exists>a d w d' w'. save_artifact_bytes dict_storage demo_sha 10 ''a1'' demo_artifact_request (demo_db [], []) = (Inr (a, True), d, w) \<and>
     save_artifact_bytes dict_storage demo_sha 10 ''a2'' demo_artifact_request (d, w) = (Inr (a, False), d', w') \<and> d' = d \<and> w' = w"
proof -
  obtain a d w where s: "save_artifact_bytes dict_storage demo_sha 10 ''a1'' demo_artifact_request (demo_db [], []) = (Inr (a, True), d, w)" by (rule demo_saveE)
  have "case save_artifact_bytes dict_storage demo_sha 10 ''a1'' demo_artifact_request (demo_db [], []) of (out, d, w) \<Rightarrow>
      (case save_artifact_bytes dict_storage demo_sha 10 ''a2'' demo_artifact_request (d, w) of (out', d', w') \<Rightarrow>
        (case (out, out') of (Inr (a, c), Inr (a', c')) \<Rightarrow> a' = a \<and> \<not> c' | _ \<Rightarrow> False) \<and> w' = w)"
    by code_simp
  with s obtain d' w' where t: "save_artifact_bytes dict_storage demo_sha 10 ''a2'' demo_artifact_request (d, w) = (Inr (a, False), d', w')" and w: "w' = w"
    by (auto split: prod.splits sum.splits)
  from artifact_store_append_only [OF t] have "d' = d" by simp
  with s t w show ?thesis by blast
qed

end
