(* ===== verification/Package_Files.thy ===== *)
theory Package_Files
  imports Py_Path Py_Json
begin

text \<open>
  \<open>exporters/paths.py\<close> and the part of the file system the package code uses. A file system lists absolute paths,
  as lists of components, with what is there: a regular file with its bytes, a directory, or a symbolic link with the
  absolute path it points to; no path runs through a link. \<open>resolve\<close> follows at most forty links, as the kernel does.
\<close>

subsection \<open>Package tree\<close>

definition AUDIT_REPORTS :: string where "AUDIT_REPORTS = ''01_Audit_Reports''"
definition STRATEGY_DOCUMENTS :: string where "STRATEGY_DOCUMENTS = ''02_Strategy_Documents''"
definition ACTION_PLAN :: string where "ACTION_PLAN = ''03_Action_Plan''"
definition IMPLEMENTATION :: string where "IMPLEMENTATION = ''04_Implementation_Deliverables''"
definition TECHNICAL_FIXES :: string where "TECHNICAL_FIXES = IMPLEMENTATION @ ''/Technical_Fixes''"
definition ON_PAGE_OPTIMIZATIONS :: string where "ON_PAGE_OPTIMIZATIONS = IMPLEMENTATION @ ''/On_Page_Optimizations''"
definition SCHEMA_MARKUP :: string where "SCHEMA_MARKUP = IMPLEMENTATION @ ''/Schema_Markup''"
definition LINK_BUILDING :: string where "LINK_BUILDING = IMPLEMENTATION @ ''/Link_Building''"
definition SEO_CONTENT :: string where "SEO_CONTENT = ''05_SEO_Content''"
definition QA :: string where "QA = ''06_QA''"
definition SLIDE_DECK :: string where "SLIDE_DECK = ''07_Slide_Deck''"
definition LEGACY_QA :: string where "LEGACY_QA = ''06_QA_and_Manifest''"
definition PACKAGE_MANIFEST_JSON :: string where "PACKAGE_MANIFEST_JSON = QA @ ''/package-manifest.json''"
definition CHECKSUMS_SHA256 :: string where "CHECKSUMS_SHA256 = QA @ ''/checksums.sha256''"

definition REQUIRED_FOLDERS :: "string list" where
  "REQUIRED_FOLDERS = [AUDIT_REPORTS, STRATEGY_DOCUMENTS, ACTION_PLAN, TECHNICAL_FIXES, ON_PAGE_OPTIMIZATIONS, SCHEMA_MARKUP, QA, SLIDE_DECK]"

definition CONTROL_BASENAMES :: "string list" where
  "CONTROL_BASENAMES = [''package-manifest.json'', ''checksums.sha256'']"

definition CONTROL_FILES :: "string list" where
  "CONTROL_FILES = [PACKAGE_MANIFEST_JSON, CHECKSUMS_SHA256, LEGACY_QA @ ''/package-manifest.json'', LEGACY_QA @ ''/checksums.sha256'']"

definition is_control_file :: "string \<Rightarrow> bool" where
  "is_control_file relative =
     (case path_parts (pure_path relative) of
        [folder, name] \<Rightarrow> name \<in> set CONTROL_BASENAMES \<and> prefix ''06_'' folder
      | _ \<Rightarrow> relative \<in> set CONTROL_FILES)"

definition FOLDER_PROFILES :: "(string \<times> string \<times> string) list" where
  "FOLDER_PROFILES =
    [(AUDIT_REPORTS, ''audit_workbook'', ''approved''), (STRATEGY_DOCUMENTS, ''strategy_document'', ''approved''),
     (ACTION_PLAN, ''action_plan'', ''approved''), (IMPLEMENTATION, ''deployment_asset'', ''withheld_pending_approval''),
     (TECHNICAL_FIXES, ''deployment_asset'', ''withheld_pending_approval''),
     (ON_PAGE_OPTIMIZATIONS, ''onpage_proposal'', ''withheld_pending_editorial_review''),
     (SCHEMA_MARKUP, ''schema_template'', ''withheld_pending_approval''), (LINK_BUILDING, ''link_opportunity'', ''withheld_pending_approval''),
     (SEO_CONTENT, ''content_brief'', ''withheld_pending_human_approval''), (QA, ''qa_control'', ''approved''),
     (SLIDE_DECK, ''executive_deck'', ''approved'')]"

definition DERIVED_SUFFIXES :: "string list" where
  "DERIVED_SUFFIXES = [''.pdf'', ''.html'', ''.csv'']"

definition DERIVATIVE_SOURCE_SUFFIXES :: "string list" where
  "DERIVATIVE_SOURCE_SUFFIXES = [''.pptx'', ''.docx'', ''.xlsx'']"

text \<open>\<open>max(candidates, key=len)\<close>: the first of the longest.\<close>

fun longest :: "string list \<Rightarrow> string" where
  "longest [] = []"
| "longest [x] = x"
| "longest (x # y # ys) = (let m = longest (y # ys) in if length m \<le> length x then x else m)"

definition entry_profile :: "string \<Rightarrow> string \<times> string" where
  "entry_profile relative =
     (let posix = pure_path relative in
      if length (path_parts posix) = 1 then (''summary_markdown'', ''approved'')
      else let parent = as_posix (path_parent posix);
               candidates = filter (\<lambda>key. parent = key \<or> prefix (key @ ''/'') parent) (map fst FOLDER_PROFILES)
           in if candidates = [] then (''package_file'', ''approved'') else the (map_of FOLDER_PROFILES (longest candidates)))"

subsection \<open>File system\<close>

datatype node = Regular string | Directory | Link "string list"

type_synonym fsys = "(string list \<times> node) list"

function walk_path :: "fsys \<Rightarrow> nat \<Rightarrow> string list \<Rightarrow> string list \<Rightarrow> string list option" where
  "walk_path fs n acc [] = Some acc"
| "walk_path fs n acc (x # xs) =
     (if x = ''..'' then walk_path fs n (butlast acc) xs
      else case map_of fs (acc @ [x]) of
          Some (Link target) \<Rightarrow> (case n of 0 \<Rightarrow> None | Suc m \<Rightarrow> walk_path fs m [] (target @ xs))
        | _ \<Rightarrow> walk_path fs n (acc @ [x]) xs)"
  by pat_completeness auto
termination
  by (relation "measures [\<lambda>(fs, n, acc, xs). n, \<lambda>(fs, n, acc, xs). length xs]") auto

definition resolve :: "fsys \<Rightarrow> string list \<Rightarrow> exn + string list" where
  "resolve fs p = (case walk_path fs 40 [] p of None \<Rightarrow> Inl (RuntimeError (''Symlink loop from '' @ join ''/'' p)) | Some q \<Rightarrow> Inr q)"

text \<open>The path a relative text names below a directory; an absolute text names itself.\<close>

definition below :: "string list \<Rightarrow> string \<Rightarrow> string list" where
  "below dir text = (if is_absolute (pure_path text) then snd (pure_path text) else dir @ snd (pure_path text))"

fun bytes_at :: "fsys \<Rightarrow> string list \<Rightarrow> string option" where
  "bytes_at fs p = (case map_of fs p of Some (Regular b) \<Rightarrow> Some b | _ \<Rightarrow> None)"

definition read_file :: "fsys \<Rightarrow> string list \<Rightarrow> string option" where
  "read_file fs p = (case walk_path fs 40 [] p of None \<Rightarrow> None | Some q \<Rightarrow> bytes_at fs q)"

definition is_link :: "fsys \<Rightarrow> string list \<Rightarrow> bool" where
  "is_link fs p \<longleftrightarrow> (case map_of fs p of Some (Link t) \<Rightarrow> True | _ \<Rightarrow> False)"

text \<open>\<open>rglob("*")\<close>: what is listed below a directory, relative to it.\<close>

definition members :: "fsys \<Rightarrow> string list \<Rightarrow> string list list" where
  "members fs dir = map (drop (length dir)) (filter (strict_prefix dir) (map fst fs))"

definition payload_name :: "string list \<Rightarrow> string" where
  "payload_name rel = as_posix ([], rel)"

definition qa_folder :: "fsys \<Rightarrow> string list \<Rightarrow> string list" where
  "qa_folder fs dir =
     (if map_of fs (dir @ [QA]) \<noteq> Some Directory \<and> map_of fs (dir @ [LEGACY_QA]) = Some Directory then dir @ [LEGACY_QA] else dir @ [QA])"

definition make_dir :: "string list \<Rightarrow> fsys \<Rightarrow> exn + fsys" where
  "make_dir p fs = (case map_of fs p of None \<Rightarrow> Inr (fs @ [(p, Directory)]) | Some Directory \<Rightarrow> Inr fs | Some _ \<Rightarrow> Inl (OSError ''File exists''))"

definition make_dirs :: "string list \<Rightarrow> fsys \<Rightarrow> exn + fsys" where
  "make_dirs p fs = foldE (\<lambda>fs q. make_dir q fs) fs (filter (\<lambda>q. q \<noteq> []) (prefixes p))"

definition write_file :: "string list \<Rightarrow> string \<Rightarrow> fsys \<Rightarrow> exn + fsys" where
  "write_file p b fs = (case map_of fs p of Some Directory \<Rightarrow> Inl (OSError ''Is a directory'') | _ \<Rightarrow> Inr (AList.update p (Regular b) fs))"

definition ensure_folders :: "string list \<Rightarrow> fsys \<Rightarrow> exn + fsys" where
  "ensure_folders dir fs = foldE (\<lambda>fs folder. make_dirs (dir @ path_parts (pure_path folder)) fs) fs REQUIRED_FOLDERS"

text \<open>The sibling a cross-format derivative was rendered from.\<close>

definition resolve_derivative_of :: "string \<Rightarrow> string list \<Rightarrow> string option" where
  "resolve_derivative_of relative available =
     (let path = pure_path relative in
      if casefold (path_suffix path) \<notin> set DERIVED_SUFFIXES then None
      else find (\<lambda>c. c \<noteq> relative \<and> c \<in> set available) (map (\<lambda>s. as_posix (with_suffix s path)) DERIVATIVE_SOURCE_SUFFIXES))"

end
