(* ===== verification/Py_Json_Text.thy ===== *)
theory Py_Json_Text
  imports Py_Json
begin

text \<open>
  \<open>json.dumps\<close> with \<open>ensure_ascii=False\<close>: the separators, the sorting of keys and whether not-a-number and the infinities
  may be written are a record. Their names are not modelled. \<open>float.__repr__\<close> is part of the record.
\<close>

definition escape_unicode :: "char \<Rightarrow> string" where
  "escape_unicode c = (if 126 < (of_char c :: nat) then [c] else json_escape c)"

definition json_text :: "string \<Rightarrow> string" where
  "json_text s = [CHR 0x22] @ concat (map escape_unicode s) @ [CHR 0x22]"

record json_style =
  js_item :: string
  js_key :: string
  js_nan :: bool
  js_repr :: "rat \<Rightarrow> string"

definition compact_style :: "(rat \<Rightarrow> string) \<Rightarrow> json_style" where
  "compact_style repr = \<lparr>js_item = '','', js_key = '':'', js_nan = False, js_repr = repr\<rparr>"

definition plain_style :: "(rat \<Rightarrow> string) \<Rightarrow> json_style" where
  "plain_style repr = \<lparr>js_item = '', '', js_key = '': '', js_nan = True, js_repr = repr\<rparr>"

text \<open>\<open>sort_keys=True\<close>, at every level.\<close>

fun sort_keys :: "json \<Rightarrow> json" and
  sort_keys_items :: "json list \<Rightarrow> json list" and
  sort_keys_pairs :: "(string \<times> json) list \<Rightarrow> (string \<times> json) list" where
  "sort_keys (JList xs) = JList (sort_keys_items xs)"
| "sort_keys (JObj kvs) = JObj (sort_key fst (sort_keys_pairs kvs))"
| "sort_keys j = j"
| "sort_keys_items [] = []"
| "sort_keys_items (x # xs) = sort_keys x # sort_keys_items xs"
| "sort_keys_pairs [] = []"
| "sort_keys_pairs ((k, x) # kvs) = (k, sort_keys x) # sort_keys_pairs kvs"

fun write_json :: "json_style \<Rightarrow> json \<Rightarrow> exn + string" and
  write_items :: "json_style \<Rightarrow> json list \<Rightarrow> exn + string list" and
  write_pairs :: "json_style \<Rightarrow> (string \<times> json) list \<Rightarrow> exn + string list" where
  "write_json st JNull = Inr ''null''"
| "write_json st (JBool b) = Inr (if b then ''true'' else ''false'')"
| "write_json st (JInt i) = Inr (str_of_int i)"
| "write_json st (JNum q) = Inr (js_repr st q)"
| "write_json st JNonFinite = (if js_nan st then Inr ''NaN'' else Inl (ValueError ''Out of range float values are not JSON compliant''))"
| "write_json st (JStr s) = Inr (json_text s)"
| "write_json st (JList xs) = mapR (\<lambda>ys. ''['' @ join (js_item st) ys @ '']'') (write_items st xs)"
| "write_json st (JObj kvs) = mapR (\<lambda>ys. ''{'' @ join (js_item st) ys @ ''}'') (write_pairs st kvs)"
| "write_json st JOther = Inl (OtherError ''TypeError'' ''Object is not JSON serializable'')"
| "write_items st [] = Inr []"
| "write_items st (x # xs) = bindE (write_json st x) (\<lambda>y. mapR ((#) y) (write_items st xs))"
| "write_pairs st [] = Inr []"
| "write_pairs st ((k, x) # kvs) = bindE (write_json st x) (\<lambda>y. mapR ((#) (json_text k @ js_key st @ y)) (write_pairs st kvs))"

text \<open>The canonical encoding: sorted keys, no spaces, finite numbers only.\<close>

definition canonical_json :: "(rat \<Rightarrow> string) \<Rightarrow> json \<Rightarrow> exn + string" where
  "canonical_json repr j = write_json (compact_style repr) (sort_keys j)"

subsection \<open>One line\<close>

text \<open>No character below 32 is ever written, so the text is a single line whatever the strings in it are.\<close>

definition printable :: "string \<Rightarrow> bool" where
  "printable s \<longleftrightarrow> list_all (\<lambda>c. 32 \<le> (of_char c :: nat)) s"

lemma printable_simps [simp]:
  "printable []" "printable (s @ t) \<longleftrightarrow> printable s \<and> printable t" "printable (c # s) \<longleftrightarrow> 32 \<le> (of_char c :: nat) \<and> printable s"
  by (simp_all add: printable_def)

lemma printable_join: "printable sep \<Longrightarrow> list_all printable ws \<Longrightarrow> printable (join sep ws)"
  by (induction sep ws rule: join.induct) auto

lemma printable_digits: "printable (str_of_int i)"
  using is_digits_str_of_nat [of "nat i"] is_digits_str_of_nat [of "nat (- i)"]
  by (fastforce simp: str_of_int_def printable_def is_digits_def digit_char_def list_all_iff)

lemma printable_hex: "n < 16 \<Longrightarrow> 32 \<le> (of_char (to_lower (hex_digit n)) :: nat)"
  by (auto simp: hex_digit_def to_lower_def upper_char_def)

lemma printable_json_escape: "printable (json_escape c)"
proof -
  have "(of_char c :: nat) div 16 < 16" by (simp add: less_mult_imp_div_less)
  then show ?thesis
    by (auto simp: json_escape_def Let_def printable_hex map_of_eq_None_iff dest!: map_of_SomeD split: option.splits)
qed

lemma printable_json_text: "printable (json_text s)"
  by (induction s) (auto simp: json_text_def escape_unicode_def printable_json_escape)

lemma printable_write_json:
  assumes "printable (js_item st)" "printable (js_key st)" "\<And>q. printable (js_repr st q)"
  shows "write_json st j = Inr t \<Longrightarrow> printable t"
    and "write_items st xs = Inr ts \<Longrightarrow> list_all printable ts"
    and "write_pairs st kvs = Inr ts \<Longrightarrow> list_all printable ts"
  using assms
  by (induction st j and st xs and st kvs arbitrary: t and ts and ts rule: write_json_write_items_write_pairs.induct)
    (auto simp: mapR_Inr_iff bindE_Inr_iff printable_join printable_digits printable_json_text split: if_splits)

lemma canonical_json_printable: "(\<And>q. printable (repr q)) \<Longrightarrow> canonical_json repr j = Inr t \<Longrightarrow> printable t"
  unfolding canonical_json_def by (rule printable_write_json(1)) (simp_all add: compact_style_def)

end
