(* ===== verification/Package_Manifest.thy ===== *)
theory Package_Manifest
  imports Package_Files Py_Float Py_Json_Text
begin

text \<open>
  \<open>exporters/manifest.py\<close>: the manifest of a package, its checksums and the archive. SHA-256 (\<open>sha\<close>), the media type
  guess, \<open>float.__repr__\<close> and the size deflate reaches are parameters. An archive is the list of its members.
\<close>

subsection \<open>Texts\<close>

text \<open>\<open>repr\<close> of a string and of a list of strings.\<close>

definition repr_char :: "char \<Rightarrow> char \<Rightarrow> string" where
  "repr_char q c =
     (let n = of_char c :: nat
      in if c = q \<or> n = 0x5C then [CHR 0x5C, c]
         else case map_of [(10, CHR ''n''), (13, CHR ''r''), (9, CHR ''t'')] n of
           Some e \<Rightarrow> [CHR 0x5C, e]
         | None \<Rightarrow> if n < 32 \<or> n = 127 then CHR 0x5C # ''x'' @ [to_lower (hex_digit (n div 16)), to_lower (hex_digit (n mod 16))] else [c])"

definition repr_str :: "string \<Rightarrow> string" where
  "repr_str s = (let q = (if CHR 0x27 \<in> set s \<and> CHR 0x22 \<notin> set s then CHR 0x22 else CHR 0x27) in q # concat (map (repr_char q) s) @ [q])"

definition repr_list :: "string list \<Rightarrow> string" where
  "repr_list xs = ''['' @ join '', '' (map repr_str xs) @ '']''"

text \<open>\<open>json.dumps(payload, indent=2, ensure_ascii=False)\<close>, not-a-number and the infinities allowed; their name is not modelled.\<close>

definition new_line :: "nat \<Rightarrow> string" where
  "new_line n = CHR 0x0A # replicate n CHR '' ''"

definition block_of :: "string \<Rightarrow> string \<Rightarrow> nat \<Rightarrow> string list \<Rightarrow> string" where
  "block_of opening closing n xs = (if xs = [] then opening @ closing
     else opening @ new_line (n + 2) @ join (CHR '','' # new_line (n + 2)) xs @ new_line n @ closing)"

fun indented :: "(rat \<Rightarrow> string) \<Rightarrow> nat \<Rightarrow> json \<Rightarrow> exn + string" and
  indented_items :: "(rat \<Rightarrow> string) \<Rightarrow> nat \<Rightarrow> json list \<Rightarrow> exn + string list" and
  indented_pairs :: "(rat \<Rightarrow> string) \<Rightarrow> nat \<Rightarrow> (string \<times> json) list \<Rightarrow> exn + string list" where
  "indented repr n JNull = Inr ''null''"
| "indented repr n (JBool b) = Inr (if b then ''true'' else ''false'')"
| "indented repr n (JInt i) = Inr (str_of_int i)"
| "indented repr n (JNum q) = Inr (repr q)"
| "indented repr n JNonFinite = Inr ''NaN''"
| "indented repr n (JStr s) = Inr (json_text s)"
| "indented repr n (JList xs) = mapR (block_of ''['' '']'' n) (indented_items repr (n + 2) xs)"
| "indented repr n (JObj kvs) = mapR (block_of ''{'' ''}'' n) (indented_pairs repr (n + 2) kvs)"
| "indented repr n JOther = Inl (OtherError ''TypeError'' ''Object is not JSON serializable'')"
| "indented_items repr n [] = Inr []"
| "indented_items repr n (x # xs) = bindE (indented repr n x) (\<lambda>y. mapR ((#) y) (indented_items repr n xs))"
| "indented_pairs repr n [] = Inr []"
| "indented_pairs repr n ((k, x) # kvs) =
     bindE (indented repr n x) (\<lambda>y. mapR ((#) (json_text k @ '': '' @ y)) (indented_pairs repr n kvs))"

subsection \<open>Manifest\<close>

record manifest_entry =
  en_path :: string
  en_media :: string
  en_bytes :: nat
  en_sha :: string
  en_type :: string
  en_title :: string
  en_records :: "string list"
  en_derivative :: "string option"
  en_approval :: string
  en_as_of :: "string option"

record package_manifest =
  pm_package :: string
  pm_project :: string
  pm_run :: string
  pm_rules :: string
  pm_generated :: string
  pm_domains :: "string list"
  pm_as_of :: "string option"
  pm_entries :: "manifest_entry list"
  pm_reconciliation :: "(string \<times> json) list"
  pm_limitations :: "string list"

record file_note =
  fn_type :: string
  fn_title :: string
  fn_records :: "string list"
  fn_derivative :: "string option"
  fn_approval :: string
  fn_as_of :: "string option"

definition opt_text :: "string option \<Rightarrow> string option" where
  "opt_text t = (if opt_any (\<lambda>s. s \<noteq> []) t then t else None)"

definition entry_of :: "(string \<Rightarrow> string) \<Rightarrow> (string \<Rightarrow> string option) \<Rightarrow> string option \<Rightarrow> file_note \<Rightarrow> string \<Rightarrow> string \<Rightarrow> manifest_entry" where
  "entry_of sha guess as_of note relative bytes =
     \<lparr>en_path = relative, en_media = (case opt_text (guess (path_name (pure_path relative))) of None \<Rightarrow> ''application/octet-stream'' | Some m \<Rightarrow> m),
      en_bytes = length bytes, en_sha = sha bytes, en_type = fn_type note, en_title = fn_title note, en_records = fn_records note,
      en_derivative = fn_derivative note, en_approval = fn_approval note,
      en_as_of = (case opt_text (fn_as_of note) of None \<Rightarrow> as_of | Some t \<Rightarrow> Some t)\<rparr>"

definition add_file :: "(string \<Rightarrow> string) \<Rightarrow> (string \<Rightarrow> string option) \<Rightarrow> fsys \<Rightarrow> string list \<Rightarrow> string list \<Rightarrow> file_note \<Rightarrow>
    package_manifest \<Rightarrow> exn + package_manifest" where
  "add_file sha guess fs dir path note m =
     bindE (resolve fs dir) (\<lambda>base. bindE (resolve fs path) (\<lambda>resolved.
     case bytes_at fs resolved of
       None \<Rightarrow> Inl (ValueError (''Artifact must be a file inside the package: /'' @ join ''/'' path))
     | Some bytes \<Rightarrow>
         if \<not> prefix base resolved then Inl (ValueError (''Artifact must be a file inside the package: /'' @ join ''/'' path))
         else let relative = payload_name (drop (length base) resolved) in
           if is_control_file relative then Inl (ValueError ''Control files are added after manifest enumeration'')
           else Inr (m\<lparr>pm_entries := pm_entries m @ [entry_of sha guess (pm_as_of m) note relative bytes]\<rparr>)))"

text \<open>The dictionary of the entries by path: a later entry replaces an earlier one.\<close>

definition entry_at :: "manifest_entry list \<Rightarrow> string \<Rightarrow> manifest_entry option" where
  "entry_at es p = find (\<lambda>e. en_path e = p) (rev es)"

definition check_derivative :: "manifest_entry list \<Rightarrow> manifest_entry \<Rightarrow> exn + unit" where
  "check_derivative es e =
     (case opt_text (en_derivative e) of None \<Rightarrow> Inr ()
      | Some d \<Rightarrow> (case entry_at es d of
          None \<Rightarrow> Inl (ValueError (''Derivative source is absent for '' @ en_path e @ '': '' @ d))
        | Some src \<Rightarrow> raise_first
            [(en_path src = en_path e, ValueError (''Artifact cannot derive from itself: '' @ en_path e)),
             (casefold (path_suffix (pure_path (en_path src))) = casefold (path_suffix (pure_path (en_path e))),
              ValueError (''Cross-format derivative must change format: '' @ en_path e))]))"

definition check_entry :: "(string \<Rightarrow> string) \<Rightarrow> fsys \<Rightarrow> string list \<Rightarrow> manifest_entry list \<Rightarrow> string list \<times> (string \<times> string) list \<Rightarrow>
    manifest_entry \<Rightarrow> exn + string list \<times> (string \<times> string) list" where
  "check_entry sha fs base es st e = (case st of (seen, hashes) \<Rightarrow>
     if en_path e \<in> set seen then Inl (ValueError (''Duplicate manifest path: '' @ en_path e))
     else bindE (resolve fs (below base (en_path e))) (\<lambda>candidate.
       if \<not> prefix base candidate then Inl (ValueError (''Manifest path escaped package: '' @ en_path e))
       else case bytes_at fs candidate of
         None \<Rightarrow> Inl (ValueError (''Manifest payload is missing or symbolic: '' @ en_path e))
       | Some bytes \<Rightarrow>
           if sha bytes \<noteq> en_sha e then Inl (ValueError (''Checksum drift: '' @ en_path e))
           else (case map_of hashes (sha bytes) of
             Some other \<Rightarrow> Inl (ValueError (''Unexplained byte-identical files: '' @ other @ '' and '' @ en_path e))
           | None \<Rightarrow> bindE (check_derivative es e) (\<lambda>_. Inr (en_path e # seen, (sha bytes, en_path e) # hashes)))))"

definition payload_names :: "fsys \<Rightarrow> string list \<Rightarrow> string list" where
  "payload_names fs dir = filter (\<lambda>n. \<not> is_control_file n) (map payload_name (filter (\<lambda>rel. bytes_at fs (dir @ rel) \<noteq> None) (members fs dir)))"

definition assert_integrity :: "(string \<Rightarrow> string) \<Rightarrow> fsys \<Rightarrow> string list \<Rightarrow> package_manifest \<Rightarrow> exn + unit" where
  "assert_integrity sha fs dir m =
     bindE (resolve fs dir) (\<lambda>base.
     bindE (foldE (check_entry sha fs base (pm_entries m)) ([], []) (pm_entries m)) (\<lambda>(seen, hashes).
     case find (\<lambda>rel. is_link fs (base @ rel)) (members fs base) of
       Some rel \<Rightarrow> Inl (ValueError (''Symbolic paths are forbidden in packages: /'' @ join ''/'' (base @ rel)))
     | None \<Rightarrow>
         let actual = payload_names fs base;
             untracked = sorted_set (filter (\<lambda>p. p \<notin> set seen) actual); missing = sorted_set (filter (\<lambda>p. p \<notin> set actual) seen)
         in if set actual \<noteq> set seen
            then Inl (ValueError (''Manifest coverage mismatch; untracked='' @ repr_list untracked @ '', missing='' @ repr_list missing))
            else Inr ()))"

definition opt_jstr :: "string option \<Rightarrow> json" where
  "opt_jstr t = (case t of None \<Rightarrow> JNull | Some s \<Rightarrow> JStr s)"

definition entry_json :: "manifest_entry \<Rightarrow> json" where
  "entry_json e = JObj [(''path'', JStr (en_path e)), (''media_type'', JStr (en_media e)), (''bytes'', JInt (int (en_bytes e))),
     (''sha256'', JStr (en_sha e)), (''artifact_type'', JStr (en_type e)), (''title'', JStr (en_title e)),
     (''source_records'', JList (map JStr (en_records e))), (''derivative_of'', opt_jstr (en_derivative e)),
     (''approval_state'', JStr (en_approval e)), (''as_of_date'', opt_jstr (en_as_of e))]"

definition manifest_json :: "package_manifest \<Rightarrow> json" where
  "manifest_json m = JObj
    [(''schema_version'', JStr ''1.0''), (''package_id'', JStr (pm_package m)), (''project_id'', JStr (pm_project m)), (''run_id'', JStr (pm_run m)),
     (''rule_version'', JStr (pm_rules m)), (''generated_at'', JStr (pm_generated m)), (''approved_domains'', JList (map JStr (pm_domains m))),
     (''evidence_as_of'', opt_jstr (pm_as_of m)),
     (''manifest_policy'', JObj
       [(''scope'', JStr ''Every client-facing payload; control files are covered by checksums.sha256.''),
        (''duplicate_policy'', JStr ''Byte-identical payloads are forbidden.''),
        (''derivatives'', JStr ''Cross-format derivatives declare derivative_of.'')]),
     (''reconciliation'', JObj (pm_reconciliation m)), (''limitations'', JList (map JStr (pm_limitations m))),
     (''files'', JList (map entry_json (sort_key en_path (pm_entries m))))]"

text \<open>The path of the manifest and the file system with it written.\<close>

definition write_manifest :: "(string \<Rightarrow> string) \<Rightarrow> (rat \<Rightarrow> string) \<Rightarrow> string list \<Rightarrow> package_manifest \<Rightarrow> fsys \<Rightarrow> exn + string list \<times> fsys" where
  "write_manifest sha repr dir m fs =
     bindE (assert_integrity sha fs dir m) (\<lambda>_.
     let folder = qa_folder fs dir; path = folder @ [path_name (pure_path PACKAGE_MANIFEST_JSON)] in
     bindE (make_dirs folder fs) (\<lambda>fs1.
     bindE (indented repr 0 (manifest_json m)) (\<lambda>text.
     mapR (\<lambda>fs2. (path, fs2)) (write_file path (text @ [CHR 0x0A]) fs1))))"

definition checksum_line :: "(string \<Rightarrow> string) \<Rightarrow> fsys \<Rightarrow> string list \<Rightarrow> string list \<Rightarrow> exn + string" where
  "checksum_line sha fs dir p =
     (case read_file fs p of None \<Rightarrow> Inl (OSError ''No such file or directory'')
      | Some b \<Rightarrow> if prefix dir p then Inr (sha b @ ''  '' @ payload_name (drop (length dir) p))
          else Inl (ValueError ''path is not in the subpath''))"

definition write_checksums :: "(string \<Rightarrow> string) \<Rightarrow> string list \<Rightarrow> string list \<Rightarrow> package_manifest \<Rightarrow> fsys \<Rightarrow> exn + string list \<times> fsys" where
  "write_checksums sha dir manifest_path m fs =
     (let folder = qa_folder fs dir; path = folder @ [path_name (pure_path CHECKSUMS_SHA256)];
          files = map (\<lambda>e. below dir (en_path e)) (pm_entries m) @ [manifest_path]
      in bindE (make_dirs folder fs) (\<lambda>fs1.
         bindE (mapE (checksum_line sha fs1 dir) (sort_key (join ''/'') files)) (\<lambda>lines.
         mapR (\<lambda>fs2. (path, fs2)) (write_file path (join [CHR 0x0A] lines @ [CHR 0x0A]) fs1))))"

subsection \<open>Archive\<close>

record zip_member =
  zm_name :: string
  zm_data :: string
  zm_size :: nat
  zm_compressed :: nat

text \<open>The members in their order; a link to a regular file is followed, one to nothing is left out.\<close>

definition build_zip :: "(string \<Rightarrow> nat) \<Rightarrow> fsys \<Rightarrow> string list \<Rightarrow> exn + zip_member list" where
  "build_zip deflated fs dir =
     bindE (resolve fs dir) (\<lambda>base.
     let candidates = sort_key payload_name (filter (\<lambda>rel. read_file fs (base @ rel) \<noteq> None) (members fs base)) in
     Inr (map (\<lambda>rel. let b = the (read_file fs (base @ rel)) in
       \<lparr>zm_name = payload_name (last base # rel), zm_data = b, zm_size = length b, zm_compressed = deflated b\<rparr>) candidates))"

definition check_member :: "string \<Rightarrow> string list \<times> nat \<Rightarrow> zip_member \<Rightarrow> exn + string list \<times> nat" where
  "check_member expected_root st z = (case st of (names, total_size) \<Rightarrow>
     let raw = zm_name z; normalized = pure_path raw; parts = path_parts normalized; canonical = as_posix normalized; size' = total_size + zm_size z in
     guarded
       [(CHR 0x5C \<in> set raw \<or> CHR 0x00 \<in> set raw, ValueError (''Unsafe ZIP member: '' @ raw)),
        (is_absolute normalized \<or> ''..'' \<in> set parts, ValueError (''Unsafe ZIP member: '' @ raw)),
        (list_ex (\<lambda>p. CHR '':'' \<in> set p) parts, ValueError (''Drive-qualified ZIP member: '' @ raw)),
        (parts = [] \<or> hd parts \<noteq> expected_root, ValueError (''Unexpected ZIP root: '' @ raw)),
        (canonical \<in> set names, ValueError (''Duplicate ZIP member: '' @ raw)),
        (zm_size z > 262144000, ValueError (''Oversized ZIP member: '' @ raw)),
        (size' > 1048576000, ValueError ''ZIP expansion exceeds package safety limit''),
        (zm_size z \<noteq> 0 \<and> zm_compressed z = 0, ValueError (''Invalid ZIP compression size: '' @ raw)),
        (zm_compressed z \<noteq> 0 \<and> fdiv (of_nat (zm_size z)) (of_nat (zm_compressed z)) > 1000, ValueError (''Suspicious ZIP expansion ratio: '' @ raw))]
       (canonical # names, size'))"

definition verify_zip_members :: "zip_member list \<Rightarrow> string \<Rightarrow> exn + unit" where
  "verify_zip_members ms expected_root = mapR (\<lambda>_. ()) (foldE (check_member expected_root) ([], 0) ms)"

subsection \<open>Publishing a package\<close>

text \<open>
  The last steps of \<open>build_package_for_run\<close> in \<open>exporters/run_package.py\<close>: the manifest of what the renderers left in
  the package directory, its checksums, the archive and the check of the archive. \<open>PackageBuildError\<close> carries the text
  of the manifest's exception.
\<close>

definition note_of :: "string \<Rightarrow> string list \<Rightarrow> file_note" where
  "note_of relative available =
     (let name = path_name (pure_path relative); title = strip (map (\<lambda>c. if c = CHR ''_'' then CHR '' '' else c) (stem_of name));
          profile = entry_profile relative
      in \<lparr>fn_type = fst profile, fn_title = (if title = [] then name else title), fn_records = [],
          fn_derivative = resolve_derivative_of relative available, fn_approval = snd profile, fn_as_of = None\<rparr>)"

definition payload_paths :: "fsys \<Rightarrow> string list \<Rightarrow> string list list" where
  "payload_paths fs dir = filter (\<lambda>rel. read_file fs (dir @ rel) \<noteq> None \<and> \<not> is_control_file (payload_name rel)) (sort_key payload_name (members fs dir))"

definition build_manifest :: "(string \<Rightarrow> string) \<Rightarrow> (string \<Rightarrow> string option) \<Rightarrow> fsys \<Rightarrow> string list \<Rightarrow> package_manifest \<Rightarrow> exn + package_manifest" where
  "build_manifest sha guess fs dir header =
     (let payloads = payload_paths fs dir; available = map payload_name payloads
      in foldE (\<lambda>m rel. add_file sha guess fs dir (dir @ rel) (note_of (payload_name rel) available) m) header payloads)"

datatype build_error = Package_build_error string | Build_raised exn

fun exn_text :: "exn \<Rightarrow> string" where
  "exn_text (ValueError m) = m"
| "exn_text (URLValidationError m) = m"
| "exn_text (SSRFBlockedError m) = m"
| "exn_text (ContractError m) = m"
| "exn_text (RuntimeError m) = m"
| "exn_text (CrawlError m) = m"
| "exn_text (ResponseTooLarge m) = m"
| "exn_text (UnsafeHTTPResponse m) = m"
| "exn_text (OSError m) = m"
| "exn_text (AssertionError m) = m"
| "exn_text (OtherError n m) = m"

definition raised :: "exn + 'a \<Rightarrow> build_error + 'a" where
  "raised r = (case r of Inl e \<Rightarrow> Inl (Build_raised e) | Inr a \<Rightarrow> Inr a)"

definition publish_package :: "(string \<Rightarrow> string) \<Rightarrow> (string \<Rightarrow> string option) \<Rightarrow> (rat \<Rightarrow> string) \<Rightarrow> (string \<Rightarrow> nat) \<Rightarrow> string \<Rightarrow> string list \<Rightarrow>
    package_manifest \<Rightarrow> fsys \<Rightarrow> build_error + package_manifest \<times> fsys \<times> zip_member list" where
  "publish_package sha guess repr deflated package_name dir header fs =
     bindE (raised (build_manifest sha guess fs dir header)) (\<lambda>m.
     bindE (case write_manifest sha repr dir m fs of
              Inl e \<Rightarrow> Inl (if is_value_error e then Package_build_error (exn_text e) else Build_raised e)
            | Inr r \<Rightarrow> Inr r) (\<lambda>(manifest_path, fs1).
     bindE (raised (write_checksums sha dir manifest_path m fs1)) (\<lambda>(checksum_path, fs2).
     bindE (raised (build_zip deflated fs2 dir)) (\<lambda>ms.
     bindE (raised (verify_zip_members ms package_name)) (\<lambda>_. Inr (m, fs2, ms))))))"

end
