(* ===== verification/Package_Facts.thy ===== *)
theory Package_Facts
  imports Package_Manifest
begin

text \<open>
  What the package code guarantees: which files a manifest covers, that a package always passes its own integrity
  check, what stands in a published archive, and which files are withheld from approval.
\<close>

subsection \<open>Paths\<close>

definition part_ok :: "string \<Rightarrow> bool" where
  "part_ok x \<longleftrightarrow> plain_part x \<and> x \<noteq> ''..''"

definition fs_ok :: "fsys \<Rightarrow> bool" where
  "fs_ok fs \<longleftrightarrow> distinct (map fst fs) \<and> list_all (list_all part_ok) (map fst fs)"

definition real_dir :: "fsys \<Rightarrow> string list \<Rightarrow> bool" where
  "real_dir fs dir \<longleftrightarrow> dir \<noteq> [] \<and> list_all part_ok dir \<and> (\<forall>q. prefix q dir \<longrightarrow> \<not> is_link fs q)"

lemma part_ok_dots: "list_all part_ok rel \<Longrightarrow> ''..'' \<notin> set rel"
  by (auto simp: list_all_iff part_ok_def)

lemma walk_plain:
  assumes "''..'' \<notin> set xs" and "\<And>q. prefix acc q \<Longrightarrow> prefix q (acc @ xs) \<Longrightarrow> \<not> is_link fs q"
  shows "walk_path fs n acc xs = Some (acc @ xs)"
  using assms
proof (induction xs arbitrary: acc)
  case (Cons x xs)
  have x: "x \<noteq> ''..''" using Cons.prems(1) by auto
  have "\<not> is_link fs (acc @ [x])" by (rule Cons.prems(2)) simp_all
  then have "walk_path fs n acc (x # xs) = walk_path fs n (acc @ [x]) xs"
    using x by (auto simp: is_link_def split: option.splits node.splits)
  also have "\<dots> = Some ((acc @ [x]) @ xs)"
  proof (rule Cons.IH)
    fix q assume "prefix (acc @ [x]) q" "prefix q ((acc @ [x]) @ xs)"
    then show "\<not> is_link fs q" by (intro Cons.prems(2)) (auto dest: append_prefixD)
  qed (use Cons.prems(1) in simp)
  finally show ?case by simp
qed simp

lemma payload_name_parts:
  assumes "list_all part_ok rel" and "rel \<noteq> []"
  shows "pure_path (payload_name rel) = ([], rel)"
proof -
  have "list_all plain_part rel" using assms(1) by (auto simp: list_all_iff part_ok_def)
  with assms(2) show ?thesis by (simp add: payload_name_def pure_path_as_posix)
qed

lemma below_payload: "list_all part_ok rel \<Longrightarrow> rel \<noteq> [] \<Longrightarrow> below dir (payload_name rel) = dir @ rel"
  by (simp add: below_def payload_name_parts is_absolute_def)

lemma payload_name_inj:
  "list_all part_ok xs \<Longrightarrow> xs \<noteq> [] \<Longrightarrow> list_all part_ok ys \<Longrightarrow> ys \<noteq> [] \<Longrightarrow> payload_name xs = payload_name ys \<longleftrightarrow> xs = ys"
  by (metis payload_name_parts prod.inject)

lemma listed_ok: "fs_ok fs \<Longrightarrow> p \<in> fst ` set fs \<Longrightarrow> list_all part_ok p"
  unfolding fs_ok_def list_all_iff [of "list_all part_ok"] by (metis list.set_map)

lemma strict_prefix_drop: "strict_prefix d p \<Longrightarrow> p = d @ drop (length d) p \<and> drop (length d) p \<noteq> []"
  by (auto simp: strict_prefix_def prefix_def)

lemma members_iff: "rel \<in> set (members fs dir) \<longleftrightarrow> rel \<noteq> [] \<and> dir @ rel \<in> fst ` set fs"
proof
  assume "rel \<in> set (members fs dir)"
  then obtain p where "p \<in> fst ` set fs" "strict_prefix dir p" "rel = drop (length dir) p"
    unfolding members_def set_map set_filter by blast
  then show "rel \<noteq> [] \<and> dir @ rel \<in> fst ` set fs" using strict_prefix_drop by metis
next
  assume r: "rel \<noteq> [] \<and> dir @ rel \<in> fst ` set fs"
  then have "strict_prefix dir (dir @ rel)" by (simp add: strict_prefix_def)
  moreover have "rel = drop (length dir) (dir @ rel)" by simp
  ultimately show "rel \<in> set (members fs dir)" using r unfolding members_def set_map set_filter by blast
qed

lemma membersE:
  assumes "fs_ok fs" and "rel \<in> set (members fs dir)"
  shows "list_all part_ok rel \<and> rel \<noteq> [] \<and> dir @ rel \<in> fst ` set fs"
proof -
  from assms(2) have r: "rel \<noteq> []" "dir @ rel \<in> fst ` set fs" by (simp_all add: members_iff)
  from listed_ok [OF assms(1) r(2)] r show ?thesis by simp
qed

lemma distinct_members: "fs_ok fs \<Longrightarrow> distinct (members fs dir)"
proof -
  assume "fs_ok fs"
  then have "distinct (filter (strict_prefix dir) (map fst fs))" by (simp add: fs_ok_def)
  moreover have "inj_on (drop (length dir)) (set (filter (strict_prefix dir) (map fst fs)))"
  proof (rule inj_onI)
    fix p q assume "p \<in> set (filter (strict_prefix dir) (map fst fs))" "q \<in> set (filter (strict_prefix dir) (map fst fs))"
      and "drop (length dir) p = drop (length dir) q"
    then show "p = q" using strict_prefix_drop unfolding set_filter by (metis (no_types, lifting) mem_Collect_eq)
  qed
  ultimately show ?thesis by (simp add: members_def distinct_map)
qed

lemma bytes_at_listed: "bytes_at fs p = Some b \<Longrightarrow> p \<in> fst ` set fs"
  by (auto split: option.splits node.splits dest!: map_of_SomeD intro: rev_image_eqI)

definition links_free :: "fsys \<Rightarrow> string list \<Rightarrow> bool" where
  "links_free fs dir \<longleftrightarrow> list_all (\<lambda>rel. \<not> is_link fs (dir @ rel)) (members fs dir)"

lemma is_link_listed: "is_link fs p \<Longrightarrow> p \<in> fst ` set fs"
  by (auto simp: is_link_def split: option.splits node.splits dest!: map_of_SomeD intro: rev_image_eqI)

lemma walk_below:
  assumes "real_dir fs dir" and "links_free fs dir" and "''..'' \<notin> set rel"
  shows "walk_path fs n [] (dir @ rel) = Some (dir @ rel)"
proof -
  have "\<not> is_link fs q" if q: "prefix q (dir @ rel)" for q
  proof (cases "prefix q dir")
    case True
    with assms(1) show ?thesis by (simp add: real_dir_def)
  next
    case False
    with q obtain r where r: "q = dir @ r" "r \<noteq> []" by (auto simp: prefix_append)
    then have "r \<in> set (members fs dir)" if "is_link fs q" using is_link_listed [OF that] by (simp add: members_iff)
    with r show ?thesis using assms(2) by (auto simp: links_free_def list_all_iff)
  qed
  moreover have "''..'' \<notin> set (dir @ rel)" using assms part_ok_dots [of dir] by (simp add: real_dir_def)
  ultimately show ?thesis using walk_plain [of "dir @ rel" "[]" fs n] by simp
qed

lemma resolve_below: "real_dir fs dir \<Longrightarrow> links_free fs dir \<Longrightarrow> ''..'' \<notin> set rel \<Longrightarrow> resolve fs (dir @ rel) = Inr (dir @ rel)"
  by (simp add: resolve_def walk_below)

lemma resolve_dir: "real_dir fs dir \<Longrightarrow> resolve fs dir = Inr dir"
  using walk_plain [of dir "[]" fs 40] part_ok_dots [of dir] by (simp add: resolve_def real_dir_def)

lemma read_below: "real_dir fs dir \<Longrightarrow> links_free fs dir \<Longrightarrow> ''..'' \<notin> set rel \<Longrightarrow> read_file fs (dir @ rel) = bytes_at fs (dir @ rel)"
  by (simp add: read_file_def walk_below)

subsection \<open>Integrity\<close>

definition entry_ok :: "(string \<Rightarrow> string) \<Rightarrow> fsys \<Rightarrow> string list \<Rightarrow> manifest_entry list \<Rightarrow> manifest_entry \<Rightarrow> bool" where
  "entry_ok sha fs base es e \<longleftrightarrow> (\<exists>p b. resolve fs (below base (en_path e)) = Inr p \<and> prefix base p \<and> bytes_at fs p = Some b \<and> sha b = en_sha e) \<and>
     check_derivative es e = Inr ()"

lemma check_entry_Inr:
  "check_entry sha fs base es (seen, hashes) e = Inr st \<longleftrightarrow> en_path e \<notin> set seen \<and> en_sha e \<notin> fst ` set hashes \<and> entry_ok sha fs base es e \<and>
     st = (en_path e # seen, (en_sha e, en_path e) # hashes)"
proof -
  have unit: "check_derivative es e = Inr u \<longleftrightarrow> check_derivative es e = Inr ()" for u by simp
  have none: "map_of hashes k = None \<longleftrightarrow> k \<notin> fst ` set hashes" for k by (simp add: map_of_eq_None_iff)
  have some: "k \<in> fst ` set hashes" if "map_of hashes k = Some v" for k v using none [of k] that by auto
  show ?thesis
    by (cases "resolve fs (below base (en_path e))"; cases "check_derivative es e")
      (auto simp: check_entry_def entry_ok_def none dest: some simp del: bytes_at.simps split: option.splits if_splits)
qed

lemma check_entries_Inr:
  "foldE (check_entry sha fs base all) (seen, hashes) es = Inr st \<longleftrightarrow>
     distinct (map en_path es) \<and> set (map en_path es) \<inter> set seen = {} \<and> distinct (map en_sha es) \<and> set (map en_sha es) \<inter> fst ` set hashes = {} \<and>
     (\<forall>e \<in> set es. entry_ok sha fs base all e) \<and> st = (rev (map en_path es) @ seen, rev (map (\<lambda>e. (en_sha e, en_path e)) es) @ hashes)"
proof (induction es arbitrary: seen hashes)
  case (Cons e es)
  show ?case unfolding foldE.simps bindE_Inr_iff check_entry_Inr by (auto simp: Cons.IH)
qed auto

lemma find_none: "find P xs = None \<longleftrightarrow> list_all (\<lambda>x. \<not> P x) xs"
  by (auto simp: find_None_iff list_all_iff)

lemma integrity_passes_iff:
  "assert_integrity sha fs dir m = Inr () \<longleftrightarrow> (\<exists>base. resolve fs dir = Inr base \<and> links_free fs base \<and>
     distinct (map en_path (pm_entries m)) \<and> distinct (map en_sha (pm_entries m)) \<and>
     list_all (entry_ok sha fs base (pm_entries m)) (pm_entries m) \<and> set (map en_path (pm_entries m)) = set (payload_names fs base))"
proof (cases "resolve fs dir")
  case (Inl e)
  then show ?thesis by (simp add: assert_integrity_def)
next
  case (Inr base)
  let ?es = "pm_entries m"
  show ?thesis
  proof (cases "foldE (check_entry sha fs base ?es) ([], []) ?es")
    case fold: (Inl e)
    then have "\<not> (distinct (map en_path ?es) \<and> distinct (map en_sha ?es) \<and> (\<forall>e \<in> set ?es. entry_ok sha fs base ?es e))"
      using check_entries_Inr [of sha fs base ?es "[]" "[]" ?es] by auto
    with Inr fold show ?thesis by (auto simp: assert_integrity_def list_all_iff)
  next
    case fold: (Inr st)
    then have e: "distinct (map en_path ?es)" "distinct (map en_sha ?es)" "list_all (entry_ok sha fs base ?es) ?es"
      and st: "st = (rev (map en_path ?es), rev (map (\<lambda>e. (en_sha e, en_path e)) ?es))"
      unfolding check_entries_Inr by (auto simp: list_all_iff)
    have "assert_integrity sha fs dir m = Inr () \<longleftrightarrow> links_free fs base \<and> set (payload_names fs base) = set (map en_path ?es)"
      using Inr fold by (auto simp: assert_integrity_def st links_free_def find_none [symmetric] Let_def split: option.splits)
    with Inr e show ?thesis by auto
  qed
qed


subsection \<open>Building a manifest\<close>

definition tree_ok :: "fsys \<Rightarrow> string list \<Rightarrow> bool" where
  "tree_ok fs dir \<longleftrightarrow> fs_ok fs \<and> real_dir fs dir \<and> links_free fs dir"

definition content :: "fsys \<Rightarrow> string list \<Rightarrow> string list \<Rightarrow> string" where
  "content fs dir rel = the (bytes_at fs (dir @ rel))"

lemma set_payload_paths:
  assumes "tree_ok fs dir"
  shows "rel \<in> set (payload_paths fs dir) \<longleftrightarrow> rel \<noteq> [] \<and> bytes_at fs (dir @ rel) \<noteq> None \<and> \<not> is_control_file (payload_name rel)"
proof -
  have same: "read_file fs (dir @ rel) = bytes_at fs (dir @ rel)" if "rel \<in> set (members fs dir)"
    using that assms membersE [of fs rel dir] by (simp add: tree_ok_def read_below part_ok_dots del: bytes_at.simps)
  have listed: "rel \<in> set (members fs dir)" if "rel \<noteq> []" "bytes_at fs (dir @ rel) \<noteq> None"
    using that bytes_at_listed [of fs "dir @ rel"] unfolding members_iff by blast
  have proper: "rel \<noteq> []" if "rel \<in> set (members fs dir)" using that unfolding members_iff by blast
  have "rel \<in> set (payload_paths fs dir) \<longleftrightarrow> rel \<in> set (members fs dir) \<and> read_file fs (dir @ rel) \<noteq> None \<and> \<not> is_control_file (payload_name rel)"
    by (auto simp: payload_paths_def)
  then show ?thesis using same listed proper by metis
qed

lemma payload_path_ok: "tree_ok fs dir \<Longrightarrow> rel \<in> set (payload_paths fs dir) \<Longrightarrow> list_all part_ok rel \<and> rel \<noteq> []"
  using membersE [of fs rel dir] by (auto simp: payload_paths_def tree_ok_def)

lemma add_file_payload:
  assumes "tree_ok fs dir" and "rel \<in> set (payload_paths fs dir)"
  shows "add_file sha guess fs dir (dir @ rel) note m =
    Inr (m\<lparr>pm_entries := pm_entries m @ [entry_of sha guess (pm_as_of m) note (payload_name rel) (content fs dir rel)]\<rparr>)"
proof -
  have t: "fs_ok fs" "real_dir fs dir" "links_free fs dir" using assms(1) by (simp_all add: tree_ok_def)
  from assms(2) obtain b where b: "bytes_at fs (dir @ rel) = Some b" and c: "\<not> is_control_file (payload_name rel)"
    unfolding set_payload_paths [OF assms(1)] by blast
  have "''..'' \<notin> set rel" using payload_path_ok [OF assms] by (simp add: part_ok_dots)
  from resolve_below [OF t(2,3) this] resolve_dir [OF t(2)] b c show ?thesis
    by (simp add: add_file_def content_def Let_def del: bytes_at.simps)
qed

definition built_entry :: "(string \<Rightarrow> string) \<Rightarrow> (string \<Rightarrow> string option) \<Rightarrow> string option \<Rightarrow> fsys \<Rightarrow> string list \<Rightarrow> string list \<Rightarrow> manifest_entry" where
  "built_entry sha guess as_of fs dir rel =
     entry_of sha guess as_of (note_of (payload_name rel) (map payload_name (payload_paths fs dir))) (payload_name rel) (content fs dir rel)"

lemma add_files:
  assumes "tree_ok fs dir" and "set rels \<subseteq> set (payload_paths fs dir)"
  shows "foldE (\<lambda>m rel. add_file sha guess fs dir (dir @ rel) (note_of (payload_name rel) (map payload_name (payload_paths fs dir))) m) m rels =
    Inr (m\<lparr>pm_entries := pm_entries m @ map (built_entry sha guess (pm_as_of m) fs dir) rels\<rparr>)"
  using assms(2)
proof (induction rels arbitrary: m)
  case (Cons rel rels)
  then show ?case by (simp add: add_file_payload [OF assms(1)] built_entry_def)
qed simp

lemma build_manifest_total:
  "tree_ok fs dir \<Longrightarrow> build_manifest sha guess fs dir header =
     Inr (header\<lparr>pm_entries := pm_entries header @ map (built_entry sha guess (pm_as_of header) fs dir) (payload_paths fs dir)\<rparr>)"
  by (simp add: build_manifest_def Let_def add_files)

lemma suffix_of_append:
  assumes "stem \<noteq> []" and "x \<noteq> []" and "CHR ''.'' \<notin> set x"
  shows "suffix_of (stem @ CHR ''.'' # x) = CHR ''.'' # x"
proof -
  have x: "c \<noteq> CHR ''.''" if "c \<in> set (rev x)" for c using assms(3) that by auto
  have "takeWhile (\<lambda>c. c \<noteq> CHR ''.'') (rev x @ CHR ''.'' # rev stem) = rev x" by (subst takeWhile_append2 [OF x]) simp_all
  moreover have "dropWhile (\<lambda>c. c \<noteq> CHR ''.'') (rev x @ CHR ''.'' # rev stem) = CHR ''.'' # rev stem" by (subst dropWhile_append2 [OF x]) simp_all
  ultimately show ?thesis using assms by (simp add: suffix_of_def rpartition_on_def)
qed

lemma stem_of_nonempty: "suffix_of name \<noteq> [] \<Longrightarrow> stem_of name \<noteq> []"
proof -
  assume a: "suffix_of name \<noteq> []"
  obtain x found y where r: "rpartition_on CHR ''.'' name = (x, found, y)" by (cases "rpartition_on CHR ''.'' name")
  with a have f: "found" "x \<noteq> []" "suffix_of name = CHR ''.'' # y" by (auto simp: suffix_of_def split: if_splits)
  with r have "name = x @ [CHR ''.''] @ y" using rpartition_on_found [of _ name x y] by simp
  with f show ?thesis by (simp add: stem_of_def)
qed

lemma find_SomeD: "find P xs = Some x \<Longrightarrow> x \<in> set xs \<and> P x"
  by (induction xs) (auto split: if_splits)

lemma derivative_of_sibling:
  assumes "resolve_derivative_of relative available = Some c" and "list_all part_ok rel" "rel \<noteq> []" "relative = payload_name rel"
  shows "c \<in> set available \<and> c \<noteq> relative \<and> casefold (path_suffix (pure_path c)) \<noteq> casefold (path_suffix (pure_path relative))"
proof -
  let ?p = "pure_path relative" and ?name = "last rel"
  have p: "?p = ([], rel)" using assms by (simp add: payload_name_parts)
  have name: "path_name ?p = ?name" "path_suffix ?p = suffix_of ?name" using assms(3) by (simp_all add: p path_name_def path_suffix_def)
  have der: "casefold (suffix_of ?name) \<in> set DERIVED_SUFFIXES"
    using assms(1) by (auto simp: resolve_derivative_of_def Let_def name split: if_splits)
  obtain s where s: "s \<in> set DERIVATIVE_SOURCE_SUFFIXES" "c = as_posix (with_suffix s ?p)" "c \<noteq> relative" "c \<in> set available"
    using assms(1) by (auto simp: resolve_derivative_of_def Let_def dest!: find_SomeD split: if_splits)
  have "[] \<notin> set DERIVED_SUFFIXES" by (simp add: DERIVED_SUFFIXES_def)
  with der have "casefold (suffix_of ?name) \<noteq> []" by metis
  then have "suffix_of ?name \<noteq> []" by simp
  then have stem: "stem_of ?name \<noteq> []" by (rule stem_of_nonempty)
  from s(1) obtain x where x: "s = CHR ''.'' # x" "x \<noteq> []" "CHR ''.'' \<notin> set x" "CHR ''/'' \<notin> set x" "casefold s \<notin> set DERIVED_SUFFIXES"
    by (auto simp: DERIVATIVE_SOURCE_SUFFIXES_def DERIVED_SUFFIXES_def casefold_def to_lower_def upper_char_def)
  have "CHR ''/'' \<notin> set (stem_of ?name)" using assms(2,3) set_take_subset [of _ ?name]
    by (auto simp: stem_of_def list_all_iff part_ok_def plain_part_def dest!: last_in_set)
  with stem x have "plain_part (stem_of ?name @ s)" by (cases "stem_of ?name") (auto simp: plain_part_def)
  moreover have "list_all plain_part (butlast rel)" using assms(2) by (auto simp: list_all_iff part_ok_def dest: in_set_butlastD)
  ultimately have "pure_path c = ([], butlast rel @ [stem_of ?name @ s])"
    unfolding s(2) with_suffix_def p path_name_def using assms(3) by (simp add: pure_path_as_posix)
  then have "path_suffix (pure_path c) = s" using stem x by (simp add: path_suffix_def path_name_def suffix_of_append)
  with der x(5) s(3,4) name show ?thesis by auto
qed

lemma sibling_entry_ok:
  assumes "tree_ok fs dir" and "rel \<in> set (payload_paths fs dir)" and "as_of = pm_as_of header"
  shows "entry_ok sha fs dir (map (built_entry sha guess as_of fs dir) (payload_paths fs dir)) (built_entry sha guess as_of fs dir rel)"
proof -
  let ?built = "built_entry sha guess as_of fs dir" and ?rels = "payload_paths fs dir"
  have t: "fs_ok fs" "real_dir fs dir" "links_free fs dir" using assms(1) by (simp_all add: tree_ok_def)
  have rel: "list_all part_ok rel" "rel \<noteq> []" using payload_path_ok [OF assms(1,2)] by simp_all
  obtain b where b: "bytes_at fs (dir @ rel) = Some b" using assms(2) unfolding set_payload_paths [OF assms(1)] by blast
  have path: "en_path (?built r) = payload_name r" "en_sha (?built r) = sha (content fs dir r)" for r
    by (simp_all add: built_entry_def entry_of_def)
  have "resolve fs (below dir (payload_name rel)) = Inr (dir @ rel)"
    unfolding below_payload [OF rel] by (rule resolve_below [OF t(2,3) part_ok_dots [OF rel(1)]])
  moreover have "check_derivative (map ?built ?rels) (?built rel) = Inr ()"
  proof (cases "opt_text (en_derivative (?built rel))")
    case None
    then show ?thesis by (simp add: check_derivative_def)
  next
    case (Some c)
    then have "resolve_derivative_of (payload_name rel) (map payload_name ?rels) = Some c"
      by (auto simp: built_entry_def entry_of_def note_of_def Let_def opt_text_def opt_any_iff split: if_splits)
    from derivative_of_sibling [OF this rel refl] have c: "c \<in> set (map payload_name ?rels)" "c \<noteq> payload_name rel"
      "casefold (path_suffix (pure_path c)) \<noteq> casefold (path_suffix (pure_path (payload_name rel)))" by simp_all
    have "entry_at (map ?built ?rels) c \<noteq> None" using c(1) by (auto simp: entry_at_def find_None_iff path)
    then obtain src where src: "entry_at (map ?built ?rels) c = Some src" by blast
    then have "en_path src = c" by (auto simp: entry_at_def dest!: find_SomeD)
    with Some src c path show ?thesis by (simp add: check_derivative_def)
  qed
  ultimately show ?thesis unfolding entry_ok_def path using b by (auto simp: content_def simp del: bytes_at.simps)
qed

lemma payload_names_paths: "tree_ok fs dir \<Longrightarrow> set (payload_names fs dir) = payload_name ` set (payload_paths fs dir)"
proof -
  assume t: "tree_ok fs dir"
  have "rel \<in> set (members fs dir) \<and> bytes_at fs (dir @ rel) \<noteq> None \<longleftrightarrow> rel \<noteq> [] \<and> bytes_at fs (dir @ rel) \<noteq> None" for rel
    using bytes_at_listed [of fs "dir @ rel"] unfolding members_iff by blast
  then have "set (payload_names fs dir) = {n. \<exists>rel. n = payload_name rel \<and> rel \<noteq> [] \<and> bytes_at fs (dir @ rel) \<noteq> None \<and> \<not> is_control_file n}"
    unfolding payload_names_def set_filter set_map by blast
  also have "\<dots> = payload_name ` {rel. rel \<noteq> [] \<and> bytes_at fs (dir @ rel) \<noteq> None \<and> \<not> is_control_file (payload_name rel)}" by blast
  also have "{rel. rel \<noteq> [] \<and> bytes_at fs (dir @ rel) \<noteq> None \<and> \<not> is_control_file (payload_name rel)} = set (payload_paths fs dir)"
    using set_payload_paths [OF t] by blast
  finally show ?thesis .
qed

lemma distinct_payload_names: "tree_ok fs dir \<Longrightarrow> distinct (map payload_name (payload_paths fs dir))"
proof -
  assume t: "tree_ok fs dir"
  have "distinct (payload_paths fs dir)"
    using t distinct_members [of fs dir] by (simp add: payload_paths_def tree_ok_def distinct_sort)
  moreover have "inj_on payload_name (set (payload_paths fs dir))"
    by (rule inj_onI) (metis payload_name_inj payload_path_ok [OF t])
  ultimately show ?thesis by (simp add: distinct_map)
qed


subsection \<open>Writing files\<close>

lemma links_free_iff: "links_free fs dir \<longleftrightarrow> (\<forall>rel. rel \<noteq> [] \<longrightarrow> \<not> is_link fs (dir @ rel))"
  using is_link_listed [of fs] by (auto simp: links_free_def list_all_iff members_iff)

text \<open>Two file systems with the same files and links, both well-formed.\<close>

definition same_files :: "fsys \<Rightarrow> fsys \<Rightarrow> bool" where
  "same_files fs fs' \<longleftrightarrow> (fs_ok fs \<longrightarrow> fs_ok fs') \<and> (\<forall>p. bytes_at fs' p = bytes_at fs p \<and> is_link fs' p = is_link fs p)"

lemma make_dir_same:
  assumes "make_dir p fs = Inr fs'" and "list_all part_ok p"
  shows "same_files fs fs'"
proof (cases "map_of fs p")
  case None
  then have fs': "fs' = fs @ [(p, Directory)]" using assms(1) by (simp add: make_dir_def)
  have look: "map_of fs' q = (if q = p then Some Directory else map_of fs q)" for q
    using None by (simp add: fs' map_add_def split: option.splits)
  have "p \<notin> fst ` set fs" using None by (simp add: map_of_eq_None_iff)
  with assms(2) have "fs_ok fs \<longrightarrow> fs_ok fs'" by (auto simp: fs_ok_def fs')
  with look None show ?thesis by (simp add: same_files_def is_link_def)
next
  case (Some n)
  with assms(1) show ?thesis by (cases n) (auto simp: make_dir_def same_files_def)
qed

lemma make_dirs_same:
  assumes "make_dirs p fs = Inr fs'" and "list_all part_ok p"
  shows "same_files fs fs'"
  using assms(1) unfolding make_dirs_def
proof (rule foldE_invariant)
  show "same_files fs fs" by (simp add: same_files_def)
  fix s q t assume q: "q \<in> set (filter (\<lambda>q. q \<noteq> []) (prefixes p))" and s: "same_files fs s" and t: "make_dir q s = Inr t"
  have "list_all part_ok q" using q assms(2) by (auto simp: prefix_def)
  from make_dir_same [OF t this] s show "same_files fs t" by (auto simp: same_files_def)
qed

lemma write_file_bytes:
  assumes "write_file p b fs = Inr fs'" and "list_all part_ok p"
  shows "(fs_ok fs \<longrightarrow> fs_ok fs') \<and> (\<forall>q. bytes_at fs' q = (if q = p then Some b else bytes_at fs q) \<and> is_link fs' q = (is_link fs q \<and> q \<noteq> p))"
proof -
  have fs': "fs' = AList.update p (Regular b) fs" using assms(1) by (auto simp: write_file_def split: option.splits node.splits)
  have "list_all (list_all part_ok) (map fst fs) \<Longrightarrow> list_all (list_all part_ok) (map fst fs')"
    using assms(2) by (auto simp: fs' list_all_iff update_keys)
  then show ?thesis by (auto simp: fs' fs_ok_def distinct_update is_link_def update_Some_unfold update_conv)
qed

lemma control_parts: "list_all part_ok [QA, LEGACY_QA, path_name (pure_path PACKAGE_MANIFEST_JSON), path_name (pure_path CHECKSUMS_SHA256)]"
  by code_simp

lemma control_names:
  "folder \<in> {QA, LEGACY_QA} \<Longrightarrow> name \<in> {path_name (pure_path PACKAGE_MANIFEST_JSON), path_name (pure_path CHECKSUMS_SHA256)} \<Longrightarrow>
   is_control_file (payload_name [folder, name])"
  by (elim insertE emptyE; simp only:; code_simp)

lemma qa_folder_cases: "\<exists>folder \<in> {QA, LEGACY_QA}. qa_folder fs dir = dir @ [folder]"
  by (simp add: qa_folder_def)

text \<open>What a step of publishing does to the files below the package directory.\<close>

definition adds_control :: "string list \<Rightarrow> fsys \<Rightarrow> fsys \<Rightarrow> bool" where
  "adds_control dir fs fs' \<longleftrightarrow> (tree_ok fs dir \<longrightarrow> tree_ok fs' dir) \<and>
     (\<forall>rel. \<not> is_control_file (payload_name rel) \<longrightarrow> bytes_at fs' (dir @ rel) = bytes_at fs (dir @ rel))"

lemma adds_control_trans: "adds_control dir fs fs1 \<Longrightarrow> adds_control dir fs1 fs2 \<Longrightarrow> adds_control dir fs fs2"
  by (auto simp: adds_control_def simp del: bytes_at.simps)

lemma control_file_written:
  assumes "list_all part_ok dir" and "make_dirs (qa_folder fs dir) fs = Inr fs1" and "write_file (qa_folder fs dir @ [name]) b fs1 = Inr fs2"
    and "name \<in> {path_name (pure_path PACKAGE_MANIFEST_JSON), path_name (pure_path CHECKSUMS_SHA256)}"
  shows "adds_control dir fs fs2"
proof -
  obtain folder where f: "folder \<in> {QA, LEGACY_QA}" "qa_folder fs dir = dir @ [folder]" using qa_folder_cases by blast
  have ok: "list_all part_ok (dir @ [folder, name])" using assms(1,4) f(1) control_parts by auto
  have s: "same_files fs fs1" using make_dirs_same [OF assms(2)] ok f(2) by simp
  have "write_file (dir @ [folder, name]) b fs1 = Inr fs2" using assms(3) f(2) by simp
  note w = write_file_bytes [OF this ok]
  have link: "is_link fs2 q \<Longrightarrow> is_link fs q" for q using w s by (simp add: same_files_def)
  have "bytes_at fs2 (dir @ rel) = bytes_at fs (dir @ rel)" if "\<not> is_control_file (payload_name rel)" for rel
  proof -
    have "rel \<noteq> [folder, name]" using that control_names [OF f(1) assms(4)] by blast
    with w s show ?thesis by (simp add: same_files_def del: bytes_at.simps)
  qed
  moreover have "tree_ok fs dir \<Longrightarrow> tree_ok fs2 dir"
    using w s link by (auto simp: tree_ok_def same_files_def real_dir_def links_free_iff)
  ultimately show ?thesis by (simp add: adds_control_def)
qed

lemma write_manifest_adds: "write_manifest sha repr dir m fs = Inr (p, fs') \<Longrightarrow> list_all part_ok dir \<Longrightarrow> adds_control dir fs fs'"
  by (auto simp: write_manifest_def Let_def bindE_Inr_iff mapR_Inr_iff intro: control_file_written)

lemma write_checksums_adds: "write_checksums sha dir mp m fs = Inr (p, fs') \<Longrightarrow> list_all part_ok dir \<Longrightarrow> adds_control dir fs fs'"
  by (auto simp: write_checksums_def Let_def bindE_Inr_iff mapR_Inr_iff intro: control_file_written)

subsection \<open>Archives\<close>

definition canonical :: "zip_member \<Rightarrow> string" where
  "canonical z = as_posix (pure_path (zm_name z))"

definition member_ok :: "string \<Rightarrow> zip_member \<Rightarrow> bool" where
  "member_ok expected z \<longleftrightarrow> \<not> is_absolute (pure_path (zm_name z)) \<and> path_parts (pure_path (zm_name z)) \<noteq> [] \<and>
     hd (path_parts (pure_path (zm_name z))) = expected \<and> ''..'' \<notin> set (path_parts (pure_path (zm_name z))) \<and>
     list_all (\<lambda>p. CHR '':'' \<notin> set p) (path_parts (pure_path (zm_name z))) \<and> CHR 0x5C \<notin> set (zm_name z) \<and> CHR 0x00 \<notin> set (zm_name z) \<and>
     zm_size z \<le> 250 * 1024 * 1024 \<and> (zm_compressed z = 0 \<longrightarrow> zm_size z = 0) \<and>
     (zm_compressed z \<noteq> 0 \<longrightarrow> fdiv (of_nat (zm_size z)) (of_nat (zm_compressed z)) \<le> 1000)"

lemma check_member_Inr:
  "check_member expected (names, n) z = Inr st \<longleftrightarrow> st = (canonical z # names, n + zm_size z) \<and>
     canonical z \<notin> set names \<and> n + zm_size z \<le> 1048576000 \<and> member_ok expected z"
  by (auto simp: check_member_def Let_def guarded_Inr_iff list_ex_iff list_all_iff member_ok_def canonical_def)

lemma check_members:
  "n \<le> 1048576000 \<Longrightarrow> foldE (check_member expected) (names, n) ms = Inr st \<longleftrightarrow> distinct (map canonical ms) \<and> set (map canonical ms) \<inter> set names = {} \<and>
     n + sum_list (map zm_size ms) \<le> 1048576000 \<and> list_all (member_ok expected) ms \<and>
     st = (rev (map canonical ms) @ names, n + sum_list (map zm_size ms))"
proof (induction ms arbitrary: names n)
  case (Cons z ms)
  show ?case
  proof (cases "n + zm_size z \<le> 1048576000")
    case True
    show ?thesis unfolding foldE.simps bindE_Inr_iff check_member_Inr using True by (auto simp: Cons.IH add.assoc)
  next
    case False
    then show ?thesis unfolding foldE.simps bindE_Inr_iff check_member_Inr by auto
  qed
qed auto

lemma archive_passes_iff:
  "verify_zip_members ms expected = Inr () \<longleftrightarrow> distinct (map canonical ms) \<and> sum_list (map zm_size ms) \<le> 1048576000 \<and> list_all (member_ok expected) ms"
  using check_members [of 0 expected "[]" ms] by (simp add: verify_zip_members_def mapR_Inr_iff)

text \<open>
  C30: An archive passes the check exactly when it unpacks inside the expected directory: every member is a relative
  path without parent references, backslashes or drive letters that starts with the package name, no two members have
  the same path, no member has more than 250 MiB or a suspicious compression ratio, and all of them together have at
  most 1000 MiB.
\<close>

theorem archive_check_exact:
  "verify_zip_members ms expected = Inr () \<longleftrightarrow> distinct (map (\<lambda>z. as_posix (pure_path (zm_name z))) ms) \<and>
     sum_list (map zm_size ms) \<le> 1000 * 1024 * 1024 \<and>
     (\<forall>z \<in> set ms. \<not> is_absolute (pure_path (zm_name z)) \<and> path_parts (pure_path (zm_name z)) \<noteq> [] \<and>
        hd (path_parts (pure_path (zm_name z))) = expected \<and> ''..'' \<notin> set (path_parts (pure_path (zm_name z))) \<and>
        list_all (\<lambda>p. CHR '':'' \<notin> set p) (path_parts (pure_path (zm_name z))) \<and> CHR 0x5C \<notin> set (zm_name z) \<and> CHR 0x00 \<notin> set (zm_name z) \<and>
        zm_size z \<le> 250 * 1024 * 1024 \<and> (zm_compressed z = 0 \<longrightarrow> zm_size z = 0) \<and>
        (zm_compressed z \<noteq> 0 \<longrightarrow> fdiv (of_nat (zm_size z)) (of_nat (zm_compressed z)) \<le> 1000))"
proof -
  have "canonical = (\<lambda>z. as_posix (pure_path (zm_name z)))" by (simp add: fun_eq_iff canonical_def)
  then show ?thesis unfolding archive_passes_iff by (simp add: list_all_iff member_ok_def)
qed

lemma build_zip_tree:
  assumes "tree_ok fs dir"
  shows "build_zip deflated fs dir = Inr (map (\<lambda>rel. \<lparr>zm_name = payload_name (last dir # rel), zm_data = content fs dir rel,
     zm_size = length (content fs dir rel), zm_compressed = deflated (content fs dir rel)\<rparr>)
     (sort_key payload_name (filter (\<lambda>rel. bytes_at fs (dir @ rel) \<noteq> None) (members fs dir))))"
proof -
  have t: "fs_ok fs" "real_dir fs dir" "links_free fs dir" using assms by (simp_all add: tree_ok_def)
  have read: "read_file fs (dir @ rel) = bytes_at fs (dir @ rel)" if "rel \<in> set (members fs dir)" for rel
    using read_below [OF t(2,3) part_ok_dots] membersE [OF t(1) that] by blast
  then have "filter (\<lambda>rel. read_file fs (dir @ rel) \<noteq> None) (members fs dir) = filter (\<lambda>rel. bytes_at fs (dir @ rel) \<noteq> None) (members fs dir)"
    by (intro filter_cong) (simp_all del: bytes_at.simps)
  then show ?thesis unfolding build_zip_def resolve_dir [OF t(2)] bindE_simps Let_def content_def using read
    by (simp del: bytes_at.simps)
qed

lemma payload_name_cons: "rel \<noteq> [] \<Longrightarrow> payload_name (x # rel) = x @ ''/'' @ payload_name rel"
  by (cases rel) (simp_all add: payload_name_def as_posix_def)

definition unpacked :: "zip_member list \<Rightarrow> string \<Rightarrow> string option" where
  "unpacked ms name = map_option zm_data (find (\<lambda>z. zm_name z = name) ms)"

lemma unpacked_zip:
  assumes "tree_ok fs dir" and "build_zip deflated fs dir = Inr ms" and "list_all part_ok rel" "rel \<noteq> []"
  shows "unpacked ms (last dir @ ''/'' @ payload_name rel) = bytes_at fs (dir @ rel)"
proof -
  let ?rels = "sort_key payload_name (filter (\<lambda>rel. bytes_at fs (dir @ rel) \<noteq> None) (members fs dir))"
  let ?z = "\<lambda>rel. \<lparr>zm_name = payload_name (last dir # rel), zm_data = content fs dir rel,
     zm_size = length (content fs dir rel), zm_compressed = deflated (content fs dir rel)\<rparr>"
  have t: "fs_ok fs" "real_dir fs dir" using assms(1) by (simp_all add: tree_ok_def)
  have ms: "ms = map ?z ?rels" using build_zip_tree [OF assms(1), of deflated] assms(2) by simp
  have same: "payload_name r = payload_name rel \<longleftrightarrow> r = rel" "zm_name (?z r) = last dir @ ''/'' @ payload_name r" if "r \<in> set ?rels" for r
    using membersE [OF t(1), of r dir] that payload_name_inj [OF _ _ assms(3,4), of r] payload_name_cons [of r "last dir"] by auto
  have listed: "rel \<in> set ?rels \<longleftrightarrow> bytes_at fs (dir @ rel) \<noteq> None"
    using bytes_at_listed [of fs "dir @ rel"] assms(4) by (auto simp: members_iff simp del: bytes_at.simps)
  have find: "find (\<lambda>z. zm_name z = last dir @ ''/'' @ payload_name rel) (map ?z rs) = (if rel \<in> set rs then Some (?z rel) else None)"
    if "set rs \<subseteq> set ?rels" for rs
    using that
  proof (induction rs)
    case (Cons r rs)
    then have "r \<in> set ?rels" by simp
    from same [OF this] have "zm_name (?z r) = last dir @ ''/'' @ payload_name rel \<longleftrightarrow> r = rel" by simp
    with Cons show ?case by (cases "r = rel") simp_all
  qed simp
  show ?thesis unfolding unpacked_def ms find [OF subset_refl] using listed by (auto simp: content_def simp del: bytes_at.simps)
qed

lemma publish_packageE:
  assumes "publish_package sha guess repr deflated package_name dir header fs = Inr (m, fs', ms)" and "tree_ok fs dir"
  shows "adds_control dir fs fs' \<and> tree_ok fs' dir \<and> build_manifest sha guess fs dir header = Inr m \<and> assert_integrity sha fs dir m = Inr () \<and>
    build_zip deflated fs' dir = Inr ms \<and> verify_zip_members ms package_name = Inr ()"
proof -
  have r: "raised x = Inr a \<longleftrightarrow> x = Inr a" for x :: "exn + 'b" and a by (simp add: raised_def split: sum.splits)
  have dir: "list_all part_ok dir" using assms(2) by (simp add: tree_ok_def real_dir_def)
  have w_case: "(case x of Inl e \<Rightarrow> Inl (if is_value_error e then Package_build_error (exn_text e) else Build_raised e) | Inr r \<Rightarrow> Inr r) = Inr a \<longleftrightarrow> x = Inr a"
    for x :: "exn + 'c" and a by (cases x) auto
  from assms(1) obtain mp fs1 cp u where m: "build_manifest sha guess fs dir header = Inr m" and w: "write_manifest sha repr dir m fs = Inr (mp, fs1)"
    and c: "write_checksums sha dir mp m fs1 = Inr (cp, fs')" and z: "build_zip deflated fs' dir = Inr ms" and v: "verify_zip_members ms package_name = Inr u"
    unfolding publish_package_def bindE_Inr_iff r w_case by (auto simp: bindE_Inr_iff r)
  from w have i: "assert_integrity sha fs dir m = Inr ()" by (auto simp: write_manifest_def bindE_Inr_iff)
  have "adds_control dir fs fs'" using adds_control_trans write_manifest_adds [OF w dir] write_checksums_adds [OF c dir] by blast
  with m i z v assms(2) show ?thesis by (auto simp: adds_control_def simp del: bytes_at.simps)
qed


subsection \<open>Approval\<close>

lemma longest_in: "xs \<noteq> [] \<Longrightarrow> longest xs \<in> set xs"
  by (induction xs rule: longest.induct) (auto simp: Let_def)

lemma longest_candidate:
  assumes "filter P (map fst T) \<noteq> []"
  shows "\<exists>x. map_of T (longest (filter P (map fst T))) = Some x \<and> (longest (filter P (map fst T)), x) \<in> set T \<and> P (longest (filter P (map fst T)))"
proof -
  let ?k = "longest (filter P (map fst T))"
  have k: "?k \<in> set (filter P (map fst T))" by (rule longest_in [OF assms])
  then have "map_of T ?k \<noteq> None" by (auto simp: map_of_eq_None_iff)
  then obtain x where "map_of T ?k = Some x" by blast
  with k show ?thesis by (auto dest: map_of_SomeD)
qed

lemma take_prefix: "prefix k p \<Longrightarrow> n \<le> length k \<Longrightarrow> take n k = take n p"
  by (auto simp: prefix_def)

text \<open>
  C77: What can change the client's site is withheld: every file below the implementation and content folders is entered
  in the manifest with an approval state that starts with \<open>withheld\<close>, whatever its name.
\<close>

theorem deployment_files_withheld:
  assumes "list_all part_ok rel" and "2 \<le> length rel" and "hd rel = IMPLEMENTATION \<or> hd rel = SEO_CONTENT"
  shows "prefix ''withheld'' (snd (entry_profile (payload_name rel)))"
proof -
  have ne: "rel \<noteq> []" using assms(2) by auto
  have parts: "pure_path (payload_name rel) = ([], rel)" by (rule payload_name_parts [OF assms(1) ne])
  obtain top mid where top: "butlast rel = top # mid" "top = hd rel" using assms(2) by (cases rel; cases "tl rel") auto
  let ?parent = "as_posix ([], butlast rel)"
  let ?cands = "filter (\<lambda>key. ?parent = key \<or> prefix (key @ ''/'') ?parent) (map fst FOLDER_PROFILES)"
  have parent: "?parent = top \<or> prefix (top @ ''/'') ?parent"
    using top by (cases mid) (simp_all add: as_posix_def)
  have top_listed: "top \<in> set (map fst FOLDER_PROFILES)" using assms(3) top(2) by (auto simp: FOLDER_PROFILES_def)
  with parent have some: "?cands \<noteq> []" by (auto simp: filter_empty_conv)
  from longest_candidate [OF some] obtain x where x: "map_of FOLDER_PROFILES (longest ?cands) = Some x" "(longest ?cands, x) \<in> set FOLDER_PROFILES"
    "?parent = longest ?cands \<or> prefix (longest ?cands @ ''/'') ?parent" by blast
  define k where "k = longest ?cands"
  note x' = x [folded k_def]
  have table: "list_all (\<lambda>(key, ty, approval). 2 \<le> length key \<and> (take 2 key \<in> {''04'', ''05''} \<longrightarrow> prefix ''withheld'' approval)) FOLDER_PROFILES"
    by code_simp
  from bspec [OF table [unfolded list_all_iff] x'(2)] have len: "2 \<le> length k" and held: "take 2 k \<in> {''04'', ''05''} \<Longrightarrow> prefix ''withheld'' (snd x)"
    by (auto split: prod.splits)
  have "prefix k ?parent" "prefix top ?parent" using x'(3) parent by (auto dest: append_prefixD)
  moreover have "2 \<le> length top" "take 2 top \<in> {''04'', ''05''}" using assms(3) top(2) by (auto simp: IMPLEMENTATION_def SEO_CONTENT_def)
  ultimately have "take 2 k \<in> {''04'', ''05''}" using take_prefix [of k ?parent 2] take_prefix [of top ?parent 2] len by simp
  with held have "prefix ''withheld'' (snd x)" by blast
  moreover have "length (path_parts ([], rel)) \<noteq> 1" using assms(2) by (simp add: path_parts_def)
  ultimately show ?thesis using some x(1) by (simp add: entry_profile_def parts path_parent_def Let_def)
qed

subsection \<open>A small package\<close>

definition demo_dir :: "string list" where
  "demo_dir = [''t'', ''pkg'']"

definition demo_tree :: fsys where
  "demo_tree = [([''t''], Directory), (demo_dir, Directory), (demo_dir @ [''AUDIT_RESULTS.md''], Regular ''a''),
     (demo_dir @ [''07_Slide_Deck''], Directory), (demo_dir @ [''07_Slide_Deck'', ''Deck.pptx''], Regular ''b''),
     (demo_dir @ [''07_Slide_Deck'', ''Deck.pdf''], Regular ''c'')]"

definition demo_header :: package_manifest where
  "demo_header = \<lparr>pm_package = ''pkg'', pm_project = ''p1'', pm_run = ''r1'', pm_rules = ''v1'', pm_generated = ''now'', pm_domains = [''a.com''],
     pm_as_of = None, pm_entries = [], pm_reconciliation = [], pm_limitations = []\<rparr>"

lemma demo_tree_links: "is_link demo_tree q = False"
  by (auto simp: is_link_def demo_tree_def demo_dir_def)

lemma demo_tree_ok: "tree_ok demo_tree demo_dir"
proof -
  have "fs_ok demo_tree" by code_simp
  moreover have "list_all part_ok demo_dir" "demo_dir \<noteq> []" by code_simp+
  ultimately show ?thesis by (simp add: tree_ok_def real_dir_def links_free_iff demo_tree_links)
qed

lemma demo_manifest:
  "case build_manifest (\<lambda>s. s) (\<lambda>n. None) demo_tree demo_dir demo_header of Inl e \<Rightarrow> False
   | Inr m \<Rightarrow> assert_integrity (\<lambda>s. s) demo_tree demo_dir m = Inr () \<and> map en_derivative (pm_entries m) = [Some ''07_Slide_Deck/Deck.pptx'', None, None]"
  by code_simp

fun count_chars :: "int \<Rightarrow> string \<Rightarrow> int" where
  "count_chars n [] = n"
| "count_chars n (x # xs) = count_chars (n + 1) xs"

lemma count_chars_length: "count_chars n xs = n + int (length xs)"
  by (induction xs arbitrary: n) simp_all

definition small_files :: "fsys \<Rightarrow> bool" where
  "small_files fs \<longleftrightarrow> list_all (\<lambda>(p, n). case n of Regular b \<Rightarrow> b \<noteq> [] \<and> count_chars 0 b < 9000 | _ \<Rightarrow> True) fs"

definition demo_sha1 :: "string \<Rightarrow> string" where
  "demo_sha1 s = take 1 s"

definition demo_control :: "build_error + package_manifest \<times> fsys" where
  "demo_control = raised (bindE (build_manifest demo_sha1 (\<lambda>n. None) demo_tree demo_dir demo_header) (\<lambda>m.
     bindE (write_manifest demo_sha1 (\<lambda>q. []) demo_dir m demo_tree) (\<lambda>(mp, fs1).
     bindE (write_checksums demo_sha1 demo_dir mp m fs1) (\<lambda>(cp, fs2). Inr (m, fs2)))))"

lemma demo_control_facts:
  "case demo_control of Inl e \<Rightarrow> False | Inr (m, fs) \<Rightarrow> small_files fs \<and> length (pm_entries m) = 3 \<and>
     map fst fs = [[''t''], demo_dir, demo_dir @ [''AUDIT_RESULTS.md''], demo_dir @ [''07_Slide_Deck''], demo_dir @ [''07_Slide_Deck'', ''Deck.pptx''],
       demo_dir @ [''07_Slide_Deck'', ''Deck.pdf''], demo_dir @ [''06_QA''], demo_dir @ [''06_QA'', ''package-manifest.json''], demo_dir @ [''06_QA'', ''checksums.sha256'']]"
  by code_simp

lemma canonical_of_tree:
  assumes "tree_ok fs dir" and "build_zip deflated fs dir = Inr ms"
  shows "distinct (map canonical ms) \<and> length ms \<le> length (members fs dir) \<and> (\<forall>z \<in> set ms. \<exists>rel \<in> set (members fs dir).
    zm_name z = payload_name (last dir # rel) \<and> bytes_at fs (dir @ rel) = Some (zm_data z) \<and> zm_size z = length (zm_data z) \<and>
    zm_compressed z = deflated (zm_data z) \<and> pure_path (zm_name z) = ([], last dir # rel))"
proof -
  let ?rels = "sort_key payload_name (filter (\<lambda>rel. bytes_at fs (dir @ rel) \<noteq> None) (members fs dir))"
  let ?z = "\<lambda>rel. \<lparr>zm_name = payload_name (last dir # rel), zm_data = content fs dir rel, zm_size = length (content fs dir rel), zm_compressed = deflated (content fs dir rel)\<rparr>"
  have t: "fs_ok fs" "real_dir fs dir" using assms(1) by (simp_all add: tree_ok_def)
  have ms: "ms = map ?z ?rels" using build_zip_tree [OF assms(1), of deflated] assms(2) by simp
  have "part_ok (last dir)" using t(2) by (auto simp: real_dir_def list_all_iff)
  then have path: "pure_path (payload_name (last dir # rel)) = ([], last dir # rel)" if "rel \<in> set (members fs dir)" for rel
    using membersE [OF t(1) that] by (intro payload_name_parts) simp_all
  then have name: "canonical (?z rel) = payload_name (last dir # rel)" if "rel \<in> set (members fs dir)" for rel
    using that by (simp add: canonical_def payload_name_def)
  have rels: "distinct ?rels" "set ?rels \<subseteq> set (members fs dir)" using distinct_members [OF t(1), of dir] by (auto simp: distinct_sort)
  have "inj_on (\<lambda>rel. canonical (?z rel)) (set ?rels)"
    by (rule inj_onI) (metis (no_types, lifting) name path rels(2) in_mono list.inject prod.inject)
  with rels(1) have "distinct (map canonical ms)" by (simp add: ms distinct_map comp_inj_on inj_on_def)
  moreover have "length ms \<le> length (members fs dir)" by (simp add: ms)
  ultimately show ?thesis using path by (auto simp: ms content_def simp del: bytes_at.simps)
qed

lemma fdiv_self: "0 < k \<Longrightarrow> fdiv (of_nat k) (of_nat k) \<le> 1000"
proof -
  assume "0 < k"
  then have "(of_nat k :: rat) / of_nat k = 1" by simp
  moreover have "fl 1 \<le> 1000" by code_simp
  ultimately show ?thesis by (simp add: fdiv_def)
qed

lemma demo_publishE:
  obtains m fs ms where "publish_package demo_sha1 (\<lambda>n. None) (\<lambda>q. []) length ''pkg'' demo_dir demo_header demo_tree = Inr (m, fs, ms)"
    "length (pm_entries m) = 3"
proof -
  obtain m fs where c: "demo_control = Inr (m, fs)" and small: "small_files fs" and n: "length (pm_entries m) = 3"
    and keys: "map fst fs = [[''t''], demo_dir, demo_dir @ [''AUDIT_RESULTS.md''], demo_dir @ [''07_Slide_Deck''], demo_dir @ [''07_Slide_Deck'', ''Deck.pptx''],
       demo_dir @ [''07_Slide_Deck'', ''Deck.pdf''], demo_dir @ [''06_QA''], demo_dir @ [''06_QA'', ''package-manifest.json''], demo_dir @ [''06_QA'', ''checksums.sha256'']]"
    using demo_control_facts by (auto split: sum.splits prod.splits)
  have r: "raised x = Inr a \<longleftrightarrow> x = Inr a" for x :: "exn + 'b" and a by (simp add: raised_def split: sum.splits)
  from c obtain mp fs1 cp where m: "build_manifest demo_sha1 (\<lambda>n. None) demo_tree demo_dir demo_header = Inr m"
    and w: "write_manifest demo_sha1 (\<lambda>q. []) demo_dir m demo_tree = Inr (mp, fs1)" and k: "write_checksums demo_sha1 demo_dir mp m fs1 = Inr (cp, fs)"
    unfolding demo_control_def r by (auto simp: bindE_Inr_iff)
  have "list_all part_ok demo_dir" by code_simp
  then have t: "tree_ok fs demo_dir"
    using adds_control_trans write_manifest_adds [OF w] write_checksums_adds [OF k] demo_tree_ok by (metis adds_control_def)
  obtain ms where z: "build_zip length fs demo_dir = Inr ms" using build_zip_tree [OF t] by blast
  have rels: "members fs demo_dir = [[''AUDIT_RESULTS.md''], [''07_Slide_Deck''], [''07_Slide_Deck'', ''Deck.pptx''], [''07_Slide_Deck'', ''Deck.pdf''], [''06_QA''],
      [''06_QA'', ''package-manifest.json''], [''06_QA'', ''checksums.sha256'']]"
    unfolding members_def keys by code_simp
  have names: "list_all (\<lambda>rel. list_all (\<lambda>p. CHR '':'' \<notin> set p) rel \<and> ''..'' \<notin> set rel \<and> CHR 0x5C \<notin> set (payload_name (''pkg'' # rel)) \<and> CHR 0x00 \<notin> set (payload_name (''pkg'' # rel))) (members fs demo_dir)"
    unfolding rels by code_simp
  have pkg: "last demo_dir = ''pkg''" by (simp add: demo_dir_def)
  note zs = canonical_of_tree [OF t z, unfolded pkg]
  have member: "member_ok ''pkg'' z \<and> zm_size z \<le> 9000" if "z \<in> set ms" for z
  proof -
    from zs that obtain rel where rel: "rel \<in> set (members fs demo_dir)" "zm_name z = payload_name (''pkg'' # rel)" "bytes_at fs (demo_dir @ rel) = Some (zm_data z)"
      "zm_size z = length (zm_data z)" "zm_compressed z = length (zm_data z)" "pure_path (zm_name z) = ([], ''pkg'' # rel)" by blast
    have "(demo_dir @ rel, Regular (zm_data z)) \<in> set fs" using rel(3) by (auto split: option.splits node.splits dest: map_of_SomeD)
    with small have b: "zm_data z \<noteq> []" "length (zm_data z) < 9000" by (auto simp: small_files_def list_all_iff count_chars_length)
    from bspec [OF names [unfolded list_all_iff [of _ "members fs demo_dir"]] rel(1)] rel b fdiv_self [of "length (zm_data z)"] show ?thesis
      by (simp add: member_ok_def is_absolute_def path_parts_def)
  qed
  have "sum_list (map zm_size ms) \<le> sum_list (map (\<lambda>z. 9000) ms)" using member by (intro sum_list_mono) blast
  also have "\<dots> \<le> 7 * 9000" using zs by (simp add: rels sum_list_triv)
  finally have "verify_zip_members ms ''pkg'' = Inr ()" unfolding archive_passes_iff using zs member by (simp add: list_all_iff)
  with m w k z have "publish_package demo_sha1 (\<lambda>n. None) (\<lambda>q. []) length ''pkg'' demo_dir demo_header demo_tree = Inr (m, fs, ms)"
    by (simp add: publish_package_def raised_def)
  with n show ?thesis by (intro that)
qed


lemma archive_check_exact_witness:
  "verify_zip_members [\<lparr>zm_name = ''pkg/a'', zm_data = ''x'', zm_size = 1, zm_compressed = 1\<rparr>] ''pkg'' = Inr () \<and>
   verify_zip_members [\<lparr>zm_name = ''pkg/../a'', zm_data = ''x'', zm_size = 1, zm_compressed = 1\<rparr>] ''pkg'' \<noteq> Inr ()"
  unfolding archive_check_exact by code_simp



lemma deployment_files_withheld_witness:
  "prefix ''withheld'' (snd (entry_profile (payload_name [IMPLEMENTATION, ''Technical_Fixes'', ''Redirect_Map.csv''])))"
proof -
  have "list_all part_ok [IMPLEMENTATION, ''Technical_Fixes'', ''Redirect_Map.csv'']" by code_simp
  from deployment_files_withheld [OF this] show ?thesis by simp
qed

end
