(* ===== verification/Py_Regex.thy ===== *)
theory Py_Regex
  imports Py_Text
begin

text \<open>
  The part of \<open>re\<close> that the quality checks use: character classes, greedy repetition of a class, sequence,
  alternative, option and the word boundary. A position is the character before it and the text after it;
  \<open>ends\<close> lists the positions where a match may end, in the order the backtracking matcher tries them.
\<close>

datatype rx = Class "char \<Rightarrow> bool" | Many nat "char \<Rightarrow> bool" | Seq rx rx | Alt rx rx | Opt rx | Boundary

type_synonym position = "char option \<times> string"

definition word_char :: "char \<Rightarrow> bool" where
  "word_char c \<longleftrightarrow> alnum_char c \<or> c = CHR ''_''"

definition any_case :: "(char \<Rightarrow> bool) \<Rightarrow> char \<Rightarrow> bool" where
  "any_case P c \<longleftrightarrow> P (to_lower c) \<or> P (to_upper c)"

fun steps_over :: "(char \<Rightarrow> bool) \<Rightarrow> position \<Rightarrow> position list" where
  "steps_over P (p, []) = []"
| "steps_over P (p, c # s) = (if P c then [(Some c, s)] else [])"

fun greedy :: "(char \<Rightarrow> bool) \<Rightarrow> char option \<Rightarrow> string \<Rightarrow> position list" where
  "greedy P p [] = [(p, [])]"
| "greedy P p (c # s) = (if P c then greedy P (Some c) s @ [(p, c # s)] else [(p, c # s)])"

fun at_least :: "nat \<Rightarrow> (char \<Rightarrow> bool) \<Rightarrow> position \<Rightarrow> position list" where
  "at_least 0 P st = greedy P (fst st) (snd st)"
| "at_least (Suc n) P st = concat (map (at_least n P) (steps_over P st))"

fun ends :: "rx \<Rightarrow> position \<Rightarrow> position list" where
  "ends (Class P) st = steps_over P st"
| "ends (Many n P) st = at_least n P st"
| "ends (Seq a b) st = concat (map (ends b) (ends a st))"
| "ends (Alt a b) st = ends a st @ ends b st"
| "ends (Opt a) st = ends a st @ [st]"
| "ends Boundary st =
     (if opt_any word_char (fst st) \<noteq> (snd st \<noteq> [] \<and> word_char (hd (snd st))) then [st] else [])"

text \<open>\<open>pattern.search(text)\<close> as a truth value.\<close>

fun search_from :: "rx \<Rightarrow> char option \<Rightarrow> string \<Rightarrow> bool" where
  "search_from r p [] = (ends r (p, []) \<noteq> [])"
| "search_from r p (c # s) = (ends r (p, c # s) \<noteq> [] \<or> search_from r (Some c) s)"

definition search :: "rx \<Rightarrow> string \<Rightarrow> bool" where
  "search r s = search_from r None s"

text \<open>\<open>pattern.findall(text)\<close> for a pattern without groups that never matches the empty string.\<close>

function findall_from :: "rx \<Rightarrow> char option \<Rightarrow> string \<Rightarrow> string list" where
  "findall_from r p s =
     (case ends r (p, s) of
        [] \<Rightarrow> (case s of [] \<Rightarrow> [] | c # s' \<Rightarrow> findall_from r (Some c) s')
      | e # es \<Rightarrow>
          if length (snd e) < length s then take (length s - length (snd e)) s # findall_from r (fst e) (snd e)
          else case s of [] \<Rightarrow> [] | c # s' \<Rightarrow> findall_from r (Some c) s')"
  by pat_completeness auto
termination by (relation "measure (\<lambda>(r, p, s). length s)") auto

declare findall_from.simps [simp del]

definition findall :: "rx \<Rightarrow> string \<Rightarrow> string list" where
  "findall r s = findall_from r None s"

text \<open>A literal text, in any case.\<close>

fun literal :: "string \<Rightarrow> rx" where
  "literal [] = Many 0 (\<lambda>_. False)"
| "literal [c] = Class (any_case (\<lambda>x. x = c))"
| "literal (c # s) = Seq (Class (any_case (\<lambda>x. x = c))) (literal s)"

fun alternatives :: "rx list \<Rightarrow> rx" where
  "alternatives [] = Class (\<lambda>_. False)"
| "alternatives [r] = r"
| "alternatives (r # rs) = Alt r (alternatives rs)"

subsection \<open>Facts\<close>

lemma greedy_nonempty [simp]: "greedy P p s \<noteq> []"
  by (cases s) auto

lemma hd_greedy: "hd (greedy P p s) = (if takeWhile P s = [] then p else Some (last (takeWhile P s)), dropWhile P s)"
  by (induction P p s rule: greedy.induct) auto

lemma in_steps_over: "e \<in> set (steps_over P st) \<longleftrightarrow> (\<exists>c s. snd st = c # s \<and> P c \<and> e = (Some c, s))"
  by (cases st; cases "snd st") auto

lemma literal_any_case:
  "w \<noteq> [] \<Longrightarrow> ends (literal w) (p, s) =
     (if length w \<le> length s \<and> list_all2 (\<lambda>x c. any_case (\<lambda>y. y = x) c) w (take (length w) s)
      then [(Some (s ! (length w - 1)), drop (length w) s)] else [])"
proof (induction w arbitrary: p s rule: literal.induct)
  case (2 c)
  then show ?case by (cases s) auto
next
  case (3 c d w)
  then show ?case by (cases s) auto
qed simp

declare literal.simps [simp del]

lemma search_iff: "search_from r p s \<longleftrightarrow> (\<exists>a b. s = a @ b \<and> ends r (if a = [] then p else Some (last a), b) \<noteq> [])"
proof (induction s arbitrary: p)
  case (Cons c s)
  show ?case
  proof
    assume "search_from r p (c # s)"
    then consider "ends r (p, c # s) \<noteq> []" | "search_from r (Some c) s" by auto
    then show "\<exists>a b. c # s = a @ b \<and> ends r (if a = [] then p else Some (last a), b) \<noteq> []"
    proof cases
      case 1
      then show ?thesis by (intro exI [of _ "[]"] exI [of _ "c # s"]) simp
    next
      case 2
      with Cons.IH [of "Some c"] obtain a b where "s = a @ b" "ends r (if a = [] then Some c else Some (last a), b) \<noteq> []" by blast
      then show ?thesis by (intro exI [of _ "c # a"] exI [of _ b]) (auto split: if_splits)
    qed
  next
    assume "\<exists>a b. c # s = a @ b \<and> ends r (if a = [] then p else Some (last a), b) \<noteq> []"
    then obtain a b where ab: "c # s = a @ b" "ends r (if a = [] then p else Some (last a), b) \<noteq> []" by blast
    show "search_from r p (c # s)"
    proof (cases a)
      case Nil
      with ab have "b = c # s" "ends r (p, c # s) \<noteq> []" by simp_all
      then show ?thesis by simp
    next
      case (Cons d a')
      with ab have "s = a' @ b" "ends r (if a' = [] then Some c else Some (last a'), b) \<noteq> []" by (auto split: if_splits)
      with Cons.IH [of "Some c"] have "search_from r (Some c) s" by blast
      then show ?thesis by simp
    qed
  qed
qed simp

end
