(* ===== verification/Generation_Contracts.thy ===== *)
theory Generation_Contracts
  imports Py_Json_Text Urls
begin

text \<open>
  \<open>generation/schemas.py\<close>, the schemas of \<open>generation/package_prompts.py\<close> and the schema check of
  \<open>generation/openai_boundary.py\<close>. A schema is the JSON value the code holds; its keywords carry the types of
  JSON schema. A mapping is an association list with distinct keys.
\<close>

subsection \<open>Fact packs\<close>

record fact_pack =
  fp_project :: string
  fp_domains :: "string list"
  fp_facts :: "verified_fact list"
  fp_evidence :: "string list"
  fp_statuses :: "(string \<times> int option) list"
  fp_unavailable :: "(string \<times> string) list"

definition check_evidence :: "string list \<Rightarrow> verified_fact \<Rightarrow> exn + unit" where
  "check_evidence available f =
     (if set (vf_evidence_ids f) \<subseteq> set available then Inr ()
      else Inl (ContractError (''Fact '' @ vf_key f @ '' references unavailable evidence'')))"

definition add_status :: "string list \<Rightarrow> (string \<times> int option) list \<Rightarrow> string \<times> int option \<Rightarrow> exn + (string \<times> int option) list" where
  "add_status domains seen us =
     bindE (require_allowed_url domains (fst us)) (\<lambda>normalized.
     if opt_any (\<lambda>s. \<not> (100 \<le> s \<and> s \<le> 599)) (snd us) then Inl (ContractError ''Known URL status must be a valid HTTP status'')
     else Inr (AList.update normalized (snd us) seen))"

definition make_fact_pack :: "fact_pack \<Rightarrow> exn + fact_pack" where
  "make_fact_pack p =
     (if fp_domains p = [] then Inl (ContractError ''Fact pack requires at least one approved domain'')
      else bindE (mapE canonical_host (fp_domains p)) (\<lambda>domains.
        if \<not> distinct (map vf_key (fp_facts p)) then Inl (ContractError ''Fact keys must be unique'')
        else bindE (mapE (check_evidence (fp_evidence p)) (fp_facts p)) (\<lambda>_.
          bindE (foldE (add_status domains) [] (fp_statuses p)) (\<lambda>statuses.
          if list_ex (\<lambda>kr. strip (fst kr) = [] \<or> strip (snd kr) = []) (fp_unavailable p)
          then Inl (ContractError ''Unavailable sources require a source name and reason'')
          else Inr (p\<lparr>fp_domains := domains, fp_statuses := statuses\<rparr>)))))"

text \<open>The dictionary of the facts by key: a later fact replaces an earlier one.\<close>

definition fact_at :: "fact_pack \<Rightarrow> string \<Rightarrow> verified_fact option" where
  "fact_at p k = find (\<lambda>f. vf_key f = k) (rev (fp_facts p))"

text \<open>\<open>isoformat\<close> of a fact's time, in UTC.\<close>

fun time_text :: "timestamp \<Rightarrow> string" where
  "time_text (Aware t) = isoformat t"
| "time_text (Naive t) = take (length (isoformat t) - 6) (isoformat t)"

definition fact_json :: "verified_fact \<Rightarrow> json" where
  "fact_json f = JObj [(''key'', JStr (vf_key f)), (''value'', vf_value f), (''evidence_ids'', JList (map JStr (vf_evidence_ids f))),
     (''as_of'', JStr (time_text (vf_as_of f)))]"

definition status_json :: "int option \<Rightarrow> json" where
  "status_json s = (case s of None \<Rightarrow> JNull | Some n \<Rightarrow> JInt n)"

definition as_untrusted_payload :: "fact_pack \<Rightarrow> json" where
  "as_untrusted_payload p = JObj
     [(''project_id'', JStr (fp_project p)), (''approved_domains'', JList (map JStr (fp_domains p))),
      (''facts'', JList (map fact_json (fp_facts p))), (''known_url_statuses'', JObj (map (map_prod id status_json) (fp_statuses p))),
      (''unavailable_sources'', JObj (map (map_prod id JStr) (fp_unavailable p)))]"

definition pack_text :: "(rat \<Rightarrow> string) \<Rightarrow> fact_pack \<Rightarrow> exn + string" where
  "pack_text repr p = canonical_json repr (as_untrusted_payload p)"

subsection \<open>Schema check\<close>

definition keyword :: "json \<Rightarrow> string \<Rightarrow> json option" where
  "keyword schema k = (case schema of JObj kvs \<Rightarrow> map_of kvs k | _ \<Rightarrow> None)"

definition int_keyword :: "json \<Rightarrow> string \<Rightarrow> int \<Rightarrow> int" where
  "int_keyword schema k d = (case keyword schema k of Some (JInt n) \<Rightarrow> n | _ \<Rightarrow> d)"

definition list_keyword :: "json \<Rightarrow> string \<Rightarrow> json list" where
  "list_keyword schema k = (case keyword schema k of Some (JList xs) \<Rightarrow> xs | _ \<Rightarrow> [])"

definition pairs_keyword :: "json \<Rightarrow> string \<Rightarrow> (string \<times> json) list" where
  "pairs_keyword schema k = (case keyword schema k of Some (JObj kvs) \<Rightarrow> kvs | _ \<Rightarrow> [])"

definition expected_type :: "json \<Rightarrow> string option" where
  "expected_type schema = (case keyword schema ''type'' of Some (JStr t) \<Rightarrow> Some t | _ \<Rightarrow> None)"

definition check_text :: "string \<Rightarrow> json \<Rightarrow> string \<Rightarrow> exn + unit" where
  "check_text value schema path = raise_first
     [(int (length value) < int_keyword schema ''minLength'' 0 \<or> int_keyword schema ''maxLength'' (10 ^ 9) < int (length value),
       ValueError (path @ '' has an invalid text length'')),
      (keyword schema ''enum'' \<noteq> None \<and> JStr value \<notin> set (list_keyword schema ''enum''), ValueError (path @ '' has an unsupported value'')),
      (keyword schema ''format'' = Some (JStr ''uuid'') \<and> \<not> is_uuid value, ValueError (path @ '' must be a UUID''))]"

fun is_integer :: "json \<Rightarrow> bool" where
  "is_integer (JInt i) = True"
| "is_integer j = False"

fun is_number :: "json \<Rightarrow> bool" where
  "is_number (JInt i) = True"
| "is_number (JNum q) = True"
| "is_number JNonFinite = True"
| "is_number j = False"

definition check_leaf :: "json \<Rightarrow> json \<Rightarrow> string \<Rightarrow> string \<Rightarrow> exn + unit" where
  "check_leaf v schema path t =
     (if t = ''string'' then (case v of JStr s \<Rightarrow> check_text s schema path | _ \<Rightarrow> Inl (ValueError (path @ '' must be text'')))
      else raise_first
        [(t = ''number'' \<and> \<not> is_number v, ValueError (path @ '' must be a number'')),
         (t = ''integer'' \<and> \<not> is_integer v, ValueError (path @ '' must be an integer'')),
         (t = ''boolean'' \<and> v \<noteq> JBool True \<and> v \<noteq> JBool False, ValueError (path @ '' must be a boolean'')),
         (t = ''null'' \<and> v \<noteq> JNull, ValueError (path @ '' must be null''))])"

definition check_object :: "(string \<times> json) list \<Rightarrow> json \<Rightarrow> string \<Rightarrow> exn + unit" where
  "check_object kvs schema path = raise_first
     [(\<not> list_all (\<lambda>r. r \<in> JStr ` set (map fst kvs)) (list_keyword schema ''required''), ValueError (path @ '' is missing required fields'')),
      (keyword schema ''additionalProperties'' = Some (JBool False) \<and> \<not> set (map fst kvs) \<subseteq> set (map fst (pairs_keyword schema ''properties'')),
       ValueError (path @ '' contains unexpected fields''))]"

definition check_array :: "(rat \<Rightarrow> string) \<Rightarrow> json list \<Rightarrow> json \<Rightarrow> string \<Rightarrow> exn + unit" where
  "check_array repr xs schema path =
     (if int (length xs) < int_keyword schema ''minItems'' 0 \<or> int_keyword schema ''maxItems'' (10 ^ 9) < int (length xs)
      then Inl (ValueError (path @ '' has an invalid item count''))
      else if opt_any (\<lambda>u. \<not> json_falsy u) (keyword schema ''uniqueItems'')
      then bindE (mapE (canonical_json repr) xs) (\<lambda>texts.
        if distinct texts then Inr () else Inl (ValueError (path @ '' must contain unique items'')))
      else Inr ())"

fun validate_schema :: "(rat \<Rightarrow> string) \<Rightarrow> json \<Rightarrow> json \<Rightarrow> string \<Rightarrow> exn + unit" and
  validate_fields :: "(rat \<Rightarrow> string) \<Rightarrow> (string \<times> json) list \<Rightarrow> (string \<times> json) list \<Rightarrow> string \<Rightarrow> exn + unit" and
  validate_items :: "(rat \<Rightarrow> string) \<Rightarrow> json list \<Rightarrow> json \<Rightarrow> string \<Rightarrow> nat \<Rightarrow> exn + unit" where
  "validate_schema repr v schema path =
     (case expected_type schema of
        None \<Rightarrow> Inr ()
      | Some t \<Rightarrow>
          if t = ''object'' then (case v of
            JObj kvs \<Rightarrow> bindE (check_object kvs schema path) (\<lambda>_. validate_fields repr kvs (pairs_keyword schema ''properties'') path)
          | _ \<Rightarrow> Inl (ValueError (path @ '' must be an object'')))
          else if t = ''array'' then (case v of
            JList xs \<Rightarrow> bindE (check_array repr xs schema path) (\<lambda>_.
              validate_items repr xs (opt_or (JObj []) (keyword schema ''items'')) path 0)
          | _ \<Rightarrow> Inl (ValueError (path @ '' must be an array'')))
          else check_leaf v schema path t)"
| "validate_fields repr [] properties path = Inr ()"
| "validate_fields repr ((k, x) # kvs) properties path =
     bindE (case map_of properties k of None \<Rightarrow> Inr () | Some child \<Rightarrow> validate_schema repr x child (path @ ''.'' @ k))
       (\<lambda>_. validate_fields repr kvs properties path)"
| "validate_items repr [] schema path i = Inr ()"
| "validate_items repr (x # xs) schema path i =
     bindE (validate_schema repr x schema (path @ ''['' @ str_of_nat i @ '']'')) (\<lambda>_. validate_items repr xs schema path (i + 1))"

declare validate_schema.simps [simp del]

subsection \<open>The schemas\<close>

definition strict_object :: "(string \<times> json) list \<Rightarrow> json" where
  "strict_object properties = JObj [(''type'', JStr ''object''), (''additionalProperties'', JBool False),
     (''required'', JList (map (\<lambda>kj. JStr (fst kj)) properties)), (''properties'', JObj properties)]"

definition array_of :: "(string \<times> json) list \<Rightarrow> json \<Rightarrow> json" where
  "array_of limits items = JObj ((''type'', JStr ''array'') # limits @ [(''items'', items)])"

definition size_limits :: "int \<Rightarrow> int \<Rightarrow> (string \<times> json) list" where
  "size_limits lo hi = [(''minItems'', JInt lo), (''maxItems'', JInt hi)]"

definition text_between :: "int \<Rightarrow> int \<Rightarrow> json" where
  "text_between lo hi = JObj [(''type'', JStr ''string''), (''minLength'', JInt lo), (''maxLength'', JInt hi)]"

definition text_upto :: "int \<Rightarrow> json" where
  "text_upto hi = JObj [(''type'', JStr ''string''), (''maxLength'', JInt hi)]"

definition uuid_text :: json where
  "uuid_text = JObj [(''type'', JStr ''string''), (''format'', JStr ''uuid'')]"

definition claim_schema :: "(string \<times> json) list \<Rightarrow> json" where
  "claim_schema limits = strict_object [(''text'', text_between 1 2000), (''fact_keys'', array_of limits (text_between 1 255)),
     (''evidence_ids'', array_of limits uuid_text)]"

definition unique_references :: "(string \<times> json) list" where
  "unique_references = [(''minItems'', JInt 1), (''uniqueItems'', JBool True)]"

definition STRATEGY_SCHEMA :: json where
  "STRATEGY_SCHEMA = strict_object
     [(''title'', text_between 1 200), (''executive_summary'', text_between 1 5000),
      (''recommendations'', array_of [(''maxItems'', JInt 100)] (strict_object
         [(''title'', text_between 1 300), (''rationale'', text_between 1 4000), (''implementation'', text_between 1 10000),
          (''evidence_ids'', array_of unique_references uuid_text),
          (''risk'', JObj [(''type'', JStr ''string''), (''enum'', JList (map JStr [''low'', ''moderate'', ''high'', ''dangerous'']))])])),
      (''claims'', array_of [(''maxItems'', JInt 500)] (claim_schema unique_references)),
      (''unavailable_items'', array_of [(''maxItems'', JInt 100)]
         (strict_object [(''source'', text_between 1 100), (''reason'', text_between 1 500)]))]"

definition TITLE_MAX_CHARS :: nat where "TITLE_MAX_CHARS = 60"
definition META_MIN_CHARS :: nat where "META_MIN_CHARS = 70"
definition META_MAX_CHARS :: nat where "META_MAX_CHARS = 158"
definition H1_MAX_CHARS :: nat where "H1_MAX_CHARS = 70"

definition CLAIMS_SCHEMA :: json where
  "CLAIMS_SCHEMA = array_of (size_limits 1 200) (claim_schema (size_limits 1 40))"

definition ONPAGE_PROPOSAL_SCHEMA :: json where
  "ONPAGE_PROPOSAL_SCHEMA = strict_object
     [(''proposals'', array_of (size_limits 1 25) (strict_object
         [(''page_id'', text_between 1 20), (''proposed_title'', text_upto (int TITLE_MAX_CHARS)),
          (''proposed_meta_description'', text_upto (int META_MAX_CHARS)), (''proposed_h1'', text_upto (int H1_MAX_CHARS)),
          (''rationale'', text_between 1 400)])),
      (''claims'', CLAIMS_SCHEMA)]"

definition CONTENT_OUTLINE_SCHEMA :: json where
  "CONTENT_OUTLINE_SCHEMA = strict_object
     [(''outlines'', array_of (size_limits 1 24) (strict_object
         [(''asset_id'', text_between 1 20), (''intent_summary'', text_between 1 600),
          (''sections'', array_of (size_limits 3 8) (strict_object [(''heading'', text_between 1 120), (''guidance'', text_between 1 800)]))])),
      (''claims'', CLAIMS_SCHEMA)]"

definition ENRICHMENT_SCHEMA :: json where
  "ENRICHMENT_SCHEMA = strict_object
     [(''executive_summary'', text_between 1 2000),
      (''strategy_synthesis'', strict_object [(''title'', text_between 1 200), (''paragraphs'', array_of (size_limits 1 6) (text_between 1 2000))]),
      (''deck_calls_to_action'', array_of [(''maxItems'', JInt 3)] (text_between 1 200)),
      (''claims'', array_of [(''maxItems'', JInt 100)] (claim_schema [(''minItems'', JInt 1)]))]"

end
