(* ===== verification/Generation_Quality.thy ===== *)
theory Generation_Quality
  imports Generation_Contracts Py_Regex Py_Float
begin

text \<open>
  \<open>generation/quality.py\<close>: the deterministic checks of generated documents. A document is a mapping, hence the list of
  its fields. \<open>float.__repr__\<close> is a parameter of the comparison of documents.
\<close>

type_synonym doc = "(string \<times> json) list"

record quality_issue =
  qi_code :: string
  qi_severity :: severity
  qi_message :: string
  qi_locations :: "string list"

definition issue_at :: "string \<Rightarrow> severity \<Rightarrow> string \<Rightarrow> string \<Rightarrow> quality_issue" where
  "issue_at kind sev message path = \<lparr>qi_code = kind, qi_severity = sev, qi_message = message, qi_locations = [path]\<rparr>"

text \<open>The string leaves with their paths, in the order of the document.\<close>

fun walk_strings :: "json \<Rightarrow> string \<Rightarrow> (string \<times> string) list" and
  walk_items :: "json list \<Rightarrow> string \<Rightarrow> nat \<Rightarrow> (string \<times> string) list" and
  walk_fields :: "(string \<times> json) list \<Rightarrow> string \<Rightarrow> (string \<times> string) list" where
  "walk_strings (JStr s) path = [(path, s)]"
| "walk_strings (JObj kvs) path = walk_fields kvs path"
| "walk_strings (JList xs) path = walk_items xs path 0"
| "walk_strings v path = []"
| "walk_items [] path i = []"
| "walk_items (x # xs) path i = walk_strings x (path @ ''['' @ str_of_nat i @ '']'') @ walk_items xs path (i + 1)"
| "walk_fields [] path = []"
| "walk_fields ((k, x) # kvs) path = walk_strings x (path @ ''.'' @ k) @ walk_fields kvs path"

definition leaves :: "doc \<Rightarrow> (string \<times> string) list" where
  "leaves d = walk_strings (JObj d) ''$''"

subsection \<open>Claims\<close>

text \<open>A list or mapping cannot be an element of a set; a set of one type of keys can be sorted.\<close>

fun hashable :: "json \<Rightarrow> bool" where
  "hashable (JList xs) = False"
| "hashable (JObj kvs) = False"
| "hashable j = True"

fun is_real :: "json \<Rightarrow> bool" where
  "is_real (JBool b) = True"
| "is_real j = is_number j"

fun is_text :: "json \<Rightarrow> bool" where
  "is_text (JStr s) = True"
| "is_text j = False"

definition sortable :: "json list \<Rightarrow> bool" where
  "sortable xs \<longleftrightarrow> list_all is_text xs \<or> list_all is_real xs \<or> list_all (\<lambda>x. x = hd xs) xs"

definition reference_list :: "json option \<Rightarrow> json list option" where
  "reference_list v = (case v of Some (JList (x # xs)) \<Rightarrow> Some (x # xs) | _ \<Rightarrow> None)"

definition known_text :: "string list \<Rightarrow> json \<Rightarrow> bool" where
  "known_text known v = (case v of JStr s \<Rightarrow> s \<in> set known | _ \<Rightarrow> False)"

definition fact_of_key :: "fact_pack \<Rightarrow> json \<Rightarrow> verified_fact option" where
  "fact_of_key p v = (case v of JStr k \<Rightarrow> fact_at p k | _ \<Rightarrow> None)"

definition reconcile_claim :: "fact_pack \<Rightarrow> string \<Rightarrow> json list \<Rightarrow> json list \<Rightarrow> exn + quality_issue list" where
  "reconcile_claim p path fact_keys evidence_ids =
     (let unknown_facts = filter (\<lambda>k. fact_of_key p k = None) fact_keys;
          unknown_evidence = filter (\<lambda>e. \<not> known_text (fp_evidence p) e) evidence_ids;
          expected = concat (map (\<lambda>k. case fact_of_key p k of None \<Rightarrow> [] | Some f \<Rightarrow> vf_evidence_ids f) fact_keys)
      in if \<not> (list_all hashable fact_keys \<and> sortable unknown_facts \<and> list_all hashable evidence_ids \<and> sortable unknown_evidence)
         then Inl (OtherError ''TypeError'' ''claim references are not comparable texts'')
         else Inr ((if unknown_facts = [] then [] else
             [issue_at ''claim_unknown_fact'' Sev_high ''Claim references a fact outside the approved fact pack.'' path]) @
           (if unknown_evidence = [] \<and> list_all (\<lambda>e. JStr e \<in> set evidence_ids) expected then [] else
             [issue_at ''claim_bad_evidence'' Sev_high ''Claim evidence does not reconcile with approved facts.'' path])))"

definition check_claim :: "fact_pack \<Rightarrow> nat \<times> json \<Rightarrow> exn + quality_issue list" where
  "check_claim p ic =
     (let path = ''$.claims['' @ str_of_nat (fst ic) @ '']'' in
      case snd ic of
        JObj claim \<Rightarrow> (case (reference_list (map_of claim ''fact_keys''), reference_list (map_of claim ''evidence_ids'')) of
          (Some fact_keys, Some evidence_ids) \<Rightarrow> reconcile_claim p path fact_keys evidence_ids
        | _ \<Rightarrow> Inr [issue_at ''claim_unsubstantiated'' Sev_high ''Claim lacks fact and evidence references.'' path])
      | _ \<Rightarrow> Inr [issue_at ''claim_invalid'' Sev_high ''Claim ledger entry is malformed.'' path])"

definition validate_claims :: "doc \<Rightarrow> fact_pack \<Rightarrow> exn + quality_issue list" where
  "validate_claims d p =
     (case map_of d ''claims'' of
        Some (JList claims) \<Rightarrow> mapR concat (mapE (check_claim p) (enumerate 0 claims))
      | _ \<Rightarrow> Inr [\<lparr>qi_code = ''claim_ledger_missing'', qi_severity = Sev_high,
          qi_message = ''Document has no valid claim ledger.'', qi_locations = []\<rparr>])"

subsection \<open>Links\<close>

definition url_char :: "char \<Rightarrow> bool" where
  "url_char c \<longleftrightarrow> \<not> ws_char c \<and> c \<notin> {CHR ''<'', CHR ''>'', CHR 0x27, CHR 0x22, CHR '']'', CHR ''['', CHR '')''}"

definition URL_PATTERN :: rx where
  "URL_PATTERN = Seq (literal ''http'') (Seq (Opt (literal ''s'')) (Seq (literal ''://'') (Many 1 url_char)))"

definition url_trail :: "char \<Rightarrow> bool" where
  "url_trail c \<longleftrightarrow> c \<in> set ''.,;:!?''"

text \<open>The check of one address: the issues so far with the (kind, address) pairs they were raised for.\<close>

definition emit :: "string \<Rightarrow> severity \<Rightarrow> string \<Rightarrow> string \<Rightarrow> string \<Rightarrow> (string \<times> string) list \<times> quality_issue list \<Rightarrow>
    (string \<times> string) list \<times> quality_issue list" where
  "emit kind sev message path url st =
     (if (kind, url) \<in> set (fst st) then st else ((kind, url) # fst st, snd st @ [issue_at kind sev message path]))"

definition check_link :: "fact_pack \<Rightarrow> (string \<times> string) list \<times> quality_issue list \<Rightarrow> string \<times> string \<Rightarrow>
    exn + (string \<times> string) list \<times> quality_issue list" where
  "check_link p st pu =
     (let path = fst pu; raw = rstrip_of url_trail (snd pu) in
      tryE is_url_error (require_allowed_url (fp_domains p) raw)
        (\<lambda>_. Inr (emit ''wrong_domain'' Sev_high ''Generated URL is malformed or outside approved domains.'' path raw st))
        (\<lambda>normalized. Inr (case map_of (fp_statuses p) normalized of
            None \<Rightarrow> emit ''unknown_link'' Sev_medium ''Generated internal URL was not verified in the evidence snapshot.'' path normalized st
          | Some status \<Rightarrow> if status = None \<or> opt_any (\<lambda>s. 400 \<le> s) status
              then emit ''broken_link'' Sev_high ''Generated internal URL is unavailable or returned an error in the evidence snapshot.'' path normalized st
              else st)))"

definition links_of :: "doc \<Rightarrow> (string \<times> string) list" where
  "links_of d = concat (map (\<lambda>(path, text). map (Pair path) (findall URL_PATTERN text)) (leaves d))"

definition validate_domains_and_links :: "doc \<Rightarrow> fact_pack \<Rightarrow> exn + quality_issue list" where
  "validate_domains_and_links d p = mapR snd (foldE (check_link p) ([], []) (links_of d))"

subsection \<open>Placeholders\<close>

definition brace :: "char \<Rightarrow> bool" where
  "brace c \<longleftrightarrow> c = CHR ''{'' \<or> c = CHR ''}''"

definition PLACEHOLDER_PATTERN :: rx where
  "PLACEHOLDER_PATTERN = alternatives
     [Seq (literal ''{{'') (Seq (Many 1 (\<lambda>c. \<not> brace c)) (literal ''}}'')),
      Seq (literal ''['') (Seq (Class (any_case upper_char))
        (Seq (Many 2 (any_case (\<lambda>c. upper_char c \<or> digit_char c \<or> c \<in> set ''_ -''))) (literal '']''))),
      Seq Boundary (Seq (alternatives [literal ''TODO'', literal ''TBD'', literal ''PLACEHOLDER'', literal ''PRODUCT_NAME'',
        Seq (literal ''INSERT_'') (Many 1 (any_case (\<lambda>c. upper_char c \<or> c = CHR ''_'')))]) Boundary)]"

definition validate_placeholders :: "doc \<Rightarrow> quality_issue list" where
  "validate_placeholders d =
     map (\<lambda>pt. issue_at ''placeholder'' Sev_high ''Generated content contains an unresolved placeholder.'' (fst pt))
       (filter (\<lambda>pt. search PLACEHOLDER_PATTERN (snd pt)) (leaves d))"

subsection \<open>Similarity\<close>

definition WORD_PATTERN :: rx where
  "WORD_PATTERN = (let w = any_case (\<lambda>c. lower_char c \<or> digit_char c) in
     Seq (Many 1 w) (Opt (Seq (Class (\<lambda>c. c = CHR 0x27 \<or> c = CHR ''-'')) (Many 1 w))))"

definition ngrams :: "string \<Rightarrow> nat \<Rightarrow> string list list" where
  "ngrams s n = (let words = map casefold (findall WORD_PATTERN s) in
     fromkeys (map (\<lambda>i. take n (drop i words)) [0..<length words + 1 - n]))"

definition similarity_score :: "string \<Rightarrow> string \<Rightarrow> rat" where
  "similarity_score left right =
     (let a = ngrams left 5; b = ngrams right 5 in
      if a = [] \<and> b = [] then (if strip left = strip right then 1 else 0)
      else fdiv (of_nat (length (filter (\<lambda>g. g \<in> set b) a))) (of_nat (length (fromkeys (a @ b)))))"

definition SIMILARITY_THRESHOLD :: rat where
  "SIMILARITY_THRESHOLD = fl (82 / 100)"

definition document_text :: "(rat \<Rightarrow> string) \<Rightarrow> doc \<Rightarrow> exn + string" where
  "document_text repr d = write_json (plain_style repr) (sort_keys (JObj d))"

definition compare_to :: "(rat \<Rightarrow> string) \<Rightarrow> rat \<Rightarrow> string \<Rightarrow> string \<times> doc \<Rightarrow> exn + quality_issue list" where
  "compare_to repr threshold candidate other = bindE (document_text repr (snd other)) (\<lambda>text.
     let score = similarity_score candidate text in
     Inr (if threshold \<le> score
       then [issue_at ''near_duplicate'' Sev_high
         (''Generated content is too similar to approved asset '' @ fst other @ '' ('' @ fmt_pct 1 score @ '').'') (fst other)]
       else []))"

definition validate_similarity :: "(rat \<Rightarrow> string) \<Rightarrow> rat \<Rightarrow> doc \<Rightarrow> (string \<times> doc) list \<Rightarrow> exn + quality_issue list" where
  "validate_similarity repr threshold d comparisons =
     (if \<not> (0 < threshold \<and> threshold \<le> 1) then Inl (ValueError ''Similarity threshold must be between zero and one'')
      else bindE (document_text repr d) (\<lambda>candidate. mapR concat (mapE (compare_to repr threshold candidate) comparisons)))"

subsection \<open>Sensitive schema claims\<close>

definition REQUIRED_KEY_FRAGMENTS :: "(string \<times> string) list" where
  "REQUIRED_KEY_FRAGMENTS = [(''aggregaterating'', ''aggregate_rating''), (''ratingvalue'', ''rating_value''), (''reviewcount'', ''review_count'')]"

definition rating_issues :: "string list \<Rightarrow> string \<Rightarrow> string \<Rightarrow> quality_issue list" where
  "rating_issues facts path k =
     (let folded = casefold (filter (\<lambda>c. c \<noteq> CHR ''_'') k) in
      map (\<lambda>_. issue_at ''unsupported_rating'' Sev_high ''Rating or review schema is not supported by an approved fact.'' (path @ ''.'' @ k))
        (filter (\<lambda>(fragment, expected). contains fragment folded \<and> \<not> list_ex (\<lambda>f. contains expected (casefold f)) facts)
          REQUIRED_KEY_FRAGMENTS))"

fun visit :: "string list \<Rightarrow> json \<Rightarrow> string \<Rightarrow> quality_issue list" and
  visit_items :: "string list \<Rightarrow> json list \<Rightarrow> string \<Rightarrow> nat \<Rightarrow> quality_issue list" and
  visit_fields :: "string list \<Rightarrow> (string \<times> json) list \<Rightarrow> string \<Rightarrow> quality_issue list" where
  "visit facts (JObj kvs) path = visit_fields facts kvs path"
| "visit facts (JList xs) path = visit_items facts xs path 0"
| "visit facts v path = []"
| "visit_items facts [] path i = []"
| "visit_items facts (x # xs) path i = visit facts x (path @ ''['' @ str_of_nat i @ '']'') @ visit_items facts xs path (i + 1)"
| "visit_fields facts [] path = []"
| "visit_fields facts ((k, x) # kvs) path =
     rating_issues facts path k @ visit facts x (path @ ''.'' @ k) @ visit_fields facts kvs path"

definition validate_sensitive_schema_claims :: "doc \<Rightarrow> fact_pack \<Rightarrow> quality_issue list" where
  "validate_sensitive_schema_claims d p = visit (map vf_key (fp_facts p)) (JObj d) ''$''"

definition run_generation_qa :: "(rat \<Rightarrow> string) \<Rightarrow> doc \<Rightarrow> fact_pack \<Rightarrow> (string \<times> doc) list \<Rightarrow> exn + quality_issue list" where
  "run_generation_qa repr d p comparisons =
     bindE (validate_claims d p) (\<lambda>claims.
     bindE (validate_domains_and_links d p) (\<lambda>links.
     bindE (validate_similarity repr SIMILARITY_THRESHOLD d comparisons) (\<lambda>similar.
     Inr (claims @ links @ validate_placeholders d @ validate_sensitive_schema_claims d p @ similar))))"

end
