(* ===== verification/Generation_Facts.thy ===== *)
theory Generation_Facts
  imports Generation_Quality Generation_Boundary
begin

text \<open>
  What the checks of generated documents and the boundary guarantee: claims rest on approved facts, links stay inside
  the approved domains, an accepted answer conforms to its schema, and the data of the prompt is a single line.
\<close>

subsection \<open>Claims\<close>

definition claim_grounded :: "fact_pack \<Rightarrow> json \<Rightarrow> bool" where
  "claim_grounded p c \<longleftrightarrow> (\<exists>claim ks es. c = JObj claim \<and> ks \<noteq> [] \<and> es \<noteq> [] \<and>
     map_of claim ''fact_keys'' = Some (JList (map JStr ks)) \<and> map_of claim ''evidence_ids'' = Some (JList (map JStr es)) \<and>
     set es \<subseteq> set (fp_evidence p) \<and> (\<forall>k \<in> set ks. \<exists>f. fact_at p k = Some f \<and> set (vf_evidence_ids f) \<subseteq> set es))"

definition claims_grounded :: "doc \<Rightarrow> fact_pack \<Rightarrow> bool" where
  "claims_grounded d p \<longleftrightarrow> (\<exists>claims. map_of d ''claims'' = Some (JList claims) \<and> list_all (claim_grounded p) claims)"

lemma reference_list_Some: "reference_list v = Some xs \<longleftrightarrow> v = Some (JList xs) \<and> xs \<noteq> []"
  by (auto simp: reference_list_def split: option.splits json.splits list.splits)

lemma map_JStr_eq [simp]: "map JStr xs = map JStr ys \<longleftrightarrow> xs = ys"
  by (rule inj_map_eq_map) (simp add: inj_def)

lemma texts_of_known: "(\<forall>e \<in> set es. known_text known e) \<longleftrightarrow> (\<exists>ts. es = map JStr ts \<and> set ts \<subseteq> set known)"
proof (induction es)
  case (Cons e es)
  have "known_text known e \<longleftrightarrow> (\<exists>t. e = JStr t \<and> t \<in> set known)" by (auto simp: known_text_def split: json.splits)
  with Cons show ?case by (auto simp: Cons_eq_map_conv)
qed simp

lemma keys_of_known: "(\<forall>k \<in> set xs. fact_of_key p k \<noteq> None) \<longleftrightarrow> (\<exists>ks. xs = map JStr ks \<and> (\<forall>k \<in> set ks. \<exists>f. fact_at p k = Some f))"
proof (induction xs)
  case (Cons x xs)
  have "fact_of_key p x \<noteq> None \<longleftrightarrow> (\<exists>k f. x = JStr k \<and> fact_at p k = Some f)"
    by (auto simp: fact_of_key_def split: json.splits)
  with Cons show ?case by (auto simp: Cons_eq_map_conv)
qed simp

lemma expected_subset:
  assumes "\<forall>k \<in> set ks. \<exists>f. fact_at p k = Some f"
  shows "(\<forall>e \<in> set (concat (map (\<lambda>k. case fact_of_key p k of None \<Rightarrow> [] | Some f \<Rightarrow> vf_evidence_ids f) (map JStr ks))). e \<in> set es) \<longleftrightarrow>
    (\<forall>k \<in> set ks. \<exists>f. fact_at p k = Some f \<and> set (vf_evidence_ids f) \<subseteq> set es)"
  using assms by (auto simp: fact_of_key_def) fastforce+

lemma reconcile_claim_clean:
  "reconcile_claim p path xs ys = Inr [] \<longleftrightarrow> (\<exists>ks es. xs = map JStr ks \<and> ys = map JStr es \<and> set es \<subseteq> set (fp_evidence p) \<and>
     (\<forall>k \<in> set ks. \<exists>f. fact_at p k = Some f \<and> set (vf_evidence_ids f) \<subseteq> set es))" (is "?l \<longleftrightarrow> ?r")
proof
  assume ?l
  then have facts: "\<forall>k \<in> set xs. fact_of_key p k \<noteq> None" and known: "\<forall>e \<in> set ys. known_text (fp_evidence p) e"
    and expected: "\<forall>e \<in> set (concat (map (\<lambda>k. case fact_of_key p k of None \<Rightarrow> [] | Some f \<Rightarrow> vf_evidence_ids f) xs)). JStr e \<in> set ys"
    by (auto simp: reconcile_claim_def Let_def filter_empty_conv list_all_iff split: if_splits)
  from facts known obtain ks es where k: "xs = map JStr ks" "\<forall>k \<in> set ks. \<exists>f. fact_at p k = Some f"
    and e: "ys = map JStr es" "set es \<subseteq> set (fp_evidence p)" using keys_of_known [of xs p] texts_of_known [of ys "fp_evidence p"] by blast
  from expected have "\<forall>e \<in> set (concat (map (\<lambda>k. case fact_of_key p k of None \<Rightarrow> [] | Some f \<Rightarrow> vf_evidence_ids f) xs)). e \<in> set es"
    using e(1) by auto
  with k e expected_subset [OF k(2), of es] show ?r by auto
next
  assume ?r
  then obtain ks es where k: "xs = map JStr ks" "ys = map JStr es" "set es \<subseteq> set (fp_evidence p)"
    and f: "\<forall>k \<in> set ks. \<exists>f. fact_at p k = Some f \<and> set (vf_evidence_ids f) \<subseteq> set es" by blast
  from f have known: "\<forall>k \<in> set ks. \<exists>f. fact_at p k = Some f" by blast
  with expected_subset [OF known, of es] f
  have expected: "\<forall>e \<in> set (concat (map (\<lambda>k. case fact_of_key p k of None \<Rightarrow> [] | Some f \<Rightarrow> vf_evidence_ids f) xs)). e \<in> set es"
    unfolding k(1) by blast
  have "filter (\<lambda>k. fact_of_key p k = None) xs = []" "filter (\<lambda>e. \<not> known_text (fp_evidence p) e) ys = []"
    using k known keys_of_known [of xs p] texts_of_known [of ys "fp_evidence p"] by (auto simp: filter_empty_conv)
  moreover have "list_all hashable xs" "list_all hashable ys" using k by (auto simp: list_all_iff)
  moreover have "sortable []" by (simp add: sortable_def)
  ultimately show ?l using expected k(2) by (auto simp: reconcile_claim_def Let_def list_all_iff)
qed

lemma check_claim_clean: "check_claim p ic = Inr [] \<longleftrightarrow> claim_grounded p (snd ic)"
proof (cases "snd ic")
  case (JObj claim)
  let ?a = "reference_list (map_of claim ''fact_keys'')" and ?b = "reference_list (map_of claim ''evidence_ids'')"
  show ?thesis
  proof (cases "\<exists>xs ys. ?a = Some xs \<and> ?b = Some ys")
    case True
    then obtain xs ys where "?a = Some xs" "?b = Some ys" by blast
    moreover from this have "map_of claim ''fact_keys'' = Some (JList xs)" "map_of claim ''evidence_ids'' = Some (JList ys)" "xs \<noteq> []" "ys \<noteq> []"
      by (simp_all add: reference_list_Some)
    ultimately show ?thesis using JObj by (auto simp: check_claim_def claim_grounded_def Let_def reconcile_claim_clean)
  next
    case False
    then have "check_claim p ic \<noteq> Inr []" using JObj by (auto simp: check_claim_def Let_def issue_at_def split: option.splits)
    moreover from False have "\<not> claim_grounded p (snd ic)"
      using JObj by (auto simp: claim_grounded_def reference_list_Some)
    ultimately show ?thesis by simp
  qed
qed (auto simp: check_claim_def Let_def claim_grounded_def)

lemma validate_claims_clean: "validate_claims d p = Inr [] \<longleftrightarrow> claims_grounded d p"
proof -
  have "mapR concat (mapE (check_claim p) ics) = Inr [] \<longleftrightarrow> (\<forall>ic \<in> set ics. check_claim p ic = Inr [])" for ics
  proof (induction ics)
    case (Cons ic ics)
    then show ?case by (cases "check_claim p ic"; cases "mapE (check_claim p) ics") auto
  qed simp
  moreover have "set cs = snd ` set (enumerate 0 cs)" for cs :: "json list" by (metis list.set_map map_snd_enumerate)
  ultimately have "mapR concat (mapE (check_claim p) (enumerate 0 cs)) = Inr [] \<longleftrightarrow> list_all (claim_grounded p) cs" for cs
    by (simp add: check_claim_clean list_all_iff)
  then show ?thesis by (auto simp: validate_claims_def claims_grounded_def split: option.splits json.splits)
qed

lemma claim_issues_high:
  "validate_claims d p = Inr qs \<Longrightarrow> q \<in> set qs \<Longrightarrow> qi_severity q = Sev_high"
proof -
  have one: "check_claim p ic = Inr qs \<Longrightarrow> \<forall>q \<in> set qs. qi_severity q = Sev_high" for ic qs
    by (auto simp: check_claim_def reconcile_claim_def issue_at_def Let_def split: json.splits option.splits if_splits)
  have "mapE (check_claim p) ics = Inr qss \<Longrightarrow> \<forall>q \<in> set (concat qss). qi_severity q = Sev_high" for ics qss
    by (induction ics arbitrary: qss) (use one in \<open>fastforce simp: bindE_Inr_iff mapR_Inr_iff\<close>)+
  then show "validate_claims d p = Inr qs \<Longrightarrow> q \<in> set qs \<Longrightarrow> qi_severity q = Sev_high"
    by (auto simp: validate_claims_def mapR_Inr_iff split: option.splits json.splits)
qed

subsection \<open>Links\<close>

lemma lower_upper: "to_lower (to_upper c) = to_lower c"
proof (cases "lower_char c")
  case True
  then have "97 \<le> code c" "code c \<le> 122" by (simp_all add: lower_char_def)
  moreover from this have "65 \<le> code c - 32" "code c - 32 \<le> 90" "\<not> code c \<le> 90" by linarith+
  ultimately show ?thesis using True by (simp add: to_lower_def to_upper_def upper_char_def)
qed (simp add: to_upper_def)

lemma url_char_lower: "url_char (to_lower c) = url_char c"
proof (cases "upper_char c")
  case True
  then have "65 \<le> code c" "code c \<le> 90" by (simp_all add: upper_char_def)
  moreover from this have "code (to_lower c) = code c + 32" by (simp add: to_lower_def upper_char_def)
  moreover have "url_char x" if "65 \<le> code x" "code x \<le> 122" "code x \<noteq> 91" "code x \<noteq> 93" for x
    using that by (auto simp: url_char_def ws_char_def)
  ultimately show ?thesis by simp
qed (simp add: to_lower_def)

lemma any_case_url_char: "any_case (\<lambda>y. y = x) c \<Longrightarrow> url_char x \<Longrightarrow> url_char c"
  using url_char_lower [of c] url_char_lower [of "to_upper c"] by (auto simp: any_case_def lower_upper)

definition starts :: "string \<Rightarrow> string \<Rightarrow> bool" where
  "starts w s \<longleftrightarrow> length w \<le> length s \<and> list_all2 (\<lambda>x c. any_case (\<lambda>y. y = x) c) w (take (length w) s)"

lemma starts_Cons: "starts (x # w) s \<longleftrightarrow> (\<exists>c t. s = c # t \<and> any_case (\<lambda>y. y = x) c \<and> starts w t)"
  by (cases s) (auto simp: starts_def)

lemma starts_append: "starts w u \<Longrightarrow> starts w (u @ v)"
  by (auto simp: starts_def)

lemma starts_casefold: "casefold s = w \<Longrightarrow> starts w s"
  by (auto simp: starts_def casefold_def any_case_def list_all2_conv_all_nth)

lemma ends_literal: "w \<noteq> [] \<Longrightarrow> ends (literal w) (p, s) = (if starts w s then [(Some (s ! (length w - 1)), drop (length w) s)] else [])"
  by (simp add: literal_any_case starts_def)

lemma starts_url_chars:
  "starts w s \<Longrightarrow> list_all url_char w \<Longrightarrow> list_all url_char (take (length w) s)"
  by (auto simp: starts_def list_all_length list_all2_conv_all_nth intro: any_case_url_char)

lemma dropWhile_drop: "list_all P (take n s) \<Longrightarrow> dropWhile P (drop n s) = dropWhile P s"
  by (induction s arbitrary: n) (auto simp: drop_Cons' take_Cons' split: if_splits)

definition url_rest :: rx where
  "url_rest = Seq (literal ''://'') (Many 1 url_char)"

lemma URL_PATTERN_rest: "URL_PATTERN = Seq (literal ''http'') (Seq (Opt (literal ''s'')) url_rest)"
  by (simp add: URL_PATTERN_def url_rest_def)

lemma ends_rest:
  "ends url_rest (p, s) =
     (if starts ''://'' s \<and> drop 3 s \<noteq> [] \<and> url_char (hd (drop 3 s)) then greedy url_char (Some (hd (drop 3 s))) (tl (drop 3 s)) else [])"
  by (cases "drop (Suc (Suc (Suc 0))) s") (auto simp: url_rest_def ends_literal starts_def eval_nat_numeral)

text \<open>A match takes every character up to the next one that cannot be in an address.\<close>

lemma url_ends:
  assumes "ends URL_PATTERN (p, s) = e # es"
  shows "snd e = dropWhile url_char s \<and> s \<noteq> [] \<and> url_char (hd s)"
proof -
  have schemes: "list_all url_char ''http''" "list_all url_char ''s''" "list_all url_char ''://''"
    by (simp_all add: url_char_def ws_char_def)
  have http: "starts ''http'' s" using assms by (auto simp: URL_PATTERN_rest ends_literal simp del: One_nat_def split: if_splits)
  let ?t = "drop 4 s"
  from starts_url_chars [OF http schemes(1)] have skip: "dropWhile url_char ?t = dropWhile url_char s"
    by (intro dropWhile_drop) (simp add: eval_nat_numeral)
  have body: "snd (hd xs) = dropWhile url_char t" if "xs = ends url_rest (q, t)" "xs \<noteq> []" for q t xs
  proof -
    from that have st: "starts ''://'' t" and c: "drop 3 t \<noteq> []" "url_char (hd (drop 3 t))"
      and xs: "xs = greedy url_char (Some (hd (drop 3 t))) (tl (drop 3 t))" by (auto simp: ends_rest split: if_splits)
    have "snd (hd xs) = dropWhile url_char (tl (drop 3 t))" by (simp add: xs hd_greedy)
    also have "\<dots> = dropWhile url_char (drop 3 t)" using c by (cases "drop 3 t") simp_all
    also have "\<dots> = dropWhile url_char t" using starts_url_chars [OF st schemes(3)] by (intro dropWhile_drop) (simp add: eval_nat_numeral)
    finally show ?thesis .
  qed
  let ?B = "\<lambda>q t. ends url_rest (q, t)"
  obtain q where all: "ends URL_PATTERN (p, s) = (if starts ''s'' ?t then ?B (Some (?t ! 0)) (drop 1 ?t) else []) @ ?B q ?t"
    by (rule that [of "Some (s ! 3)"]) (use http in \<open>simp add: URL_PATTERN_rest ends_literal eval_nat_numeral\<close>)
  have "snd e = dropWhile url_char s"
  proof (cases "starts ''s'' ?t \<and> ?B (Some (?t ! 0)) (drop 1 ?t) \<noteq> []")
    case True
    then have "e = hd (?B (Some (?t ! 0)) (drop 1 ?t))" using all assms by (cases "?B (Some (?t ! 0)) (drop 1 ?t)") auto
    then have "snd e = dropWhile url_char (drop 1 ?t)" using body [OF refl, of "Some (?t ! 0)" "drop 1 ?t"] True by simp
    also have "\<dots> = dropWhile url_char ?t" using starts_url_chars [of "''s''" ?t] schemes(2) True by (intro dropWhile_drop) (simp add: eval_nat_numeral)
    finally show ?thesis using skip by simp
  next
    case False
    then have "?B q ?t = e # es" using all assms by (auto split: if_splits)
    then show ?thesis using body [OF refl, of q ?t] skip by simp
  qed
  moreover have "s \<noteq> []" "url_char (hd s)" using starts_url_chars [OF http schemes(1)] http by (cases s; simp add: starts_Cons)+
  ultimately show ?thesis by simp
qed

lemma url_ends_start:
  assumes "casefold scheme = ''http://'' \<or> casefold scheme = ''https://''" and "body \<noteq> []" and "list_all url_char body"
  shows "ends URL_PATTERN (p, scheme @ body @ post) \<noteq> []"
proof -
  have b: "body @ post \<noteq> [] \<and> url_char (hd (body @ post))" using assms(2,3) by (cases body) auto
  from assms(1) obtain t where t: "casefold t = ''://''" and sch: "(\<exists>h. scheme = h @ t \<and> casefold h = ''http'') \<or> (\<exists>h. scheme = h @ t \<and> casefold h = ''https'')"
  proof
    assume *: "casefold scheme = ''http://''"
    show thesis by (rule that [of "drop 4 scheme"]) (use * in \<open>auto simp: casefold_def drop_map [symmetric] take_map [symmetric] intro: exI [of _ "take 4 scheme"]\<close>)
  next
    assume *: "casefold scheme = ''https://''"
    show thesis by (rule that [of "drop 5 scheme"]) (use * in \<open>auto simp: casefold_def drop_map [symmetric] take_map [symmetric] intro: exI [of _ "take 5 scheme"]\<close>)
  qed
  have lt: "length t = 3" using arg_cong [OF t, of length] by simp
  have rest: "ends url_rest (q, t @ body @ post) \<noteq> []" for q
    using b starts_append [OF starts_casefold [OF t], of "body @ post"] lt by (simp add: ends_rest)
  from sch show ?thesis
  proof
    assume "\<exists>h. scheme = h @ t \<and> casefold h = ''http''"
    then obtain h where h: "scheme = h @ t" "casefold h = ''http''" by blast
    have "length h = 4" using arg_cong [OF h(2), of length] by simp
    with h starts_append [OF starts_casefold [OF h(2)]] rest show ?thesis by (simp add: URL_PATTERN_rest ends_literal)
  next
    assume "\<exists>h. scheme = h @ t \<and> casefold h = ''https''"
    then obtain h where h: "scheme = h @ t" "casefold h = ''https''" by blast
    then have "starts ''http'' h" and last: "starts ''s'' (drop 4 h)" and "length h = 5"
      by (auto simp: starts_def casefold_def any_case_def list_all2_conv_all_nth eval_nat_numeral map_eq_Cons_conv nth_Cons' less_Suc_eq)
    then have "starts ''http'' (h @ t @ body @ post)" "starts ''s'' (drop 4 (h @ t @ body @ post))" by (simp_all add: starts_append)
    with rest \<open>length h = 5\<close> h(1) show ?thesis by (simp add: URL_PATTERN_rest ends_literal eval_nat_numeral)
  qed
qed

text \<open>An address that stands between characters that cannot be in an address is found as it is.\<close>

lemma findall_delimited:
  assumes "casefold scheme = ''http://'' \<or> casefold scheme = ''https://''" and "body \<noteq> []" and "list_all url_char body"
    and "post = [] \<or> \<not> url_char (hd post)"
  shows "pre = [] \<or> \<not> url_char (last pre) \<Longrightarrow> scheme @ body \<in> set (findall_from URL_PATTERN p (pre @ scheme @ body @ post))"
proof (induction "length pre" arbitrary: pre p rule: less_induct)
  case less
  let ?s = "pre @ scheme @ body @ post"
  have scheme: "list_all url_char scheme"
  proof -
    have "list_all url_char (casefold scheme)" using assms(1) by (auto simp: url_char_def ws_char_def)
    then show ?thesis by (simp add: casefold_def list_all_length url_char_lower)
  qed
  show ?case
  proof (cases pre)
    case Nil
    obtain e es where ends: "ends URL_PATTERN (p, ?s) = e # es"
      using url_ends_start [OF assms(1-3), of p post] Nil by (cases "ends URL_PATTERN (p, ?s)") auto
    have "dropWhile url_char ?s = post"
      using Nil scheme assms(3,4) by (cases post) (simp_all add: list_all_iff dropWhile_append)
    with url_ends [OF ends] have e: "snd e = post" by simp
    moreover have "scheme @ body \<noteq> []" using assms(2) by simp
    ultimately show ?thesis using ends Nil by (subst findall_from.simps) simp
  next
    case (Cons c pre')
    show ?thesis
    proof (cases "ends URL_PATTERN (p, ?s)")
      case Nil
      have "scheme @ body \<in> set (findall_from URL_PATTERN (Some c) (pre' @ scheme @ body @ post))"
        using less Cons by (intro less.hyps) (auto split: if_splits)
      then show ?thesis using Nil Cons by (subst findall_from.simps) simp
    next
      case ends: (Cons e es)
      let ?pre = "dropWhile url_char pre"
      have "last pre \<in> set pre" "\<not> url_char (last pre)" using less.prems Cons by auto
      then have ne: "?pre \<noteq> []" by (auto simp: dropWhile_eq_Nil_conv)
      then have drop: "dropWhile url_char ?s = ?pre @ scheme @ body @ post"
        by (simp add: dropWhile_append dropWhile_eq_Nil_conv) metis
      from url_ends [OF ends] drop have e: "snd e = ?pre @ scheme @ body @ post" "url_char c" using Cons by simp_all
      have shorter: "length ?pre < length pre" using e(2) Cons by (simp add: length_dropWhile_le less_Suc_eq_le)
      have "last ?pre = last pre" using ne by (metis dropWhile_eq_drop last_drop drop_eq_Nil not_le)
      then have "scheme @ body \<in> set (findall_from URL_PATTERN (fst e) (?pre @ scheme @ body @ post))"
        using less shorter Cons by (intro less.hyps) auto
      then show ?thesis using ends e(1) shorter by (subst findall_from.simps) simp
    qed
  qed
qed

text \<open>A status that the link check takes for good, and the links it lets pass.\<close>

definition good_link :: "fact_pack \<Rightarrow> string \<Rightarrow> bool" where
  "good_link p url \<longleftrightarrow> (\<exists>n. require_allowed_url (fp_domains p) (rstrip_of url_trail url) = Inr n \<and>
     (map_of (fp_statuses p) n = None \<or> (\<exists>s. map_of (fp_statuses p) n = Some (Some s) \<and> s < 400)))"

definition no_high :: "quality_issue list \<Rightarrow> bool" where
  "no_high qs \<longleftrightarrow> list_all (\<lambda>q. qi_severity q \<noteq> Sev_high) qs"

lemma no_high_append [simp]: "no_high (a @ b) \<longleftrightarrow> no_high a \<and> no_high b" "no_high []"
  by (simp_all add: no_high_def)

definition recorded :: "(string \<times> string) list \<times> quality_issue list \<Rightarrow> bool" where
  "recorded st \<longleftrightarrow> (no_high (snd st) \<longrightarrow> (\<forall>ku \<in> set (fst st). fst ku = ''unknown_link''))"

lemma recorded_emit: "recorded st \<Longrightarrow> sev = Sev_high \<or> kind = ''unknown_link'' \<Longrightarrow> recorded (emit kind sev m path url st)"
  by (auto simp: recorded_def emit_def no_high_def issue_at_def)

lemma emit_high: "recorded st \<Longrightarrow> kind \<noteq> ''unknown_link'' \<Longrightarrow> \<not> no_high (snd (emit kind Sev_high m path url st))"
  by (cases "(kind, url) \<in> set (fst st)") (auto simp: recorded_def emit_def no_high_def issue_at_def)

lemma emit_keeps: "no_high (snd (emit kind sev m path url st)) \<Longrightarrow> no_high (snd st)"
  by (auto simp: emit_def split: if_splits)

lemma check_link_step:
  assumes "check_link p st pu = Inr st'" and "recorded st"
  shows "recorded st'" and "no_high (snd st') \<Longrightarrow> no_high (snd st) \<and> good_link p (snd pu)"
proof -
  let ?r = "require_allowed_url (fp_domains p) (rstrip_of url_trail (snd pu))"
  have "recorded st' \<and> (no_high (snd st') \<longrightarrow> no_high (snd st) \<and> good_link p (snd pu))"
  proof (cases ?r)
    case (Inl e)
    then have "st' = emit ''wrong_domain'' Sev_high ''Generated URL is malformed or outside approved domains.'' (fst pu) (rstrip_of url_trail (snd pu)) st"
      using assms(1) by (auto simp: check_link_def Let_def split: if_splits)
    then show ?thesis using assms(2) by (simp add: recorded_emit emit_high)
  next
    case (Inr n)
    consider (unknown) "map_of (fp_statuses p) n = None" | (broken) s where "map_of (fp_statuses p) n = Some s" "s = None \<or> opt_any (\<lambda>s. 400 \<le> s) s"
      | (fine) s where "map_of (fp_statuses p) n = Some (Some s)" "s < 400"
      by (cases "map_of (fp_statuses p) n"; cases "the (map_of (fp_statuses p) n)"; cases "the (the (map_of (fp_statuses p) n)) < 400") auto
    then show ?thesis
    proof cases
      case unknown
      with Inr assms show ?thesis by (auto simp: check_link_def Let_def recorded_emit good_link_def dest: emit_keeps)
    next
      case broken
      with Inr assms(1) have "st' = emit ''broken_link'' Sev_high ''Generated internal URL is unavailable or returned an error in the evidence snapshot.'' (fst pu) n st"
        by (auto simp: check_link_def Let_def)
      then show ?thesis using assms(2) by (simp add: recorded_emit emit_high)
    next
      case fine
      with Inr assms show ?thesis by (auto simp: check_link_def Let_def good_link_def)
    qed
  qed
  then show "recorded st'" and "no_high (snd st') \<Longrightarrow> no_high (snd st) \<and> good_link p (snd pu)" by blast+
qed

lemma check_links:
  assumes "foldE (check_link p) st us = Inr st'" and "recorded st" and "no_high (snd st')"
  shows "no_high (snd st) \<and> list_all (\<lambda>pu. good_link p (snd pu)) us"
  using assms
proof (induction us arbitrary: st)
  case (Cons u us)
  then obtain st1 where one: "check_link p st u = Inr st1" and more: "foldE (check_link p) st1 us = Inr st'" by (auto simp: bindE_Inr_iff)
  from Cons.IH [OF more check_link_step(1) [OF one Cons.prems(2)] Cons.prems(3)] check_link_step(2) [OF one Cons.prems(2)] show ?case by simp
qed simp

definition delimited :: "string \<Rightarrow> string \<Rightarrow> string \<Rightarrow> bool" where
  "delimited pre url post \<longleftrightarrow> (\<exists>scheme body. url = scheme @ body \<and> (casefold scheme = ''http://'' \<or> casefold scheme = ''https://'') \<and>
     body \<noteq> [] \<and> list_all url_char body) \<and> (pre = [] \<or> \<not> url_char (last pre)) \<and> (post = [] \<or> \<not> url_char (hd post))"

definition links_good :: "fact_pack \<Rightarrow> doc \<Rightarrow> bool" where
  "links_good p d \<longleftrightarrow> (\<forall>path pre url post. (path, pre @ url @ post) \<in> set (leaves d) \<and> delimited pre url post \<longrightarrow> good_link p url)"

lemma links_pass:
  assumes "validate_domains_and_links d p = Inr qs" and "no_high qs"
  shows "links_good p d"
  unfolding links_good_def
proof (intro allI impI)
  fix path pre url post
  assume leaf: "(path, pre @ url @ post) \<in> set (leaves d) \<and> delimited pre url post"
  then obtain scheme body where u: "url = scheme @ body" "casefold scheme = ''http://'' \<or> casefold scheme = ''https://''"
    "body \<noteq> []" "list_all url_char body" "pre = [] \<or> \<not> url_char (last pre)" "post = [] \<or> \<not> url_char (hd post)"
    unfolding delimited_def by blast
  from findall_delimited [OF u(2,3,4,6,5), of None] have "url \<in> set (findall URL_PATTERN (pre @ url @ post))"
    by (simp add: findall_def u(1))
  with leaf have "(path, url) \<in> set (links_of d)" by (force simp: links_of_def)
  moreover obtain st where "foldE (check_link p) ([], []) (links_of d) = Inr st" "snd st = qs"
    using assms(1) by (auto simp: validate_domains_and_links_def mapR_Inr_iff)
  moreover have "recorded ([], [])" by (simp add: recorded_def)
  ultimately show "good_link p url" using check_links [of p "([], [])" "links_of d"] assms(2) by (auto simp: list_all_iff)
qed

subsection \<open>Placeholders and ratings\<close>

lemma placeholders_pass: "no_high (validate_placeholders d) \<longleftrightarrow> (\<forall>pt \<in> set (leaves d). \<not> search PLACEHOLDER_PATTERN (snd pt))"
  by (auto simp: validate_placeholders_def no_high_def list_all_iff issue_at_def)

fun keys_of :: "json \<Rightarrow> string list" and keys_of_fields :: "(string \<times> json) list \<Rightarrow> string list" and keys_of_items :: "json list \<Rightarrow> string list" where
  "keys_of (JObj kvs) = keys_of_fields kvs"
| "keys_of (JList xs) = keys_of_items xs"
| "keys_of v = []"
| "keys_of_fields [] = []"
| "keys_of_fields ((k, x) # kvs) = k # keys_of x @ keys_of_fields kvs"
| "keys_of_items [] = []"
| "keys_of_items (x # xs) = keys_of x @ keys_of_items xs"

definition rating_supported :: "string list \<Rightarrow> string \<Rightarrow> bool" where
  "rating_supported facts k \<longleftrightarrow> (\<forall>(fragment, expected) \<in> set REQUIRED_KEY_FRAGMENTS. contains fragment (casefold (filter (\<lambda>c. c \<noteq> CHR ''_'') k)) \<longrightarrow>
     (\<exists>f \<in> set facts. contains expected (casefold f)))"

lemma rating_issues_clean: "no_high (rating_issues facts path k) \<longleftrightarrow> rating_supported facts k"
  by (auto simp: rating_issues_def rating_supported_def no_high_def list_all_iff list_ex_iff issue_at_def Let_def)

lemma visit_clean:
  "no_high (visit facts v path) \<longleftrightarrow> list_all (rating_supported facts) (keys_of v)"
  "no_high (visit_items facts xs path i) \<longleftrightarrow> list_all (rating_supported facts) (keys_of_items xs)"
  "no_high (visit_fields facts kvs path) \<longleftrightarrow> list_all (rating_supported facts) (keys_of_fields kvs)"
  by (induction facts v path and facts xs path i and facts kvs path rule: visit_visit_items_visit_fields.induct)
    (auto simp: rating_issues_clean)

subsection \<open>The quality checks together\<close>

lemma similarity_pass:
  assumes "validate_similarity repr threshold d others = Inr qs" and "no_high qs"
  shows "\<forall>other \<in> set others. \<exists>a b. document_text repr d = Inr a \<and> document_text repr (snd other) = Inr b \<and> similarity_score a b < threshold"
proof -
  obtain a qss where a: "document_text repr d = Inr a" and each: "mapE (compare_to repr threshold a) others = Inr qss" and qs: "qs = concat qss"
    using assms(1) by (auto simp: validate_similarity_def bindE_Inr_iff mapR_Inr_iff split: if_splits)
  have "list_all (\<lambda>other. \<exists>b. document_text repr (snd other) = Inr b \<and> similarity_score a b < threshold) others"
    if "mapE (compare_to repr threshold a) others = Inr qss" "no_high (concat qss)" for others qss
    using that
    by (induction others arbitrary: qss)
      (auto simp: bindE_Inr_iff mapR_Inr_iff compare_to_def Let_def no_high_def issue_at_def split: if_splits)
  with each assms(2) a qs show ?thesis unfolding list_all_iff by blast
qed

text \<open>C31: Generated text is grounded when the checks pass. Whenever the quality checks of a document end without an issue of
  high severity, every claim of its ledger names approved facts only and cites available evidence that includes all the
  evidence of those facts; every address that stands free in any of its texts lies inside the approved domains and is not
  known to be broken; no text holds a placeholder; every rating or review key anywhere in it is backed by an approved fact;
  and no compared document is as similar as the threshold.\<close>

theorem generation_qa_grounded:
  assumes "run_generation_qa repr d p others = Inr qs" and "no_high qs"
  shows "claims_grounded d p \<and> links_good p d \<and> (\<forall>pt \<in> set (leaves d). \<not> search PLACEHOLDER_PATTERN (snd pt)) \<and>
    list_all (rating_supported (map vf_key (fp_facts p))) (keys_of (JObj d)) \<and>
    (\<forall>other \<in> set others. \<exists>a b. document_text repr d = Inr a \<and> document_text repr (snd other) = Inr b \<and> similarity_score a b < SIMILARITY_THRESHOLD)"
proof -
  obtain claims links similar where parts: "validate_claims d p = Inr claims" "validate_domains_and_links d p = Inr links"
    "validate_similarity repr SIMILARITY_THRESHOLD d others = Inr similar"
    and qs: "qs = claims @ links @ validate_placeholders d @ validate_sensitive_schema_claims d p @ similar"
    using assms(1) by (auto simp: run_generation_qa_def bindE_Inr_iff)
  from qs assms(2) have high: "no_high claims" "no_high links" "no_high (validate_placeholders d)"
    "no_high (validate_sensitive_schema_claims d p)" "no_high similar" by simp_all
  from high(1) claim_issues_high [OF parts(1)] have "claims = []" by (cases claims) (auto simp: no_high_def)
  with parts(1) have "claims_grounded d p" by (simp add: validate_claims_clean)
  moreover from high(4) have "list_all (rating_supported (map vf_key (fp_facts p))) (keys_of (JObj d))"
    by (simp add: validate_sensitive_schema_claims_def visit_clean)
  ultimately show ?thesis using links_pass [OF parts(2) high(2)] similarity_pass [OF parts(3) high(5)] high(3)
    by (simp add: placeholders_pass)
qed

subsection \<open>The prompt\<close>

text \<open>C33: Evidence cannot leave its block of the prompt. The message of the user that a request carries has exactly the
  lines of the task, the opening mark, one line with the canonical encoding of the fact pack and the closing mark: whatever
  strings the facts hold, none of them can forge a line.\<close>

theorem evidence_is_one_line:
  assumes "prepare_request pv b task pack schema_name schema purpose = Inr request" and "\<And>q. printable (pv_repr pv q)"
  shows "\<exists>payload. pack_text (pv_repr pv) pack = Inr payload \<and>
    request = request_json (bd_config b) (model_for (bd_config b) purpose) (user_text (strip task) payload) schema_name schema \<and>
    split_on CHR 0x0A (user_text (strip task) payload) =
      [''TASK''] @ split_on CHR 0x0A (strip task) @ [''SOURCE_DATA_BEGIN'', payload, ''SOURCE_DATA_END'']"
proof -
  from assms(1) obtain payload where p: "pack_text (pv_repr pv) pack = Inr payload"
    and r: "request = request_json (bd_config b) (model_for (bd_config b) purpose) (user_text (strip task) payload) schema_name schema"
    by (auto simp: prepare_request_def Let_def bindE_Inr_iff split: if_splits)
  from p have "printable payload" unfolding pack_text_def by (rule canonical_json_printable [OF assms(2)])
  then have one: "CHR 0x0A \<notin> set payload" by (auto simp: printable_def list_all_iff)
  have lines: "split_on c (t @ c # u) = split_on c t @ split_on c u" for c :: char and t u
    by (induction t) (auto split: list.splits)
  have "user_text (strip task) payload = ''TASK'' @ CHR 0x0A # strip task @ CHR 0x0A # ''SOURCE_DATA_BEGIN'' @ CHR 0x0A # payload @ CHR 0x0A # ''SOURCE_DATA_END''"
    by (simp add: user_text_def newline_def)
  with one have "split_on CHR 0x0A (user_text (strip task) payload) =
      [''TASK''] @ split_on CHR 0x0A (strip task) @ [''SOURCE_DATA_BEGIN'', payload, ''SOURCE_DATA_END'']"
    by (simp only: lines split_on_none) (simp add: split_on_none)
  with p r show ?thesis by blast
qed

subsection \<open>The answer\<close>

lemma on_run_result: "on_run m s = (Inr a, t) \<longleftrightarrow> m s = (Inr a, t)"
  by (auto simp: on_run_def catchA_def ret_def raise_def split: prod.splits sum.splits)

lemma code_result_result: "code_result r s = (Inr a, t) \<longleftrightarrow> r = Inr a \<and> t = s"
  by (auto simp: code_result_def pureA_def split: sum.splits)

lemma in_world_result: "in_world f s = (Inr a, t) \<longleftrightarrow> a = fst (f (ex_world s)) \<and> t = s\<lparr>ex_world := snd (f (ex_world s))\<rparr>"
  by (auto simp: in_world_def split: prod.splits)

lemmas gen_results = bindA_Inr ret_result on_run_result code_result_result in_world_result

definition sound_result :: "'w provider \<Rightarrow> json \<Rightarrow> string \<Rightarrow> generation_result \<Rightarrow> bool" where
  "sound_result pv schema request_sha r \<longleftrightarrow> gl_request_sha (gr_ledger r) = request_sha \<and>
     (if gr_status r = Gen_available
      then \<exists>t v. pv_loads pv t = Inr v \<and> gr_data r = Some v \<and> validate_schema (pv_repr pv) v schema ''$'' = Inr () \<and>
        gl_response_sha (gr_ledger r) = Some (pv_sha pv t)
      else gr_data r = None \<and> gr_reason r \<noteq> None)"

lemma settle_sound:
  "settle pv schema ledger response tr = Inr r \<Longrightarrow> sound_result pv schema (gl_request_sha ledger) r"
  by (auto simp: settle_def Let_def decode_output_def tryE_Inr_iff bindE_Inr_iff mapR_Inr_iff sound_result_def split: prod.splits if_splits)

lemma use_attempt_sound:
  "use_attempt pv schema ledger attempt s = (Inr r, t) \<Longrightarrow> sound_result pv schema (gl_request_sha ledger) r"
  by (auto simp: use_attempt_def Let_def gen_results unavailable_generation_def sound_result_def dest!: settle_sound split: if_splits)


subsection \<open>Schemas as shapes\<close>

text \<open>The shapes the schemas of the program describe, and the documents that have them.\<close>

datatype shape = Text_shape nat nat | Uuid_shape | Choice_shape "string list" | List_shape nat nat bool shape
  | Record_shape "(string \<times> shape) list"

fun describes :: "json \<Rightarrow> shape \<Rightarrow> bool" and describes_fields :: "(string \<times> json) list \<Rightarrow> (string \<times> shape) list \<Rightarrow> bool" where
  "describes j (Text_shape lo hi) \<longleftrightarrow> expected_type j = Some ''string'' \<and> int_keyword j ''minLength'' 0 = int lo \<and>
     int_keyword j ''maxLength'' (10 ^ 9) = int hi \<and> keyword j ''enum'' = None \<and> keyword j ''format'' = None"
| "describes j Uuid_shape \<longleftrightarrow> expected_type j = Some ''string'' \<and> int_keyword j ''minLength'' 0 = 0 \<and>
     int_keyword j ''maxLength'' (10 ^ 9) = 10 ^ 9 \<and> keyword j ''enum'' = None \<and> keyword j ''format'' = Some (JStr ''uuid'')"
| "describes j (Choice_shape cs) \<longleftrightarrow> expected_type j = Some ''string'' \<and> int_keyword j ''minLength'' 0 = 0 \<and>
     int_keyword j ''maxLength'' (10 ^ 9) = 10 ^ 9 \<and> keyword j ''enum'' = Some (JList (map JStr cs)) \<and> keyword j ''format'' = None"
| "describes j (List_shape lo hi u sh) \<longleftrightarrow> expected_type j = Some ''array'' \<and> int_keyword j ''minItems'' 0 = int lo \<and>
     int_keyword j ''maxItems'' (10 ^ 9) = int hi \<and> opt_any (\<lambda>v. \<not> json_falsy v) (keyword j ''uniqueItems'') = u \<and>
     describes (opt_or (JObj []) (keyword j ''items'')) sh"
| "describes j (Record_shape fs) \<longleftrightarrow> expected_type j = Some ''object'' \<and> keyword j ''additionalProperties'' = Some (JBool False) \<and>
     list_keyword j ''required'' = map (JStr \<circ> fst) fs \<and> distinct (map fst fs) \<and> describes_fields (pairs_keyword j ''properties'') fs"
| "describes_fields [] [] \<longleftrightarrow> True"
| "describes_fields ((k, j) # kjs) ((l, sh) # fs) \<longleftrightarrow> k = l \<and> describes j sh \<and> describes_fields kjs fs"
| "describes_fields kjs fs \<longleftrightarrow> False"

fun inhabits :: "(rat \<Rightarrow> string) \<Rightarrow> shape \<Rightarrow> json \<Rightarrow> bool" and
  inhabits_fields :: "(rat \<Rightarrow> string) \<Rightarrow> (string \<times> shape) list \<Rightarrow> (string \<times> json) list \<Rightarrow> bool" where
  "inhabits repr (Text_shape lo hi) v \<longleftrightarrow> (case v of JStr s \<Rightarrow> lo \<le> length s \<and> length s \<le> hi | _ \<Rightarrow> False)"
| "inhabits repr Uuid_shape v \<longleftrightarrow> (case v of JStr s \<Rightarrow> is_uuid s \<and> length s \<le> 10 ^ 9 | _ \<Rightarrow> False)"
| "inhabits repr (Choice_shape cs) v \<longleftrightarrow> (case v of JStr s \<Rightarrow> s \<in> set cs \<and> length s \<le> 10 ^ 9 | _ \<Rightarrow> False)"
| "inhabits repr (List_shape lo hi u sh) v \<longleftrightarrow> (case v of
     JList xs \<Rightarrow> lo \<le> length xs \<and> length xs \<le> hi \<and> list_all (inhabits repr sh) xs \<and>
       (u \<longrightarrow> (case mapE (canonical_json repr) xs of Inl e \<Rightarrow> False | Inr texts \<Rightarrow> distinct texts))
   | _ \<Rightarrow> False)"
| "inhabits repr (Record_shape fs) v \<longleftrightarrow> (case v of
     JObj kvs \<Rightarrow> set (map fst kvs) = set (map fst fs) \<and> inhabits_fields repr fs kvs | _ \<Rightarrow> False)"
| "inhabits_fields repr [] kvs \<longleftrightarrow> True"
| "inhabits_fields repr ((k, sh) # fs) kvs \<longleftrightarrow> list_all (\<lambda>kx. fst kx = k \<longrightarrow> inhabits repr sh (snd kx)) kvs \<and> inhabits_fields repr fs kvs"

lemma validate_items_iff:
  "(\<And>x path. validate_schema repr x schema path = Inr () \<longleftrightarrow> P x) \<Longrightarrow> validate_items repr xs schema path i = Inr () \<longleftrightarrow> list_all P xs"
  by (induction xs arbitrary: i) (auto simp: bindE_Inr_iff)

lemma validate_fields_iff:
  "validate_fields repr kvs properties path = Inr () \<longleftrightarrow>
     (\<forall>(k, x) \<in> set kvs. \<forall>child. map_of properties k = Some child \<longrightarrow> validate_schema repr x child (path @ ''.'' @ k) = Inr ())"
  by (induction kvs) (auto simp: bindE_Inr_iff split: option.splits)

lemma describes_fields_names: "describes_fields kjs fs \<Longrightarrow> map fst kjs = map fst fs"
  by (induction kjs fs rule: describes_describes_fields.induct(2) [of "\<lambda>_ _. True"]) auto

lemma text_member: "JStr k \<in> JStr ` A \<longleftrightarrow> k \<in> A"
  by auto

text \<open>C34: The schema check does what the schemas say. On a schema that describes a shape, a value passes the check exactly
  when it has the shape: texts within their lengths, identifiers that are UUIDs, choices among the listed ones, lists
  within their sizes (and without repetition where the schema asks for it), objects with exactly the fields of the record.\<close>

theorem schema_check_exact:
  assumes "describes schema sh"
  shows "validate_schema repr v schema path = Inr () \<longleftrightarrow> inhabits repr sh v"
proof -
  have "describes schema sh \<Longrightarrow> validate_schema repr v schema path = Inr () \<longleftrightarrow> inhabits repr sh v"
    and "describes_fields properties fs \<Longrightarrow> distinct (map fst fs) \<Longrightarrow>
      (\<forall>(k, x) \<in> set kvs. \<forall>child. map_of properties k = Some child \<longrightarrow> validate_schema repr x child (path @ ''.'' @ k) = Inr ()) \<longleftrightarrow>
      inhabits_fields repr fs kvs" for properties fs kvs
  proof (induction schema sh and properties fs arbitrary: v path and kvs path rule: describes_describes_fields.induct)
    case (1 j lo hi)
    then show ?case by (auto simp: validate_schema.simps [of repr _ j] check_leaf_def check_text_def split: json.splits)
  next
    case (2 j)
    then show ?case by (auto simp: validate_schema.simps [of repr _ j] check_leaf_def check_text_def split: json.splits)
  next
    case (3 j cs)
    then show ?case
      by (auto simp: validate_schema.simps [of repr _ j] check_leaf_def check_text_def list_keyword_def split: json.splits)
  next
    case (4 j lo hi u sh)
    then have d: "describes (opt_or (JObj []) (keyword j ''items'')) sh" by simp
    show ?case
    proof (cases v)
      case (JList xs)
      with 4 show ?thesis
        by (auto simp: validate_schema.simps [of repr _ j] check_array_def bindE_Inr_iff validate_items_iff [OF "4.IH" [OF d]] split: if_splits sum.splits)
    qed (use 4 in \<open>auto simp: validate_schema.simps [of repr _ j]\<close>)
  next
    case (5 j fs)
    then have d: "describes_fields (pairs_keyword j ''properties'') fs" "distinct (map fst fs)" by simp_all
    show ?case
    proof (cases v)
      case (JObj kvs)
      have "list_all (\<lambda>r. r \<in> JStr ` set (map fst kvs)) (map (JStr \<circ> fst) fs) \<longleftrightarrow> set (map fst fs) \<subseteq> set (map fst kvs)"
        by (simp add: list_all_iff image_subset_iff text_member)
      then have "check_object kvs j path = Inr () \<longleftrightarrow> set (map fst kvs) = set (map fst fs)"
        using 5 describes_fields_names [OF d(1)] by (auto simp: check_object_def)
      with JObj 5 show ?thesis
        by (simp add: validate_schema.simps [of repr _ j] bindE_Inr_iff validate_fields_iff "5.IH" [OF d])
    qed (use 5 in \<open>auto simp: validate_schema.simps [of repr _ j]\<close>)
  next
    case (7 k j kjs l sh fs)
    then have d: "describes j sh" "l = k" "describes_fields kjs fs" "distinct (map fst fs)" "k \<notin> fst ` set fs" by auto
    have none: "map_of kjs k = None" using describes_fields_names [OF d(3)] d(5) by (metis list.set_map map_of_eq_None_iff)
    have parts: "(\<forall>(k', x) \<in> set kvs. \<forall>child. map_of ((k, j) # kjs) k' = Some child \<longrightarrow> validate_schema repr x child (path @ ''.'' @ k') = Inr ()) \<longleftrightarrow>
        (\<forall>(k', x) \<in> set kvs. k' = k \<longrightarrow> validate_schema repr x j (path @ ''.'' @ k) = Inr ()) \<and>
        (\<forall>(k', x) \<in> set kvs. \<forall>child. map_of kjs k' = Some child \<longrightarrow> validate_schema repr x child (path @ ''.'' @ k') = Inr ())"
    proof -
      have "(\<forall>child. map_of ((k, j) # kjs) k' = Some child \<longrightarrow> validate_schema repr x child (path @ ''.'' @ k') = Inr ()) \<longleftrightarrow>
          (k' = k \<longrightarrow> validate_schema repr x j (path @ ''.'' @ k) = Inr ()) \<and>
          (\<forall>child. map_of kjs k' = Some child \<longrightarrow> validate_schema repr x child (path @ ''.'' @ k') = Inr ())" for k' x
        using none by auto
      then show ?thesis by (simp only: case_prod_beta' ball_conj_distrib)
    qed
    have first: "(\<forall>(k', x) \<in> set kvs. k' = k \<longrightarrow> validate_schema repr x j (path @ ''.'' @ k) = Inr ()) \<longleftrightarrow>
        list_all (\<lambda>kx. fst kx = k \<longrightarrow> inhabits repr sh (snd kx)) kvs"
      by (auto simp: "7.IH"(1) [OF d(1)] list_all_iff)
    show ?case by (simp only: parts first "7.IH"(2) [OF d(3,4)] inhabits_fields.simps d(2))
  qed simp_all
  then show ?thesis using assms by blast
qed

definition claim_shape :: "nat \<Rightarrow> bool \<Rightarrow> shape" where
  "claim_shape hi u = Record_shape [(''text'', Text_shape 1 2000), (''fact_keys'', List_shape 1 hi u (Text_shape 1 255)),
     (''evidence_ids'', List_shape 1 hi u Uuid_shape)]"

definition onpage_shape :: shape where
  "onpage_shape = Record_shape
     [(''proposals'', List_shape 1 25 False (Record_shape
         [(''page_id'', Text_shape 1 20), (''proposed_title'', Text_shape 0 60), (''proposed_meta_description'', Text_shape 0 158),
          (''proposed_h1'', Text_shape 0 70), (''rationale'', Text_shape 1 400)])),
      (''claims'', List_shape 1 200 False (claim_shape 40 False))]"

definition outline_shape :: shape where
  "outline_shape = Record_shape
     [(''outlines'', List_shape 1 24 False (Record_shape
         [(''asset_id'', Text_shape 1 20), (''intent_summary'', Text_shape 1 600),
          (''sections'', List_shape 3 8 False (Record_shape [(''heading'', Text_shape 1 120), (''guidance'', Text_shape 1 800)]))])),
      (''claims'', List_shape 1 200 False (claim_shape 40 False))]"

definition strategy_shape :: shape where
  "strategy_shape = Record_shape
     [(''title'', Text_shape 1 200), (''executive_summary'', Text_shape 1 5000),
      (''recommendations'', List_shape 0 100 False (Record_shape
         [(''title'', Text_shape 1 300), (''rationale'', Text_shape 1 4000), (''implementation'', Text_shape 1 10000),
          (''evidence_ids'', List_shape 1 (10 ^ 9) True Uuid_shape), (''risk'', Choice_shape [''low'', ''moderate'', ''high'', ''dangerous''])])),
      (''claims'', List_shape 0 500 False (claim_shape (10 ^ 9) True)),
      (''unavailable_items'', List_shape 0 100 False (Record_shape [(''source'', Text_shape 1 100), (''reason'', Text_shape 1 500)]))]"

lemmas schema_defs = strict_object_def array_of_def size_limits_def text_between_def text_upto_def uuid_text_def claim_schema_def
  unique_references_def CLAIMS_SCHEMA_def TITLE_MAX_CHARS_def META_MAX_CHARS_def H1_MAX_CHARS_def expected_type_def keyword_def
  int_keyword_def list_keyword_def pairs_keyword_def claim_shape_def

lemma schemas_described:
  "describes ONPAGE_PROPOSAL_SCHEMA onpage_shape"
  "describes CONTENT_OUTLINE_SCHEMA outline_shape"
  "describes STRATEGY_SCHEMA strategy_shape"
  by (simp_all add: schema_defs ONPAGE_PROPOSAL_SCHEMA_def onpage_shape_def CONTENT_OUTLINE_SCHEMA_def outline_shape_def
      STRATEGY_SCHEMA_def strategy_shape_def)

subsection \<open>Examples\<close>

definition demo_fact :: verified_fact where
  "demo_fact = \<lparr>vf_key = ''page'', vf_value = JObj [(''title'', JStr ''Shop'')], vf_evidence_ids = [demo_uuid], vf_as_of = Aware 0\<rparr>"

definition demo_pack :: fact_pack where
  "demo_pack = \<lparr>fp_project = ''p'', fp_domains = [''example.com''], fp_facts = [demo_fact], fp_evidence = [demo_uuid],
     fp_statuses = [(''https://example.com/'', Some 200)], fp_unavailable = []\<rparr>"

definition demo_doc :: doc where
  "demo_doc = [(''body'', JStr ''See https://example.com/, please.''),
     (''claims'', JList [JObj [(''text'', JStr ''A shop''), (''fact_keys'', JList [JStr ''page'']), (''evidence_ids'', JList [JStr demo_uuid])]])]"

definition demo_repr :: "rat \<Rightarrow> string" where
  "demo_repr q = ''0.0''"

lemma half_exact: "fl (1 / 2) = 1 / 2"
  by code_simp

lemma threshold_range: "0 < SIMILARITY_THRESHOLD \<and> SIMILARITY_THRESHOLD \<le> 1"
proof -
  have "fl (1 / 2) \<le> fl (82 / 100)" "fl (82 / 100) \<le> fl 1" by (rule fl_mono, simp)+
  moreover have "fl 1 = 1" using fl_of_nat [of 1] by simp
  ultimately show ?thesis by (simp add: SIMILARITY_THRESHOLD_def half_exact)
qed

lemma demo_qa: "run_generation_qa demo_repr demo_doc demo_pack [(''old'', [(''body'', JStr ''Nothing alike'')])] = Inr []"
proof -
  have claims: "validate_claims demo_doc demo_pack = Inr []" by code_simp
  have links: "validate_domains_and_links demo_doc demo_pack = Inr []" by code_simp
  have rest: "validate_placeholders demo_doc = []" "validate_sensitive_schema_claims demo_doc demo_pack = []" by code_simp+
  obtain a b where ab: "document_text demo_repr demo_doc = Inr a" "document_text demo_repr [(''body'', JStr ''Nothing alike'')] = Inr b"
    and none: "ngrams b 5 = []" and some: "ngrams a 5 \<noteq> []"
  proof -
    have "case (document_text demo_repr demo_doc, document_text demo_repr [(''body'', JStr ''Nothing alike'')]) of
      (Inr a, Inr b) \<Rightarrow> ngrams b 5 = [] \<and> ngrams a 5 \<noteq> [] | _ \<Rightarrow> False" by code_simp
    then show thesis by (auto intro: that split: sum.splits)
  qed
  from some none have "similarity_score a b = 0" by (simp add: similarity_score_def fdiv_def)
  with ab threshold_range have "validate_similarity demo_repr SIMILARITY_THRESHOLD demo_doc [(''old'', [(''body'', JStr ''Nothing alike'')])] = Inr []"
    by (simp add: validate_similarity_def compare_to_def)
  with claims links rest show ?thesis by (simp add: run_generation_qa_def)
qed

theorem generation_qa_grounded_witness:
  "claims_grounded demo_doc demo_pack \<and> links_good demo_pack demo_doc \<and> delimited ''See '' ''https://example.com/,'' '' please.''"
proof -
  have "delimited ''See '' ''https://example.com/,'' '' please.''"
    unfolding delimited_def
    by (intro conjI exI [of _ "''https://''"] exI [of _ "''example.com/,''"]) (simp_all add: casefold_def to_lower_def upper_char_def url_char_def ws_char_def)
  then show ?thesis using generation_qa_grounded [OF demo_qa] by simp
qed

definition demo_answer :: json where
  "demo_answer = JObj
     [(''proposals'', JList [JObj [(''page_id'', JStr ''URL-0001''), (''proposed_title'', JStr ''A shop for chocolate''),
         (''proposed_meta_description'', JStr []), (''proposed_h1'', JStr []), (''rationale'', JStr ''Observed title'')]]),
      (''claims'', JList [JObj [(''text'', JStr ''A shop''), (''fact_keys'', JList [JStr ''page'']), (''evidence_ids'', JList [JStr demo_uuid])]])]"

theorem schema_check_exact_witness:
  "validate_schema demo_repr demo_answer ONPAGE_PROPOSAL_SCHEMA ''$'' = Inr () \<and> inhabits demo_repr onpage_shape demo_answer \<and>
     validate_schema demo_repr (JObj []) ONPAGE_PROPOSAL_SCHEMA ''$'' \<noteq> Inr ()"
proof -
  have "inhabits demo_repr onpage_shape demo_answer" "\<not> inhabits demo_repr onpage_shape (JObj [])" by code_simp+
  then show ?thesis
    using schema_check_exact [OF schemas_described(1), of demo_repr demo_answer "''$''"]
      schema_check_exact [OF schemas_described(1), of demo_repr "JObj []" "''$''"] by simp
qed

definition demo_provider :: "nat provider" where
  "demo_provider = \<lparr>pv_now = (\<lambda>w. (int w, w + 1)), pv_uuid = (\<lambda>w. (demo_uuid, w + 1)),
     pv_create = (\<lambda>r w. (Inr (JObj [(''output_text'', JStr ''answer''), (''model'', JStr ''m'')]), w + 1)),
     pv_clock = (\<lambda>w. (0, w)), pv_random = (\<lambda>w. (0, w)), pv_sleep = (\<lambda>q w. (Inr (), w)), pv_policy = default_policy,
     pv_sha = (\<lambda>s. ''h''), pv_repr = demo_repr, pv_loads = (\<lambda>t. Inr demo_answer), pv_sdk = True\<rparr>"

definition demo_boundary :: boundary where
  "demo_boundary = \<lparr>bd_key = Some ''key'', bd_client = False, bd_config = default_generation_config\<rparr>"

lemma demo_prepared: "\<exists>request. prepare_request demo_provider demo_boundary ''Propose'' demo_pack ''onpage'' ONPAGE_PROPOSAL_SCHEMA Final_purpose = Inr request \<and>
    (\<exists>t. canonical_json demo_repr request = Inr t)"
proof -
  have "case prepare_request demo_provider demo_boundary ''Propose'' demo_pack ''onpage'' ONPAGE_PROPOSAL_SCHEMA Final_purpose of
    Inr request \<Rightarrow> (case canonical_json demo_repr request of Inr t \<Rightarrow> True | Inl e \<Rightarrow> False) | Inl e \<Rightarrow> False" by code_simp
  then show ?thesis by (auto split: sum.splits)
qed

theorem evidence_is_one_line_witness:
  "\<exists>payload. pack_text demo_repr demo_pack = Inr payload \<and>
    split_on CHR 0x0A (user_text ''Propose'' payload) = [''TASK'', ''Propose'', ''SOURCE_DATA_BEGIN'', payload, ''SOURCE_DATA_END'']"
proof -
  obtain request where r: "prepare_request demo_provider demo_boundary ''Propose'' demo_pack ''onpage'' ONPAGE_PROPOSAL_SCHEMA Final_purpose = Inr request"
    using demo_prepared by blast
  have "strip ''Propose'' = ''Propose''" "split_on CHR 0x0A ''Propose'' = [''Propose'']" by code_simp+
  moreover have "pv_repr demo_provider = demo_repr" "\<And>q. printable (demo_repr q)" by (simp_all add: demo_provider_def demo_repr_def)
  ultimately show ?thesis using evidence_is_one_line [OF r] by auto
qed

lemma demo_call:
  "call (invoke demo_provider request) default_policy ''openai'' \<lparr>ex_breaker = demo_breaker Closed, ex_world = n\<rparr> =
     (Inr (outcome Status_available (Some (JObj [(''output_text'', JStr ''answer''), (''model'', JStr ''m'')])) [] 1 ''openai''),
      \<lparr>ex_breaker = demo_breaker Closed, ex_world = n + 1\<rparr>)"
proof -
  have "nat (max_attempts default_policy) = Suc 2" by (simp add: default_policy_def)
  then show ?thesis
    by (simp add: call_def permit_def invoke_def demo_provider_def demo_breaker_def allow_call_def in_world_def set_breaker_def record_success_def
        action_defs eval_nat_numeral)
qed


end
