(* ===== verification/Spec2Isabelle.thy ===== *)
theory Spec2Isabelle
  imports Prelude Py_Text Py_Float Py_Ip Py_Url Url_Facts Urls Models Scoring Graph
    Union_Find Rules Effects Html Responses Transport Robots_Txt Crawler Crawl
    Domain Permissions Workflow Py_Json Worker Resilience
    Audit_Rows Audit_Evidence Audit_Findings Audit_Task Lifecycle Audit_Outcome
    Py_Csv Py_Number Semrush_Reports Semrush_Facts Market_Data Market_Budget Market_Facts
    Py_Path Artifact_Store Package_Files Package_Manifest Package_Facts
    Py_Json_Text Py_Regex Generation_Contracts Generation_Quality Generation_Boundary Generation_Facts
begin

text \<open>
  A verification development for WEB-AUDIT, a Django service that crawls the website of a client, audits it by
  deterministic rules, lets people review and approve the result, buys market data, drafts text with a language model
  and delivers a package of files. The development models the core of that program, shallowly: every definition is
  the translation of Python code under \<open>src/\<close>, and the theories follow the modules.

  \<^bold>\<open>The parts and how they meet.\<close> A user creates an \<open>AuditRun\<close> and moves it from state to state
  (\<open>app/domain/workflow.py\<close>, guarded by \<open>permissions.py\<close>). The Celery task \<open>audit_engine/tasks.py\<close> claims a run,
  crawls (\<open>crawler.py\<close> over \<open>urls.py\<close>), stores evidence, evaluates the rules (\<open>rules.py\<close>, \<open>graph.py\<close>), scores
  (\<open>scoring.py\<close>), stores findings and hands the run to review; \<open>app/domain/tasks.py\<close> keeps its checkpoints.
  \<open>integrations/market_data.py\<close> buys SEMrush reports through \<open>semrush_reports.py\<close> and the executor of \<open>base.py\<close>.
  \<open>generation/\<close> calls the model with a fact pack and checks the answer. \<open>exporters/\<close> renders a package, whose
  manifest and archive are \<open>manifest.py\<close>, and \<open>app/domain/storage.py\<close> stores it.

  \<^bold>\<open>Language and library.\<close>
  \<^item> Prelude: results as sums (\<open>exn + 'a\<close>), the exceptions of the program as the datatype \<open>exn\<close>, dictionaries in
    insertion order; Effects: actions over a state with errors, their triples \<open>spec\<close> and invariants \<open>keeps\<close>.
  \<^item> Py_Text, Py_Regex, Py_Url, Py_Ip, Py_Path, Py_Json, Py_Json_Text, Py_Csv, Py_Number, Py_Float: what the code uses of \<open>str\<close>, \<open>re\<close>,
    \<open>urllib.parse\<close>, \<open>ipaddress\<close>, \<open>pathlib\<close>, \<open>json\<close>, \<open>csv\<close>, \<open>float()\<close> and \<open>int()\<close>, and binary64 arithmetic
    (\<open>fl\<close> rounds a rational to the nearest double, ties to even); Robots_Txt: \<open>urllib.robotparser\<close>.

  \<^bold>\<open>Components.\<close>
  \<^item> Urls, Url_Facts (\<open>audit_engine/urls.py\<close>): normal form of addresses, approved domains, the SSRF guard.
  \<^item> Models (\<open>audit_engine/models.py\<close>): the value objects, each with the checks of its \<open>__post_init__\<close>.
  \<^item> Scoring, Graph, Union_Find, Rules (\<open>scoring.py\<close>, \<open>graph.py\<close>, \<open>rules.py\<close>): scores, link graphs, all default rules.
  \<^item> Html, Responses, Transport, Crawler, Crawl (\<open>crawler.py\<close>): the document parser as a fold over the calls of
    \<open>html.parser\<close>, response classification, the bytes put on the wire, robots and redirects, and the crawl loop over
    an environment of transport, resolver, clock and sleep; \<open>turn\<close> is its abstract step relation.
  \<^item> Domain, Permissions, Workflow, Worker (\<open>app/domain/\<close>): rows, access rules, transitions and approvals, stages.
    \<open>db\<close> is the record of tables; a transaction is a function to an exception or a new database.
  \<^item> Resilience (\<open>integrations/base.py\<close>): retry policy, circuit breaker, executor.
  \<^item> Audit_Rows, Audit_Evidence, Audit_Findings, Audit_Task (\<open>audit_engine/tasks.py\<close>): the audit worker over its
    tables; other processes act between its statements (the argument \<open>others\<close>).
  \<^item> Lifecycle, Audit_Outcome: the step relation of a run under users, sweeps and workers, its invariants, and the
    refinement of the audit worker to it.
  \<^item> Semrush_Reports, Semrush_Facts, Market_Data, Market_Budget, Market_Facts: report requests and parsing, the plan,
    the unit budget, the rows stored.
  \<^item> Generation_Contracts, Generation_Boundary, Generation_Quality, Generation_Facts (\<open>generation/\<close>): fact packs and
    schemas, the call of the language model, the checks of its answer.
  \<^item> Artifact_Store (\<open>app/domain/storage.py\<close>): content-addressed artifacts over a storage backend.
  \<^item> Package_Files, Package_Manifest, Package_Facts (\<open>exporters/paths.py\<close>, \<open>manifest.py\<close>, end of
    \<open>run_package.py\<close>): package tree, manifest, checksums and archive over a file system with links.

  \<^bold>\<open>What the lemmas show.\<close> Safety of the network side: a crawl contacts public, approved addresses only and the
  request head cannot be split. Correctness of the analysis: graph reports, title clusters and published scores are
  exactly those of their specifications, findings cite crawled pages. The run: unique keys, no approval skipped,
  cancelled is final, failures are recorded, whatever the interleaving. Money: units charged stay within the budget.
  Generated text: an answer is used only when it fits its schema, and passes only when claims and links are grounded.
  Deliverables: what is saved opens again unchanged, nothing stored is overwritten, the archive holds exactly the tree.
  Negative results (a malformed link loses the page, a late worker overwrites a run, a crash forgets its units) are
  theorems as well.

  \<^bold>\<open>Parameters.\<close> Third-party and system code is an argument: DNS, sockets and TLS, clock, sleep and random source,
  SHA-256, \<open>html.parser\<close>, \<open>json.loads\<close>, \<open>bytes.decode\<close>, \<open>float.__repr__\<close>, \<open>uuid4\<close>, deflate, media types, the
  storage backend, the settings. Where a property needs their contract it is a named hypothesis and its witness
  instantiates it.

  \<^bold>\<open>Bounds.\<close> Loops are structural folds or carry a termination proof; the crawl loop is a partial function proved
  to return (\<open>crawl_terminates\<close>). Resolving links follows at most 40, the limit of the kernel. Text is ASCII.
  Numbers are finite doubles; where the code meets an infinity it is an exception or a value of its own. Integers of
  Python are unbounded, column lengths and numeric ranges of PostgreSQL are checked where rows are written.

  \<^bold>\<open>Not modelled.\<close> Non-ASCII text; the names of \<open>OSError\<close> subclasses; NUL characters and integer ranges of
  columns; SQL itself (querysets are lists, statements outside a transaction commit at once). The renderers, the
  queries of \<open>run_data.py\<close>, views, REST interface, settings, migrations, admin and scripts are left out: they lay out
  files by third-party libraries, read tables for display, or configure frameworks, and keep no state of their own
  beyond what the services above do.
\<close>

end
